(* ===== verification/Go_Prelude.thy ===== *)
theory Go_Prelude
  imports Main "HOL-Library.State_Monad" "HOL-Library.Sublist" "HOL-Library.AList"
begin

text \<open>
  What every component of the operator shares: Go error values, the state a handler runs in
  (the object it holds a pointer to, the calls it has made, the clock), the two primitives by
  which a handler leaves the process (a call to a server, a clock reading), a weakest
  precondition calculus over them.
\<close>

named_theorems wp_simps \<open>weakest preconditions of the handlers' building blocks\<close>
named_theorems emits_rules \<open>which calls a handler can make\<close>
named_theorems maintains_rules \<open>handlers that maintain an invariant\<close>
named_theorems keeps_rules \<open>what a handler leaves of its object\<close>

section \<open>Go errors\<close>

text \<open>
  An error value is a status error of the Kubernetes API (its machine readable reason and its
  text), a plain message, a message wrapped around an error (\<open>fmt.Errorf\<close> with \<open>%w\<close>,
  \<open>errs.Wrap\<close>) or the non-empty result of \<open>errors.Join\<close>.  The nil error is \<open>None\<close>.
\<close>

datatype err =
    StatusErr string string
  | Msg string
  | Wrapped string err
  | Joined "err list"

fun err_text :: "err \<Rightarrow> string"
  and err_texts :: "err list \<Rightarrow> string" where
  "err_text (StatusErr r m) = m"
| "err_text (Msg m) = m"
| "err_text (Wrapped m e) = m @ '': '' @ err_text e"
| "err_text (Joined es) = err_texts es"
| "err_texts [] = []"
| "err_texts (e # es) = err_text e @ (if es = [] then [] else CHR 0x0A # err_texts es)"

text \<open>
  \<open>errors.As\<close> of the Go standard library, for a status error target: the error itself, then
  what it wraps, then the joined errors in order, depth first.
\<close>

fun first_status :: "err \<Rightarrow> (string \<times> string) option"
  and first_status_list :: "err list \<Rightarrow> (string \<times> string) option" where
  "first_status (StatusErr r m) = Some (r, m)"
| "first_status (Msg m) = None"
| "first_status (Wrapped m e) = first_status e"
| "first_status (Joined es) = first_status_list es"
| "first_status_list [] = None"
| "first_status_list (e # es) =
     (case first_status e of Some x \<Rightarrow> Some x | None \<Rightarrow> first_status_list es)"

text \<open>\<open>errors.Join\<close> drops the nil errors and is nil when nothing is left.\<close>

definition errors_join :: "err option list \<Rightarrow> err option" where
  "errors_join es =
     (let xs = map the (filter (\<lambda>x. x \<noteq> None) es) in if xs = [] then None else Some (Joined xs))"

lemma errors_join_None [simp]: "errors_join es = None \<longleftrightarrow> (\<forall>e \<in> set es. e = None)"
  by (auto simp: errors_join_def Let_def filter_empty_conv)

lemma errors_join_Nil [simp]: "errors_join [] = None"
  by simp

section \<open>Lists\<close>

lemma sorted_distinct_adj: "sorted (xs :: 'a :: linorder list) \<Longrightarrow> distinct (remdups_adj xs)"
  by (induction xs rule: remdups_adj.induct) auto

section \<open>Strings\<close>

text \<open>\<open>strings.Join(ss, sep)\<close>.\<close>

fun join :: "string \<Rightarrow> string list \<Rightarrow> string" where
  "join sep [] = []"
| "join sep [s] = s"
| "join sep (s # ss) = s @ sep @ join sep ss"

text \<open>\<open>%v\<close> of a list of strings prints it in brackets, separated by spaces.\<close>

definition print_list :: "string list \<Rightarrow> string" where
  "print_list ss = ''['' @ join '' '' ss @ '']''"

section \<open>Handler state and primitives\<close>

text \<open>
  \<open>mem\<close> is the object the handler holds a pointer to and mutates, \<open>calls\<close> the calls made so
  far, oldest first, each with whether it succeeded, and \<open>tick\<close> counts calls and clock
  readings.  A server is a function of the whole history of calls, so it may answer in any way,
  fail at any point and change between two calls; the clock is a function of \<open>tick\<close>.
\<close>

record ('o, 'c) st =
  mem :: 'o
  calls :: "('c \<times> bool) list"
  tick :: nat

type_synonym 'c history = "('c \<times> bool) list"
type_synonym ('o, 'c, 'a) prog = "(('o, 'c) st, 'a) state"

abbreviation ret :: "'a \<Rightarrow> ('s, 'a) state" where
  "ret \<equiv> State_Monad.return"

definition log_call :: "'c \<Rightarrow> bool \<Rightarrow> ('o, 'c) st \<Rightarrow> ('o, 'c) st" where
  "log_call c ok s = s\<lparr>calls := calls s @ [(c, ok)], tick := Suc (tick s)\<rparr>"

definition call :: "('c history \<Rightarrow> err + 'r) \<Rightarrow> 'c \<Rightarrow> ('o, 'c, err + 'r) prog" where
  "call srv c = State (\<lambda>s. let r = srv (calls s) in (r, log_call c (\<not> isl r) s))"

definition call_err :: "('c history \<Rightarrow> err option) \<Rightarrow> 'c \<Rightarrow> ('o, 'c, err option) prog" where
  "call_err srv c = State (\<lambda>s. let r = srv (calls s) in (r, log_call c (r = None) s))"

text \<open>A call that returns a value beside its error, and a read of state outside the servers.\<close>

definition call_both :: "('c history \<Rightarrow> 'r \<times> err option) \<Rightarrow> 'c \<Rightarrow> ('o, 'c, 'r \<times> err option) prog" where
  "call_both srv c = State (\<lambda>s. let r = srv (calls s) in (r, log_call c (snd r = None) s))"

definition peek :: "('c history \<Rightarrow> 'r) \<Rightarrow> ('o, 'c, 'r) prog" where
  "peek f = State (\<lambda>s. (f (calls s), s))"

definition clock :: "(nat \<Rightarrow> int) \<Rightarrow> ('o, 'c, int) prog" where
  "clock now = State (\<lambda>s. (now (tick s), s\<lparr>tick := Suc (tick s)\<rparr>))"

text \<open>A value of a random source, which differs from draw to draw.\<close>

definition draw :: "(nat \<Rightarrow> 'r) \<Rightarrow> ('o, 'c, 'r) prog" where
  "draw f = State (\<lambda>s. (f (tick s), s\<lparr>tick := Suc (tick s)\<rparr>))"

definition get_mem :: "('o, 'c, 'o) prog" where
  "get_mem = State (\<lambda>s. (mem s, s))"

definition set_mem :: "'o \<Rightarrow> ('o, 'c, unit) prog" where
  "set_mem x = State (\<lambda>s. ((), s\<lparr>mem := x\<rparr>))"

text \<open>
  \<open>if err := m; err != nil { return f(err) }\<close> followed by \<open>k\<close>, and the same for a call that returns
  a value or an error, where the error is handled by \<open>f\<close>.
\<close>

definition unless_err :: "('s, err option) state \<Rightarrow> (err \<Rightarrow> 'a) \<Rightarrow> ('s, 'a) state \<Rightarrow> ('s, 'a) state" where
  "unless_err m f k = do { e \<leftarrow> m; (case e of Some e \<Rightarrow> ret (f e) | None \<Rightarrow> k) }"

definition with_value :: "('s, err + 'r) state \<Rightarrow> (err \<Rightarrow> ('s, 'a) state) \<Rightarrow> ('r \<Rightarrow> ('s, 'a) state) \<Rightarrow> ('s, 'a) state" where
  "with_value m f k = do { r \<leftarrow> m; (case r of Inl e \<Rightarrow> f e | Inr x \<Rightarrow> k x) }"

text \<open>The fresh state a handler starts in.\<close>

definition fresh :: "'o \<Rightarrow> ('o, 'c) st" where
  "fresh x = \<lparr>mem = x, calls = [], tick = 0\<rparr>"

lemma log_call_simps [simp]:
  "mem (log_call c ok s) = mem s"
  "calls (log_call c ok s) = calls s @ [(c, ok)]"
  "tick (log_call c ok s) = Suc (tick s)"
  by (simp_all add: log_call_def)

lemma fresh_simps [simp]:
  "mem (fresh x) = x" "calls (fresh x) = []" "tick (fresh x) = 0"
  by (simp_all add: fresh_def)

lemma run_call [simp]:
  "run_state (call srv c) s = (srv (calls s), log_call c (\<not> isl (srv (calls s))) s)"
  by (simp add: call_def Let_def)

lemma run_call_err [simp]:
  "run_state (call_err srv c) s = (srv (calls s), log_call c (srv (calls s) = None) s)"
  by (simp add: call_err_def Let_def)

lemma run_call_both [simp]:
  "run_state (call_both srv c) s = (srv (calls s), log_call c (snd (srv (calls s)) = None) s)"
  by (simp add: call_both_def Let_def)

lemma run_peek [simp]: "run_state (peek f) s = (f (calls s), s)"
  by (simp add: peek_def)

lemma run_clock [simp]:
  "run_state (clock now) s = (now (tick s), s\<lparr>tick := Suc (tick s)\<rparr>)"
  by (simp add: clock_def)

lemma run_draw [simp]: "run_state (draw f) s = (f (tick s), s\<lparr>tick := Suc (tick s)\<rparr>)"
  by (simp add: draw_def)

lemma run_get_mem [simp]: "run_state get_mem s = (mem s, s)"
  by (simp add: get_mem_def)

lemma run_set_mem [simp]: "run_state (set_mem x) s = ((), s\<lparr>mem := x\<rparr>)"
  by (simp add: set_mem_def)

section \<open>Weakest preconditions\<close>

definition wp :: "('s, 'a) state \<Rightarrow> ('a \<Rightarrow> 's \<Rightarrow> bool) \<Rightarrow> 's \<Rightarrow> bool" where
  "wp m Q s = (case run_state m s of (r, s') \<Rightarrow> Q r s')"

lemma wp_bind [wp_simps]: "wp (State_Monad.bind m f) Q s = wp m (\<lambda>x. wp (f x) Q) s"
  by (simp add: wp_def split: prod.splits)

lemma wp_return [wp_simps]: "wp (State_Monad.return x) Q s = Q x s"
  by (simp add: wp_def)

lemma wp_call [wp_simps]:
  "wp (call srv c) Q s = Q (srv (calls s)) (log_call c (\<not> isl (srv (calls s))) s)"
  by (simp add: wp_def)

lemma wp_call_err [wp_simps]:
  "wp (call_err srv c) Q s = Q (srv (calls s)) (log_call c (srv (calls s) = None) s)"
  by (simp add: wp_def)

lemma wp_call_both [wp_simps]:
  "wp (call_both srv c) Q s = Q (srv (calls s)) (log_call c (snd (srv (calls s)) = None) s)"
  by (simp add: wp_def)

lemma wp_peek [wp_simps]: "wp (peek f) Q s = Q (f (calls s)) s"
  by (simp add: wp_def)

lemma wp_clock [wp_simps]: "wp (clock now) Q s = Q (now (tick s)) (s\<lparr>tick := Suc (tick s)\<rparr>)"
  by (simp add: wp_def)

lemma wp_draw [wp_simps]: "wp (draw f) Q s = Q (f (tick s)) (s\<lparr>tick := Suc (tick s)\<rparr>)"
  by (simp add: wp_def)

lemma wp_get_mem [wp_simps]: "wp get_mem Q s = Q (mem s) s"
  by (simp add: wp_def)

lemma wp_set_mem [wp_simps]: "wp (set_mem x) Q s = Q () (s\<lparr>mem := x\<rparr>)"
  by (simp add: wp_def)

lemma wp_if [wp_simps]: "wp (if b then m else n) Q s = (if b then wp m Q s else wp n Q s)"
  by simp

lemma wp_case_option [wp_simps]:
  "wp (case x of None \<Rightarrow> m | Some a \<Rightarrow> f a) Q s = (case x of None \<Rightarrow> wp m Q s | Some a \<Rightarrow> wp (f a) Q s)"
  by (cases x) simp_all

lemma wp_case_sum [wp_simps]:
  "wp (case x of Inl a \<Rightarrow> f a | Inr b \<Rightarrow> g b) Q s = (case x of Inl a \<Rightarrow> wp (f a) Q s | Inr b \<Rightarrow> wp (g b) Q s)"
  by (cases x) simp_all

lemma wp_case_prod [wp_simps]: "wp (case x of (a, b) \<Rightarrow> f a b) Q s = (case x of (a, b) \<Rightarrow> wp (f a b) Q s)"
  by (cases x) simp

lemma wp_unless_err [wp_simps]:
  "wp (unless_err m f k) Q s = wp m (\<lambda>e s'. case e of Some e \<Rightarrow> Q (f e) s' | None \<Rightarrow> wp k Q s') s"
  unfolding unless_err_def wp_bind
  by (rule arg_cong [where f = "\<lambda>P. wp m P s"]) (auto simp: fun_eq_iff wp_return split: option.splits)

lemma wp_with_value [wp_simps]:
  "wp (with_value m f k) Q s = wp m (\<lambda>r s'. case r of Inl e \<Rightarrow> wp (f e) Q s' | Inr x \<Rightarrow> wp (k x) Q s') s"
  unfolding with_value_def wp_bind
  by (rule arg_cong [where f = "\<lambda>P. wp m P s"]) (auto simp: fun_eq_iff split: sum.splits)

lemma wp_mono: "wp m P s \<Longrightarrow> (\<And>r s'. P r s' \<Longrightarrow> Q r s') \<Longrightarrow> wp m Q s"
  by (auto simp: wp_def split: prod.splits)

lemma wp_any: "(\<And>r s'. Q r s') \<Longrightarrow> wp m Q s"
  by (simp add: wp_def split: prod.splits)

lemma wp_conj: "wp m P s \<Longrightarrow> wp m Q s \<Longrightarrow> wp m (\<lambda>r s'. P r s' \<and> Q r s') s"
  by (simp add: wp_def split: prod.splits)

lemma wp_ball: "(\<And>x. x \<in> A \<Longrightarrow> wp m (Q x) s) \<Longrightarrow> wp m (\<lambda>r s'. \<forall>x \<in> A. Q x r s') s"
  by (cases "run_state m s") (simp add: wp_def)

lemma wpD: "wp m Q s \<Longrightarrow> run_state m s = (r, s') \<Longrightarrow> Q r s'"
  by (simp add: wp_def)

lemma wpI: "(\<And>r s'. run_state m s = (r, s') \<Longrightarrow> Q r s') \<Longrightarrow> wp m Q s"
  by (cases "run_state m s") (simp add: wp_def)

section \<open>Which calls a handler makes\<close>

text \<open>
  \<open>emits P m\<close>: whatever the servers answer, \<open>m\<close> only appends calls to the history, and each
  of them (with its success flag) satisfies \<open>P\<close>.
\<close>

definition emits :: "('c \<times> bool \<Rightarrow> bool) \<Rightarrow> ('o, 'c, 'a) prog \<Rightarrow> bool" where
  "emits P m \<longleftrightarrow> (\<forall>s. \<exists>t. calls (snd (run_state m s)) = calls s @ t \<and> list_all P t)"

lemma emitsI: "(\<And>s. \<exists>t. calls (snd (run_state m s)) = calls s @ t \<and> list_all P t) \<Longrightarrow> emits P m"
  by (simp add: emits_def)

lemma emitsD:
  assumes "emits P m" and "run_state m s = (r, s')"
  obtains t where "calls s' = calls s @ t" and "list_all P t"
  using assms by (auto simp: emits_def dest: spec [of _ s])

lemma emits_wp: "emits P m \<Longrightarrow> wp m (\<lambda>r s'. \<exists>t. calls s' = calls s @ t \<and> list_all P t) s"
  by (rule wpI) (auto elim: emitsD)

lemma emits_mono: "emits P m \<Longrightarrow> (\<And>x. P x \<Longrightarrow> Q x) \<Longrightarrow> emits Q m"
  unfolding emits_def by (metis list.pred_mono_strong)

lemma emits_return [emits_rules]: "emits P (State_Monad.return x)"
  by (simp add: emits_def)

lemma emits_get_mem [emits_rules]: "emits P get_mem"
  by (simp add: emits_def)

lemma emits_set_mem [emits_rules]: "emits P (set_mem x)"
  by (simp add: emits_def)

lemma emits_clock [emits_rules]: "emits P (clock now)"
  by (simp add: emits_def)

lemma emits_draw [emits_rules]: "emits P (draw f)"
  by (simp add: emits_def)

lemma emits_call [emits_rules]: "(\<And>b. P (c, b)) \<Longrightarrow> emits P (call srv c)"
  by (simp add: emits_def)

lemma emits_call_err [emits_rules]: "(\<And>b. P (c, b)) \<Longrightarrow> emits P (call_err srv c)"
  by (simp add: emits_def)

lemma emits_call_both [emits_rules]: "(\<And>b. P (c, b)) \<Longrightarrow> emits P (call_both srv c)"
  by (simp add: emits_def)

lemma emits_peek [emits_rules]: "emits P (peek f)"
  by (simp add: emits_def)

lemma emits_bind [emits_rules]:
  assumes "emits P m" and "\<And>x. emits P (f x)"
  shows "emits P (State_Monad.bind m f)"
proof (rule emitsI)
  fix s
  obtain a s1 where m: "run_state m s = (a, s1)" by (cases "run_state m s")
  obtain b s2 where f: "run_state (f a) s1 = (b, s2)" by (cases "run_state (f a) s1")
  from assms(1) m obtain t1 where "calls s1 = calls s @ t1" "list_all P t1" by (rule emitsD)
  moreover from assms(2) f obtain t2 where "calls s2 = calls s1 @ t2" "list_all P t2" by (rule emitsD)
  ultimately show "\<exists>t. calls (snd (run_state (State_Monad.bind m f) s)) = calls s @ t \<and> list_all P t"
    using m f by auto
qed

lemma emits_if [emits_rules]: "(b \<Longrightarrow> emits P m) \<Longrightarrow> (\<not> b \<Longrightarrow> emits P n) \<Longrightarrow> emits P (if b then m else n)"
  by simp

lemma emits_case_option [emits_rules]:
  "(x = None \<Longrightarrow> emits P m) \<Longrightarrow> (\<And>a. x = Some a \<Longrightarrow> emits P (f a)) \<Longrightarrow>
   emits P (case x of None \<Rightarrow> m | Some a \<Rightarrow> f a)"
  by (cases x) simp_all

lemma emits_case_sum [emits_rules]:
  "(\<And>a. x = Inl a \<Longrightarrow> emits P (f a)) \<Longrightarrow> (\<And>b. x = Inr b \<Longrightarrow> emits P (g b)) \<Longrightarrow>
   emits P (case x of Inl a \<Rightarrow> f a | Inr b \<Rightarrow> g b)"
  by (cases x) simp_all

lemma emits_case_prod [emits_rules]:
  "(\<And>a b. x = (a, b) \<Longrightarrow> emits P (f a b)) \<Longrightarrow> emits P (case x of (a, b) \<Rightarrow> f a b)"
  by (cases x) simp

lemma emits_unless_err [emits_rules]:
  "emits P m \<Longrightarrow> emits P k \<Longrightarrow> emits P (unless_err m f k)"
  unfolding unless_err_def by (intro emits_bind emits_case_option emits_return)

lemma emits_with_value [emits_rules]:
  "emits P m \<Longrightarrow> (\<And>e. emits P (f e)) \<Longrightarrow> (\<And>x. emits P (k x)) \<Longrightarrow> emits P (with_value m f k)"
  unfolding with_value_def by (intro emits_bind emits_case_sum)

lemma emits_Let [emits_rules]: "emits P (f x) \<Longrightarrow> emits P (let y = x in f y)"
  by simp

section \<open>What a handler leaves of its object\<close>

text \<open>\<open>keeps f m\<close>: \<open>m\<close> never changes the part \<open>f\<close> of the object it holds.\<close>

definition keeps :: "('o \<Rightarrow> 'b) \<Rightarrow> ('o, 'c, 'a) prog \<Rightarrow> bool" where
  "keeps f m \<longleftrightarrow> (\<forall>s. f (mem (snd (run_state m s))) = f (mem s))"

lemma keepsD: "keeps f m \<Longrightarrow> run_state m s = (r, s') \<Longrightarrow> f (mem s') = f (mem s)"
  by (metis keeps_def snd_conv)

lemma keeps_wp: "keeps f m \<Longrightarrow> wp m (\<lambda>r s'. f (mem s') = f (mem s)) s"
  by (rule wpI) (rule keepsD)

lemma wp_keeps: "(\<And>s. wp m (\<lambda>r s'. f (mem s') = f (mem s)) s) \<Longrightarrow> keeps f m"
  by (simp add: keeps_def wp_def split_beta)

lemma keeps_return [keeps_rules]: "keeps f (State_Monad.return x)"
  by (simp add: keeps_def)

lemma keeps_get_mem [keeps_rules]: "keeps f get_mem"
  by (simp add: keeps_def)

lemma keeps_clock [keeps_rules]: "keeps f (clock now)"
  by (simp add: keeps_def)

lemma keeps_draw [keeps_rules]: "keeps f (draw g)"
  by (simp add: keeps_def)

lemma keeps_call [keeps_rules]: "keeps f (call srv c)"
  by (simp add: keeps_def)

lemma keeps_call_err [keeps_rules]: "keeps f (call_err srv c)"
  by (simp add: keeps_def)

lemma keeps_call_both [keeps_rules]: "keeps f (call_both srv c)"
  by (simp add: keeps_def)

lemma keeps_peek [keeps_rules]: "keeps f (peek g)"
  by (simp add: keeps_def)

lemma keeps_bind [keeps_rules]:
  assumes "keeps f m" and "\<And>x. keeps f (g x)"
  shows "keeps f (State_Monad.bind m g)"
  unfolding keeps_def
proof
  fix s
  obtain a s1 where m: "run_state m s = (a, s1)" by (cases "run_state m s")
  obtain b s2 where g: "run_state (g a) s1 = (b, s2)" by (cases "run_state (g a) s1")
  have "f (mem s1) = f (mem s)" using assms(1) m by (rule keepsD)
  moreover have "f (mem s2) = f (mem s1)" using assms(2) g by (rule keepsD)
  ultimately show "f (mem (snd (run_state (State_Monad.bind m g) s))) = f (mem s)"
    using m g by simp
qed

lemma keeps_if [keeps_rules]: "(b \<Longrightarrow> keeps f m) \<Longrightarrow> (\<not> b \<Longrightarrow> keeps f n) \<Longrightarrow> keeps f (if b then m else n)"
  by simp

lemma keeps_case_option [keeps_rules]:
  "(x = None \<Longrightarrow> keeps f m) \<Longrightarrow> (\<And>a. x = Some a \<Longrightarrow> keeps f (g a)) \<Longrightarrow>
   keeps f (case x of None \<Rightarrow> m | Some a \<Rightarrow> g a)"
  by (cases x) simp_all

lemma keeps_case_sum [keeps_rules]:
  "(\<And>a. x = Inl a \<Longrightarrow> keeps f (g a)) \<Longrightarrow> (\<And>b. x = Inr b \<Longrightarrow> keeps f (h b)) \<Longrightarrow>
   keeps f (case x of Inl a \<Rightarrow> g a | Inr b \<Rightarrow> h b)"
  by (cases x) simp_all

lemma keeps_case_prod [keeps_rules]:
  "(\<And>a b. x = (a, b) \<Longrightarrow> keeps f (g a b)) \<Longrightarrow> keeps f (case x of (a, b) \<Rightarrow> g a b)"
  by (cases x) simp

lemma keeps_unless_err [keeps_rules]:
  "keeps f m \<Longrightarrow> keeps f k \<Longrightarrow> keeps f (unless_err m g k)"
  unfolding unless_err_def by (intro keeps_bind keeps_case_option keeps_return)

lemma keeps_with_value [keeps_rules]:
  "keeps f m \<Longrightarrow> (\<And>e. keeps f (g e)) \<Longrightarrow> (\<And>x. keeps f (k x)) \<Longrightarrow> keeps f (with_value m g k)"
  unfolding with_value_def by (intro keeps_bind keeps_case_sum)

lemma keeps_Let [keeps_rules]: "keeps f (g x) \<Longrightarrow> keeps f (let y = x in g y)"
  by simp

section \<open>Calls a handler certainly makes\<close>

abbreviation grows :: "('o, 'c, 'a) prog \<Rightarrow> bool" where
  "grows m \<equiv> emits (\<lambda>_. True) m"

lemma grows_mem: "grows m \<Longrightarrow> run_state m s = (r, s') \<Longrightarrow> x \<in> set (calls s) \<Longrightarrow> x \<in> set (calls s')"
  by (erule (1) emitsD) simp

definition called :: "'c \<Rightarrow> ('o, 'c) st \<Rightarrow> bool" where
  "called c s \<longleftrightarrow> (\<exists>ok. (c, ok) \<in> set (calls s))"

lemma called_log_call [simp]: "called c (log_call d ok s) \<longleftrightarrow> c = d \<or> called c s"
  by (auto simp: called_def)

lemma called_tick [simp]: "called c (s\<lparr>tick := n\<rparr>) = called c s"
  by (simp add: called_def)

lemma called_mem [simp]: "called c (s\<lparr>mem := x\<rparr>) = called c s"
  by (simp add: called_def)

lemma called_grows: "grows m \<Longrightarrow> called c s \<Longrightarrow> wp m (\<lambda>r s'. called c s') s"
  by (rule wpI) (auto simp: called_def dest: grows_mem)

lemma called_grows_mono:
  "grows m \<Longrightarrow> called c s \<Longrightarrow> (\<And>r s'. called c s' \<Longrightarrow> Q r s') \<Longrightarrow> wp m Q s"
  by (erule (1) wp_mono [OF called_grows]) simp

lemma called_bind:
  "wp m (\<lambda>r s'. called c s') s \<Longrightarrow> (\<And>x. grows (f x)) \<Longrightarrow> wp (State_Monad.bind m f) (\<lambda>r s'. called c s') s"
  by (auto simp: wp_bind elim!: wp_mono intro: called_grows)

section \<open>Invariants of a handler\<close>

text \<open>\<open>maintains J R m\<close>: from a state with \<open>J\<close>, \<open>m\<close> ends in one, with a result that satisfies \<open>R\<close>.\<close>

definition maintains :: "(('o, 'c) st \<Rightarrow> bool) \<Rightarrow> ('a \<Rightarrow> bool) \<Rightarrow> ('o, 'c, 'a) prog \<Rightarrow> bool" where
  "maintains J R m \<longleftrightarrow> (\<forall>s. J s \<longrightarrow> wp m (\<lambda>r s'. J s' \<and> R r) s)"

abbreviation any_result :: "'a \<Rightarrow> bool" where
  "any_result r \<equiv> True"

lemma maintains_weaken: "maintains J R m \<Longrightarrow> (\<And>r. R r \<Longrightarrow> Q r) \<Longrightarrow> maintains J Q m"
  unfolding maintains_def by (blast intro: wp_mono)

lemma maintains_bind:
  "maintains J Q m \<Longrightarrow> (\<And>x. Q x \<Longrightarrow> maintains J R (f x)) \<Longrightarrow> maintains J R (State_Monad.bind m f)"
  unfolding maintains_def wp_bind by (blast intro: wp_mono)

lemma then_maintains: "maintains J any_result m \<Longrightarrow> (\<And>x. maintains J R (f x)) \<Longrightarrow> maintains J R (State_Monad.bind m f)"
  by (rule maintains_bind)

lemma maintains_return [maintains_rules]: "R x \<Longrightarrow> maintains J R (State_Monad.return x)"
  by (simp add: maintains_def wp_simps)

lemma maintains_get_mem [maintains_rules]:
  "(\<And>s. J s \<Longrightarrow> maintains J R (f (mem s))) \<Longrightarrow> maintains J R (State_Monad.bind get_mem f)"
  by (simp add: maintains_def wp_simps)

lemma maintains_call [maintains_rules]:
  "(\<And>s ok. J s \<Longrightarrow> J (log_call c ok s)) \<Longrightarrow> (\<And>s. J s \<Longrightarrow> maintains J R (f (srv (calls s)))) \<Longrightarrow>
   maintains J R (State_Monad.bind (call srv c) f)"
  by (simp add: maintains_def wp_simps)

lemma maintains_call_err [maintains_rules]:
  "(\<And>s ok. J s \<Longrightarrow> J (log_call c ok s)) \<Longrightarrow> (\<And>s. J s \<Longrightarrow> maintains J R (f (srv (calls s)))) \<Longrightarrow>
   maintains J R (State_Monad.bind (call_err srv c) f)"
  by (simp add: maintains_def wp_simps)

lemma maintains_just_call [maintains_rules]:
  "(\<And>s ok. J s \<Longrightarrow> J (log_call c ok s)) \<Longrightarrow> maintains J any_result (call srv c)"
  "(\<And>s ok. J s \<Longrightarrow> J (log_call c ok s)) \<Longrightarrow> maintains J any_result (call_err srv' c)"
  by (simp_all add: maintains_def wp_simps)

lemma maintains_just_set_mem [maintains_rules]:
  "(\<And>s. J s \<Longrightarrow> J (s\<lparr>mem := x\<rparr>)) \<Longrightarrow> maintains J any_result (set_mem x)"
  by (simp add: maintains_def wp_simps)

lemma maintains_set_mem [maintains_rules]:
  "(\<And>s. J s \<Longrightarrow> J (s\<lparr>mem := x\<rparr>)) \<Longrightarrow> maintains J R (f ()) \<Longrightarrow> maintains J R (State_Monad.bind (set_mem x) f)"
  by (simp add: maintains_def wp_simps)

lemma maintains_clock [maintains_rules]:
  "(\<And>s. J s \<Longrightarrow> J (s\<lparr>tick := Suc (tick s)\<rparr>)) \<Longrightarrow> (\<And>t. maintains J R (f (reading t))) \<Longrightarrow>
   maintains J R (State_Monad.bind (clock reading) f)"
  by (simp add: maintains_def wp_simps)

lemma maintains_if [maintains_rules]:
  "(b \<Longrightarrow> maintains J R m) \<Longrightarrow> (\<not> b \<Longrightarrow> maintains J R n) \<Longrightarrow> maintains J R (if b then m else n)"
  by simp

lemma maintains_case_option [maintains_rules]:
  "(x = None \<Longrightarrow> maintains J R m) \<Longrightarrow> (\<And>a. x = Some a \<Longrightarrow> maintains J R (f a)) \<Longrightarrow>
   maintains J R (case x of None \<Rightarrow> m | Some a \<Rightarrow> f a)"
  by (cases x) simp_all

lemma maintains_case_sum [maintains_rules]:
  "(\<And>a. x = Inl a \<Longrightarrow> maintains J R (f a)) \<Longrightarrow> (\<And>b. x = Inr b \<Longrightarrow> maintains J R (g b)) \<Longrightarrow>
   maintains J R (case x of Inl a \<Rightarrow> f a | Inr b \<Rightarrow> g b)"
  by (cases x) simp_all

lemma maintains_case_prod [maintains_rules]:
  "(\<And>a b. x = (a, b) \<Longrightarrow> maintains J R (f a b)) \<Longrightarrow> maintains J R (case x of (a, b) \<Rightarrow> f a b)"
  by (cases x) simp

lemma maintains_Let [maintains_rules]: "maintains J R (f x) \<Longrightarrow> maintains J R (let y = x in f y)"
  by simp

lemma maintains_unless_err [maintains_rules]:
  "maintains J any_result m \<Longrightarrow> (\<And>e. R (f e)) \<Longrightarrow> maintains J R k \<Longrightarrow> maintains J R (unless_err m f k)"
  unfolding unless_err_def by (auto intro!: then_maintains maintains_rules)

lemma maintains_with_value [maintains_rules]:
  "maintains J any_result m \<Longrightarrow> (\<And>e. maintains J R (f e)) \<Longrightarrow> (\<And>x. maintains J R (k x)) \<Longrightarrow> maintains J R (with_value m f k)"
  unfolding with_value_def by (auto intro!: then_maintains maintains_rules)

lemma maintains_emits_keeps:
  assumes "emits P m" and "keeps f m"
  shows "maintains (\<lambda>s. f (mem s) = k \<and> (\<exists>t. calls s = h @ t \<and> list_all P t)) any_result m"
  unfolding maintains_def
proof (intro allI impI wpI)
  fix s r s'
  assume J: "f (mem s) = k \<and> (\<exists>t. calls s = h @ t \<and> list_all P t)" and run: "run_state m s = (r, s')"
  from assms(1) run obtain t where "calls s' = calls s @ t" "list_all P t" by (rule emitsD)
  with J keepsD [OF assms(2) run] show "(f (mem s') = k \<and> (\<exists>t. calls s' = h @ t \<and> list_all P t)) \<and> any_result r"
    by auto
qed

end
