(* ===== verification/Go_Arith.thy ===== *)
theory Go_Arith
  imports Main "HOL-Library.Signed_Division"
begin

text \<open>
  The machine arithmetic the handlers rely on: wrap-around of \<open>int32\<close> and \<open>int64\<close>, saturating
  differences of times, and the IEEE product of an integer and a float constant, converted back
  to an integer.  The lemmas give the ranges in which the rounded products are exact.
\<close>

section \<open>Machine arithmetic\<close>

text \<open>Two's complement wrap-around of \<open>int32\<close> and \<open>int64\<close>.\<close>

definition wrap32 :: "int \<Rightarrow> int" where
  "wrap32 x = (x + 2 ^ 31) mod 2 ^ 32 - 2 ^ 31"

definition wrap64 :: "int \<Rightarrow> int" where
  "wrap64 x = (x + 2 ^ 63) mod 2 ^ 64 - 2 ^ 63"

lemma wrap32_id: "- (2 ^ 31) \<le> x \<Longrightarrow> x < 2 ^ 31 \<Longrightarrow> wrap32 x = x"
  by (simp add: wrap32_def)

lemma wrap64_id: "- (2 ^ 63) \<le> x \<Longrightarrow> x < 2 ^ 63 \<Longrightarrow> wrap64 x = x"
  by (simp add: wrap64_def)

lemma wrap32_range: "- (2 ^ 31) \<le> wrap32 x" "wrap32 x < 2 ^ 31"
  by (simp_all add: wrap32_def)

text \<open>\<open>time.Time.Sub\<close> saturates at the bounds of \<open>int64\<close>.\<close>

definition sat64 :: "int \<Rightarrow> int" where
  "sat64 x = max (- (2 ^ 63)) (min (2 ^ 63 - 1) x)"

text \<open>\<open>time.Second\<close> in nanoseconds.\<close>

abbreviation (input) second :: int where "second \<equiv> 1000000000"

definition seconds :: "int \<Rightarrow> int" where
  "seconds t = wrap64 (t * second)"

lemma seconds_int32: "- (2 ^ 31) \<le> t \<Longrightarrow> t < 2 ^ 31 \<Longrightarrow> seconds t = t * second"
  by (simp add: seconds_def wrap64_id)

text \<open>
  IEEE 754 rounding to \<open>p\<close> significant bits, to nearest with ties to even, of a non-negative
  integer (a significand scaled by a fixed power of two).
\<close>

fun bit_length :: "nat \<Rightarrow> nat" where
  "bit_length n = (if n = 0 then 0 else Suc (bit_length (n div 2)))"

declare bit_length.simps [simp del]

definition round_even :: "nat \<Rightarrow> nat \<Rightarrow> nat" where
  "round_even k n =
     (let q = n div 2 ^ k; r = n mod 2 ^ k
      in if 2 * r < 2 ^ k \<or> 2 * r = 2 ^ k \<and> even q then q else Suc q)"

definition round_sig :: "nat \<Rightarrow> nat \<Rightarrow> nat" where
  "round_sig p n = (let k = bit_length n - p in if k = 0 then n else round_even k n * 2 ^ k)"

text \<open>
  \<open>scale p t c k\<close> is the conversion to an integer of the product of \<open>t\<close>, converted to a float
  with \<open>p\<close> significant bits, and the float constant \<open>c / 2 ^ k\<close>.
\<close>

definition scale :: "nat \<Rightarrow> int \<Rightarrow> nat \<Rightarrow> nat \<Rightarrow> int" where
  "scale p t c k = sgn t * int (round_sig p (round_sig p (nat \<bar>t\<bar>) * c) div 2 ^ k)"

lemma bit_length_le: "n < 2 ^ m \<Longrightarrow> bit_length n \<le> m"
proof (induction n arbitrary: m rule: bit_length.induct)
  case (1 n)
  show ?case
  proof (cases "n = 0")
    case True
    then show ?thesis by (simp add: bit_length.simps)
  next
    case False
    with "1.prems" obtain m' where m: "m = Suc m'" by (cases m) auto
    with "1.prems" have "n div 2 < 2 ^ m'" by auto
    with "1.IH" False have "bit_length (n div 2) \<le> m'" by blast
    with False m show ?thesis by (simp add: bit_length.simps [of n])
  qed
qed

lemma bit_length_ge: "0 < n \<Longrightarrow> 2 ^ bit_length n \<le> 2 * n"
proof (induction n rule: bit_length.induct)
  case (1 n)
  then show ?case
    by (cases "n = 1") (auto simp: bit_length.simps [of n] bit_length.simps [of "Suc 0"] bit_length.simps [of 0])
qed

lemma round_even_bounds:
  "n div 2 ^ k \<le> round_even k n" "2 * (round_even k n * 2 ^ k) \<le> 2 * n + 2 ^ k"
proof -
  obtain a b where a: "a = n div 2 ^ k" and b: "b = n mod 2 ^ k" by blast
  have n: "n = a * 2 ^ k + b" unfolding a b by (rule div_mult_mod_eq [symmetric])
  have r: "round_even k n = (if 2 * b < 2 ^ k \<or> 2 * b = 2 ^ k \<and> even a then a else Suc a)"
    by (simp add: round_even_def Let_def a b)
  show "n div 2 ^ k \<le> round_even k n" by (simp add: r flip: a)
  show "2 * (round_even k n * 2 ^ k) \<le> 2 * n + 2 ^ k"
    unfolding r by (subst n) (auto simp: not_less)
qed

text \<open>Rounding never passes below a multiple of the last kept bit, and its relative error is
  at most one in \<open>2 ^ p\<close>.\<close>

lemma round_sig_exact: "n < 2 ^ p \<Longrightarrow> round_sig p n = n"
  by (simp add: round_sig_def Let_def bit_length_le)

lemma round_sig_lower:
  assumes "m * 2 ^ j \<le> n" and "n < 2 ^ (p + j)"
  shows "m * 2 ^ j \<le> round_sig p n"
proof -
  let ?k = "bit_length n - p"
  have k: "?k \<le> j" using bit_length_le [OF assms(2)] by simp
  then have "2 ^ j = (2::nat) ^ (j - ?k) * 2 ^ ?k" by (simp flip: power_add)
  then have m: "m * 2 ^ j = m * 2 ^ (j - ?k) * 2 ^ ?k" by (simp only: mult.assoc)
  moreover from m assms(1) have "m * 2 ^ (j - ?k) * 2 ^ ?k \<le> n" by (simp only:)
  then have "m * 2 ^ (j - ?k) \<le> n div 2 ^ ?k"
    by (simp add: less_eq_div_iff_mult_less_eq)
  ultimately have "m * 2 ^ j \<le> round_even ?k n * 2 ^ ?k"
    using round_even_bounds(1) [of n ?k] by (metis le_trans mult_le_mono1)
  with assms(1) show ?thesis by (auto simp: round_sig_def Let_def)
qed

lemma round_sig_upper:
  assumes "n < 2 ^ (p + j)" and "0 < j"
  shows "2 * round_sig p n \<le> 2 * n + 2 ^ j"
proof -
  let ?k = "bit_length n - p"
  have "?k \<le> j" using bit_length_le [OF assms(1)] by simp
  then have "(2::nat) ^ ?k \<le> 2 ^ j" by simp
  moreover have "2 * (round_even ?k n * 2 ^ ?k) \<le> 2 * n + 2 ^ ?k" by (rule round_even_bounds)
  ultimately have "2 * (round_even ?k n * 2 ^ ?k) \<le> 2 * n + 2 ^ j" by linarith
  then show ?thesis by (auto simp: round_sig_def Let_def)
qed

lemma scale_eq:
  assumes "t < 2 ^ p" "t * c < 2 ^ (p + j)" "0 < j" "j \<le> k"
    and "q * 2 ^ k \<le> t * c" and "2 * (t * c) + 2 ^ j < 2 * (Suc q * 2 ^ k)"
  shows "scale p (int t) c k = int q"
proof -
  have "(2::nat) ^ k = 2 ^ (k - j) * 2 ^ j" using assms(4) by (simp flip: power_add)
  then have q: "q * 2 ^ k = q * 2 ^ (k - j) * 2 ^ j" by (simp only: mult.assoc)
  have lo: "q * 2 ^ k \<le> round_sig p (t * c)"
    unfolding q by (rule round_sig_lower) (use assms(2,5) q in simp_all)
  have "2 * round_sig p (t * c) \<le> 2 * (t * c) + 2 ^ j" by (rule round_sig_upper) (use assms in auto)
  with assms(6) have "round_sig p (t * c) < Suc q * 2 ^ k" by linarith
  with lo have "round_sig p (t * c) div 2 ^ k = q"
    by (intro div_nat_eqI) (simp_all add: algebra_simps)
  moreover have "t = 0 \<Longrightarrow> q = 0" using assms(5) by simp
  ultimately show ?thesis
    using assms(1) by (cases "t = 0") (auto simp: scale_def round_sig_exact)
qed

lemma scale_105:
  assumes "0 \<le> t" "t < 2 ^ 31"
  shows "scale 53 t 4728779608739021 52 = t + t div 20"
proof -
  obtain n where n: "t = int n" using assms(1) nonneg_int_cases by blast
  with assms(2) have "n < 2 ^ 31" by simp
  then have "scale 53 (int n) 4728779608739021 52 = int (21 * n div 20)"
    by (intro scale_eq [where j = 32]) auto
  moreover have "21 * n div 20 = n + n div 20" by simp
  ultimately show ?thesis using n by (simp add: zdiv_int)
qed

lemma scale_110:
  assumes "0 \<le> t" "t < 2 ^ 31"
  shows "scale 53 t 4953959590107546 52 = t + t div 10"
proof -
  obtain n where n: "t = int n" using assms(1) nonneg_int_cases by blast
  with assms(2) have "n < 2 ^ 31" by simp
  then have "scale 53 (int n) 4953959590107546 52 = int (11 * n div 10)"
    by (intro scale_eq [where j = 32]) auto
  moreover have "11 * n div 10 = n + n div 10" by simp
  ultimately show ?thesis using n by (simp add: zdiv_int)
qed

lemma scale_005:
  assumes "0 \<le> t" "t < 2 ^ 20"
  shows "scale 24 t 13421773 28 = t div 20"
proof -
  obtain n where n: "t = int n" using assms(1) nonneg_int_cases by blast
  with assms(2) have "n < 2 ^ 20" by simp
  then have "scale 24 (int n) 13421773 28 = int (n div 20)"
    by (intro scale_eq [where j = 20]) auto
  then show ?thesis using n by (simp add: zdiv_int)
qed

section \<open>Sums and quotients in \<open>float32\<close>\<close>

text \<open>
  \<open>float32\<close> values that arise from sums of non-negative integers are non-negative integers, rounded after every
  conversion and addition.  The quotient of two of them is \<open>s / 2 ^ e\<close> with \<open>s\<close> rounded to 24 bits: \<open>e\<close> is chosen so
  that at least 25 bits of the quotient are integral, and a sticky bit stands for the rest.
\<close>

definition float32 :: "nat \<Rightarrow> nat" where
  "float32 n = round_sig 24 n"

definition add32 :: "nat \<Rightarrow> nat \<Rightarrow> nat" where
  "add32 x y = float32 (x + y)"

definition quotient_scale :: "nat \<Rightarrow> nat \<Rightarrow> nat" where
  "quotient_scale u a = 25 + bit_length a - bit_length u"

definition quotient32 :: "nat \<Rightarrow> nat \<Rightarrow> nat \<Rightarrow> nat" where
  "quotient32 e u a =
     (let n = u * 2 ^ e; q = n div a; sticky = (if n mod a = 0 then 0 else 1); k = bit_length q - 24
      in round_even (Suc k) (2 * q + sticky) * 2 ^ k)"

text \<open>\<open>int((u / a) * 100)\<close> for \<open>a > 0\<close>.\<close>

definition percent32 :: "nat \<Rightarrow> nat \<Rightarrow> nat" where
  "percent32 u a = (let e = quotient_scale u a in float32 (quotient32 e u a * 100) div 2 ^ e)"

text \<open>Rounding is monotone and never passes above a multiple of the last kept bit.\<close>

lemma round_even_le:
  assumes "n \<le> m * 2 ^ k"
  shows "round_even k n \<le> m"
proof -
  have "2 * (round_even k n * 2 ^ k) \<le> 2 * n + 2 ^ k" by (rule round_even_bounds)
  also have "\<dots> < 2 * (Suc m * 2 ^ k)"
  proof -
    have "(0::nat) < 2 ^ k" by simp
    moreover have "Suc m * 2 ^ k = m * 2 ^ k + 2 ^ k" by simp
    ultimately show ?thesis using assms by linarith
  qed
  finally have "round_even k n * 2 ^ k < Suc m * 2 ^ k" by linarith
  then have "round_even k n < Suc m" by (simp only: mult_less_cancel2)
  then show ?thesis by simp
qed

lemma round_sig_le:
  assumes "n \<le> m * 2 ^ j" and "bit_length n \<le> p + j"
  shows "round_sig p n \<le> m * 2 ^ j"
proof -
  let ?k = "bit_length n - p"
  have "?k \<le> j" using assms(2) by simp
  then have "2 ^ j = (2::nat) ^ (j - ?k) * 2 ^ ?k" by (simp flip: power_add)
  then have m: "m * 2 ^ j = m * 2 ^ (j - ?k) * 2 ^ ?k" by (simp only: mult.assoc)
  with assms(1) have "n \<le> m * 2 ^ (j - ?k) * 2 ^ ?k" by (simp only:)
  then have "round_even ?k n \<le> m * 2 ^ (j - ?k)" by (rule round_even_le)
  then have "round_even ?k n * 2 ^ ?k \<le> m * 2 ^ j" unfolding m by (rule mult_le_mono1)
  with assms(1) show ?thesis by (auto simp: round_sig_def Let_def)
qed

lemma less_bit_length: "n < 2 ^ bit_length n"
proof (induction n rule: bit_length.induct)
  case (1 n)
  show ?case
  proof (cases "n = 0")
    case False
    with 1 have "n div 2 < 2 ^ bit_length (n div 2)" by blast
    then have "n < 2 * 2 ^ bit_length (n div 2)" by linarith
    with False show ?thesis by (simp add: bit_length.simps [of n])
  qed simp
qed

lemma bit_length_mono: "n \<le> m \<Longrightarrow> bit_length n \<le> bit_length m"
  by (rule bit_length_le) (rule le_less_trans [OF _ less_bit_length])

lemma round_even_mono:
  assumes "n \<le> m"
  shows "round_even k n \<le> round_even k m"
proof (cases "n div 2 ^ k = m div 2 ^ k")
  case True
  then have "n mod 2 ^ k \<le> m mod 2 ^ k"
    using assms by (metis div_mult_mod_eq nat_add_left_cancel_le)
  with True show ?thesis by (simp add: round_even_def Let_def)
next
  case False
  have "n div 2 ^ k \<le> m div 2 ^ k" by (rule div_le_mono [OF assms])
  with False have "Suc (n div 2 ^ k) \<le> m div 2 ^ k" by simp
  also have "\<dots> \<le> round_even k m" by (rule round_even_bounds)
  finally show ?thesis by (auto simp: round_even_def [of k n] Let_def)
qed

lemma round_sig_mono:
  assumes "n \<le> m" and "0 < p"
  shows "round_sig p n \<le> round_sig p m"
proof (cases "bit_length n = bit_length m")
  case True
  with assms(1) show ?thesis by (auto simp: round_sig_def Let_def round_even_mono)
next
  case False
  with bit_length_mono [OF assms(1)] have bl: "bit_length n < bit_length m" by simp
  show ?thesis
  proof (cases "bit_length m \<le> p")
    case True
    with assms(1) bl show ?thesis by (simp add: round_sig_def)
  next
    case big: False
    obtain j where j: "bit_length m = p + Suc j" using big by (metis add_Suc_right less_imp_Suc_add not_le)
    have "n < 2 ^ bit_length n" by (rule less_bit_length)
    also have "(2::nat) ^ bit_length n \<le> 2 ^ (p + j)" using bl j by (intro power_increasing) auto
    finally have "round_sig p n \<le> 2 ^ p * 2 ^ j"
      using bl j by (intro round_sig_le) (auto simp: power_add)
    also have "(2::nat) ^ p * 2 ^ j = 2 ^ (p - 1) * 2 ^ Suc j"
      using assms(2) by (cases p) auto
    also have "\<dots> \<le> round_sig p m"
    proof (rule round_sig_lower)
      have "0 < m" using bl by (cases "m = 0") (auto simp: bit_length.simps)
      then have "2 ^ (p + Suc j) \<le> 2 * m" using bit_length_ge [of m] j by simp
      moreover have "(2::nat) ^ (p + Suc j) = 2 * (2 ^ (p - 1) * 2 ^ Suc j)"
        using assms(2) by (cases p) (auto simp: power_add)
      ultimately show "2 ^ (p - 1) * 2 ^ Suc j \<le> m" by linarith
      show "m < 2 ^ (p + Suc j)" using less_bit_length [of m] j by simp
    qed
    finally show ?thesis .
  qed
qed

lemma add32_mono: "x \<le> x' \<Longrightarrow> y \<le> y' \<Longrightarrow> add32 x y \<le> add32 x' y'"
  unfolding add32_def float32_def by (rule round_sig_mono) simp_all

lemma quotient32_le_one:
  assumes "u \<le> a" and "0 < a"
  shows "quotient32 e u a \<le> 2 ^ e"
proof -
  define n where "n = u * 2 ^ e"
  define q where "q = n div a"
  define s where "s = (if n mod a = 0 then 0 else 1 :: nat)"
  define k where "k = bit_length q - 24"
  have na: "n \<le> 2 ^ e * a" using assms(1) by (simp add: n_def mult.commute)
  then have "q \<le> 2 ^ e * a div a" unfolding q_def by (rule div_le_mono)
  then have q: "q \<le> 2 ^ e" using assms(2) by (simp only: nonzero_mult_div_cancel_right)
  have x: "2 * q + s \<le> 2 * 2 ^ e"
  proof (cases "q = 2 ^ e")
    case True
    then have "2 ^ e * a + n mod a = n" unfolding q_def by (metis div_mult_mod_eq)
    with na have "n mod a = 0" by linarith
    with True show ?thesis by (simp add: s_def)
  next
    case False
    with q show ?thesis by (simp add: s_def)
  qed
  have "bit_length q \<le> Suc e"
    by (rule bit_length_le) (use q in \<open>simp add: le_less_trans\<close>)
  then have "k \<le> e" by (simp add: k_def)
  then obtain d where "e = d + k" using le_iff_add [of k e] by (auto simp: add.commute)
  then have d: "2 ^ e = 2 ^ d * (2::nat) ^ k" by (metis power_add)
  have "2 * q + s \<le> 2 ^ d * 2 ^ Suc k" using x unfolding d by (simp add: mult.left_commute)
  then have "round_even (Suc k) (2 * q + s) \<le> 2 ^ d" by (rule round_even_le)
  then have "round_even (Suc k) (2 * q + s) * 2 ^ k \<le> 2 ^ e" unfolding d by (rule mult_le_mono1)
  then show ?thesis unfolding quotient32_def Let_def n_def [symmetric] q_def [symmetric] s_def [symmetric] k_def [symmetric] .
qed

lemma percent32_le_100:
  assumes "u \<le> a" and "0 < a"
  shows "percent32 u a \<le> 100"
proof -
  let ?e = "quotient_scale u a"
  have s: "quotient32 ?e u a * 100 \<le> 25 * 2 ^ (?e + 2)"
    using quotient32_le_one [OF assms, of ?e] by simp
  then have "quotient32 ?e u a * 100 < 2 ^ (?e + 7)"
    by (rule le_less_trans) (simp add: power_add)
  then have "float32 (quotient32 ?e u a * 100) \<le> 25 * 2 ^ (?e + 2)"
    unfolding float32_def using s bit_length_le by (intro round_sig_le) fastforce+
  then have "float32 (quotient32 ?e u a * 100) \<le> 100 * 2 ^ ?e" by (simp add: power_add)
  then have "float32 (quotient32 ?e u a * 100) div 2 ^ ?e \<le> 100 * 2 ^ ?e div 2 ^ ?e"
    by (rule div_le_mono)
  then show ?thesis by (simp add: percent32_def Let_def)
qed

end
