(* ===== verification/Kube.thy ===== *)
theory Kube
  imports Go_Prelude
begin

text \<open>
  The Kubernetes vocabulary the controllers share: object metadata, status conditions, and the
  functions of the libraries they call (\<open>apierrors\<close>, \<open>toolchain-common/pkg/condition\<close>,
  \<open>operator-utils/pkg/util\<close>), which are not part of this repository and therefore a record of
  parameters.  What the controllers rely on in those libraries is stated as named predicates;
  \<open>ref_lib\<close> is one concrete instance that satisfies them.  The section ends with the contract
  every controller's status writer fulfils, as a locale.
\<close>

section \<open>Metadata\<close>

text \<open>
  Label and annotation keys: the constants of the toolchain API the code names, and any other
  key.  A Go map is \<open>None\<close> when nil.
\<close>

datatype mkey =
    SpaceLabelKey | TypeLabelKey | TemplateRefLabelKey | TierLabelKey | ProviderLabelKey
  | OwnerLabelKey | FeatureToggleNameAnnotationKey | LastAppliedSpaceRolesAnnotationKey
  | TierTemplateObjectOptionalResourceAnnotation | EmailUserAnnotationKey
  | UserIDUserAnnotationKey | AccountIDUserAnnotationKey | OtherKey string

type_synonym smap = "(mkey \<times> string) list"

definition ProviderLabelValue :: string where
  "ProviderLabelValue = ''codeready-toolchain''"

datatype finalizer = FinalizerName | OtherFinalizer string

record meta =
  m_name :: string
  m_ns :: string
  m_uid :: string
  m_rv :: string
  m_labels :: "smap option"
  m_annotations :: "smap option"
  m_finalizers :: "finalizer list"
  m_deletion :: "int option"

definition new_meta :: "string \<Rightarrow> string \<Rightarrow> meta" where
  "new_meta ns n = \<lparr>m_name = n, m_ns = ns, m_uid = [], m_rv = [], m_labels = None,
     m_annotations = None, m_finalizers = [], m_deletion = None\<rparr>"

text \<open>A name in single quotes, as the error messages print it.\<close>

definition quoted :: "string \<Rightarrow> string" where
  "quoted s = CHR 0x27 # s @ [CHR 0x27]"

text \<open>\<open>v, ok := m[k]\<close> and \<open>m[k]\<close>, which is the empty string for a missing key.\<close>

definition lookup :: "smap option \<Rightarrow> mkey \<Rightarrow> string option" where
  "lookup m k = (case m of None \<Rightarrow> None | Some l \<Rightarrow> map_of l k)"

definition lookup0 :: "smap option \<Rightarrow> mkey \<Rightarrow> string" where
  "lookup0 m k = (case lookup m k of None \<Rightarrow> [] | Some v \<Rightarrow> v)"

lemma lookup_None [simp]: "lookup None k = None"
  by (simp add: lookup_def)

lemma lookup_Some [simp]: "lookup (Some l) k = map_of l k"
  by (simp add: lookup_def)

lemma lookup0_simps [simp]:
  "lookup0 None k = []"
  "lookup0 (Some l) k = (case map_of l k of None \<Rightarrow> [] | Some v \<Rightarrow> v)"
  by (simp_all add: lookup0_def)

text \<open>\<open>m[k] = v\<close>, on a map made first where it is nil, and \<open>delete(m, k)\<close>.\<close>

definition put :: "smap option \<Rightarrow> mkey \<Rightarrow> string \<Rightarrow> smap option" where
  "put m k v = Some (AList.update k v (case m of None \<Rightarrow> [] | Some l \<Rightarrow> l))"

definition drop_key :: "smap option \<Rightarrow> mkey \<Rightarrow> smap option" where
  "drop_key m k = (case m of None \<Rightarrow> None | Some l \<Rightarrow> Some (AList.delete k l))"

lemma lookup_put [simp]: "lookup (put m k v) k' = (if k = k' then Some v else lookup m k')"
  by (cases m) (simp_all add: put_def update_conv')

lemma lookup_drop_key [simp]: "lookup (drop_key m k) k' = (if k = k' then None else lookup m k')"
  by (cases m) (simp_all add: drop_key_def delete_conv')

lemma put_not_None [simp]: "put m k v \<noteq> None"
  by (simp add: put_def)

section \<open>Status conditions\<close>

datatype ctype = ConditionReady | IdlerTriggeredNotificationCreated | OtherCondition string

datatype cstatus = ConditionTrue | ConditionFalse | ConditionUnknown

record 'r cond =
  c_type :: ctype
  c_status :: cstatus
  c_reason :: 'r
  c_message :: string
  c_transition :: int
  c_updated :: "int option"

text \<open>A condition literal of the source leaves the two times at their zero value.\<close>

definition mk_cond :: "ctype \<Rightarrow> cstatus \<Rightarrow> 'r \<Rightarrow> string \<Rightarrow> 'r cond" where
  "mk_cond t st r m = \<lparr>c_type = t, c_status = st, c_reason = r, c_message = m,
     c_transition = 0, c_updated = None\<rparr>"

lemma mk_cond_simps [simp]:
  "c_type (mk_cond t st r m) = t" "c_status (mk_cond t st r m) = st"
  "c_reason (mk_cond t st r m) = r" "c_message (mk_cond t st r m) = m"
  by (simp_all add: mk_cond_def)

section \<open>Library functions\<close>

text \<open>
  \<open>AddOrUpdateStatusConditions\<close> reads the clock for the transition times; the reading is its
  first argument.  \<open>FindConditionByType\<close> returns a zero condition and false when there is none.
\<close>

record 'r lib =
  IsNotFound :: "err \<Rightarrow> bool"
  AddOrUpdateStatusConditions :: "int \<Rightarrow> 'r cond list \<Rightarrow> 'r cond list \<Rightarrow> 'r cond list \<times> bool"
  FindConditionByType :: "'r cond list \<Rightarrow> ctype \<Rightarrow> 'r cond \<times> bool"
  IsTrue :: "'r cond list \<Rightarrow> ctype \<Rightarrow> bool"
  IsBeingDeleted :: "meta \<Rightarrow> bool"
  HasFinalizer :: "meta \<Rightarrow> finalizer \<Rightarrow> bool"
  AddFinalizer :: "meta \<Rightarrow> finalizer \<Rightarrow> meta"
  RemoveFinalizer :: "meta \<Rightarrow> finalizer \<Rightarrow> meta"

text \<open>
  Documented behaviour.  \<open>IsNotFound\<close>: the reason of the first API status in the error's tree is
  NotFound.  \<open>AddOrUpdateStatusConditions\<close>: afterwards the condition of that type has the given
  status, reason and message, other types are untouched, and "not updated" means nothing changed.
\<close>

definition not_found_lib :: "'r lib \<Rightarrow> bool" where
  "not_found_lib L \<longleftrightarrow> (\<forall>e. IsNotFound L e = (\<exists>m. first_status e = Some (''NotFound'', m)))"

definition has_cond :: "'r lib \<Rightarrow> 'r cond list \<Rightarrow> 'r cond \<Rightarrow> bool" where
  "has_cond L cs c \<longleftrightarrow>
     (case FindConditionByType L cs (c_type c) of (d, found) \<Rightarrow>
        found \<and> c_status d = c_status c \<and> c_reason d = c_reason c \<and> c_message d = c_message c)"

definition conditions_lib :: "'r lib \<Rightarrow> bool" where
  "conditions_lib L \<longleftrightarrow>
     (\<forall>now cs c. case AddOrUpdateStatusConditions L now cs [c] of (cs', updated) \<Rightarrow>
        (\<not> updated \<longrightarrow> cs' = cs) \<and> has_cond L cs' c \<and>
        (\<forall>t. t \<noteq> c_type c \<longrightarrow> FindConditionByType L cs' t = FindConditionByType L cs t))"

definition finalizers_lib :: "'r lib \<Rightarrow> bool" where
  "finalizers_lib L \<longleftrightarrow>
     (\<forall>m f. HasFinalizer L m f = (f \<in> set (m_finalizers m))) \<and>
     (\<forall>m f. AddFinalizer L m f = m\<lparr>m_finalizers := m_finalizers m @ [f]\<rparr>) \<and>
     (\<forall>m f. RemoveFinalizer L m f = m\<lparr>m_finalizers := removeAll f (m_finalizers m)\<rparr>) \<and>
     (\<forall>m. IsBeingDeleted L m = (m_deletion m \<noteq> None))"

text \<open>A concrete instance, for evaluating handlers; \<open>z\<close> is the reason of the zero condition.\<close>

fun upsert :: "int \<Rightarrow> 'r cond list \<Rightarrow> 'r cond \<Rightarrow> 'r cond list \<times> bool" where
  "upsert now [] c = ([c\<lparr>c_transition := now, c_updated := Some now\<rparr>], True)"
| "upsert now (d # ds) c =
     (if c_type d = c_type c then
        (if c_status d = c_status c \<and> c_reason d = c_reason c \<and> c_message d = c_message c
         then (d # ds, False)
         else (c\<lparr>c_transition := (if c_status d = c_status c then c_transition d else now),
                c_updated := Some now\<rparr> # ds, True))
      else (case upsert now ds c of (ds', u) \<Rightarrow> (d # ds', u)))"

fun upserts :: "int \<Rightarrow> 'r cond list \<Rightarrow> 'r cond list \<Rightarrow> 'r cond list \<times> bool" where
  "upserts now ds [] = (ds, False)"
| "upserts now ds (c # cs) =
     (case upsert now ds c of (ds', u) \<Rightarrow> (case upserts now ds' cs of (ds'', v) \<Rightarrow> (ds'', u \<or> v)))"

fun find_cond :: "'r \<Rightarrow> 'r cond list \<Rightarrow> ctype \<Rightarrow> 'r cond \<times> bool" where
  "find_cond z [] t = (mk_cond (OtherCondition []) ConditionUnknown z [], False)"
| "find_cond z (d # ds) t = (if c_type d = t then (d, True) else find_cond z ds t)"

definition ref_lib :: "'r \<Rightarrow> 'r lib" where
  "ref_lib z = \<lparr>
     IsNotFound = (\<lambda>e. case first_status e of Some (r, m) \<Rightarrow> r = ''NotFound'' | None \<Rightarrow> False),
     AddOrUpdateStatusConditions = upserts,
     FindConditionByType = find_cond z,
     IsTrue = (\<lambda>cs t. case find_cond z cs t of (d, found) \<Rightarrow> found \<and> c_status d = ConditionTrue),
     IsBeingDeleted = (\<lambda>m. m_deletion m \<noteq> None),
     HasFinalizer = (\<lambda>m f. f \<in> set (m_finalizers m)),
     AddFinalizer = (\<lambda>m f. m\<lparr>m_finalizers := m_finalizers m @ [f]\<rparr>),
     RemoveFinalizer = (\<lambda>m f. m\<lparr>m_finalizers := removeAll f (m_finalizers m)\<rparr>)\<rparr>"

lemma find_cond_upsert:
  "upsert now cs c = (cs', u) \<Longrightarrow>
     (\<not> u \<longrightarrow> cs' = cs) \<and>
     (\<exists>d. find_cond z cs' (c_type c) = (d, True) \<and> c_status d = c_status c \<and>
        c_reason d = c_reason c \<and> c_message d = c_message c) \<and>
     (\<forall>t. t \<noteq> c_type c \<longrightarrow> find_cond z cs' t = find_cond z cs t)"
  by (induction now cs c arbitrary: cs' u rule: upsert.induct)
     (auto split: if_splits prod.splits)

lemma ref_lib_conditions: "conditions_lib (ref_lib z)"
  unfolding conditions_lib_def has_cond_def ref_lib_def
  by (auto dest!: find_cond_upsert [of _ _ _ _ _ z] split: prod.splits)

lemma ref_lib_not_found: "not_found_lib (ref_lib z)"
  by (auto simp: not_found_lib_def ref_lib_def split: option.splits)

lemma ref_lib_finalizers: "finalizers_lib (ref_lib z)"
  by (simp add: finalizers_lib_def ref_lib_def)

lemmas ref_lib_ok = ref_lib_conditions ref_lib_not_found ref_lib_finalizers

section \<open>The contract of a status writer\<close>

text \<open>
  Every controller writes its status through one function, which makes at most one call, a status
  update, and returns an error exactly when that call failed.  The error paths of the controllers
  rest on this contract: reporting an error never hides it, whatever happens to the status.
\<close>

locale status_writer =
  fixes put_status :: "'r cond \<Rightarrow> ('o, 'c, err option) prog"
    and is_status :: "'c \<Rightarrow> bool"
  assumes status_once:
    "wp (put_status c) (\<lambda>r s'. calls s' = calls s \<and> r = None \<or>
       (\<exists>x ok. is_status x \<and> calls s' = calls s @ [(x, ok)] \<and> (r = None \<longleftrightarrow> ok))) s"
begin

lemma status_emits: "emits (\<lambda>(x, ok). is_status x) (put_status c)"
proof (rule emitsI)
  fix s
  show "\<exists>t. calls (snd (run_state (put_status c) s)) = calls s @ t \<and> list_all (\<lambda>(x, ok). is_status x) t"
    using status_once [of c s] by (auto simp: wp_def split: prod.splits)
qed

lemma status_failure_visible:
  assumes "run_state (put_status c) s = (Some e, s')"
  shows "\<exists>x. is_status x \<and> calls s' = calls s @ [(x, False)]"
  using wpD [OF status_once assms] by auto

lemma status_success_quiet:
  assumes "run_state (put_status c) s = (None, s')"
  shows "\<forall>x \<in> set (calls s') - set (calls s). snd x"
  using wpD [OF status_once assms] by auto

end

end
