(* ===== verification/Steps.thy ===== *)
theory Steps
  imports Go_Prelude
begin

text \<open>
  The controllers change the cluster in small steps: a function reports whether it changed something
  and returns at once when it did, leaving the rest to the next reconcile.  This theory states
  that discipline as a contract, shows that it is kept by sequencing two steps the way the code does
  it, and gives rules to establish it.
\<close>

named_theorems cautious_rules \<open>handlers that make at most one change\<close>

section \<open>Counting changes\<close>

definition changes :: "('c \<Rightarrow> bool) \<Rightarrow> 'c history \<Rightarrow> nat" where
  "changes P t = length (filter (\<lambda>(c, ok). ok \<and> P c) t)"

lemma changes_simps [simp]:
  "changes P [] = 0"
  "changes P (x # t) = (if snd x \<and> P (fst x) then 1 else 0) + changes P t"
  "changes P (t @ u) = changes P t + changes P u"
  by (auto simp: changes_def split: prod.splits)

lemma changes_none: "list_all (\<lambda>(c, ok). \<not> P c) t \<Longrightarrow> changes P t = 0"
  by (induction t) auto

text \<open>\<open>still P m\<close>: \<open>m\<close> makes no successful call of the kind \<open>P\<close>.\<close>

abbreviation still :: "('c \<Rightarrow> bool) \<Rightarrow> ('o, 'c, 'a) prog \<Rightarrow> bool" where
  "still P m \<equiv> emits (\<lambda>(c, ok). ok \<longrightarrow> \<not> P c) m"

lemma still_wp: "still P m \<Longrightarrow> wp m (\<lambda>r s'. \<exists>t. calls s' = calls s @ t \<and> changes P t = 0) s"
  by (rule wp_mono [OF emits_wp], assumption) (auto simp: changes_def filter_empty_conv list_all_iff)

section \<open>At most one change\<close>

text \<open>
  \<open>cautious P q m\<close>: \<open>m\<close> makes at most one successful call of the kind \<open>P\<close>, and none when its result
  satisfies \<open>q\<close> ("nothing done, go on").
\<close>

definition cautious :: "('c \<Rightarrow> bool) \<Rightarrow> ('a \<Rightarrow> bool) \<Rightarrow> ('o, 'c, 'a) prog \<Rightarrow> bool" where
  "cautious P q m \<longleftrightarrow> (\<forall>s. wp m (\<lambda>r s'. \<exists>t. calls s' = calls s @ t \<and> changes P t \<le> 1 \<and>
     (q r \<longrightarrow> changes P t = 0)) s)"

lemma cautiousD: "cautious P q m \<Longrightarrow> run_state m s = (r, s') \<Longrightarrow>
    \<exists>t. calls s' = calls s @ t \<and> changes P t \<le> 1 \<and> (q r \<longrightarrow> changes P t = 0)"
  by (auto simp: cautious_def wp_def dest!: spec [of _ s])

lemma cautiousI: "(\<And>s r s'. run_state m s = (r, s') \<Longrightarrow>
    \<exists>t. calls s' = calls s @ t \<and> changes P t \<le> 1 \<and> (q r \<longrightarrow> changes P t = 0)) \<Longrightarrow> cautious P q m"
  by (auto simp: cautious_def intro!: wpI)

lemma cautious_weaken: "cautious P q m \<Longrightarrow> (\<And>r. q' r \<Longrightarrow> q r) \<Longrightarrow> cautious P q' m"
  by (rule cautiousI) (blast dest: cautiousD)

lemma cautious_still: "still P m \<Longrightarrow> cautious P q m"
  unfolding cautious_def by (intro allI wp_mono [OF still_wp]) auto

lemma cautious_return [cautious_rules]: "cautious P q (State_Monad.return x)"
  by (rule cautious_still) (rule emits_return)

text \<open>\<open>never q m\<close>: no result of \<open>m\<close> satisfies \<open>q\<close>.\<close>

definition never :: "('a \<Rightarrow> bool) \<Rightarrow> ('s, 'a) state \<Rightarrow> bool" where
  "never q m \<longleftrightarrow> (\<forall>s. wp m (\<lambda>x s'. \<not> q x) s)"

lemma never_return [cautious_rules]: "\<not> q x \<Longrightarrow> never q (State_Monad.return x)"
  by (simp add: never_def wp_simps)

lemma never_bind [cautious_rules]: "(\<And>x. never q (f x)) \<Longrightarrow> never q (State_Monad.bind m f)"
  by (simp add: never_def wp_bind wp_any)

lemma never_if [cautious_rules]: "(b \<Longrightarrow> never q m) \<Longrightarrow> (\<not> b \<Longrightarrow> never q n) \<Longrightarrow> never q (if b then m else n)"
  by simp

lemma never_case_option [cautious_rules]:
  "(x = None \<Longrightarrow> never q m) \<Longrightarrow> (\<And>a. x = Some a \<Longrightarrow> never q (f a)) \<Longrightarrow>
   never q (case x of None \<Rightarrow> m | Some a \<Rightarrow> f a)"
  by (cases x) simp_all

text \<open>A step, then more only if it did nothing; afterwards only calls of other kinds.\<close>

lemma cautious_bind:
  assumes "cautious P p m" and "\<And>r. p r \<Longrightarrow> cautious P q (f r)"
    and "\<And>r. \<not> p r \<Longrightarrow> still P (f r)"
    and "\<And>r. \<not> p r \<Longrightarrow> never q (f r)"
  shows "cautious P q (State_Monad.bind m f)"
proof (rule cautiousI)
  fix s r s'
  assume run: "run_state (State_Monad.bind m f) s = (r, s')"
  obtain a s1 where m: "run_state m s = (a, s1)" by (cases "run_state m s")
  with run have f: "run_state (f a) s1 = (r, s')" by simp
  obtain t where t: "calls s1 = calls s @ t" "changes P t \<le> 1" "p a \<longrightarrow> changes P t = 0"
    using cautiousD [OF assms(1) m] by blast
  show "\<exists>t. calls s' = calls s @ t \<and> changes P t \<le> 1 \<and> (q r \<longrightarrow> changes P t = 0)"
  proof (cases "p a")
    case True
    obtain u where "calls s' = calls s1 @ u" "changes P u \<le> 1" "q r \<longrightarrow> changes P u = 0"
      using cautiousD [OF assms(2) [OF True] f] by blast
    with t True show ?thesis by auto
  next
    case False
    obtain u where "calls s' = calls s1 @ u" "changes P u = 0"
      using wpD [OF still_wp [OF assms(3) [OF False]] f] by blast
    moreover have "\<not> q r"
      using wpD [OF assms(4) [OF False, unfolded never_def, rule_format] f] .
    ultimately show ?thesis using t by auto
  qed
qed

text \<open>A part that makes no change can stand before or after a step.\<close>

lemma cautious_still_bind [cautious_rules]:
  assumes "still P m" and "\<And>r. cautious P q (f r)"
  shows "cautious P q (State_Monad.bind m f)"
  by (rule cautious_bind [where p = "\<lambda>_. True", OF cautious_still]) (use assms in auto)

text \<open>The same, with what is known of the result.\<close>

lemma cautious_known_bind:
  assumes "still P m" and "\<And>s. wp m (\<lambda>r s'. K r) s" and "\<And>r. K r \<Longrightarrow> cautious P q (f r)"
  shows "cautious P q (State_Monad.bind m f)"
proof (rule cautiousI)
  fix s r s'
  assume run: "run_state (State_Monad.bind m f) s = (r, s')"
  obtain a s1 where m: "run_state m s = (a, s1)" by (cases "run_state m s")
  with run have f: "run_state (f a) s1 = (r, s')" by simp
  obtain t where t: "calls s1 = calls s @ t" "changes P t = 0"
    using wpD [OF still_wp [OF assms(1)] m] by blast
  obtain u where "calls s' = calls s1 @ u" "changes P u \<le> 1" "q r \<longrightarrow> changes P u = 0"
    using cautiousD [OF assms(3) [OF wpD [OF assms(2) m]] f] by blast
  with t show "\<exists>t. calls s' = calls s @ t \<and> changes P t \<le> 1 \<and> (q r \<longrightarrow> changes P t = 0)" by auto
qed

lemma cautious_if [cautious_rules]:
  "(b \<Longrightarrow> cautious P q m) \<Longrightarrow> (\<not> b \<Longrightarrow> cautious P q n) \<Longrightarrow> cautious P q (if b then m else n)"
  by simp

lemma cautious_case_option [cautious_rules]:
  "(x = None \<Longrightarrow> cautious P q m) \<Longrightarrow> (\<And>a. x = Some a \<Longrightarrow> cautious P q (f a)) \<Longrightarrow>
   cautious P q (case x of None \<Rightarrow> m | Some a \<Rightarrow> f a)"
  by (cases x) simp_all

lemma cautious_case_sum [cautious_rules]:
  "(\<And>a. x = Inl a \<Longrightarrow> cautious P q (f a)) \<Longrightarrow> (\<And>b. x = Inr b \<Longrightarrow> cautious P q (g b)) \<Longrightarrow>
   cautious P q (case x of Inl a \<Rightarrow> f a | Inr b \<Rightarrow> g b)"
  by (cases x) simp_all

lemma cautious_case_prod [cautious_rules]:
  "(\<And>a b. x = (a, b) \<Longrightarrow> cautious P q (f a b)) \<Longrightarrow> cautious P q (case x of (a, b) \<Rightarrow> f a b)"
  by (cases x) simp

lemma cautious_Let [cautious_rules]: "cautious P q (f x) \<Longrightarrow> cautious P q (let y = x in f y)"
  by simp

text \<open>A single call is a step; its failure counts as "nothing done".\<close>

lemma cautious_call: "cautious P isl (call srv c)"
  by (rule cautiousI) auto

lemma cautious_call_err: "cautious P (\<lambda>e. e \<noteq> None) (call_err srv c)"
  by (rule cautiousI) auto

lemma cautious_call_bind:
  assumes "\<And>e. cautious P q (f (Inl e))" and "\<And>x. still P (f (Inr x))" and "\<And>x. never q (f (Inr x))"
  shows "cautious P q (State_Monad.bind (call srv c) f)"
  by (rule cautious_bind [OF cautious_call]) (use assms in \<open>auto simp: isl_def split: sum.splits intro: sum.exhaust\<close>)

lemma cautious_call_err_bind:
  assumes "\<And>e. cautious P q (f (Some e))" and "still P (f None)" and "never q (f None)"
  shows "cautious P q (State_Monad.bind (call_err srv c) f)"
  by (rule cautious_bind [OF cautious_call_err]) (use assms in auto)

abbreviation always_false :: "'a \<Rightarrow> bool" where
  "always_false \<equiv> \<lambda>_. False"

lemma never_False: "never always_false m"
  by (simp add: never_def wp_any)

lemma cautious_unless_err:
  "still P m \<Longrightarrow> cautious P q k \<Longrightarrow> cautious P q (unless_err m f k)"
  unfolding unless_err_def by (intro cautious_still_bind cautious_case_option cautious_return)

lemma cautious_with_value:
  "still P m \<Longrightarrow> (\<And>e. cautious P q (f e)) \<Longrightarrow> (\<And>x. cautious P q (k x)) \<Longrightarrow> cautious P q (with_value m f k)"
  unfolding with_value_def by (intro cautious_still_bind cautious_case_sum)

section \<open>The contract\<close>

text \<open>
  \<open>(changed, err)\<close> results: a step that neither changed anything nor failed made no change.
  The code sequences two such steps by returning after the first unless it did nothing.
\<close>

definition nothing_done :: "bool \<times> err option \<Rightarrow> bool" where
  "nothing_done r \<longleftrightarrow> \<not> fst r \<and> snd r = None"

lemma done_iff: "nothing_done (c, e) \<longleftrightarrow> \<not> c \<and> e = None"
  by (simp add: nothing_done_def)

lemma delete_never: "never nothing_done (ret (True, e))"
  by (simp add: never_return done_iff)

definition then_step :: "('o, 'c, bool \<times> err option) prog \<Rightarrow> ('o, 'c, bool \<times> err option) prog \<Rightarrow>
    ('o, 'c, bool \<times> err option) prog" where
  "then_step m n = do { (changed, err) \<leftarrow> m; if err \<noteq> None \<or> changed then ret (changed, err) else n }"

locale cautious_step =
  fixes step :: "('o, 'c, bool \<times> err option) prog"
    and is_change :: "'c \<Rightarrow> bool"
  assumes one_change: "cautious is_change nothing_done step"
begin

lemma at_most_one:
  assumes "run_state step s = ((changed, err), s')"
  obtains t where "calls s' = calls s @ t" and "changes is_change t \<le> 1"
    and "\<not> changed \<Longrightarrow> err = None \<Longrightarrow> changes is_change t = 0"
  using cautiousD [OF one_change assms] by (auto simp: nothing_done_def)

lemma before:
  assumes "cautious is_change nothing_done n"
  shows "cautious is_change nothing_done (then_step step n)"
  unfolding then_step_def
  by (rule cautious_bind [OF one_change])
     (use assms in \<open>auto simp: nothing_done_def wp_simps intro!: cautious_rules emits_rules split: prod.splits\<close>)

end

locale cautious_pair = first: cautious_step m P + next_step: cautious_step n P
  for m n :: "('o, 'c, bool \<times> err option) prog" and P
begin

lemma pair_one_change: "cautious P nothing_done (then_step m n)"
  by (rule first.before) (rule next_step.one_change)

end

sublocale cautious_pair \<subseteq> both: cautious_step "then_step m n" P
  by unfold_locales (rule pair_one_change)

end
