(* ===== verification/Idler.thy ===== *)
theory Idler
  imports Go_Prelude Go_Arith Kube
begin

text \<open>
  The idler controller (\<open>controllers/idler\<close>): the pods of a user's namespace are idled when they
  run for longer than the idler's timeout or restart too often.  The definitions follow
  \<open>idler_controller.go\<close>, \<open>owners.go\<close>, \<open>predicate.go\<close> and \<open>mapper.go\<close> function by function; the
  API servers, the owner fetcher, the host cluster and the clock are fields of \<open>ienv\<close>.
\<close>

section \<open>Data\<close>

datatype ireason =
    NoReason | IdlerUnableToEnsureIdlingReason | IdlerRunningReason | IdlerNoDeactivationReason
  | IdlerTriggeredReason | IdlerTriggeredNotificationCreationFailedReason | OtherReason string

record idler =
  id_meta :: meta
  id_timeout :: int
  id_conds :: "ireason cond list"

record owner_ref =
  or_kind :: string
  or_controller :: "bool option"

record pod =
  p_meta :: meta
  p_owners :: "owner_ref list"
  p_priority_class :: string
  p_start :: "int option"
  p_restarts :: "int list"
  p_conds :: "(string \<times> string) list"
  p_reason :: string

record gvr =
  g_group :: string
  g_version :: string
  g_resource :: string

text \<open>An owner with its resource, as the owner fetcher of toolchain-common returns it.\<close>

record owner =
  ow_meta :: meta
  ow_kind :: string
  ow_group :: string
  ow_gvr :: gvr

record isvc =
  is_name :: string
  is_created :: int

text \<open>The calls the controller makes, with the data it sends.\<close>

datatype icall =
    GetIdler string
  | ListPods string
  | GetOwners string string
  | PatchScale gvr string string string
  | PatchResource gvr string string string
  | DeleteResource gvr string string string
  | StopVM string string string
  | ListInferenceServices gvr string
  | DeleteInferenceService gvr string string
  | DeletePod string string
  | GetNotification string string
  | GetNSTemplateSet string string
  | GetMUR string string
  | CreateNotification string string "(string \<times> string) list" string
  | UpdateIdlerStatus idler

type_synonym itrace = "icall history"
type_synonym 'a iprog = "(idler, icall, 'a) prog"

text \<open>
  \<open>ie_exec\<close> answers the calls that return only an error; \<open>ie_host\<close> is \<open>GetHostCluster\<close>, with
  the host operator's namespace; \<open>ie_nested_bool\<close> is \<open>unstructured.NestedBool\<close> on the owner's
  content (value, found, error); \<open>ie_gvr_string\<close> is \<open>GroupVersionResource.String\<close> and
  \<open>ie_type_idled\<close> the API constant \<open>NotificationTypeIdled\<close>.
\<close>

record ienv =
  ie_lib :: "ireason lib"
  ie_now :: "nat \<Rightarrow> int"
  ie_namespace :: string
  ie_get_idler :: "itrace \<Rightarrow> string \<Rightarrow> err + idler"
  ie_list_pods :: "itrace \<Rightarrow> string \<Rightarrow> err + pod list"
  ie_get_owners :: "itrace \<Rightarrow> pod \<Rightarrow> owner list \<times> err option"
  ie_exec :: "itrace \<Rightarrow> icall \<Rightarrow> err option"
  ie_list_isvcs :: "itrace \<Rightarrow> string \<Rightarrow> err + isvc list"
  ie_host :: "itrace \<Rightarrow> string option"
  ie_get_nstt :: "itrace \<Rightarrow> string \<Rightarrow> string \<Rightarrow> err + string list list"
  ie_get_mur :: "itrace \<Rightarrow> string \<Rightarrow> string \<Rightarrow> err + string"
  ie_update_status :: "itrace \<Rightarrow> idler \<Rightarrow> err + idler"
  ie_nested_bool :: "owner \<Rightarrow> string list \<Rightarrow> bool \<times> bool \<times> err option"
  ie_gvr_string :: "gvr \<Rightarrow> string"
  ie_type_idled :: string

abbreviation exec :: "ienv \<Rightarrow> icall \<Rightarrow> err option iprog" where
  "exec E c \<equiv> call_err (\<lambda>tr. ie_exec E tr c) c"

section \<open>Pure helpers\<close>

definition restartThreshold :: int where
  "restartThreshold = 50"

definition aapRestartThreshold :: int where
  "aapRestartThreshold = restartThreshold - 1"

definition isOwnedByVM :: "owner_ref list \<Rightarrow> bool" where
  "isOwnedByVM owners =
     list_ex (\<lambda>r. or_controller r = Some True \<and> or_kind r = ''VirtualMachineInstance'') owners"

definition getTimeout :: "idler \<Rightarrow> pod \<Rightarrow> int" where
  "getTimeout idl pod =
     (if isOwnedByVM (p_owners pod) then id_timeout idl sdiv 12 else id_timeout idl)"

fun highest_restart :: "int \<Rightarrow> int list \<Rightarrow> int" where
  "highest_restart m [] = m"
| "highest_restart m (c # cs) = highest_restart (if m < c then c else m) cs"

definition getHighestRestartCount :: "pod \<Rightarrow> int" where
  "getHighestRestartCount pod = highest_restart 0 (p_restarts pod)"

definition shorterDuration :: "int \<Rightarrow> int \<Rightarrow> int" where
  "shorterDuration first secnd =
     (let shorter = (if first > secnd then secnd else first)
      in if shorter < 0 then 0 else shorter)"

text \<open>\<open>time.Duration(float32(t)*0.05)\<close> and \<open>time.Duration(float64(t)*1.05)\<close>, \<open>1.10\<close>.\<close>

definition five_percent :: "int \<Rightarrow> int" where
  "five_percent t = scale 24 t 13421773 28"

definition percent105 :: "int \<Rightarrow> int" where
  "percent105 t = scale 53 t 4728779608739021 52"

definition percent110 :: "int \<Rightarrow> int" where
  "percent110 t = scale 53 t 4953959590107546 52"

fun pod_completed :: "(string \<times> string) list \<Rightarrow> bool" where
  "pod_completed [] = False"
| "pod_completed ((t, r) # cs) = (if t = ''Ready'' then r = ''PodCompleted'' else pod_completed cs)"

section \<open>Status\<close>

definition updateStatusConditions :: "ienv \<Rightarrow> ireason cond list \<Rightarrow> err option iprog" where
  "updateStatusConditions E cs = do {
     idl \<leftarrow> get_mem;
     now \<leftarrow> clock (ie_now E);
     (case AddOrUpdateStatusConditions (ie_lib E) now (id_conds idl) cs of (conds, updated) \<Rightarrow> do {
       let idl' = idl\<lparr>id_conds := conds\<rparr>;
       set_mem idl';
       if \<not> updated then ret None
       else do {
         r \<leftarrow> call (\<lambda>tr. ie_update_status E tr idl') (UpdateIdlerStatus idl');
         (case r of Inl e \<Rightarrow> ret (Some e) | Inr new \<Rightarrow> do { set_mem new; ret None })
       }
     })
   }"

definition setStatusFailed :: "ienv \<Rightarrow> string \<Rightarrow> err option iprog" where
  "setStatusFailed E msg = updateStatusConditions E
     [mk_cond ConditionReady ConditionFalse IdlerUnableToEnsureIdlingReason msg]"

definition setStatusReady :: "ienv \<Rightarrow> err option iprog" where
  "setStatusReady E = updateStatusConditions E
     [mk_cond ConditionReady ConditionTrue IdlerRunningReason []]"

definition setStatusNoDeactivation :: "ienv \<Rightarrow> err option iprog" where
  "setStatusNoDeactivation E = updateStatusConditions E
     [mk_cond ConditionReady ConditionTrue IdlerNoDeactivationReason []]"

definition setStatusIdlerNotificationCreated :: "ienv \<Rightarrow> err option iprog" where
  "setStatusIdlerNotificationCreated E = updateStatusConditions E
     [mk_cond IdlerTriggeredNotificationCreated ConditionTrue IdlerTriggeredReason []]"

definition setStatusIdlerNotificationCreationFailed :: "ienv \<Rightarrow> string \<Rightarrow> err option iprog" where
  "setStatusIdlerNotificationCreationFailed E msg = updateStatusConditions E
     [mk_cond IdlerTriggeredNotificationCreated ConditionFalse
        IdlerTriggeredNotificationCreationFailedReason msg]"

text \<open>\<open>wrapErrorWithStatusUpdate\<close>: a failing status update is only logged.\<close>

definition wrapErrorWithStatusUpdate ::
  "(string \<Rightarrow> err option iprog) \<Rightarrow> err option \<Rightarrow> string \<Rightarrow> err option iprog" where
  "wrapErrorWithStatusUpdate updater e fmt =
     (case e of None \<Rightarrow> ret None
      | Some e \<Rightarrow> do { _ \<leftarrow> updater (err_text e); ret (Some (Wrapped fmt e)) })"

section \<open>Owners\<close>

definition supportedScaleResources :: "gvr list" where
  "supportedScaleResources =
     [\<lparr>g_group = ''camel.apache.org'', g_version = ''v1'', g_resource = ''integrations''\<rparr>,
      \<lparr>g_group = ''camel.apache.org'', g_version = ''v1alpha1'', g_resource = ''kameletbindings''\<rparr>]"

definition scaleToZero :: "ienv \<Rightarrow> owner \<Rightarrow> err option iprog" where
  "scaleToZero E o1 =
     (let patch = ''{\"spec\":{\"replicas\":0}}'' in
      if list_ex (\<lambda>g. ie_gvr_string E g = ie_gvr_string E (ow_gvr o1)) supportedScaleResources
      then exec E (PatchScale (ow_gvr o1) (m_ns (ow_meta o1)) (m_name (ow_meta o1)) patch)
      else exec E (PatchResource (ow_gvr o1) (m_ns (ow_meta o1)) (m_name (ow_meta o1)) patch))"

definition idleAAP :: "ienv \<Rightarrow> owner \<Rightarrow> err option iprog" where
  "idleAAP E o1 =
     (case ie_nested_bool E o1 [''spec'', ''idle_aap''] of (idled, _, _) \<Rightarrow>
        if idled then ret None
        else exec E (PatchResource (ow_gvr o1) (m_ns (ow_meta o1)) (m_name (ow_meta o1))
               ''{\"spec\":{\"idle_aap\":true}}''))"

definition idleClaw :: "ienv \<Rightarrow> owner \<Rightarrow> err option iprog" where
  "idleClaw E o1 =
     (case ie_nested_bool E o1 [''spec'', ''idle''] of (idled, _, _) \<Rightarrow>
        if idled then ret None
        else exec E (PatchResource (ow_gvr o1) (m_ns (ow_meta o1)) (m_name (ow_meta o1))
               ''{\"spec\":{\"idle\":true}}''))"

definition deleteResource :: "ienv \<Rightarrow> owner \<Rightarrow> err option iprog" where
  "deleteResource E o1 =
     exec E (DeleteResource (ow_gvr o1) (m_ns (ow_meta o1)) (m_name (ow_meta o1)) ''Background'')"

definition scaleDeploymentConfigToZero :: "ienv \<Rightarrow> owner \<Rightarrow> err option iprog" where
  "scaleDeploymentConfigToZero E o1 =
     exec E (PatchResource (ow_gvr o1) (m_ns (ow_meta o1)) (m_name (ow_meta o1))
       ''{\"spec\":{\"replicas\":0,\"paused\":false}}'')"

definition vmSubresourceURL :: string where
  "vmSubresourceURL = ''/apis/subresources.kubevirt.io/'' @ ''v1''"

definition stopVirtualMachine :: "ienv \<Rightarrow> owner \<Rightarrow> err option iprog" where
  "stopVirtualMachine E o1 =
     exec E (StopVM vmSubresourceURL (m_ns (ow_meta o1)) (m_name (ow_meta o1)))"

definition inferenceServiceGVR :: gvr where
  "inferenceServiceGVR =
     \<lparr>g_group = ''serving.kserve.io'', g_version = ''v1beta1'', g_resource = ''inferenceservices''\<rparr>"

text \<open>The loop over the InferenceServices, with the errors collected so far.\<close>

fun delete_old_isvcs :: "ienv \<Rightarrow> string \<Rightarrow> int \<Rightarrow> isvc list \<Rightarrow> err option list \<Rightarrow> err option list iprog" where
  "delete_old_isvcs E ns cutoff [] errs = ret errs"
| "delete_old_isvcs E ns cutoff (i # is) errs =
     (if is_created i < cutoff
      then do {
        e \<leftarrow> exec E (DeleteInferenceService inferenceServiceGVR ns (is_name i));
        delete_old_isvcs E ns cutoff is (if e = None then errs else errs @ [e])
      }
      else delete_old_isvcs E ns cutoff is errs)"

definition idleServingRuntime :: "ienv \<Rightarrow> idler \<Rightarrow> owner \<Rightarrow> err option iprog" where
  "idleServingRuntime E idl o1 = do {
     let ns = m_ns (ow_meta o1);
     r \<leftarrow> call (\<lambda>tr. ie_list_isvcs E tr ns) (ListInferenceServices inferenceServiceGVR ns);
     (case r of
        Inl e \<Rightarrow> ret (Some (Wrapped ''failed to list InferenceService objects'' e))
      | Inr items \<Rightarrow> do {
          now \<leftarrow> clock (ie_now E);
          let cutoff = now + - seconds (id_timeout idl);
          errs \<leftarrow> delete_old_isvcs E ns cutoff items [];
          ret (errors_join errs)
        })
   }"

text \<open>The switch over the owner's kind; \<open>None\<close> is its default branch.\<close>

definition idle_action :: "ienv \<Rightarrow> idler \<Rightarrow> owner \<Rightarrow> err option iprog option" where
  "idle_action E idl o1 =
     (let k = ow_kind o1 in
      if k \<in> {''Deployment'', ''ReplicaSet'', ''Integration'', ''KameletBinding'', ''StatefulSet'',
              ''ReplicationController''} then Some (scaleToZero E o1)
      else if k \<in> {''DaemonSet'', ''Job'', ''DataVolume'', ''PersistentVolumeClaim''}
        then Some (deleteResource E o1)
      else if k = ''DeploymentConfig'' then Some (scaleDeploymentConfigToZero E o1)
      else if k = ''VirtualMachine'' then Some (stopVirtualMachine E o1)
      else if k = ''AnsibleAutomationPlatform'' then Some (idleAAP E o1)
      else if k = ''Claw'' then Some (idleClaw E o1)
      else if k = ''ServingRuntime'' then Some (idleServingRuntime E idl o1)
      else None)"

text \<open>
  The loop over the owners, top owner first, with its variables \<open>attempted\<close>, \<open>topOwnerKind\<close>,
  \<open>topOwnerName\<close> and \<open>errToReturn\<close>.  \<open>Inl\<close> is the return inside the loop, \<open>Inr\<close> its end or
  break.  \<open>start\<close> is the pod's start time and \<open>tmo\<close> its timeout in seconds.
\<close>

type_synonym owner_loop = "bool \<times> string \<times> string \<times> err option"

fun owners_loop :: "ienv \<Rightarrow> idler \<Rightarrow> int \<Rightarrow> int \<Rightarrow> owner list \<Rightarrow> owner_loop \<Rightarrow>
    ((string \<times> string \<times> err option) + owner_loop) iprog" where
  "owners_loop E idl start tmo [] v = ret (Inr v)"
| "owners_loop E idl start tmo (o1 # os) (attempted, kind, name, e) =
     (if IsBeingDeleted (ie_lib E) (ow_meta o1)
      then owners_loop E idl start tmo os (False, kind, name, e)
      else (case idle_action E idl o1 of
          None \<Rightarrow> owners_loop E idl start tmo os (attempted, kind, name, e)
        | Some action \<Rightarrow> do {
            err \<leftarrow> action;
            if kind = []
            then do {
              late \<leftarrow> (if err = None
                       then do { now \<leftarrow> clock (ie_now E); ret (now > start + seconds (percent105 tmo)) }
                       else ret True);
              if \<not> late then ret (Inl (ow_kind o1, m_name (ow_meta o1), None))
              else owners_loop E idl start tmo os (True, ow_kind o1, m_name (ow_meta o1), err)
            }
            else ret (Inr (True, kind, name, errors_join [e, err]))
          }))"

definition scaleOwnerToZero :: "ienv \<Rightarrow> idler \<Rightarrow> pod \<Rightarrow> int \<Rightarrow> (string \<times> string \<times> err option) iprog" where
  "scaleOwnerToZero E idl pod start = do {
     (owners, _) \<leftarrow> call_both (\<lambda>tr. ie_get_owners E tr pod)
       (GetOwners (m_ns (p_meta pod)) (m_name (p_meta pod)));
     let tmo = getTimeout idl pod;
     r \<leftarrow> owners_loop E idl start tmo owners (False, [], [], None);
     (case r of
        Inl res \<Rightarrow> ret res
      | Inr (attempted, kind, name, e) \<Rightarrow> do {
          late \<leftarrow> (if \<not> attempted
                   then do { now \<leftarrow> clock (ie_now E); ret (now > start + seconds (percent110 tmo)) }
                   else ret False);
          if late then ret ([], [], e) else ret (kind, name, e)
        })
   }"

section \<open>Notifications\<close>

text \<open>The loop over the MasterUserRecords; an error returns with the e-mails found so far.\<close>

fun mur_emails :: "ienv \<Rightarrow> string \<Rightarrow> string list \<Rightarrow> string list \<Rightarrow> (string list \<times> err option) iprog" where
  "mur_emails E hostns [] emails = ret (emails, None)"
| "mur_emails E hostns (mur # murs) emails = do {
     r \<leftarrow> call (\<lambda>tr. ie_get_mur E tr hostns mur) (GetMUR hostns mur);
     (case r of
        Inl e \<Rightarrow> ret (emails, Some (Wrapped ''could not get the MUR'' e))
      | Inr email \<Rightarrow> mur_emails E hostns murs (if email \<noteq> [] then emails @ [email] else emails))
   }"

definition getUserEmailsFromMURs :: "ienv \<Rightarrow> string \<Rightarrow> idler \<Rightarrow> (string list \<times> err option) iprog" where
  "getUserEmailsFromMURs E hostns idl =
     (case lookup (m_labels (id_meta idl)) SpaceLabelKey of
        None \<Rightarrow> ret ([], None)
      | Some space \<Rightarrow> do {
          r \<leftarrow> call (\<lambda>tr. ie_get_nstt E tr (ie_namespace E) space) (GetNSTemplateSet (ie_namespace E) space);
          (case r of
             Inl e \<Rightarrow> ret ([], Some e)
           | Inr roles \<Rightarrow> mur_emails E hostns (concat roles) [])
        })"

text \<open>One notification per e-mail address, all under the same name; the first failure returns.\<close>

fun create_notifications :: "ienv \<Rightarrow> string \<Rightarrow> string \<Rightarrow> (string \<times> string) list \<Rightarrow> string list \<Rightarrow> err option iprog" where
  "create_notifications E hostns nname kv [] = ret None"
| "create_notifications E hostns nname kv (email # emails) = do {
     e \<leftarrow> exec E (CreateNotification hostns nname kv email);
     (case e of
        Some e \<Rightarrow> ret (Some (Wrapped ''unable to create Notification CR from Idler'' e))
      | None \<Rightarrow> create_notifications E hostns nname kv emails)
   }"

definition createNotification :: "ienv \<Rightarrow> string \<Rightarrow> string \<Rightarrow> err option iprog" where
  "createNotification E appName appType = do {
     host \<leftarrow> peek (ie_host E);
     idl \<leftarrow> get_mem;
     (case host of
        None \<Rightarrow> ret (Some (Msg ''unable to get the host cluster''))
      | Some hostns \<Rightarrow>
          if IsTrue (ie_lib E) (id_conds idl) IdlerTriggeredNotificationCreated then ret None
          else do {
            let nname = m_name (id_meta idl) @ ''-'' @ ie_type_idled E;
            found \<leftarrow> exec E (GetNotification hostns nname);
            (case found of
               None \<Rightarrow> setStatusIdlerNotificationCreated E
             | Some e \<Rightarrow>
                 if \<not> IsNotFound (ie_lib E) e then ret (Some e)
                 else do {
                   (emails, err) \<leftarrow> getUserEmailsFromMURs E hostns idl;
                   (case err of
                      Some e \<Rightarrow> ret (Some e)
                    | None \<Rightarrow>
                        if emails = [] then ret (Some (Msg ''no email found for the user in MURs''))
                        else do {
                          err \<leftarrow> create_notifications E hostns nname
                            [(''Namespace'', m_name (id_meta idl)), (''AppName'', appName), (''AppType'', appType)]
                            emails;
                          (case err of
                             Some e \<Rightarrow> ret (Some e)
                           | None \<Rightarrow> setStatusIdlerNotificationCreated E)
                        })
                 })
          })
   }"

definition notify :: "ienv \<Rightarrow> string \<Rightarrow> string \<Rightarrow> unit iprog" where
  "notify E appName appType = do {
     err \<leftarrow> createNotification E appName appType;
     (case err of
        None \<Rightarrow> ret ()
      | Some e \<Rightarrow> do { _ \<leftarrow> setStatusIdlerNotificationCreationFailed E (err_text e); ret () })
   }"

section \<open>Idling\<close>

text \<open>
  \<open>start\<close> is the pod's start time: the source dereferences \<open>pod.Status.StartTime\<close>, and
  \<open>ensureIdling\<close> calls this function only where it is set.
\<close>

definition deletePodsAndCreateNotification :: "ienv \<Rightarrow> pod \<Rightarrow> int \<Rightarrow> err option iprog" where
  "deletePodsAndCreateNotification E pod start = do {
     let isCompleted = pod_completed (p_conds pod);
     idl \<leftarrow> get_mem;
     (appType, appName, err) \<leftarrow> scaleOwnerToZero E idl pod start;
     (case err of
        Some e \<Rightarrow> if IsNotFound (ie_lib E) e then ret None else ret (Some e)
      | None \<Rightarrow> do {
          let deletedByController = (appType \<noteq> []);
          let isEvicted = (p_reason pod = ''Evicted'');
          err \<leftarrow> (if \<not> deletedByController \<or> isCompleted \<or> isEvicted
                  then exec E (DeletePod (m_ns (p_meta pod)) (m_name (p_meta pod)))
                  else ret None);
          (case err of
             Some e \<Rightarrow> ret (Some e)
           | None \<Rightarrow> do {
               _ \<leftarrow> (if \<not> isCompleted \<or> deletedByController
                     then (if appName = [] then notify E (m_name (p_meta pod)) ''Pod''
                           else notify E appName appType)
                     else ret ());
               ret None
             })
        })
   }"

text \<open>
  The loop over the pods with \<open>requeueAfter\<close> and \<open>idleErrors\<close>.  A pod that is killed leaves its
  iteration early (\<open>continue\<close>); one whose killing failed goes on to the next check.
\<close>

definition next_check :: "ienv \<Rightarrow> pod \<Rightarrow> int \<Rightarrow> int \<Rightarrow> int iprog" where
  "next_check E pod tmo requeue =
     (case p_start pod of
        Some start \<Rightarrow> do {
          now \<leftarrow> clock (ie_now E);
          let killAfter = sat64 (start + seconds (wrap32 (tmo + 1)) - now);
          ret (shorterDuration requeue killAfter)
        }
      | None \<Rightarrow> ret (shorterDuration requeue (seconds tmo)))"

definition kill_if_restarting :: "ienv \<Rightarrow> pod \<Rightarrow> int \<Rightarrow> (bool \<times> err option) iprog" where
  "kill_if_restarting E pod start =
     (if getHighestRestartCount pod > restartThreshold
      then do {
        err \<leftarrow> deletePodsAndCreateNotification E pod start;
        ret (err = None, err)
      }
      else ret (False, None))"

definition kill_if_expired :: "ienv \<Rightarrow> pod \<Rightarrow> int \<Rightarrow> int \<Rightarrow> (bool \<times> err option) iprog" where
  "kill_if_expired E pod start tmo = do {
     now \<leftarrow> clock (ie_now E);
     if now > start + seconds tmo
     then do {
       err \<leftarrow> deletePodsAndCreateNotification E pod start;
       ret (err = None, err)
     }
     else ret (False, None)
   }"

definition idle_pod :: "ienv \<Rightarrow> pod \<Rightarrow> int \<Rightarrow> (int \<times> err option list) iprog" where
  "idle_pod E pod requeue = do {
     idl \<leftarrow> get_mem;
     let tmo = getTimeout idl pod;
     (case p_start pod of
        None \<Rightarrow> do { d \<leftarrow> next_check E pod tmo requeue; ret (d, []) }
      | Some start \<Rightarrow> do {
          (killed, err1) \<leftarrow> kill_if_restarting E pod start;
          if killed then ret (requeue, [])
          else do {
            (killed, err2) \<leftarrow> kill_if_expired E pod start tmo;
            if killed then ret (shorterDuration requeue (seconds (five_percent tmo)), [err1])
            else do { d \<leftarrow> next_check E pod tmo requeue; ret (d, [err1, err2]) }
          }
        })
   }"

fun idle_pods :: "ienv \<Rightarrow> pod list \<Rightarrow> int \<Rightarrow> err option list \<Rightarrow> (int \<times> err option list) iprog" where
  "idle_pods E [] requeue errs = ret (requeue, errs)"
| "idle_pods E (pod # pods) requeue errs = do {
     (d, es) \<leftarrow> idle_pod E pod requeue;
     idle_pods E pods d (errs @ es)
   }"

definition ensureIdling :: "ienv \<Rightarrow> (int \<times> err option) iprog" where
  "ensureIdling E = do {
     idl \<leftarrow> get_mem;
     r \<leftarrow> call (\<lambda>tr. ie_list_pods E tr (m_name (id_meta idl))) (ListPods (m_name (id_meta idl)));
     (case r of
        Inl e \<Rightarrow> ret (0, Some e)
      | Inr pods \<Rightarrow> do {
          (d, errs) \<leftarrow> idle_pods E pods (seconds (id_timeout idl)) [];
          ret (d, errors_join errs)
        })
   }"

text \<open>
  \<open>Reconcile\<close>: the first component of the result is \<open>RequeueAfter\<close>.  The handler starts with
  no object in memory, so it sets the fetched idler.
\<close>

definition Reconcile :: "ienv \<Rightarrow> string \<Rightarrow> (int \<times> err option) iprog" where
  "Reconcile E name = do {
     r \<leftarrow> call (\<lambda>tr. ie_get_idler E tr name) (GetIdler name);
     (case r of
        Inl e \<Rightarrow> if IsNotFound (ie_lib E) e then ret (0, None) else ret (0, Some e)
      | Inr idl \<Rightarrow> do {
          set_mem idl;
          if IsBeingDeleted (ie_lib E) (id_meta idl) then ret (0, None)
          else if id_timeout idl = 0 then do { e \<leftarrow> setStatusNoDeactivation E; ret (0, e) }
          else if id_timeout idl < 0
          then do { e \<leftarrow> setStatusFailed E ''timeoutSeconds should be bigger than 0''; ret (0, e) }
          else do {
            (requeueAfter, err) \<leftarrow> ensureIdling E;
            (case err of
               Some _ \<Rightarrow> do {
                 idl \<leftarrow> get_mem;
                 e \<leftarrow> wrapErrorWithStatusUpdate (setStatusFailed E) err
                   (''failed to ensure idling '' @ [CHR 0x27] @ m_name (id_meta idl) @ [CHR 0x27]);
                 ret (0, e)
               }
             | None \<Rightarrow> do { e \<leftarrow> setStatusReady E; ret (requeueAfter, e) })
          }
        })
   }"

section \<open>Watches\<close>

definition PriorityClassName :: string where
  "PriorityClassName = ''sandbox-users-pods''"

text \<open>The events of the pod informer and what \<open>PodIdlerPredicate\<close> lets through.\<close>

datatype pod_event =
    PodCreated pod | PodUpdated pod pod | PodDeleted pod | PodGeneric pod

fun PodIdlerPredicate :: "pod_event \<Rightarrow> bool" where
  "PodIdlerPredicate (PodUpdated old new) =
     (if p_priority_class new \<noteq> PriorityClassName then False
      else (p_start old = None \<and> p_start new \<noteq> None)
        \<or> getHighestRestartCount new > aapRestartThreshold)"
| "PodIdlerPredicate (PodCreated pod) = False"
| "PodIdlerPredicate (PodDeleted pod) = (p_priority_class pod = PriorityClassName)"
| "PodIdlerPredicate (PodGeneric pod) = False"

definition MapPodToIdler :: "pod \<Rightarrow> string list" where
  "MapPodToIdler pod = [m_ns (p_meta pod)]"

end
