(* ===== verification/IdlerProofs.thy ===== *)
theory IdlerProofs
  imports Idler
begin

text \<open>
  What the idler controller guarantees: the loop over a pod's owners idles the top owner and, when
  that fails or does not help, exactly one more; every pod whose time is over is attempted
  in every reconcile, whatever happens to the other pods; nothing is touched that is not due; the
  next reconcile is scheduled within the timeout.  Some lemmas show limits of the code.
\<close>

section \<open>The owners loop\<close>

lemma idle_action_kind: "idle_action E idl o1 = Some act \<Longrightarrow> ow_kind o1 \<noteq> []"
  by (auto simp: idle_action_def Let_def split: if_splits)

definition idleable :: "ienv \<Rightarrow> idler \<Rightarrow> owner \<Rightarrow> bool" where
  "idleable E idl o1 \<longleftrightarrow> \<not> IsBeingDeleted (ie_lib E) (ow_meta o1) \<and> idle_action E idl o1 \<noteq> None"

definition run_action :: "ienv \<Rightarrow> idler \<Rightarrow> owner \<Rightarrow> err option iprog" where
  "run_action E idl o1 = (case idle_action E idl o1 of None \<Rightarrow> ret None | Some act \<Rightarrow> act)"

definition none_deleting :: "ienv \<Rightarrow> owner list \<Rightarrow> bool" where
  "none_deleting E os \<longleftrightarrow> list_all (\<lambda>o1. \<not> IsBeingDeleted (ie_lib E) (ow_meta o1)) os"

definition overrun :: "ienv \<Rightarrow> int \<Rightarrow> int \<Rightarrow> err option \<Rightarrow> bool iprog" where
  "overrun E start tmo err =
     (if err = None
      then do { now \<leftarrow> clock (ie_now E); ret (now > start + seconds (percent105 tmo)) }
      else ret True)"

definition idle_first_two :: "ienv \<Rightarrow> idler \<Rightarrow> int \<Rightarrow> int \<Rightarrow> owner list \<Rightarrow>
    ((string \<times> string \<times> err option) + owner_loop) iprog" where
  "idle_first_two E idl start tmo os =
     (case filter (idleable E idl) os of
        [] \<Rightarrow> ret (Inr (False, [], [], None))
      | o1 # rest \<Rightarrow> do {
          err \<leftarrow> run_action E idl o1;
          late \<leftarrow> overrun E start tmo err;
          if \<not> late then ret (Inl (ow_kind o1, m_name (ow_meta o1), None))
          else (case rest of
              [] \<Rightarrow> ret (Inr (none_deleting E (tl (dropWhile (\<lambda>x. \<not> idleable E idl x) os)),
                       ow_kind o1, m_name (ow_meta o1), err))
            | o2 # _ \<Rightarrow> do {
                err2 \<leftarrow> run_action E idl o2;
                ret (Inr (True, ow_kind o1, m_name (ow_meta o1), errors_join [err, err2]))
              })
        })"

lemma owners_loop_second:
  "kind \<noteq> [] \<Longrightarrow>
   owners_loop E idl start tmo os (attempted, kind, name, e) =
     (case filter (idleable E idl) os of
        [] \<Rightarrow> ret (Inr (attempted \<and> none_deleting E os, kind, name, e))
      | o2 # _ \<Rightarrow> do {
          err2 \<leftarrow> run_action E idl o2;
          ret (Inr (True, kind, name, errors_join [e, err2]))
        })"
proof (induction os arbitrary: attempted)
  case Nil
  then show ?case by (simp add: none_deleting_def)
next
  case (Cons o1 os)
  then show ?case
    by (cases "idle_action E idl o1") (auto simp: idleable_def none_deleting_def run_action_def split: list.splits)
qed

lemma owners_loop_first:
  "owners_loop E idl start tmo os (attempted, [], [], None) =
   (if filter (idleable E idl) os = [] then ret (Inr (attempted \<and> none_deleting E os, [], [], None))
    else idle_first_two E idl start tmo os)"
proof (induction os arbitrary: attempted)
  case Nil
  then show ?case by (simp add: none_deleting_def)
next
  case (Cons o1 os)
  show ?case
  proof (cases "idleable E idl o1")
    case True
    then obtain act where act: "\<not> IsBeingDeleted (ie_lib E) (ow_meta o1)" "idle_action E idl o1 = Some act"
      by (auto simp: idleable_def)
    from act(2) have kind: "ow_kind o1 \<noteq> []" by (rule idle_action_kind)
    note second = owners_loop_second [OF kind, where attempted = True]
    have drop: "dropWhile (\<lambda>x. \<not> idleable E idl x) (o1 # os) = o1 # os"
      using True by simp
    show ?thesis
      unfolding idle_first_two_def drop
      by (cases "filter (idleable E idl) os")
         (simp_all add: act True run_action_def overrun_def second cong: if_cong)
  next
    case False
    then have skip: "dropWhile (\<lambda>x. \<not> idleable E idl x) (o1 # os) = dropWhile (\<lambda>x. \<not> idleable E idl x) os"
        "filter (idleable E idl) (o1 # os) = filter (idleable E idl) os"
      by simp_all
    have "idle_first_two E idl start tmo (o1 # os) = idle_first_two E idl start tmo os"
      unfolding idle_first_two_def skip ..
    moreover have "owners_loop E idl start tmo (o1 # os) (attempted, [], [], None) =
        owners_loop E idl start tmo os (attempted \<and> \<not> IsBeingDeleted (ie_lib E) (ow_meta o1), [], [], None)"
      using False by (auto simp: idleable_def)
    ultimately show ?thesis
      using Cons.IH False by (simp add: none_deleting_def conj_assoc)
  qed
qed

lemma owners_loop_eq:
  "owners_loop E idl start tmo os (False, [], [], None) = idle_first_two E idl start tmo os"
  by (simp add: owners_loop_first) (simp add: idle_first_two_def)

text \<open>Which owner a call is about.\<close>

fun concerns :: "owner \<Rightarrow> icall \<Rightarrow> bool" where
  "concerns o1 (PatchScale g ns n p) = (g = ow_gvr o1 \<and> ns = m_ns (ow_meta o1) \<and> n = m_name (ow_meta o1))"
| "concerns o1 (PatchResource g ns n p) = (g = ow_gvr o1 \<and> ns = m_ns (ow_meta o1) \<and> n = m_name (ow_meta o1))"
| "concerns o1 (Idler.DeleteResource g ns n p) = (g = ow_gvr o1 \<and> ns = m_ns (ow_meta o1) \<and> n = m_name (ow_meta o1))"
| "concerns o1 (StopVM u ns n) = (ns = m_ns (ow_meta o1) \<and> n = m_name (ow_meta o1))"
| "concerns o1 (ListInferenceServices g ns) = (ow_kind o1 = ''ServingRuntime'' \<and> ns = m_ns (ow_meta o1))"
| "concerns o1 (DeleteInferenceService g ns n) = (ow_kind o1 = ''ServingRuntime'' \<and> ns = m_ns (ow_meta o1))"
| "concerns o1 _ = False"

lemma delete_old_isvcs_emits:
  "ow_kind o1 = ''ServingRuntime'' \<Longrightarrow>
   emits (\<lambda>(c, ok). concerns o1 c) (delete_old_isvcs E (m_ns (ow_meta o1)) cutoff is errs)"
  by (induction "is" arbitrary: errs) (auto intro!: emits_rules)

lemma run_action_emits: "emits (\<lambda>(c, ok). concerns o1 c) (run_action E idl o1)"
  unfolding run_action_def idle_action_def scaleToZero_def deleteResource_def
    scaleDeploymentConfigToZero_def stopVirtualMachine_def idleAAP_def idleClaw_def
    idleServingRuntime_def Let_def
  by (auto intro!: emits_rules delete_old_isvcs_emits split: prod.splits)

lemma owners_loop_touches:
  "emits (\<lambda>(c, ok). \<exists>o1. o1 \<in> set (take 2 (filter (idleable E idl) os)) \<and> concerns o1 c)
     (owners_loop E idl start tmo os (False, [], [], None))"
proof (cases "filter (idleable E idl) os")
  case Nil
  then show ?thesis by (simp add: owners_loop_eq idle_first_two_def emits_rules)
next
  case (Cons o1 rest)
  let ?P = "\<lambda>(c, ok). \<exists>o1. o1 \<in> set (take 2 (filter (idleable E idl) os)) \<and> concerns o1 c"
  have one: "emits ?P (run_action E idl x)" if "x \<in> set (take 2 (filter (idleable E idl) os))" for x
    by (rule emits_mono [OF run_action_emits]) (use that in auto)
  have "emits ?P (run_action E idl o1)" by (rule one) (simp add: Cons)
  moreover have "emits ?P (run_action E idl o2)" if "rest = o2 # more" for o2 more
    by (rule one) (simp add: Cons that)
  ultimately show ?thesis
    unfolding owners_loop_eq idle_first_two_def overrun_def Cons list.case
    by (cases rest) (simp_all add: emits_rules)
qed

section \<open>Status writes\<close>

fun is_status_call :: "icall \<Rightarrow> bool" where
  "is_status_call (UpdateIdlerStatus i) = True"
| "is_status_call _ = False"

interpretation idler_status: status_writer "\<lambda>c. updateStatusConditions E [c]" is_status_call
  by unfold_locales
     (auto simp: updateStatusConditions_def wp_simps Let_def split: prod.splits sum.splits)

text \<open>The status subresource: an update of the status leaves the spec and the name alone.\<close>

definition status_subresource :: "ienv \<Rightarrow> bool" where
  "status_subresource E \<longleftrightarrow>
     (\<forall>tr i j. ie_update_status E tr i = Inr j \<longrightarrow>
        id_timeout j = id_timeout i \<and> m_name (id_meta j) = m_name (id_meta i))"

abbreviation spec :: "idler \<Rightarrow> int \<times> string" where
  "spec i \<equiv> (id_timeout i, m_name (id_meta i))"

lemma updateStatusConditions_keeps [keeps_rules]:
  assumes "status_subresource E"
  shows "keeps spec (updateStatusConditions E cs)"
  by (rule wp_keeps)
     (use assms in \<open>auto simp: updateStatusConditions_def wp_simps Let_def status_subresource_def
       split: prod.splits sum.splits\<close>)

lemmas setStatus_defs = setStatusFailed_def setStatusReady_def setStatusNoDeactivation_def
  setStatusIdlerNotificationCreated_def setStatusIdlerNotificationCreationFailed_def

lemma setStatus_keeps [keeps_rules]:
  assumes "status_subresource E"
  shows "keeps spec (setStatusIdlerNotificationCreated E)"
    and "keeps spec (setStatusIdlerNotificationCreationFailed E m)"
    and "keeps spec (setStatusFailed E m)" and "keeps spec (setStatusReady E)"
  using assms by (simp_all add: setStatus_defs updateStatusConditions_keeps)

lemma delete_old_isvcs_keeps [keeps_rules]: "keeps f (delete_old_isvcs E ns cutoff is errs)"
  by (induction "is" arbitrary: errs) (auto intro!: keeps_rules)

lemma run_action_keeps [keeps_rules]: "keeps f (run_action E idl o1)"
  unfolding run_action_def idle_action_def scaleToZero_def deleteResource_def
    scaleDeploymentConfigToZero_def stopVirtualMachine_def idleAAP_def idleClaw_def
    idleServingRuntime_def Let_def
  by (auto intro!: keeps_rules split: prod.splits)

lemma owners_loop_keeps [keeps_rules]: "keeps f (owners_loop E idl start tmo os (False, [], [], None))"
  unfolding owners_loop_eq idle_first_two_def overrun_def
  by (auto intro!: keeps_rules split: list.splits)

lemma scaleOwnerToZero_keeps [keeps_rules]: "keeps f (scaleOwnerToZero E idl pod start)"
  unfolding scaleOwnerToZero_def Let_def by (auto intro!: keeps_rules)

lemma mur_emails_keeps [keeps_rules]: "keeps f (mur_emails E hostns murs emails)"
  by (induction murs arbitrary: emails) (auto intro!: keeps_rules)

lemma create_notifications_keeps [keeps_rules]: "keeps f (create_notifications E hostns nname kv emails)"
  by (induction emails) (auto intro!: keeps_rules)

lemma notify_keeps [keeps_rules]: "status_subresource E \<Longrightarrow> keeps spec (notify E n t)"
  unfolding notify_def createNotification_def getUserEmailsFromMURs_def Let_def
  by (auto intro!: keeps_rules)

lemma deletePodsAndCreateNotification_keeps [keeps_rules]:
  "status_subresource E \<Longrightarrow> keeps spec (deletePodsAndCreateNotification E pod start)"
  unfolding deletePodsAndCreateNotification_def Let_def by (auto intro!: keeps_rules)

lemma idle_pod_keeps [keeps_rules]: "status_subresource E \<Longrightarrow> keeps spec (idle_pod E pod d)"
  unfolding idle_pod_def kill_if_restarting_def kill_if_expired_def next_check_def Let_def
  by (auto intro!: keeps_rules)

section \<open>The history grows\<close>

lemma delete_old_isvcs_grows [emits_rules]: "grows (delete_old_isvcs E ns cutoff is errs)"
  by (induction "is" arbitrary: errs) (auto intro!: emits_rules)

lemma run_action_grows [emits_rules]: "grows (run_action E idl o1)"
  by (rule emits_mono [OF run_action_emits]) simp

lemma owners_loop_grows [emits_rules]: "grows (owners_loop E idl start tmo os (False, [], [], None))"
  unfolding owners_loop_eq idle_first_two_def overrun_def
  by (auto intro!: emits_rules split: list.splits)

lemma updateStatusConditions_grows [emits_rules]: "grows (updateStatusConditions E cs)"
  unfolding updateStatusConditions_def Let_def by (auto intro!: emits_rules split: prod.splits)

lemma mur_emails_grows [emits_rules]: "grows (mur_emails E hostns murs emails)"
  by (induction murs arbitrary: emails) (auto intro!: emits_rules)

lemma create_notifications_grows [emits_rules]: "grows (create_notifications E hostns nname kv emails)"
  by (induction emails) (auto intro!: emits_rules)

lemma notify_grows [emits_rules]: "grows (notify E n t)"
  unfolding notify_def createNotification_def getUserEmailsFromMURs_def setStatus_defs Let_def
  by (auto intro!: emits_rules)

lemma scaleOwnerToZero_grows [emits_rules]: "grows (scaleOwnerToZero E idl pod start)"
  unfolding scaleOwnerToZero_def Let_def by (auto intro!: emits_rules)

lemma deletePodsAndCreateNotification_grows [emits_rules]:
  "grows (deletePodsAndCreateNotification E pod start)"
  unfolding deletePodsAndCreateNotification_def Let_def by (auto intro!: emits_rules)

lemma idle_pod_grows [emits_rules]: "grows (idle_pod E pod d)"
  unfolding idle_pod_def kill_if_restarting_def kill_if_expired_def next_check_def Let_def
  by (auto intro!: emits_rules)

lemma idle_pods_grows [emits_rules]: "grows (idle_pods E pods d errs)"
  by (induction pods arbitrary: d errs) (auto intro!: emits_rules)

section \<open>One pod\<close>

definition owners_call :: "pod \<Rightarrow> icall" where
  "owners_call pod = GetOwners (m_ns (p_meta pod)) (m_name (p_meta pod))"

lemma scaleOwnerToZero_calls: "wp (scaleOwnerToZero E idl pod start) (\<lambda>r s'. called (owners_call pod) s') s"
  unfolding scaleOwnerToZero_def Let_def
  by (rule called_bind) (auto simp: wp_simps owners_call_def intro!: emits_rules)

lemma deletePods_calls:
  "wp (deletePodsAndCreateNotification E pod start) (\<lambda>r s'. called (owners_call pod) s') s"
  unfolding deletePodsAndCreateNotification_def Let_def wp_bind [of get_mem] wp_get_mem
  by (rule called_bind [OF scaleOwnerToZero_calls]) (auto intro!: emits_rules)

lemma kill_if_restarting_calls:
  "wp (kill_if_restarting E pod start) (\<lambda>r s'. fst r \<longrightarrow> called (owners_call pod) s') s"
  unfolding kill_if_restarting_def
  by (auto simp: wp_simps intro: wp_mono [OF deletePods_calls])

lemma kill_if_expired_calls:
  assumes "\<forall>t. start + seconds tmo < ie_now E t"
  shows "wp (kill_if_expired E pod start tmo) (\<lambda>r s'. called (owners_call pod) s') s"
  unfolding kill_if_expired_def
  using assms by (auto simp: wp_simps intro: wp_mono [OF deletePods_calls])

lemma next_check_grows [emits_rules]: "grows (next_check E pod tmo d)"
  unfolding next_check_def Let_def by (auto intro!: emits_rules)

lemma idle_pod_calls:
  assumes "p_start pod = Some start" and "id_timeout (mem s) = id_timeout idl"
    and "\<forall>t. start + seconds (getTimeout idl pod) < ie_now E t"
  shows "wp (idle_pod E pod d) (\<lambda>r s'. called (owners_call pod) s') s"
proof -
  have tmo: "getTimeout (mem s) pod = getTimeout idl pod"
    using assms(2) by (simp add: getTimeout_def)
  show ?thesis
    unfolding idle_pod_def Let_def wp_bind wp_get_mem assms(1) option.case tmo
    by (rule wp_mono [OF kill_if_restarting_calls])
       (auto simp: wp_simps emits_rules split: prod.splits
         intro!: wp_mono [OF kill_if_expired_calls [OF assms(3)]] called_grows_mono)
qed

lemma idle_pods_calls:
  assumes "status_subresource E" and "pod \<in> set pods" and "p_start pod = Some start"
    and "\<forall>t. start + seconds (getTimeout idl pod) < ie_now E t"
    and "id_timeout (mem s) = id_timeout idl"
  shows "wp (idle_pods E pods d errs) (\<lambda>r s'. called (owners_call pod) s') s"
  using assms(2,5)
proof (induction pods arbitrary: d errs s)
  case Nil
  then show ?case by simp
next
  case (Cons p pods)
  show ?case
  proof (cases "p = pod")
    case True
    show ?thesis
      unfolding idle_pods.simps True
      by (rule called_bind [OF idle_pod_calls [OF assms(3) Cons.prems(2) assms(4)]])
         (auto intro!: emits_rules)
  next
    case False
    have "wp (idle_pod E p d) (\<lambda>r s'. id_timeout (mem s') = id_timeout idl) s"
      by (rule wp_mono [OF keeps_wp [OF idle_pod_keeps [OF assms(1)]]]) (use Cons.prems in auto)
    then show ?thesis
      unfolding idle_pods.simps wp_bind
      by (rule wp_mono) (use Cons.IH Cons.prems False in \<open>auto simp: wp_simps split: prod.splits\<close>)
  qed
qed

section \<open>Requeueing\<close>

lemma shorterDuration_bounds: "0 \<le> d \<Longrightarrow> 0 \<le> shorterDuration d x \<and> shorterDuration d x \<le> d \<and> shorterDuration d x \<le> max 0 x"
  by (auto simp: shorterDuration_def Let_def)

lemma next_check_bounds: "0 \<le> d \<Longrightarrow> wp (next_check E pod tmo d) (\<lambda>r s'. 0 \<le> r \<and> r \<le> d) s"
  unfolding next_check_def Let_def using shorterDuration_bounds
  by (auto simp: wp_simps split: option.splits)

lemma idle_pod_bounds: "0 \<le> d \<Longrightarrow> wp (idle_pod E pod d) (\<lambda>r s'. 0 \<le> fst r \<and> fst r \<le> d) s"
proof (cases "p_start pod")
  case None
  assume "0 \<le> d"
  then show ?thesis
    unfolding idle_pod_def Let_def
    by (auto simp: None wp_simps intro: wp_mono [OF next_check_bounds])
next
  case (Some start)
  assume d: "0 \<le> d"
  have step: "wp (next_check E pod tmo d) (\<lambda>x. wp (ret (x, es)) (\<lambda>r s'. 0 \<le> fst r \<and> fst r \<le> d)) s1" for tmo es s1
    by (rule wp_mono [OF next_check_bounds [OF d]]) (simp add: wp_simps)
  show ?thesis
    unfolding idle_pod_def Let_def wp_bind wp_get_mem Some option.case
    by (rule wp_any, simp add: wp_simps d split: prod.splits, intro allI impI, rule wp_any)
       (auto simp: wp_simps shorterDuration_bounds d intro!: step)
qed

lemma idle_pods_bounds:
  "0 \<le> d \<Longrightarrow> wp (idle_pods E pods d errs) (\<lambda>r s'. 0 \<le> fst r \<and> fst r \<le> d) s"
proof (induction pods arbitrary: d errs s)
  case Nil
  then show ?case by (simp add: wp_simps)
next
  case (Cons p pods)
  show ?case
    unfolding idle_pods.simps wp_bind
    by (rule wp_mono [OF idle_pod_bounds [OF Cons.prems]])
       (auto simp: wp_simps split: prod.splits intro: wp_mono [OF Cons.IH])
qed

section \<open>Pods that are not due\<close>

definition not_due :: "ienv \<Rightarrow> int \<Rightarrow> pod \<Rightarrow> bool" where
  "not_due E tmo pod \<longleftrightarrow> getHighestRestartCount pod \<le> restartThreshold \<and>
     (\<forall>start t. p_start pod = Some start \<longrightarrow> ie_now E t \<le> start + seconds tmo)"

lemma next_check_quiet:
  "wp (next_check E pod tmo d) (\<lambda>r s'. calls s' = calls s \<and> mem s' = mem s) s"
  unfolding next_check_def Let_def by (auto simp: wp_simps split: option.splits)

lemma idle_pod_quiet:
  assumes "not_due E (getTimeout (mem s) pod) pod"
  shows "wp (idle_pod E pod d) (\<lambda>r s'. calls s' = calls s \<and> mem s' = mem s \<and> set (snd r) \<subseteq> {None}) s"
proof -
  let ?tmo = "getTimeout (mem s) pod"
  have "\<not> restartThreshold < getHighestRestartCount pod"
    and "p_start pod = Some start \<Longrightarrow> \<not> start + seconds ?tmo < ie_now E t" for start t
    using assms by (auto simp: not_due_def not_less)
  then show ?thesis
    unfolding idle_pod_def kill_if_restarting_def kill_if_expired_def Let_def next_check_def
    by (cases "p_start pod") (simp_all add: wp_simps Let_def)
qed

lemma idle_pods_quiet:
  assumes "list_all (\<lambda>pod. not_due E (getTimeout (mem s) pod) pod) pods"
  shows "wp (idle_pods E pods d errs)
     (\<lambda>r s'. calls s' = calls s \<and> mem s' = mem s \<and> set (snd r) \<subseteq> insert None (set errs)) s"
  using assms
proof (induction pods arbitrary: d errs s)
  case Nil
  then show ?case by (auto simp: wp_simps)
next
  case (Cons p pods)
  have "not_due E (getTimeout (mem s) p) p" using Cons.prems by simp
  note first = idle_pod_quiet [OF this]
  show ?case
    unfolding idle_pods.simps wp_bind
  proof (rule wp_mono [OF first], clarify)
    fix x :: int and es :: "err option list" and s' :: "(idler, icall) st"
    assume "calls s' = calls s" "mem s' = mem s" "set (snd (x, es)) \<subseteq> {None}"
    then show "wp (idle_pods E pods x (errs @ es))
        (\<lambda>r s'. calls s' = calls s \<and> mem s' = mem s \<and> set (snd r) \<subseteq> insert None (set errs)) s'"
      using Cons.prems by (intro wp_mono [OF Cons.IH]) auto
  qed
qed

text \<open>
  The times after which a pod asks to be checked again: its timeout when it has not started, otherwise from some reading of the
  clock to the second after its deadline, or, when it was killed because it was over its timeout, five percent of that.
\<close>

definition check_time :: "ienv \<Rightarrow> idler \<Rightarrow> pod \<Rightarrow> int \<Rightarrow> bool" where
  "check_time E i pod x \<longleftrightarrow>
     (case p_start pod of
        None \<Rightarrow> x = getTimeout i pod * second
      | Some start \<Rightarrow> (\<exists>t. x = start + (getTimeout i pod + 1) * second - ie_now E t) \<or>
          x = seconds (five_percent (getTimeout i pod)) \<and> (\<exists>t. start + seconds (getTimeout i pod) < ie_now E t))"

lemma shorterDuration_sat64: "d < 2 ^ 63 \<Longrightarrow> shorterDuration d (sat64 x) = shorterDuration d x"
  by (auto simp: shorterDuration_def sat64_def Let_def min_def max_def)

lemma shorterDuration_eq: "0 \<le> d \<Longrightarrow> shorterDuration d x = min d (max 0 x)"
  by (auto simp: shorterDuration_def Let_def min_def max_def)

lemma getTimeout_range: "0 \<le> id_timeout i \<Longrightarrow> id_timeout i < 2 ^ 31 - 1 \<Longrightarrow>
   0 \<le> getTimeout i pod \<and> getTimeout i pod < 2 ^ 31 - 1"
  by (auto simp: getTimeout_def signed_divide_int_def sgn_if)

lemma next_check_time:
  assumes "0 \<le> d" "d < 2 ^ 63" and "0 \<le> id_timeout i" "id_timeout i < 2 ^ 31 - 1"
  shows "wp (next_check E pod (getTimeout i pod) d) (\<lambda>r s'. \<exists>x. check_time E i pod x \<and> r = min d (max 0 x)) s"
proof -
  let ?tmo = "getTimeout i pod"
  have tmo: "0 \<le> ?tmo" "?tmo < 2 ^ 31 - 1" using getTimeout_range assms(3,4) by simp_all
  then have sec: "seconds ?tmo = ?tmo * second" "seconds (wrap32 (?tmo + 1)) = (?tmo + 1) * second"
    by (simp_all add: seconds_int32 wrap32_id)
  show ?thesis
  proof (cases "p_start pod")
    case None
    then show ?thesis
      unfolding next_check_def
      by (simp add: wp_simps sec(1) shorterDuration_eq [OF assms(1)] check_time_def)
  next
    case (Some start)
    have "check_time E i pod (start + (?tmo + 1) * second - ie_now E (tick s))" using Some by (auto simp: check_time_def)
    then show ?thesis
      unfolding next_check_def Some option.case wp_bind wp_clock Let_def wp_return sec(2)
      using shorterDuration_sat64 [OF assms(2)] shorterDuration_eq [OF assms(1)] by auto
  qed
qed

text \<open>A pod that was killed because it restarts too often asks for nothing; every pod that is left alone does.\<close>

definition checked :: "ienv \<Rightarrow> idler \<Rightarrow> pod \<Rightarrow> bool" where
  "checked E i pod \<longleftrightarrow> p_start pod = None \<or> not_due E (getTimeout i pod) pod"

lemma idle_pod_time:
  assumes "0 \<le> d" "d < 2 ^ 63" and "0 \<le> id_timeout i" "id_timeout i < 2 ^ 31 - 1" and "id_timeout (mem s) = id_timeout i"
  shows "wp (idle_pod E pod d)
    (\<lambda>r s'. (\<exists>x. check_time E i pod x \<and> fst r = min d (max 0 x)) \<or> fst r = d \<and> \<not> checked E i pod) s"
proof -
  let ?tmo = "getTimeout i pod"
  let ?Q = "\<lambda>r s'. (\<exists>x. check_time E i pod x \<and> fst r = min d (max 0 x)) \<or> fst r = d \<and> \<not> checked E i pod"
  have tmo: "getTimeout (mem s) pod = ?tmo" using assms(5) by (simp add: getTimeout_def)
  have more: "wp (do { d \<leftarrow> next_check E pod ?tmo d; ret (d, es) }) ?Q s1" for es s1
    unfolding wp_bind by (rule wp_mono [OF next_check_time [OF assms(1-4)]]) (simp add: wp_return)
  show ?thesis
  proof (cases "p_start pod")
    case None
    then show ?thesis unfolding idle_pod_def Let_def wp_bind [of get_mem] wp_get_mem tmo using more by simp
  next
    case (Some start)
    have restarting: "wp (kill_if_restarting E pod start) (\<lambda>r s'. fst r \<longrightarrow> \<not> checked E i pod) s"
      unfolding kill_if_restarting_def using Some
      by (auto simp: wp_simps checked_def not_due_def intro!: wp_any)
    have expired: "wp (kill_if_expired E pod start ?tmo) (\<lambda>r s'. fst r \<longrightarrow> (\<exists>t. start + seconds ?tmo < ie_now E t)) s1" for s1
      unfolding kill_if_expired_def by (auto simp: wp_simps intro!: wp_any)
    have rest: "wp (do {
          (killed, err2) \<leftarrow> kill_if_expired E pod start ?tmo;
          if killed then ret (shorterDuration d (seconds (five_percent ?tmo)), [err1])
          else do { d \<leftarrow> next_check E pod ?tmo d; ret (d, [err1, err2]) } }) ?Q s1" for err1 s1
      unfolding wp_bind [of "kill_if_expired E pod start ?tmo"]
      by (rule wp_mono [OF expired])
         (use more Some in \<open>auto simp: wp_return shorterDuration_eq [OF assms(1)] check_time_def split: prod.splits\<close>)
    show ?thesis
      unfolding idle_pod_def Let_def wp_bind [of get_mem] wp_get_mem tmo Some option.case wp_bind [of "kill_if_restarting E pod start"]
      by (rule wp_mono [OF restarting]) (use rest in \<open>auto simp: wp_return split: prod.splits\<close>)
  qed
qed

lemma idle_pods_time:
  assumes E: "status_subresource E" and "0 \<le> d" "d < 2 ^ 63" and i: "0 \<le> id_timeout i" "id_timeout i < 2 ^ 31 - 1"
    and "id_timeout (mem s) = id_timeout i"
  shows "wp (idle_pods E pods d errs) (\<lambda>r s'. 0 \<le> fst r \<and> fst r \<le> d \<and>
    (\<forall>pod \<in> set pods. checked E i pod \<longrightarrow> (\<exists>x. check_time E i pod x \<and> fst r \<le> max 0 x)) \<and>
    (fst r = d \<or> (\<exists>pod \<in> set pods. \<exists>x. check_time E i pod x \<and> fst r = max 0 x))) s"
  using assms(2,3,6)
proof (induction pods arbitrary: d errs s)
  case (Cons p pods)
  have "wp (idle_pod E p d) (\<lambda>r s'. id_timeout (mem s') = id_timeout i) s"
    by (rule wp_mono [OF keeps_wp [OF idle_pod_keeps [OF E]]]) (use Cons.prems in auto)
  note first = wp_conj [OF this wp_conj [OF idle_pod_bounds [OF Cons.prems(1)] idle_pod_time [OF Cons.prems(1,2) i Cons.prems(3)]]]
  show ?case
    unfolding idle_pods.simps wp_bind
  proof (rule wp_mono [OF first], clarify, goal_cases)
    case (1 d1 es s1)
    then have d1: "0 \<le> d1" "d1 \<le> d" "id_timeout (mem s1) = id_timeout i" by simp_all
    have p: "(\<exists>x. check_time E i p x \<and> d1 = min d (max 0 x)) \<or> d1 = d \<and> \<not> checked E i p" using 1 by simp
    have "d1 < 2 ^ 63" using d1(2) Cons.prems(2) by simp
    show ?case
    proof (rule wp_mono [OF Cons.IH [OF d1(1) \<open>d1 < 2 ^ 63\<close> d1(3)]], elim conjE, intro conjI, goal_cases)
      case (3 r s2)
      have "\<exists>x. check_time E i p x \<and> fst r \<le> max 0 x" if "checked E i p"
        using p that \<open>fst r \<le> d1\<close> by (auto simp: min_def split: if_splits intro: order_trans)
      with 3 show ?case by auto
    next
      case (4 r s2)
      have "d1 = d \<or> (\<exists>x. check_time E i p x \<and> d1 = max 0 x)" using p by (auto simp: min_def split: if_splits)
      with 4 show ?case by auto
    qed (use d1 in auto)
  qed
qed (simp add: wp_simps)

section \<open>Deleting a pod\<close>

definition delete_call :: "pod \<Rightarrow> icall" where
  "delete_call pod = DeletePod (m_ns (p_meta pod)) (m_name (p_meta pod))"

fun is_pod_delete :: "icall \<Rightarrow> bool" where
  "is_pod_delete (DeletePod ns n) = True"
| "is_pod_delete _ = False"

lemma updateStatusConditions_no_delete [emits_rules]:
  "emits (\<lambda>(c, ok). \<not> is_pod_delete c) (updateStatusConditions E cs)"
  unfolding updateStatusConditions_def Let_def by (auto intro!: emits_rules split: prod.splits)

lemma mur_emails_no_delete [emits_rules]:
  "emits (\<lambda>(c, ok). \<not> is_pod_delete c) (mur_emails E hostns murs emails)"
  by (induction murs arbitrary: emails) (auto intro!: emits_rules)

lemma create_notifications_no_delete [emits_rules]:
  "emits (\<lambda>(c, ok). \<not> is_pod_delete c) (create_notifications E hostns nname kv emails)"
  by (induction emails) (auto intro!: emits_rules)

lemma notify_no_delete: "emits (\<lambda>(c, ok). \<not> is_pod_delete c) (notify E n t)"
  unfolding notify_def createNotification_def getUserEmailsFromMURs_def setStatus_defs Let_def
  by (auto intro!: emits_rules)

lemma notify_calls:
  obtains t where "calls (snd (run_state (notify E n k) s)) = calls s @ t" "list_all (\<lambda>(c, ok). \<not> is_pod_delete c) t"
  using notify_no_delete [of E n k] unfolding emits_def by blast

lemma no_delete_in: "list_all (\<lambda>(c, ok). \<not> is_pod_delete c) t \<Longrightarrow> (delete_call pod, ok) \<notin> set t"
  by (auto simp: list_all_iff delete_call_def)

lemma deletePods_after_scaling:
  assumes scaled: "run_state (scaleOwnerToZero E (mem s) pod start) s = ((kind, name, err), s1)"
  shows "\<exists>t. calls (snd (run_state (deletePodsAndCreateNotification E pod start) s)) = calls s1 @ t \<and>
    (\<exists>ok. (delete_call pod, ok) \<in> set t) =
      (err = None \<and> (kind = [] \<or> pod_completed (p_conds pod) \<or> p_reason pod = ''Evicted'')) \<and>
    (err = None \<and> kind = [] \<and> pod_completed (p_conds pod) \<longrightarrow> length t = 1)"
proof (cases err)
  case None
  obtain t1 where t1: "calls (snd (run_state (notify E (m_name (p_meta pod)) ''Pod'') s2)) = calls s2 @ t1 s2"
      "list_all (\<lambda>(c, ok). \<not> is_pod_delete c) (t1 s2)" for s2
    by (metis notify_calls)
  obtain t2 where t2: "calls (snd (run_state (notify E name kind) s2)) = calls s2 @ t2 s2"
      "list_all (\<lambda>(c, ok). \<not> is_pod_delete c) (t2 s2)" for s2
    by (metis notify_calls)
  show ?thesis
    using no_delete_in [OF t1(2), of pod] no_delete_in [OF t2(2), of pod]
    by (simp add: deletePodsAndCreateNotification_def Let_def scaled [unfolded None] None t1(1) t2(1) delete_call_def
        split_beta ex_bool_eq split: option.split) auto
next
  case (Some e)
  then show ?thesis by (simp add: deletePodsAndCreateNotification_def Let_def scaled)
qed

text \<open>The only owner that can be idled was, and one that comes after it is being deleted.\<close>

definition deletion_under_way :: "ienv \<Rightarrow> idler \<Rightarrow> owner list \<Rightarrow> bool" where
  "deletion_under_way E idl os \<longleftrightarrow> (\<exists>us o1 vs. os = us @ o1 # vs \<and> list_all (\<lambda>x. \<not> idleable E idl x) us \<and> idleable E idl o1 \<and>
     list_all (\<lambda>x. \<not> idleable E idl x) vs \<and> \<not> none_deleting E vs)"

lemma deletion_under_way_eq:
  assumes "filter (idleable E idl) os = [o1]"
  shows "deletion_under_way E idl os = (\<not> none_deleting E (tl (dropWhile (\<lambda>x. \<not> idleable E idl x) os)))"
proof -
  from assms obtain us vs where os: "os = us @ o1 # vs" "filter (idleable E idl) us = []" "idleable E idl o1" "filter (idleable E idl) vs = []"
    by (auto simp: filter_eq_Cons_iff)
  have d: "dropWhile (\<lambda>x. \<not> idleable E idl x) (us' @ o' # vs') = o' # vs'" if "list_all (\<lambda>x. \<not> idleable E idl x) us'" "idleable E idl o'" for us' o' vs'
    using that by (induction us') auto
  have no: "list_all (\<lambda>x. \<not> idleable E idl x) us" "list_all (\<lambda>x. \<not> idleable E idl x) vs"
    using os(2,4) by (simp_all add: filter_empty_conv list_all_iff)
  show ?thesis
  proof
    assume "deletion_under_way E idl os"
    then obtain us' o' vs' where "os = us' @ o' # vs'" "list_all (\<lambda>x. \<not> idleable E idl x) us'" "idleable E idl o'" "\<not> none_deleting E vs'"
      by (auto simp: deletion_under_way_def)
    then show "\<not> none_deleting E (tl (dropWhile (\<lambda>x. \<not> idleable E idl x) os))" using d by simp
  next
    assume "\<not> none_deleting E (tl (dropWhile (\<lambda>x. \<not> idleable E idl x) os))"
    then show "deletion_under_way E idl os"
      using d [OF no(1) os(3)] os no unfolding deletion_under_way_def by fastforce
  qed
qed

lemma deletion_under_way_one: "deletion_under_way E idl os \<Longrightarrow> length (filter (idleable E idl) os) = 1"
  by (auto simp: deletion_under_way_def list_all_iff filter_empty_conv [THEN iffD2])

lemma errors_join_Some: "errors_join [e1, e2] = None \<longleftrightarrow> e1 = None \<and> e2 = None"
  by (auto simp: errors_join_def Let_def)

lemma wp_overrun:
  assumes "\<forall>t. (start + seconds (percent105 tmo) < ie_now E t) = late"
  shows "wp (overrun E start tmo err) (\<lambda>b s'. b \<longleftrightarrow> err \<noteq> None \<or> late) s"
  using assms by (cases err) (simp_all add: overrun_def wp_simps)

text \<open>When no owner counts as idled.\<close>

lemma idle_first_two_result:
  assumes late: "\<forall>t. (start + seconds (percent105 tmo) < ie_now E t) = late"
  shows "wp (idle_first_two E idl start tmo os) (\<lambda>r s'. case r of
      Inl (kind, name, err) \<Rightarrow> err = None \<and> kind \<noteq> [] \<and> \<not> late \<and> filter (idleable E idl) os \<noteq> []
    | Inr (attempted, kind, name, err) \<Rightarrow>
        if filter (idleable E idl) os = [] then \<not> attempted \<and> kind = [] \<and> err = None
        else kind \<noteq> [] \<and> (err = None \<longrightarrow> late) \<and> attempted = (\<not> deletion_under_way E idl os)) s" (is "wp _ ?Q s")
proof -
  have kind: "ow_kind o1 \<noteq> []" if "idleable E idl o1" for o1 using that idle_action_kind by (auto simp: idleable_def)
  show ?thesis
  proof (cases "filter (idleable E idl) os")
    case Nil
    then show ?thesis by (simp add: idle_first_two_def wp_return)
  next
    case (Cons o1 rest)
    then have "o1 \<in> set (filter (idleable E idl) os)" by simp
    then have k1: "ow_kind o1 \<noteq> []" using kind by auto
    show ?thesis
    proof (cases rest)
      case Nil
      note one = deletion_under_way_eq [OF Cons [unfolded Nil]]
      show ?thesis
        unfolding idle_first_two_def Cons list.case Nil wp_bind
        by (rule wp_any, rule wp_mono [OF wp_overrun [OF late]]) (auto simp: wp_return k1 one)
    next
      case second: (Cons o2 more)
      then have n: "\<not> deletion_under_way E idl os" using deletion_under_way_one [of E idl os] Cons by auto
      have more: "wp (do { err2 \<leftarrow> run_action E idl o2; ret (Inr (True, ow_kind o1, m_name (ow_meta o1), errors_join [e, err2])) }) ?Q s1"
        if "e \<noteq> None \<or> late" for e s1
        unfolding wp_bind Cons by (rule wp_any) (use that in \<open>auto simp: wp_return k1 n errors_join_Some\<close>)
      show ?thesis
        unfolding idle_first_two_def Cons list.case second wp_bind [of "run_action E idl o1"] wp_bind [of "overrun E start tmo _"]
        by (rule wp_any, rule wp_mono [OF wp_overrun [OF late]]) (use more [unfolded Cons second] in \<open>auto simp: wp_return k1\<close>)
    qed
  qed
qed

lemma scaleOwnerToZero_kind:
  assumes os: "ie_get_owners E (calls s) pod = (os, e0)"
    and late: "\<forall>t. (start + seconds (percent105 (getTimeout idl pod)) < ie_now E t) = late"
    and very: "\<forall>t. (start + seconds (percent110 (getTimeout idl pod)) < ie_now E t) = very_late"
  shows "wp (scaleOwnerToZero E idl pod start) (\<lambda>(kind, name, err) s'.
    err = None \<longrightarrow> (kind = []) = (filter (idleable E idl) os = [] \<or> late \<and> very_late \<and> deletion_under_way E idl os)) s"
  unfolding scaleOwnerToZero_def Let_def wp_bind wp_call_both os prod.case owners_loop_eq
  by (rule wp_mono [OF idle_first_two_result [OF late]])
     (auto simp: wp_simps very split: sum.splits prod.splits if_splits dest: deletion_under_way_one)

lemma scaleOwnerToZero_no_delete: "emits (\<lambda>(c, ok). \<not> is_pod_delete c) (scaleOwnerToZero E idl pod start)"
proof -
  have c: "\<not> is_pod_delete c" if "concerns o1 c" for o1 c using that by (cases c) auto
  have "emits (\<lambda>(c, ok). \<not> is_pod_delete c) (owners_loop E idl start tmo os (False, [], [], None))" for os tmo
    by (rule emits_mono [OF owners_loop_touches]) (use c in auto)
  then show ?thesis
    unfolding scaleOwnerToZero_def Let_def by (auto intro!: emits_rules)
qed

lemma scale_nothing:
  assumes "ie_get_owners E (calls s) pod = (os, e0)" and "filter (idleable E idl) os = []"
  shows "wp (scaleOwnerToZero E idl pod start) (\<lambda>(kind, name, err) s'. kind = [] \<and> err = None \<and>
    calls s' = calls s @ [(GetOwners (m_ns (p_meta pod)) (m_name (p_meta pod)), e0 = None)]) s"
  unfolding scaleOwnerToZero_def Let_def wp_bind wp_call_both assms(1) owners_loop_eq idle_first_two_def
  by (simp add: assms(2) wp_simps)

section \<open>Killed pods, two failing owners, notifications\<close>

lemma deletePods_no_owner:
  assumes "\<forall>tr. ie_get_owners E tr pod = ([], None)"
    and "\<forall>tr. ie_exec E tr (DeletePod (m_ns (p_meta pod)) (m_name (p_meta pod))) = None"
  shows "wp (deletePodsAndCreateNotification E pod start) (\<lambda>r s'. r = None) s"
proof -
  have skip: "wp (notify E n k) (\<lambda>_. wp (ret None) (\<lambda>r s'. r = None)) s1" for n k s1
    by (rule wp_any) (simp add: wp_simps)
  from assms show ?thesis
    by (simp add: deletePodsAndCreateNotification_def scaleOwnerToZero_def Let_def wp_simps skip)
qed

lemma idle_pod_killed:
  assumes "p_start pod = Some start" and "id_timeout (mem s) = id_timeout idl"
    and "getHighestRestartCount pod \<le> restartThreshold"
    and "\<forall>t. start + seconds (getTimeout idl pod) < ie_now E t"
    and "\<And>s. wp (deletePodsAndCreateNotification E pod start) (\<lambda>r s'. r = None) s"
  shows "wp (idle_pod E pod d) (\<lambda>r s'. fst r = shorterDuration d (seconds (five_percent (getTimeout idl pod)))) s"
proof -
  have tmo: "getTimeout (mem s) pod = getTimeout idl pod"
    using assms(2) by (simp add: getTimeout_def)
  show ?thesis
    unfolding idle_pod_def kill_if_restarting_def kill_if_expired_def Let_def wp_bind wp_get_mem
      assms(1) option.case tmo
    using assms(3,4) by (simp add: wp_simps) (rule wp_mono [OF assms(5)], simp add: wp_simps)
qed

lemma idle_pods_zero:
  assumes "status_subresource E" and "pod \<in> set pods" "0 \<le> d" "id_timeout (mem s) = id_timeout idl"
    and zero: "\<And>d s. id_timeout (mem s) = id_timeout idl \<Longrightarrow> 0 \<le> d \<Longrightarrow> wp (idle_pod E pod d) (\<lambda>r s'. fst r = 0) s"
  shows "wp (idle_pods E pods d errs) (\<lambda>r s'. fst r = 0) s"
  using assms(2-4)
proof (induction pods arbitrary: d errs s)
  case Nil
  then show ?case by simp
next
  case (Cons p pods)
  show ?case
  proof (cases "p = pod")
    case True
    show ?thesis
      unfolding idle_pods.simps True wp_bind
      by (rule wp_mono [OF zero [OF Cons.prems(3,2)]])
         (auto simp: wp_simps split: prod.splits intro!: wp_mono [OF idle_pods_bounds])
  next
    case False
    have "wp (idle_pod E p d) (\<lambda>r s'. id_timeout (mem s') = id_timeout idl \<and> 0 \<le> fst r) s"
      using idle_pod_keeps [OF assms(1), of p d] idle_pod_bounds [OF Cons.prems(2), of E p s] Cons.prems(3)
      by (auto simp: wp_def keeps_def split: prod.splits) (metis snd_conv)
    then show ?thesis
      unfolding idle_pods.simps wp_bind
      by (rule wp_mono) (use Cons.IH Cons.prems False in \<open>auto simp: wp_simps split: prod.splits\<close>)
  qed
qed

lemma first_status_joined:
  "errors_join [Some (StatusErr r m), e] = Some j \<Longrightarrow> first_status j = Some (r, m)"
  by (auto simp: errors_join_def Let_def split: if_splits)

lemma scale_two_owners:
  assumes "ie_get_owners E (calls s) pod = ([o1, o2], e)"
    and "idleable E i o1" "idleable E i o2"
    and "\<forall>s. fst (run_state (run_action E i o1) s) = Some e1"
    and "\<forall>s. fst (run_state (run_action E i o2) s) = Some e2"
  shows "wp (scaleOwnerToZero E i pod start)
    (\<lambda>r s'. r = (ow_kind o1, m_name (ow_meta o1), errors_join [Some e1, Some e2])) s"
proof -
  have a1: "wp (run_action E i o1) (\<lambda>r s'. r = Some e1) s" 
    and a2: "wp (run_action E i o2) (\<lambda>r s'. r = Some e2) s" for s
    using assms(4,5) by (simp_all add: wp_def split_beta)
  show ?thesis
    unfolding scaleOwnerToZero_def owners_loop_eq idle_first_two_def overrun_def Let_def wp_bind
      wp_call_both assms(1)
    by (simp add: wp_simps assms(2,3))
       (rule wp_mono [OF a1], simp add: wp_simps, rule wp_mono [OF a2], simp add: wp_simps)
qed

lemma create_notifications_name_taken:
  assumes "\<forall>kv' em'. ie_exec E (calls s) (CreateNotification hostns nname kv' em') \<noteq> None"
  shows "wp (create_notifications E hostns nname kv (em # ems))
    (\<lambda>r s'. r \<noteq> None \<and> calls s' = calls s @ [(CreateNotification hostns nname kv em, False)]) s"
  using assms [rule_format, of kv em] by (auto simp: wp_simps split: option.splits)

lemma highest_restart_ge: "k < highest_restart m cs \<longleftrightarrow> k < m \<or> (\<exists>c. c \<in> set cs \<and> k < c)"
  by (induction cs arbitrary: m) auto

lemma updateStatusConditions_again:
  assumes "conditions_lib (ie_lib E)"
    and "\<forall>cs t. IsTrue (ie_lib E) cs t = (case FindConditionByType (ie_lib E) cs t of (c, found) \<Rightarrow>
           found \<and> c_status c = ConditionTrue)"
    and "\<forall>tr i j. ie_update_status E tr i = Inr j \<longrightarrow> id_conds j = id_conds i"
  shows "wp (setStatusIdlerNotificationCreated E)
    (\<lambda>r s'. r = None \<longrightarrow> IsTrue (ie_lib E) (id_conds (mem s')) IdlerTriggeredNotificationCreated) s"
proof -
  obtain cs u where cs: "AddOrUpdateStatusConditions (ie_lib E) (ie_now E (tick s)) (id_conds (mem s))
      [mk_cond IdlerTriggeredNotificationCreated ConditionTrue IdlerTriggeredReason []] = (cs, u)"
    by (cases "AddOrUpdateStatusConditions (ie_lib E) (ie_now E (tick s)) (id_conds (mem s))
      [mk_cond IdlerTriggeredNotificationCreated ConditionTrue IdlerTriggeredReason []]")
  have "IsTrue (ie_lib E) cs IdlerTriggeredNotificationCreated"
    using assms(1) [unfolded conditions_lib_def, THEN spec [of _ "ie_now E (tick s)"],
        THEN spec [of _ "id_conds (mem s)"], THEN spec [of _ "mk_cond IdlerTriggeredNotificationCreated ConditionTrue IdlerTriggeredReason []"]] assms(2) cs
    by (auto simp: has_cond_def split: prod.splits)
  with cs assms(3) show ?thesis
    by (auto simp: setStatusIdlerNotificationCreated_def updateStatusConditions_def wp_simps Let_def
        split: sum.splits)
qed

end
