(* ===== verification/IdlerSpec.thy ===== *)
theory IdlerSpec
  imports Idler IdlerProofs
begin

text \<open>
  The properties of the idler controller, each followed by an instance at a concrete idler.
\<close>

section \<open>A concrete cluster\<close>

text \<open>
  A namespace with one pod of an idler of one hour; the clock stands at \<open>now\<close> seconds, the owners
  and the answers to error-only calls are given, everything else succeeds.
\<close>

definition demo_pod :: "string \<Rightarrow> int \<Rightarrow> pod" where
  "demo_pod n start = \<lparr>p_meta = new_meta ''john-dev'' n, p_owners = [],
     p_priority_class = PriorityClassName, p_start = Some (start * second), p_restarts = [],
     p_conds = [], p_reason = []\<rparr>"

definition demo_idler :: "int \<Rightarrow> idler" where
  "demo_idler tmo = \<lparr>id_meta = (new_meta [] ''john-dev'')\<lparr>m_labels := Some [(SpaceLabelKey, ''john'')]\<rparr>,
     id_timeout = tmo, id_conds = []\<rparr>"

definition demo_owner :: "string \<Rightarrow> string \<Rightarrow> owner" where
  "demo_owner kind n = \<lparr>ow_meta = new_meta ''john-dev'' n, ow_kind = kind, ow_group = ''apps'',
     ow_gvr = \<lparr>g_group = ''apps'', g_version = ''v1'', g_resource = kind\<rparr>\<rparr>"

definition demo_env :: "int \<Rightarrow> int \<Rightarrow> pod list \<Rightarrow> owner list \<Rightarrow> (itrace \<Rightarrow> icall \<Rightarrow> err option) \<Rightarrow> ienv" where
  "demo_env tmo now pods owners ex = \<lparr>ie_lib = ref_lib NoReason, ie_now = (\<lambda>t. now * second),
     ie_namespace = ''member'', ie_get_idler = (\<lambda>tr n. Inr (demo_idler tmo)),
     ie_list_pods = (\<lambda>tr n. Inr pods), ie_get_owners = (\<lambda>tr p. (owners, None)), ie_exec = ex,
     ie_list_isvcs = (\<lambda>tr n. Inr []), ie_host = (\<lambda>tr. Some ''host''),
     ie_get_nstt = (\<lambda>tr ns n. Inr [[''john'', ''jane'']]), ie_get_mur = (\<lambda>tr ns n. Inr (n @ ''@x.com'')),
     ie_update_status = (\<lambda>tr i. Inr i), ie_nested_bool = (\<lambda>o1 p. (False, False, None)),
     ie_gvr_string = g_resource, ie_type_idled = ''idled''\<rparr>"

lemmas idler_demo_defs = demo_pod_def demo_idler_def demo_owner_def demo_env_def new_meta_def

lemma demo_status_subresource: "status_subresource (demo_env tmo now pods owners ex)"
  by (simp add: status_subresource_def demo_env_def)

lemma ref_lib_sel [simp]:
  "IsBeingDeleted (ref_lib z) m = (m_deletion m \<noteq> None)"
  "IsNotFound (ref_lib z) e = (case first_status e of Some (r, m) \<Rightarrow> r = ''NotFound'' | None \<Rightarrow> False)"
  by (simp_all add: ref_lib_def)

section \<open>Owners\<close>

text \<open>
  C11: whatever the owners of a pod are, the loop of \<open>scaleOwnerToZero\<close> runs the idling action of the
  first owner that is not being deleted and has a known kind; it is done when that succeeded and
  the pod has not run over 105% of its timeout; otherwise it runs the action of exactly the next such
  owner and returns the joined errors of the two.
\<close>

theorem owners_loop_idles_first_two:
  "owners_loop E idl start tmo os (False, [], [], None) = idle_first_two E idl start tmo os"
  by (rule owners_loop_eq)

text \<open>
  The loop makes no call except on the first two owners that can be idled; owners further down
  and owners being deleted are never patched, scaled, stopped or deleted.
\<close>

theorem owners_loop_touches_at_most_two:
  "emits (\<lambda>(c, ok). \<exists>o1. o1 \<in> set (take 2 (filter (idleable E idl) os)) \<and> concerns o1 c)
     (owners_loop E idl start tmo os (False, [], [], None))"
  by (rule owners_loop_touches)

section \<open>Reconciling\<close>

text \<open>
  C1: a pod that is over its timeout (whatever the clock reads during the reconcile) is attempted in
  every reconcile of an active idler: its owners are looked up for idling, whatever the other pods
  in the namespace are and however many of them fail.
\<close>

theorem overdue_pods_are_attempted:
  assumes "status_subresource E"
    and "ie_get_idler E [] name = Inr idl"
    and "\<not> IsBeingDeleted (ie_lib E) (id_meta idl)" and "0 < id_timeout idl"
    and "ie_list_pods E [(GetIdler name, True)] (m_name (id_meta idl)) = Inr pods"
    and "pod \<in> set pods" and "p_start pod = Some start"
    and "\<forall>t. start + seconds (getTimeout idl pod) < ie_now E t"
  shows "called (GetOwners (m_ns (p_meta pod)) (m_name (p_meta pod)))
    (snd (run_state (Reconcile E name) (fresh z)))"
proof -
  have "wp (Reconcile E name) (\<lambda>r s'. called (owners_call pod) s') (fresh z)"
    unfolding Reconcile_def ensureIdling_def wrapErrorWithStatusUpdate_def setStatus_defs
    using assms(2-5)
    by (simp add: wp_simps)
       (rule wp_mono [OF idle_pods_calls [OF assms(1,6,7,8)]],
        auto simp: wp_simps split: prod.splits option.splits intro!: called_grows_mono emits_rules)
  then show ?thesis
    by (simp add: wp_def owners_call_def split_beta)
qed

theorem overdue_pods_are_attempted_witness:
  "called (GetOwners ''john-dev'' ''db'')
    (snd (run_state (Reconcile (demo_env 3600 9000 [demo_pod ''web'' 0, demo_pod ''db'' 10] []
      (\<lambda>tr c. Some (Msg ''forbidden''))) ''john-dev'') (fresh (demo_idler 0))))"
  using overdue_pods_are_attempted
    [of "demo_env 3600 9000 [demo_pod ''web'' 0, demo_pod ''db'' 10] [] (\<lambda>tr c. Some (Msg ''forbidden''))"
      "''john-dev''" "demo_idler 3600" "[demo_pod ''web'' 0, demo_pod ''db'' 10]" "demo_pod ''db'' 10"
      "10 * second" "demo_idler 0", OF demo_status_subresource]
  by (simp add: idler_demo_defs getTimeout_def isOwnedByVM_def seconds_int32)

text \<open>
  Where no pod of the namespace is over its timeout or restarts too often, a reconcile lists
  the pods and makes no other call than at most one status update: no owner is
  looked up, no pod deleted, no user notified.
\<close>

theorem quiet_namespace_is_untouched:
  assumes "ie_get_idler E [] name = Inr idl"
    and "\<not> IsBeingDeleted (ie_lib E) (id_meta idl)" and "0 < id_timeout idl"
    and "ie_list_pods E [(GetIdler name, True)] (m_name (id_meta idl)) = Inr pods"
    and "list_all (\<lambda>pod. not_due E (getTimeout idl pod) pod) pods"
  shows "\<exists>t. calls (snd (run_state (Reconcile E name) (fresh z))) =
      [(GetIdler name, True), (ListPods (m_name (id_meta idl)), True)] @ t \<and>
    (t = [] \<or> (\<exists>i ok. t = [(UpdateIdlerStatus i, ok)]))"
proof -
  have ready: "wp (setStatusReady E) (\<lambda>r s'. \<exists>t. calls s' = calls s @ t \<and>
      (t = [] \<or> (\<exists>i ok. t = [(UpdateIdlerStatus i, ok)]))) s" for s
    unfolding setStatusReady_def
    by (rule wp_mono [OF idler_status.status_once]) (auto elim: is_status_call.elims)
  have quiet: "wp (idle_pods E pods d []) (\<lambda>r s'. calls s' = calls s \<and> mem s' = mem s \<and>
      errors_join (snd r) = None) s" if "mem s = idl" for d s
    by (rule wp_mono [OF idle_pods_quiet]) (use assms(5) that in auto)
  have "wp (Reconcile E name) (\<lambda>r s'. \<exists>t. calls s' =
      [(GetIdler name, True), (ListPods (m_name (id_meta idl)), True)] @ t \<and>
    (t = [] \<or> (\<exists>i ok. t = [(UpdateIdlerStatus i, ok)]))) (fresh z)"
    unfolding Reconcile_def ensureIdling_def
    using assms(1-4)
    by (simp add: wp_simps)
       (rule wp_mono [OF quiet], auto simp: wp_simps split: prod.splits simp del: errors_join_None
         intro!: wp_mono [OF ready])
  then show ?thesis by (simp add: wp_def split_beta)
qed

theorem quiet_namespace_is_untouched_witness:
  "\<exists>t. calls (snd (run_state (Reconcile (demo_env 3600 1000 [demo_pod ''web'' 0] []
      (\<lambda>tr c. None)) ''john-dev'') (fresh (demo_idler 0)))) =
      [(GetIdler ''john-dev'', True), (ListPods ''john-dev'', True)] @ t \<and>
    (t = [] \<or> (\<exists>i ok. t = [(UpdateIdlerStatus i, ok)]))"
  using quiet_namespace_is_untouched
    [of "demo_env 3600 1000 [demo_pod ''web'' 0] [] (\<lambda>tr c. None)"
      "''john-dev''" "demo_idler 3600" "[demo_pod ''web'' 0]" "demo_idler 0"]
  by (simp add: idler_demo_defs getTimeout_def isOwnedByVM_def seconds_int32 not_due_def
      getHighestRestartCount_def restartThreshold_def)



text \<open>
  With a timeout below 20 seconds (below 240 for a virtual machine's pod), a pod that was just
  idled makes the reconcile ask for a requeue after 0, which controller-runtime takes as
  no requeue: five percent of the timeout is truncated to zero seconds, and the other pods of
  the namespace are not checked again until an event arrives, whatever time they have left.
\<close>

theorem short_timeout_disables_requeue:
  assumes "status_subresource E" and "mem s = idl" "0 < id_timeout idl"
    and "ie_list_pods E (calls s) (m_name (id_meta idl)) = Inr pods"
    and "pod \<in> set pods" "p_start pod = Some start"
    and "0 \<le> getTimeout idl pod" "getTimeout idl pod < 20"
    and "getHighestRestartCount pod \<le> restartThreshold"
    and "\<forall>t. start + seconds (getTimeout idl pod) < ie_now E t"
    and "\<forall>tr. ie_get_owners E tr pod = ([], None)"
    and "\<forall>tr. ie_exec E tr (DeletePod (m_ns (p_meta pod)) (m_name (p_meta pod))) = None"
    and "id_timeout idl < 2 ^ 31"
  shows "fst (fst (run_state (ensureIdling E) s)) = 0"
proof -
  have sec: "seconds (five_percent (getTimeout idl pod)) = 0"
    using assms(7,8) by (simp add: five_percent_def scale_005 seconds_def wrap64_id)
  have i: "id_timeout (mem s) = id_timeout idl" using assms(2) by simp
  have pos: "0 \<le> seconds (id_timeout idl)"
    using assms(3,13) by (simp add: seconds_int32)
  have zero: "wp (idle_pod E pod d) (\<lambda>r s'. fst r = 0) s1"
    if "id_timeout (mem s1) = id_timeout idl" "0 \<le> d" for d s1
    by (rule wp_mono [OF idle_pod_killed [OF assms(6) that(1) assms(9,10) deletePods_no_owner [OF assms(11,12)]]])
       (use that in \<open>simp add: sec shorterDuration_def\<close>)
  have "wp (ensureIdling E) (\<lambda>r s'. fst r = 0) s"
    unfolding ensureIdling_def wp_bind wp_get_mem wp_call assms(2,4) sum.case
    by (rule wp_mono [OF idle_pods_zero [OF assms(1,5) pos _ zero]])
       (auto simp: i wp_simps split: prod.splits)
  then show ?thesis by (simp add: wp_def split_beta)
qed

theorem short_timeout_disables_requeue_witness:
  "fst (fst (run_state (ensureIdling (demo_env 15 100 [demo_pod ''web'' 0, demo_pod ''db'' 95] []
      (\<lambda>tr c. None))) (fresh (demo_idler 15)))) = 0"
  using short_timeout_disables_requeue
    [of "demo_env 15 100 [demo_pod ''web'' 0, demo_pod ''db'' 95] [] (\<lambda>tr c. None)" "fresh (demo_idler 15)"
      "demo_idler 15" "[demo_pod ''web'' 0, demo_pod ''db'' 95]" "demo_pod ''web'' 0" 0, OF demo_status_subresource]
  by (simp add: idler_demo_defs getTimeout_def isOwnedByVM_def seconds_int32 
      getHighestRestartCount_def restartThreshold_def)

text \<open>
  When the pods cannot be listed or some pod could not be idled, the reconcile returns that error,
  wrapped, and no requeue time, also when recording the failure in the status fails as well.
\<close>

theorem failed_idling_is_reported:
  assumes "ie_get_idler E [] name = Inr idl"
    and "\<not> IsBeingDeleted (ie_lib E) (id_meta idl)" and "0 < id_timeout idl"
    and "run_state (ensureIdling E) ((log_call (GetIdler name) True (fresh z))\<lparr>mem := idl\<rparr>) = ((d, Some e), s2)"
  shows "\<exists>m. fst (run_state (Reconcile E name) (fresh z)) = (0, Some (Wrapped m e))"
  using assms by (simp add: Reconcile_def wrapErrorWithStatusUpdate_def split_beta)

theorem failed_idling_is_reported_witness:
  "\<exists>m. fst (run_state (Reconcile ((demo_env 3600 9000 [] [] (\<lambda>tr c. None))
      \<lparr>ie_list_pods := \<lambda>tr ns. Inl (Msg ''timeout''), ie_update_status := \<lambda>tr i. Inl (Msg ''conflict'')\<rparr>) ''john-dev'')
      (fresh (demo_idler 0))) = (0, Some (Wrapped m (Msg ''timeout'')))"
  by (rule failed_idling_is_reported [where idl = "demo_idler 3600"])
     (simp_all add: idler_demo_defs ensureIdling_def)

section \<open>Killing a pod\<close>

text \<open>
  C14: a pod whose owners are handled is itself deleted exactly when handling them gave no error and it has completed, or it
  was evicted, or none of its owners can be idled (each is of an unknown kind or being deleted already), or, when the pod runs beyond 105% and 110% of its
  timeout (which does not change while its owners are handled), the only one that can be idled was idled and one that comes after it is
  being deleted.  When no owner can be idled there is no error, and for a completed pod then nothing happens but the look-up of the owners and the
  deletion (no notification).
\<close>

theorem pod_deleted_exactly_when:
  assumes "ie_get_owners E (calls s) pod = (os, e0)"
    and "\<forall>t. (start + seconds (percent105 (getTimeout (mem s) pod)) < ie_now E t) = late"
    and "\<forall>t. (start + seconds (percent110 (getTimeout (mem s) pod)) < ie_now E t) = very_late"
    and "fst (run_state (scaleOwnerToZero E (mem s) pod start) s) = (kind, name, err)"
  shows "\<exists>t. calls (snd (run_state (deletePodsAndCreateNotification E pod start) s)) = calls s @ t \<and>
    (\<exists>ok. (DeletePod (m_ns (p_meta pod)) (m_name (p_meta pod)), ok) \<in> set t) =
      (err = None \<and> (pod_completed (p_conds pod) \<or> p_reason pod = ''Evicted'' \<or> filter (idleable E (mem s)) os = [] \<or>
         late \<and> very_late \<and> deletion_under_way E (mem s) os)) \<and>
    (filter (idleable E (mem s)) os = [] \<longrightarrow> err = None \<and> (pod_completed (p_conds pod) \<longrightarrow> length t = 2))"
proof -
  obtain s1 where run: "run_state (scaleOwnerToZero E (mem s) pod start) s = ((kind, name, err), s1)"
    using assms(4) by (cases "run_state (scaleOwnerToZero E (mem s) pod start) s") auto
  obtain u where u: "calls s1 = calls s @ u" "list_all (\<lambda>(c, ok). \<not> is_pod_delete c) u"
    using emitsD [OF scaleOwnerToZero_no_delete run] by blast
  have k: "err = None \<longrightarrow> (kind = []) = (filter (idleable E (mem s)) os = [] \<or> late \<and> very_late \<and> deletion_under_way E (mem s) os)"
    using wpD [OF scaleOwnerToZero_kind [OF assms(1-3)] run] by simp
  have none: "kind = [] \<and> err = None \<and> length u = 1" if "filter (idleable E (mem s)) os = []"
    using wpD [OF scale_nothing [OF assms(1) that] run] u(1) by simp
  obtain t where t: "calls (snd (run_state (deletePodsAndCreateNotification E pod start) s)) = calls s1 @ t"
      "(\<exists>ok. (delete_call pod, ok) \<in> set t) = (err = None \<and> (kind = [] \<or> pod_completed (p_conds pod) \<or> p_reason pod = ''Evicted''))"
      "err = None \<and> kind = [] \<and> pod_completed (p_conds pod) \<longrightarrow> length t = 1"
    using deletePods_after_scaling [OF run] by blast
  show ?thesis
    using t u(1) k none no_delete_in [OF u(2), of pod] by (intro exI [of _ "u @ t"]) (auto simp: delete_call_def)
qed

text \<open>A pod that has run for two and a half times its timeout: its deployment is scaled down, and the replica set below it is being deleted.\<close>

definition stuck_owners :: "owner list" where
  "stuck_owners = [demo_owner ''Deployment'' ''web'',
     (demo_owner ''ReplicaSet'' ''web-1'')\<lparr>ow_meta := (new_meta ''john-dev'' ''web-1'')\<lparr>m_deletion := Some 0\<rparr>\<rparr>]"

theorem pod_deleted_exactly_when_witness:
  "\<exists>t. calls (snd (run_state (deletePodsAndCreateNotification (demo_env 3600 9000 [] stuck_owners (\<lambda>tr c. None))
      (demo_pod ''web'' 0) 0) (fresh (demo_idler 3600)))) = t \<and>
    (\<exists>ok. (DeletePod ''john-dev'' ''web'', ok) \<in> set t)"
proof -
  let ?E = "demo_env 3600 9000 [] stuck_owners (\<lambda>tr c. None)" and ?s = "fresh (demo_idler 3600)"
  have tmo: "getTimeout (demo_idler 3600) (demo_pod ''web'' 0) = 3600"
    by (simp add: idler_demo_defs getTimeout_def isOwnedByVM_def)
  have late: "percent105 3600 = 3780" "percent110 3600 = 3960" by (simp_all add: percent105_def percent110_def scale_105 scale_110)
  have "idle_action ?E (mem ?s) (demo_owner ''Deployment'' ''web'') \<noteq> None" by (simp add: idle_action_def demo_owner_def Let_def)
  then have d: "deletion_under_way ?E (mem ?s) stuck_owners"
    unfolding deletion_under_way_def
    by (intro exI [of _ "[]"] exI [of _ "demo_owner ''Deployment'' ''web''"] exI [of _ "tl stuck_owners"])
       (simp add: stuck_owners_def idleable_def none_deleting_def demo_env_def demo_owner_def new_meta_def)
  have r: "fst (run_state (scaleOwnerToZero ?E (mem ?s) (demo_pod ''web'' 0) 0) ?s) = ([], [], None)"
    using tmo by (simp add: scaleOwnerToZero_def stuck_owners_def demo_env_def demo_owner_def new_meta_def idle_action_def scaleToZero_def Let_def
      late seconds_int32)
  have c: "\<forall>t. (0 + seconds (percent105 (getTimeout (mem ?s) (demo_pod ''web'' 0))) < ie_now ?E t) = True"
    "\<forall>t. (0 + seconds (percent110 (getTimeout (mem ?s) (demo_pod ''web'' 0))) < ie_now ?E t) = True"
    by (simp_all add: tmo late seconds_int32) (simp_all add: demo_env_def)
  have "ie_get_owners ?E (calls ?s) (demo_pod ''web'' 0) = (stuck_owners, None)" by (simp add: demo_env_def)
  from pod_deleted_exactly_when [OF this c r] d show ?thesis by (auto simp: demo_pod_def new_meta_def)
qed

text \<open>
  An error of the owners' handling ends the handling of the pod: it is returned, unless it is
  NotFound, and neither is the pod deleted nor the user notified.
\<close>

theorem owner_error_ends_pod:
  assumes "run_state (scaleOwnerToZero E (mem s) pod start) s = ((kind, name, Some e), s1)"
  shows "run_state (deletePodsAndCreateNotification E pod start) s =
    ((if IsNotFound (ie_lib E) e then None else Some e), s1)"
  by (simp add: deletePodsAndCreateNotification_def Let_def assms)

theorem owner_error_ends_pod_witness:
  "fst (run_state (deletePodsAndCreateNotification
      (demo_env 3600 1000 [] [demo_owner ''DaemonSet'' ''agent''] (\<lambda>tr c. Some (Msg ''forbidden'')))
      (demo_pod ''web'' 0) 0) (fresh (demo_idler 3600))) = Some (Msg ''forbidden'')"
proof -
  let ?E = "demo_env 3600 1000 [] [demo_owner ''DaemonSet'' ''agent''] (\<lambda>tr c. Some (Msg ''forbidden''))"
  have "run_state (scaleOwnerToZero ?E (mem (fresh (demo_idler 3600))) (demo_pod ''web'' 0) 0) (fresh (demo_idler 3600)) =
    ((''DaemonSet'', ''agent'', Some (Msg ''forbidden'')),
     snd (run_state (scaleOwnerToZero ?E (mem (fresh (demo_idler 3600))) (demo_pod ''web'' 0) 0) (fresh (demo_idler 3600))))"
    by (simp add: idler_demo_defs scaleOwnerToZero_def idle_action_def deleteResource_def Let_def)
  from owner_error_ends_pod [OF this] show ?thesis
    by (simp add: demo_env_def)
qed

text \<open>
  C15: when the top owner is already gone (NotFound) and idling the second owner fails for any other
  reason, the failure is lost: the joined error counts as NotFound, so the pod is taken as
  handled, without an error.
\<close>

theorem second_owner_failure_is_swallowed:
  assumes "not_found_lib (ie_lib E)"
    and "ie_get_owners E (calls s) pod = ([o1, o2], e)"
    and "idleable E (mem s) o1" "idleable E (mem s) o2"
    and "\<forall>s. fst (run_state (run_action E i o1) s) = Some (StatusErr ''NotFound'' m)"
    and "\<forall>s. fst (run_state (run_action E i o2) s) = Some e2" and "mem s = i"
  shows "fst (run_state (deletePodsAndCreateNotification E pod start) s) = None"
proof -
  have "wp (scaleOwnerToZero E (mem s) pod start)
      (\<lambda>r s'. \<exists>j. r = (ow_kind o1, m_name (ow_meta o1), Some j) \<and> IsNotFound (ie_lib E) j) s"
    by (rule wp_mono [OF scale_two_owners [OF assms(2,3,4), folded assms(7), OF assms(5,6) [folded assms(7)]]])
       (use assms(1) in \<open>auto simp: not_found_lib_def errors_join_def\<close>)
  then show ?thesis
    by (cases "run_state (scaleOwnerToZero E (mem s) pod start) s")
       (auto simp: wp_def deletePodsAndCreateNotification_def Let_def)
qed

theorem second_owner_failure_is_swallowed_witness:
  "fst (run_state (deletePodsAndCreateNotification
      (demo_env 3600 9000 [] [demo_owner ''DaemonSet'' ''gone'', demo_owner ''DeploymentConfig'' ''app'']
        (\<lambda>tr c. case c of PatchResource g ns n p \<Rightarrow> Some (StatusErr ''Forbidden'' ''denied'')
                  | _ \<Rightarrow> Some (StatusErr ''NotFound'' ''gone'')))
      (demo_pod ''web'' 0) 0) (fresh (demo_idler 3600))) = None"
  using second_owner_failure_is_swallowed
    [of "demo_env 3600 9000 [] [demo_owner ''DaemonSet'' ''gone'', demo_owner ''DeploymentConfig'' ''app'']
        (\<lambda>tr c. case c of PatchResource g ns n p \<Rightarrow> Some (StatusErr ''Forbidden'' ''denied'')
                  | _ \<Rightarrow> Some (StatusErr ''NotFound'' ''gone''))"
      "fresh (demo_idler 3600)" "demo_pod ''web'' 0" "demo_owner ''DaemonSet'' ''gone''"
      "demo_owner ''DeploymentConfig'' ''app''" None "demo_idler 3600" "''gone''"
      "StatusErr ''Forbidden'' ''denied''" 0] ref_lib_not_found [of NoReason]
  by (simp add: idler_demo_defs idleable_def run_action_def idle_action_def deleteResource_def
      scaleDeploymentConfigToZero_def)

section \<open>Notifications\<close>

text \<open>
  The user is notified once per idling period: after a notification was recorded successfully,
  a further \<open>createNotification\<close> makes no call and changes nothing.
\<close>

theorem notification_is_idempotent:
  assumes "conditions_lib (ie_lib E)"
    and "\<forall>cs t. IsTrue (ie_lib E) cs t = (case FindConditionByType (ie_lib E) cs t of (c, found) \<Rightarrow>
           found \<and> c_status c = ConditionTrue)"
    and "\<forall>tr i j. ie_update_status E tr i = Inr j \<longrightarrow> id_conds j = id_conds i"
    and "run_state (createNotification E app kind) s = (None, s1)"
    and "ie_host E (calls s1) \<noteq> None"
  shows "run_state (createNotification E app' kind') s1 = (None, s1)"
proof -
  have "wp (createNotification E app kind)
      (\<lambda>r s'. r = None \<longrightarrow> IsTrue (ie_lib E) (id_conds (mem s')) IdlerTriggeredNotificationCreated) s"
    unfolding createNotification_def getUserEmailsFromMURs_def Let_def
    by (auto simp: wp_simps split: option.splits prod.splits sum.splits
        intro!: updateStatusConditions_again [OF assms(1-3)]
          wp_any [where m = "mur_emails E h ms es" for h ms es]
          wp_any [where m = "create_notifications E h n kv es" for h n kv es])
  with assms(4) have "IsTrue (ie_lib E) (id_conds (mem s1)) IdlerTriggeredNotificationCreated"
    by (simp add: wp_def)
  with assms(5) show ?thesis
    by (auto simp: createNotification_def)
qed

theorem notification_is_idempotent_witness:
  "let E = demo_env 3600 9000 [] [] (\<lambda>tr c. case c of GetNotification ns n \<Rightarrow> Some (StatusErr ''NotFound'' [])
       | CreateNotification ns n kv em \<Rightarrow>
           if list_ex (\<lambda>(c, ok). ok \<and> (case c of CreateNotification _ _ _ _ \<Rightarrow> True | _ \<Rightarrow> False)) tr
           then Some (StatusErr ''AlreadyExists'' []) else None
       | _ \<Rightarrow> None)\<lparr>ie_get_nstt := \<lambda>tr ns n. Inr [[''john'']]\<rparr>;
     s = fresh (demo_idler 3600);
     s1 = snd (run_state (createNotification E ''web'' ''Deployment'') s)
   in length (calls s1) = 5 \<and> run_state (createNotification E ''db'' ''Pod'') s1 = (None, s1)"
proof -
  define ex :: "itrace \<Rightarrow> icall \<Rightarrow> err option" where
    "ex = (\<lambda>tr c. case c of GetNotification ns n \<Rightarrow> Some (StatusErr ''NotFound'' [])
       | CreateNotification ns n kv em \<Rightarrow>
           if list_ex (\<lambda>(c, ok). ok \<and> (case c of CreateNotification _ _ _ _ \<Rightarrow> True | _ \<Rightarrow> False)) tr
           then Some (StatusErr ''AlreadyExists'' []) else None
       | _ \<Rightarrow> None)"
  define E where "E = demo_env 3600 9000 [] [] ex\<lparr>ie_get_nstt := \<lambda>tr ns n. Inr [[''john'']]\<rparr>"
  let ?s = "fresh (demo_idler 3600)"
  have run: "fst (run_state (createNotification E ''web'' ''Deployment'') ?s) = None"
      "length (calls (snd (run_state (createNotification E ''web'' ''Deployment'') ?s))) = 5"
    by (simp_all add: E_def ex_def idler_demo_defs createNotification_def getUserEmailsFromMURs_def
        setStatusIdlerNotificationCreated_def updateStatusConditions_def Let_def ref_lib_def mk_cond_def)
  have lib: "conditions_lib (ie_lib E)"
    and "\<forall>cs t. IsTrue (ie_lib E) cs t = (case FindConditionByType (ie_lib E) cs t of (c, found) \<Rightarrow>
           found \<and> c_status c = ConditionTrue)"
    and "\<forall>tr i j. ie_update_status E tr i = Inr j \<longrightarrow> id_conds j = id_conds i"
    by (simp_all add: E_def demo_env_def ref_lib_conditions) (simp add: ref_lib_def)
  from notification_is_idempotent [OF this, of "''web''" "''Deployment''" ?s
      "snd (run_state (createNotification E ''web'' ''Deployment'') ?s)" "''db''" "''Pod''"] run
  show ?thesis
    by (simp add: Let_def E_def [symmetric] ex_def [symmetric] prod_eq_iff)
       (simp add: E_def demo_env_def)
qed

definition unique_notifications :: "ienv \<Rightarrow> bool" where
  "unique_notifications E \<longleftrightarrow> (\<forall>tr ns n kv em kv' em'.
     (CreateNotification ns n kv em, True) \<in> set tr \<longrightarrow> ie_exec E tr (CreateNotification ns n kv' em') \<noteq> None)"

text \<open>
  A user with several e-mail addresses is notified at the first one only: all notifications of
  an idler have the same name, so, names being unique, the second creation fails, the loop
  returns that error, and no later address gets a notification.
\<close>

theorem only_first_recipient_notified:
  assumes "unique_notifications E"
  shows "fst (run_state (create_notifications E hostns nname kv (em1 # em2 # ems)) s) \<noteq> None \<and>
    (\<exists>t. calls (snd (run_state (create_notifications E hostns nname kv (em1 # em2 # ems)) s)) = calls s @ t \<and>
      set (map fst (filter snd t)) \<subseteq> {CreateNotification hostns nname kv em1})"
proof -
  let ?c = "\<lambda>em. CreateNotification hostns nname kv em"
  have "wp (create_notifications E hostns nname kv (em1 # em2 # ems)) (\<lambda>r s'. r \<noteq> None \<and>
      (\<exists>t. calls s' = calls s @ t \<and> set (map fst (filter snd t)) \<subseteq> {?c em1})) s"
  proof (cases "ie_exec E (calls s) (?c em1)")
    case None
    have "\<forall>kv' em'. ie_exec E (calls (log_call (?c em1) True s)) (CreateNotification hostns nname kv' em') \<noteq> None"
    proof (intro allI)
      fix kv' em'
      have "(?c em1, True) \<in> set (calls (log_call (?c em1) True s))" by simp
      with assms show "ie_exec E (calls (log_call (?c em1) True s)) (CreateNotification hostns nname kv' em') \<noteq> None"
        unfolding unique_notifications_def by blast
    qed
    from create_notifications_name_taken [OF this, of kv em2 ems] show ?thesis
      unfolding create_notifications.simps(2) [of E hostns nname kv em1] wp_bind wp_call_err None option.case simp_thms(6)
      by (rule wp_mono) auto
  qed (auto simp: wp_simps)
  then show ?thesis by (simp add: wp_def split_beta)
qed

theorem only_first_recipient_notified_witness:
  "fst (run_state (create_notifications (demo_env 3600 9000 [] []
      (\<lambda>tr c. if tr = [] then None else Some (StatusErr ''AlreadyExists'' []))) ''host'' ''n'' []
      [''john@x.com'', ''jane@x.com'']) (fresh (demo_idler 3600))) \<noteq> None"
proof -
  have "unique_notifications (demo_env 3600 9000 [] []
      (\<lambda>tr c. if tr = [] then None else Some (StatusErr ''AlreadyExists'' [])))"
    by (auto simp: unique_notifications_def demo_env_def)
  from only_first_recipient_notified [OF this] show ?thesis by blast
qed

section \<open>Arithmetic and watches\<close>

text \<open>
  For every timeout below 12 days the floating point products of the code are exact: 105% and
  110% of the timeout are rounded down to whole seconds, and so is five percent of it.
\<close>

theorem timeout_percentages:
  "0 \<le> t \<Longrightarrow> t < 2 ^ 20 \<Longrightarrow>
     percent105 t = t + t div 20 \<and> percent110 t = t + t div 10 \<and> five_percent t = t div 20"
  by (simp add: percent105_def percent110_def five_percent_def scale_105 scale_110 scale_005)

theorem timeout_percentages_witness: "percent105 3601 = 3781 \<and> percent110 3601 = 3961 \<and> five_percent 3601 = 180"
  using timeout_percentages [of 3601] by simp

text \<open>
  The controller is woken by an update of a pod of a user's workload exactly when the pod got its
  start time or one of its containers restarted 50 times or more; so it is always woken for a pod
  over the threshold of \<open>ensureIdling\<close>.
\<close>

theorem pod_updates_that_wake:
  "PodIdlerPredicate (PodUpdated old new) =
     (p_priority_class new = PriorityClassName \<and>
      (p_start old = None \<and> p_start new \<noteq> None \<or> (\<exists>c. c \<in> set (p_restarts new) \<and> 50 \<le> c)))"
  by (auto simp: getHighestRestartCount_def highest_restart_ge aapRestartThreshold_def restartThreshold_def)

end
