(* ===== verification/UserAccount.thy ===== *)
theory UserAccount
  imports Go_Prelude Go_Arith Kube
begin

text \<open>
  The user account controller (\<open>controllers/useraccount\<close>): an OpenShift User and its Identities are
  created for every UserAccount, kept in line with it, and deleted when the account is disabled or
  deleted.  The definitions follow \<open>useraccount_controller.go\<close> and \<open>console_usersettings.go\<close>
  function by function; the API server, the configuration and the naming standard of
  identities are fields of \<open>uenv\<close>.
\<close>

section \<open>Data\<close>

datatype ureason =
    NoReason | UserAccountProvisioningReason | UserAccountProvisionedReason | UserAccountUpdatingReason
  | UserAccountDisablingReason | UserAccountDisabledReason | UserAccountTerminatingReason
  | UserAccountUnableToCreateUserReason | UserAccountUnableToCreateIdentityReason
  | UserAccountUnableToCreateMappingReason | OtherReason string

record claims =
  cl_sub :: string
  cl_user_id :: string
  cl_account_id :: string
  cl_original_sub :: string
  cl_email :: string

record user_account =
  ua_meta :: meta
  ua_disabled :: bool
  ua_claims :: claims
  ua_conds :: "ureason cond list"

record user =
  us_meta :: meta
  us_identities :: "string list"

record identity =
  it_meta :: meta
  it_provider :: string
  it_provider_user :: string
  it_user_name :: string
  it_user_uid :: string

record config =
  cf_skip_user_creation :: bool
  cf_idp :: string

text \<open>The kinds of console settings deleted with a user.\<close>

datatype settings_kind = ConfigMap | Role | RoleBinding

datatype ucall =
    GetConfiguration
  | GetUserAccount string string
  | UpdateUserAccount user_account
  | UpdateUserAccountStatus user_account
  | GetUser string
  | CreateUser user
  | UpdateUser user
  | ListUsers string
  | DeleteUser string
  | GetIdentity string
  | CreateIdentity identity
  | UpdateIdentity identity
  | ListIdentities string
  | DeleteIdentity string
  | DeleteSettings settings_kind string string

type_synonym utrace = "ucall history"
type_synonym 'a uprog = "(user_account, ucall, 'a) prog"

text \<open>
  A create or update answers with the object as the server stored it.  \<open>ue_identity_name\<close> and
  \<open>ue_apply_identity\<close> are \<open>IdentityName\<close> and \<open>ApplyToIdentity\<close> of the naming standard for an
  identity provider and a user id; \<open>ue_watch_ns\<close> is \<open>GetWatchNamespace\<close>.
\<close>

record uenv =
  ue_lib :: "ureason lib"
  ue_now :: "nat \<Rightarrow> int"
  ue_watch_ns :: "err + string"
  ue_config :: "utrace \<Rightarrow> err + config"
  ue_get_account :: "utrace \<Rightarrow> string \<Rightarrow> string \<Rightarrow> err + user_account"
  ue_update_account :: "utrace \<Rightarrow> user_account \<Rightarrow> err + user_account"
  ue_update_status :: "utrace \<Rightarrow> user_account \<Rightarrow> err + user_account"
  ue_get_user :: "utrace \<Rightarrow> string \<Rightarrow> err + user"
  ue_create_user :: "utrace \<Rightarrow> user \<Rightarrow> err + user"
  ue_update_user :: "utrace \<Rightarrow> user \<Rightarrow> err + user"
  ue_list_users :: "utrace \<Rightarrow> string \<Rightarrow> err + user list"
  ue_get_identity :: "utrace \<Rightarrow> string \<Rightarrow> err + identity"
  ue_create_identity :: "utrace \<Rightarrow> identity \<Rightarrow> err + identity"
  ue_update_identity :: "utrace \<Rightarrow> identity \<Rightarrow> err + identity"
  ue_list_identities :: "utrace \<Rightarrow> string \<Rightarrow> err + identity list"
  ue_exec :: "utrace \<Rightarrow> ucall \<Rightarrow> err option"
  ue_identity_name :: "string \<Rightarrow> string \<Rightarrow> string"
  ue_apply_identity :: "string \<Rightarrow> string \<Rightarrow> identity \<Rightarrow> identity"

abbreviation uexec :: "uenv \<Rightarrow> ucall \<Rightarrow> err option uprog" where
  "uexec E c \<equiv> call_err (\<lambda>tr. ue_exec E tr c) c"

section \<open>Status\<close>

definition updateStatusConditions :: "uenv \<Rightarrow> ureason cond list \<Rightarrow> err option uprog" where
  "updateStatusConditions E cs = do {
     ua \<leftarrow> get_mem;
     now \<leftarrow> clock (ue_now E);
     (case AddOrUpdateStatusConditions (ue_lib E) now (ua_conds ua) cs of (conds, updated) \<Rightarrow> do {
       let ua' = ua\<lparr>ua_conds := conds\<rparr>;
       set_mem ua';
       if \<not> updated then ret None
       else do {
         r \<leftarrow> call (\<lambda>tr. ue_update_status E tr ua') (UpdateUserAccountStatus ua');
         (case r of Inl e \<Rightarrow> ret (Some e) | Inr new \<Rightarrow> do { set_mem new; ret None })
       }
     })
   }"

definition setStatusUserCreationFailed :: "uenv \<Rightarrow> string \<Rightarrow> err option uprog" where
  "setStatusUserCreationFailed E msg = updateStatusConditions E
     [mk_cond ConditionReady ConditionFalse UserAccountUnableToCreateUserReason msg]"

definition setStatusIdentityCreationFailed :: "uenv \<Rightarrow> string \<Rightarrow> err option uprog" where
  "setStatusIdentityCreationFailed E msg = updateStatusConditions E
     [mk_cond ConditionReady ConditionFalse UserAccountUnableToCreateIdentityReason msg]"

definition setStatusMappingCreationFailed :: "uenv \<Rightarrow> string \<Rightarrow> err option uprog" where
  "setStatusMappingCreationFailed E msg = updateStatusConditions E
     [mk_cond ConditionReady ConditionFalse UserAccountUnableToCreateMappingReason msg]"

definition setStatusProvisioning :: "uenv \<Rightarrow> err option uprog" where
  "setStatusProvisioning E = updateStatusConditions E
     [mk_cond ConditionReady ConditionFalse UserAccountProvisioningReason []]"

definition setStatusReady :: "uenv \<Rightarrow> err option uprog" where
  "setStatusReady E = updateStatusConditions E
     [mk_cond ConditionReady ConditionTrue UserAccountProvisionedReason []]"

definition setStatusDisabling :: "uenv \<Rightarrow> string \<Rightarrow> err option uprog" where
  "setStatusDisabling E msg = updateStatusConditions E
     [mk_cond ConditionReady ConditionFalse UserAccountDisablingReason msg]"

definition setStatusDisabled :: "uenv \<Rightarrow> err option uprog" where
  "setStatusDisabled E = updateStatusConditions E
     [mk_cond ConditionReady ConditionFalse UserAccountDisabledReason []]"

definition setStatusTerminating :: "uenv \<Rightarrow> string \<Rightarrow> err option uprog" where
  "setStatusTerminating E msg = updateStatusConditions E
     [mk_cond ConditionReady ConditionFalse UserAccountTerminatingReason msg]"

definition wrapErrorWithStatusUpdate ::
  "(string \<Rightarrow> err option uprog) \<Rightarrow> err option \<Rightarrow> string \<Rightarrow> err option uprog" where
  "wrapErrorWithStatusUpdate updater e fmt =
     (case e of None \<Rightarrow> ret None
      | Some e \<Rightarrow> do { _ \<leftarrow> updater (err_text e); ret (Some (Wrapped fmt e)) })"

section \<open>Labels and annotations\<close>

text \<open>A label is set where it is missing; the flag is \<open>changed\<close>.\<close>

definition set_label :: "mkey \<Rightarrow> string \<Rightarrow> meta \<times> bool \<Rightarrow> meta \<times> bool" where
  "set_label k v mc = (case mc of (m, changed) \<Rightarrow>
     if lookup (m_labels m) k = None then (m\<lparr>m_labels := put (m_labels m) k v\<rparr>, True)
     else (m, changed))"

definition set_annotations :: "claims \<Rightarrow> meta \<times> bool \<Rightarrow> meta \<times> bool" where
  "set_annotations cl mc =
     (let (m, changed) = mc;
          (m, changed) =
            (if lookup (m_annotations m) EmailUserAnnotationKey = None
             then (m\<lparr>m_annotations := put (m_annotations m) EmailUserAnnotationKey (cl_email cl)\<rparr>, True)
             else (m, changed));
          annotations = m_annotations m
      in if cl_user_id cl \<noteq> [] \<and> cl_account_id cl \<noteq> []
         then (m\<lparr>m_annotations := put (put annotations UserIDUserAnnotationKey (cl_user_id cl))
                   AccountIDUserAnnotationKey (cl_account_id cl)\<rparr>, True)
         else if annotations \<noteq> None
         then (m\<lparr>m_annotations := drop_key (drop_key annotations UserIDUserAnnotationKey)
                   AccountIDUserAnnotationKey\<rparr>, True)
         else (m, changed))"

definition setLabelsAndAnnotations :: "meta \<Rightarrow> user_account \<Rightarrow> bool \<Rightarrow> meta \<times> bool" where
  "setLabelsAndAnnotations m ua isUserResource =
     (let mc = set_label OwnerLabelKey (m_name (ua_meta ua))
                 (set_label ProviderLabelKey ProviderLabelValue (m, False))
      in if isUserResource then set_annotations (ua_claims ua) mc else mc)"

text \<open>
  \<open>addLabelsAndAnnotations\<close> for a User and for an Identity: the object in memory afterwards
  is the server's answer, or the changed object where the update failed.
\<close>

definition addLabelsAndAnnotations_user :: "uenv \<Rightarrow> user \<Rightarrow> user_account \<Rightarrow> (user \<times> err option) uprog" where
  "addLabelsAndAnnotations_user E u ua =
     (case setLabelsAndAnnotations (us_meta u) ua True of (m, changed) \<Rightarrow>
        let u' = u\<lparr>us_meta := m\<rparr>
        in if changed then do {
             r \<leftarrow> call (\<lambda>tr. ue_update_user E tr u') (UpdateUser u');
             (case r of Inl e \<Rightarrow> ret (u', Some e) | Inr new \<Rightarrow> ret (new, None))
           }
           else ret (u', None))"

definition addLabelsAndAnnotations_identity ::
  "uenv \<Rightarrow> identity \<Rightarrow> user_account \<Rightarrow> (identity \<times> err option) uprog" where
  "addLabelsAndAnnotations_identity E i ua =
     (case setLabelsAndAnnotations (it_meta i) ua False of (m, changed) \<Rightarrow>
        let i' = i\<lparr>it_meta := m\<rparr>
        in if changed then do {
             r \<leftarrow> call (\<lambda>tr. ue_update_identity E tr i') (UpdateIdentity i');
             (case r of Inl e \<Rightarrow> ret (i', Some e) | Inr new \<Rightarrow> ret (new, None))
           }
           else ret (i', None))"

section \<open>Identities of a user\<close>

text \<open>
  The names of the identities an account needs: from \<open>sub\<close>, from \<open>originalSub\<close> where it is set, and
  from \<open>userID\<close> where it is set and differs from \<open>sub\<close>.  The source computes this list twice, in
  \<open>ensureUser\<close> and in \<open>newUser\<close>.
\<close>

definition expectedIdentities :: "uenv \<Rightarrow> config \<Rightarrow> claims \<Rightarrow> string list" where
  "expectedIdentities E cfg cl =
     (let name = ue_identity_name E (cf_idp cfg);
          ids = [name (cl_sub cl)];
          ids = (if cl_original_sub cl \<noteq> [] then ids @ [name (cl_original_sub cl)] else ids)
      in if cl_user_id cl \<noteq> [] \<and> cl_user_id cl \<noteq> cl_sub cl then ids @ [name (cl_user_id cl)] else ids)"

definition newUser :: "uenv \<Rightarrow> user_account \<Rightarrow> config \<Rightarrow> user" where
  "newUser E ua cfg =
     (let cl = ua_claims ua;
          identities = [ue_identity_name E (cf_idp cfg) (cl_sub cl)];
          identities = (if cl_original_sub cl \<noteq> []
            then identities @ [ue_identity_name E (cf_idp cfg) (cl_original_sub cl)] else identities);
          identities = (if cl_user_id cl \<noteq> [] \<and> cl_user_id cl \<noteq> cl_sub cl
            then identities @ [ue_identity_name E (cf_idp cfg) (cl_user_id cl)] else identities)
      in \<lparr>us_meta = new_meta [] (m_name (ua_meta ua)), us_identities = identities\<rparr>)"

definition newIdentity :: "user \<Rightarrow> identity" where
  "newIdentity u = \<lparr>it_meta = new_meta [] [], it_provider = [], it_provider_user = [],
     it_user_name = m_name (us_meta u), it_user_uid = m_uid (us_meta u)\<rparr>"

definition ToIdentityName :: "string \<Rightarrow> string \<Rightarrow> string" where
  "ToIdentityName userID identityProvider = identityProvider @ '':'' @ userID"

text \<open>\<open>stringSlicesEqual\<close>: the lengths, then element by element.\<close>

fun slices_equal_from :: "string list \<Rightarrow> string list \<Rightarrow> bool" where
  "slices_equal_from (v # a) (w # b) = (if v \<noteq> w then False else slices_equal_from a b)"
| "slices_equal_from _ _ = True"

definition stringSlicesEqual :: "string list \<Rightarrow> string list \<Rightarrow> bool" where
  "stringSlicesEqual a b = (if length a \<noteq> length b then False else slices_equal_from a b)"

section \<open>Ensuring the user\<close>

text \<open>
  The results are the user (\<open>None\<close> for nil), \<open>createdOrUpdated\<close> and the error.  The first branch
  creates the user, the second brings an existing one in line.
\<close>

definition create_user :: "uenv \<Rightarrow> config \<Rightarrow> (user option \<times> bool \<times> err option) uprog" where
  "create_user E cfg = do {
     err \<leftarrow> setStatusProvisioning E;
     (case err of
        Some e \<Rightarrow> ret (None, False, Some e)
      | None \<Rightarrow> do {
          ua \<leftarrow> get_mem;
          let u = newUser E ua cfg;
          let u = u\<lparr>us_meta := fst (setLabelsAndAnnotations (us_meta u) ua True)\<rparr>;
          r \<leftarrow> call (\<lambda>tr. ue_create_user E tr u) (CreateUser u);
          (case r of
             Inl e \<Rightarrow> do {
               err \<leftarrow> wrapErrorWithStatusUpdate (setStatusUserCreationFailed E) (Some e)
                 (''failed to create user '' @ quoted (m_name (ua_meta ua)));
               ret (None, False, err)
             }
           | Inr u \<Rightarrow> do {
               err \<leftarrow> setStatusProvisioning E;
               (case err of Some e \<Rightarrow> ret (None, False, Some e) | None \<Rightarrow> ret (Some u, True, None))
             })
        })
   }"

definition update_identities :: "uenv \<Rightarrow> user \<Rightarrow> string list \<Rightarrow> (user option \<times> bool \<times> err option) uprog" where
  "update_identities E u expected = do {
     err \<leftarrow> setStatusProvisioning E;
     (case err of
        Some e \<Rightarrow> ret (None, False, Some e)
      | None \<Rightarrow> do {
          ua \<leftarrow> get_mem;
          let u = u\<lparr>us_identities := expected\<rparr>;
          r \<leftarrow> call (\<lambda>tr. ue_update_user E tr u) (UpdateUser u);
          (case r of
             Inl e \<Rightarrow> do {
               err \<leftarrow> wrapErrorWithStatusUpdate (setStatusMappingCreationFailed E) (Some e)
                 (''failed to update user '' @ quoted (m_name (ua_meta ua)));
               ret (None, False, err)
             }
           | Inr u \<Rightarrow> do {
               err \<leftarrow> setStatusProvisioning E;
               (case err of Some e \<Rightarrow> ret (None, False, Some e) | None \<Rightarrow> ret (Some u, True, None))
             })
        })
   }"

definition ensureUser :: "uenv \<Rightarrow> config \<Rightarrow> (user option \<times> bool \<times> err option) uprog" where
  "ensureUser E cfg = do {
     ua \<leftarrow> get_mem;
     r \<leftarrow> call (\<lambda>tr. ue_get_user E tr (m_name (ua_meta ua))) (GetUser (m_name (ua_meta ua)));
     (case r of
        Inl e \<Rightarrow>
          if IsNotFound (ue_lib E) e then create_user E cfg
          else do {
            err \<leftarrow> wrapErrorWithStatusUpdate (setStatusUserCreationFailed E) (Some e)
              (''failed to get user '' @ quoted (m_name (ua_meta ua)));
            ret (None, False, err)
          }
      | Inr u \<Rightarrow> do {
          (u, _) \<leftarrow> addLabelsAndAnnotations_user E u ua;
          let expected = expectedIdentities E cfg (ua_claims ua);
          if \<not> stringSlicesEqual expected (us_identities u) then update_identities E u expected
          else ret (Some u, False, None)
        })
   }"

section \<open>Ensuring the identities\<close>

definition create_identity :: "uenv \<Rightarrow> config \<Rightarrow> string \<Rightarrow> user \<Rightarrow> (identity option \<times> bool \<times> err option) uprog" where
  "create_identity E cfg username u = do {
     err \<leftarrow> setStatusProvisioning E;
     (case err of
        Some e \<Rightarrow> ret (None, False, Some e)
      | None \<Rightarrow> do {
          ua \<leftarrow> get_mem;
          let i = ue_apply_identity E (cf_idp cfg) username (newIdentity u);
          let i = i\<lparr>it_meta := fst (setLabelsAndAnnotations (it_meta i) ua False)\<rparr>;
          r \<leftarrow> call (\<lambda>tr. ue_create_identity E tr i) (CreateIdentity i);
          (case r of
             Inl e \<Rightarrow> do {
               err \<leftarrow> wrapErrorWithStatusUpdate (setStatusIdentityCreationFailed E) (Some e)
                 (''failed to create identity '' @ quoted (ue_identity_name E (cf_idp cfg) username));
               ret (None, False, err)
             }
           | Inr i \<Rightarrow> do {
               err \<leftarrow> setStatusProvisioning E;
               (case err of Some e \<Rightarrow> ret (None, False, Some e) | None \<Rightarrow> ret (Some i, True, None))
             })
        })
   }"

definition update_mapping :: "uenv \<Rightarrow> config \<Rightarrow> string \<Rightarrow> user \<Rightarrow> identity \<Rightarrow>
    (identity option \<times> bool \<times> err option) uprog" where
  "update_mapping E cfg username u i = do {
     err \<leftarrow> setStatusProvisioning E;
     (case err of
        Some e \<Rightarrow> ret (None, False, Some e)
      | None \<Rightarrow> do {
          let i = i\<lparr>it_user_name := m_name (us_meta u), it_user_uid := m_uid (us_meta u)\<rparr>;
          r \<leftarrow> call (\<lambda>tr. ue_update_identity E tr i) (UpdateIdentity i);
          (case r of
             Inl e \<Rightarrow> do {
               err \<leftarrow> wrapErrorWithStatusUpdate (setStatusMappingCreationFailed E) (Some e)
                 (''failed to update identity '' @ quoted (ue_identity_name E (cf_idp cfg) username));
               ret (None, False, err)
             }
           | Inr i \<Rightarrow> do {
               err \<leftarrow> setStatusProvisioning E;
               (case err of Some e \<Rightarrow> ret (None, False, Some e) | None \<Rightarrow> ret (Some i, True, None))
             })
        })
   }"

definition loadIdentityAndEnsureMapping :: "uenv \<Rightarrow> config \<Rightarrow> string \<Rightarrow> user \<Rightarrow>
    (identity option \<times> bool \<times> err option) uprog" where
  "loadIdentityAndEnsureMapping E cfg username u = do {
     let name = ue_identity_name E (cf_idp cfg) username;
     r \<leftarrow> call (\<lambda>tr. ue_get_identity E tr name) (GetIdentity name);
     (case r of
        Inl e \<Rightarrow>
          if IsNotFound (ue_lib E) e then create_identity E cfg username u
          else do {
            err \<leftarrow> wrapErrorWithStatusUpdate (setStatusIdentityCreationFailed E) (Some e)
              (''failed to get identity '' @ quoted name);
            ret (None, False, err)
          }
      | Inr i \<Rightarrow> do {
          ua \<leftarrow> get_mem;
          (i, _) \<leftarrow> addLabelsAndAnnotations_identity E i ua;
          if it_user_name i \<noteq> m_name (us_meta u) \<or> it_user_uid i \<noteq> m_uid (us_meta u)
          then update_mapping E cfg username u i
          else ret (Some i, False, None)
        })
   }"

definition ensureIdentity :: "uenv \<Rightarrow> config \<Rightarrow> user \<Rightarrow> (identity option \<times> bool \<times> err option) uprog" where
  "ensureIdentity E cfg u = do {
     ua \<leftarrow> get_mem;
     (i, createdOrUpdated, err) \<leftarrow> loadIdentityAndEnsureMapping E cfg (cl_sub (ua_claims ua)) u;
     if createdOrUpdated \<or> err \<noteq> None then ret (None, createdOrUpdated, err)
     else do {
       ua \<leftarrow> get_mem;
       (createdOrUpdated, err) \<leftarrow>
         (if cl_original_sub (ua_claims ua) \<noteq> [] then do {
            (_, c, e) \<leftarrow> loadIdentityAndEnsureMapping E cfg (cl_original_sub (ua_claims ua)) u;
            ret (c, e)
          } else ret (False, None));
       if createdOrUpdated \<or> err \<noteq> None then ret (None, createdOrUpdated, err)
       else do {
         ua \<leftarrow> get_mem;
         (createdOrUpdated, err) \<leftarrow>
           (if cl_user_id (ua_claims ua) \<noteq> [] \<and> cl_user_id (ua_claims ua) \<noteq> cl_sub (ua_claims ua) then do {
              (_, c, e) \<leftarrow> loadIdentityAndEnsureMapping E cfg (cl_user_id (ua_claims ua)) u;
              ret (c, e)
            } else ret (False, None));
         if createdOrUpdated \<or> err \<noteq> None then ret (None, createdOrUpdated, err)
         else ret (i, False, None)
       }
     }
   }"

section \<open>Deletion\<close>

definition UserSettingNS :: string where
  "UserSettingNS = ''openshift-console-user-settings''"

definition settings_name :: "string \<Rightarrow> settings_kind \<Rightarrow> string" where
  "settings_name userUID kind = ''user-settings-'' @ userUID @
     (case kind of Role \<Rightarrow> ''-role'' | RoleBinding \<Rightarrow> ''-rolebinding'' | ConfigMap \<Rightarrow> [])"

definition deleteResource :: "uenv \<Rightarrow> string \<Rightarrow> settings_kind \<Rightarrow> err option uprog" where
  "deleteResource E userUID kind = do {
     err \<leftarrow> uexec E (DeleteSettings kind UserSettingNS (settings_name userUID kind));
     (case err of
        Some e \<Rightarrow> if \<not> IsNotFound (ue_lib E) e then ret (Some e) else ret None
      | None \<Rightarrow> ret None)
   }"

definition deleteUserResources :: "uenv \<Rightarrow> string \<Rightarrow> err option uprog" where
  "deleteUserResources E userUID = do {
     err \<leftarrow> deleteResource E userUID ConfigMap;
     (case err of
        Some e \<Rightarrow> ret (Some e)
      | None \<Rightarrow> do {
          err \<leftarrow> deleteResource E userUID Role;
          (case err of Some e \<Rightarrow> ret (Some e) | None \<Rightarrow> deleteResource E userUID RoleBinding)
        })
   }"

definition getUsersByOwnerName :: "uenv \<Rightarrow> string \<Rightarrow> (err + user list) uprog" where
  "getUsersByOwnerName E owner = call (\<lambda>tr. ue_list_users E tr owner) (ListUsers owner)"

definition deleteUser :: "uenv \<Rightarrow> (bool \<times> err option) uprog" where
  "deleteUser E = do {
     ua \<leftarrow> get_mem;
     r \<leftarrow> getUsersByOwnerName E (m_name (ua_meta ua));
     (case r of
        Inl e \<Rightarrow> ret (False, Some e)
      | Inr [] \<Rightarrow> ret (False, None)
      | Inr (u # _) \<Rightarrow> do {
          err \<leftarrow> deleteUserResources E (m_uid (us_meta u));
          (case err of
             Some e \<Rightarrow> ret (False, Some e)
           | None \<Rightarrow> do {
               err \<leftarrow> uexec E (DeleteUser (m_name (us_meta u)));
               (case err of Some e \<Rightarrow> ret (False, Some e) | None \<Rightarrow> ret (True, None))
             })
        })
   }"

definition deleteIdentity :: "uenv \<Rightarrow> (bool \<times> err option) uprog" where
  "deleteIdentity E = do {
     ua \<leftarrow> get_mem;
     r \<leftarrow> call (\<lambda>tr. ue_list_identities E tr (m_name (ua_meta ua))) (ListIdentities (m_name (ua_meta ua)));
     (case r of
        Inl e \<Rightarrow> ret (False, Some e)
      | Inr [] \<Rightarrow> ret (False, None)
      | Inr (i # _) \<Rightarrow> do {
          err \<leftarrow> uexec E (DeleteIdentity (m_name (it_meta i)));
          (case err of Some e \<Rightarrow> ret (False, Some e) | None \<Rightarrow> ret (True, None))
        })
   }"

definition deleteIdentityAndUser :: "uenv \<Rightarrow> (bool \<times> err option) uprog" where
  "deleteIdentityAndUser E = do {
     (deleted, err) \<leftarrow> deleteIdentity E;
     if err \<noteq> None \<or> deleted then ret (deleted, err)
     else do {
       (deleted, err) \<leftarrow> deleteUser E;
       if err \<noteq> None \<or> deleted then ret (deleted, err) else ret (False, None)
     }
   }"

section \<open>Reconciling\<close>

definition ensureUserAndIdentity :: "uenv \<Rightarrow> config \<Rightarrow> (bool \<times> err option) uprog" where
  "ensureUserAndIdentity E cfg =
     (if \<not> cf_skip_user_creation cfg
      then do {
        (u, createdOrUpdated, err) \<leftarrow> ensureUser E cfg;
        (case (createdOrUpdated \<or> err \<noteq> None, u) of
           (False, Some u) \<Rightarrow> do {
             (_, createdOrUpdated, err) \<leftarrow> ensureIdentity E cfg u;
             ret (createdOrUpdated, err)
           }
         | _ \<Rightarrow> ret (createdOrUpdated, err))
      }
      else do {
        (deleted, err) \<leftarrow> deleteIdentityAndUser E;
        (case err of
           Some e \<Rightarrow> do {
             e \<leftarrow> wrapErrorWithStatusUpdate (setStatusUserCreationFailed E) (Some e)
               ''failed to delete redundant user or identity'';
             ret (deleted, e)
           }
         | None \<Rightarrow>
             if deleted then do { err \<leftarrow> setStatusProvisioning E; ret (deleted, err) }
             else ret (False, None))
      })"

definition ensureUserAccountDeletion :: "uenv \<Rightarrow> err option uprog" where
  "ensureUserAccountDeletion E = do {
     ua \<leftarrow> get_mem;
     if HasFinalizer (ue_lib E) (ua_meta ua) FinalizerName
     then do {
       (deleted, err) \<leftarrow> deleteIdentityAndUser E;
       (case err of
          Some e \<Rightarrow> wrapErrorWithStatusUpdate (setStatusTerminating E) (Some e) ''failed to delete user/identity''
        | None \<Rightarrow>
            if deleted then setStatusTerminating E ''deleting user/identity''
            else do {
              ua \<leftarrow> get_mem;
              let ua = ua\<lparr>ua_meta := RemoveFinalizer (ue_lib E) (ua_meta ua) FinalizerName\<rparr>;
              set_mem ua;
              r \<leftarrow> call (\<lambda>tr. ue_update_account E tr ua) (UpdateUserAccount ua);
              (case r of
                 Inl e \<Rightarrow> wrapErrorWithStatusUpdate (setStatusTerminating E) (Some e) ''failed to remove finalizer''
               | Inr new \<Rightarrow> do { set_mem new; ret None })
            })
     }
     else ret None
   }"

definition addFinalizer :: "uenv \<Rightarrow> err option uprog" where
  "addFinalizer E = do {
     ua \<leftarrow> get_mem;
     if \<not> HasFinalizer (ue_lib E) (ua_meta ua) FinalizerName
     then do {
       let ua = ua\<lparr>ua_meta := AddFinalizer (ue_lib E) (ua_meta ua) FinalizerName\<rparr>;
       set_mem ua;
       r \<leftarrow> call (\<lambda>tr. ue_update_account E tr ua) (UpdateUserAccount ua);
       (case r of Inl e \<Rightarrow> ret (Some e) | Inr new \<Rightarrow> do { set_mem new; ret None })
     }
     else ret None
   }"

text \<open>The last part of \<open>Reconcile\<close>: an account set to updating less than a second ago waits.\<close>

definition finish_reconcile :: "uenv \<Rightarrow> (int \<times> err option) uprog" where
  "finish_reconcile E = do {
     ua \<leftarrow> get_mem;
     now \<leftarrow> clock (ue_now E);
     (case FindConditionByType (ue_lib E) (ua_conds ua) ConditionReady of (c, ok) \<Rightarrow>
        if ok \<and> c_reason c = UserAccountUpdatingReason \<and> sat64 (now - c_transition c) \<le> second
        then ret (second, None)
        else do { err \<leftarrow> setStatusReady E; ret (0, err) })
   }"

definition disable_account :: "uenv \<Rightarrow> (int \<times> err option) uprog" where
  "disable_account E = do {
     err \<leftarrow> setStatusDisabling E ''deleting user/identity'';
     (case err of
        Some e \<Rightarrow> ret (0, Some e)
      | None \<Rightarrow> do {
          (deleted, err) \<leftarrow> deleteIdentityAndUser E;
          (case err of
             Some e \<Rightarrow> do {
               e \<leftarrow> wrapErrorWithStatusUpdate (setStatusDisabling E) (Some e) ''failed to delete user/identity'';
               ret (0, e)
             }
           | None \<Rightarrow>
               if \<not> deleted then do { err \<leftarrow> setStatusDisabled E; ret (0, err) }
               else ret (0, None))
        })
   }"

definition Reconcile :: "uenv \<Rightarrow> string \<Rightarrow> string \<Rightarrow> (int \<times> err option) uprog" where
  "Reconcile E ns name =
     (case (if ns = [] then ue_watch_ns E else Inr ns) of
        Inl e \<Rightarrow> ret (0, Some e)
      | Inr ns \<Rightarrow> do {
          cfg \<leftarrow> call (ue_config E) GetConfiguration;
          (case cfg of
             Inl e \<Rightarrow> ret (0, Some (Wrapped ''unable to get MemberOperatorConfig'' e))
           | Inr cfg \<Rightarrow> do {
               r \<leftarrow> call (\<lambda>tr. ue_get_account E tr ns name) (GetUserAccount ns name);
               (case r of
                  Inl e \<Rightarrow> if IsNotFound (ue_lib E) e then ret (0, None) else ret (0, Some e)
                | Inr ua \<Rightarrow> do {
                    set_mem ua;
                    if \<not> IsBeingDeleted (ue_lib E) (ua_meta ua)
                    then do {
                      err \<leftarrow> addFinalizer E;
                      (case err of
                         Some e \<Rightarrow> ret (0, Some e)
                       | None \<Rightarrow> do {
                           ua \<leftarrow> get_mem;
                           if \<not> ua_disabled ua
                           then do {
                             (createdOrUpdated, err) \<leftarrow> ensureUserAndIdentity E cfg;
                             if err \<noteq> None \<or> createdOrUpdated then ret (0, err)
                             else finish_reconcile E
                           }
                           else disable_account E
                         })
                    }
                    else do { err \<leftarrow> ensureUserAccountDeletion E; ret (0, err) }
                  })
             })
        })"

end
