(* ===== verification/UserAccountProofs.thy ===== *)
theory UserAccountProofs
  imports UserAccount Steps
begin

text \<open>
  What the user account controller guarantees: one change per reconcile, users deleted after their
  identities and settings, the finalizer removed last, a created user and identity
  that the next reconcile accepts as they are.
\<close>

section \<open>Status writes\<close>

fun is_ua_status :: "ucall \<Rightarrow> bool" where
  "is_ua_status (UpdateUserAccountStatus ua) = True"
| "is_ua_status _ = False"

interpretation account_status: status_writer "\<lambda>c. updateStatusConditions E [c]" is_ua_status
  by unfold_locales
     (auto simp: updateStatusConditions_def wp_simps Let_def split: prod.splits sum.splits)

lemmas ua_status_defs = setStatusUserCreationFailed_def setStatusIdentityCreationFailed_def
  setStatusMappingCreationFailed_def setStatusProvisioning_def setStatusReady_def
  setStatusDisabling_def setStatusDisabled_def setStatusTerminating_def

text \<open>A status update leaves everything but the status; the spec and the name of the account.\<close>

definition status_only :: "uenv \<Rightarrow> bool" where
  "status_only E \<longleftrightarrow> (\<forall>tr a b. ue_update_status E tr a = Inr b \<longrightarrow>
     m_name (ua_meta b) = m_name (ua_meta a) \<and> ua_claims b = ua_claims a \<and> ua_disabled b = ua_disabled a)"

abbreviation account_spec :: "user_account \<Rightarrow> string \<times> claims \<times> bool" where
  "account_spec ua \<equiv> (m_name (ua_meta ua), ua_claims ua, ua_disabled ua)"

lemma ua_updateStatus_keeps [keeps_rules]:
  assumes "status_only E"
  shows "keeps account_spec (updateStatusConditions E cs)"
  by (rule wp_keeps)
     (use assms in \<open>auto simp: updateStatusConditions_def wp_simps Let_def status_only_def
       split: prod.splits sum.splits\<close>)

lemma ua_wrap_keeps [keeps_rules]:
  "(\<And>m. keeps f (upd m)) \<Longrightarrow> keeps f (wrapErrorWithStatusUpdate upd e fmt)"
  unfolding wrapErrorWithStatusUpdate_def by (auto intro!: keeps_rules)

section \<open>One change at a time\<close>

text \<open>The calls that create or delete a User or an Identity.\<close>

fun is_lifecycle :: "ucall \<Rightarrow> bool" where
  "is_lifecycle (CreateUser u) = True"
| "is_lifecycle (DeleteUser n) = True"
| "is_lifecycle (CreateIdentity i) = True"
| "is_lifecycle (DeleteIdentity n) = True"
| "is_lifecycle _ = False"

lemma ua_updateStatus_still [emits_rules]: "still is_lifecycle (updateStatusConditions E cs)"
  unfolding updateStatusConditions_def Let_def by (auto intro!: emits_rules)

lemma ua_status_still [emits_rules]:
  "still is_lifecycle (setStatusUserCreationFailed E m)" "still is_lifecycle (setStatusIdentityCreationFailed E m)"
  "still is_lifecycle (setStatusMappingCreationFailed E m)" "still is_lifecycle (setStatusProvisioning E)"
  "still is_lifecycle (setStatusReady E)" "still is_lifecycle (setStatusDisabling E m)"
  "still is_lifecycle (setStatusDisabled E)" "still is_lifecycle (setStatusTerminating E m)"
  by (simp_all add: ua_status_defs ua_updateStatus_still)

lemma ua_wrap_still [emits_rules]:
  "(\<And>m. still is_lifecycle (upd m)) \<Longrightarrow> still is_lifecycle (wrapErrorWithStatusUpdate upd e fmt)"
  unfolding wrapErrorWithStatusUpdate_def by (auto intro!: emits_rules)

lemma ua_labels_still [emits_rules]:
  "still is_lifecycle (addLabelsAndAnnotations_user E u ua)"
  "still is_lifecycle (addLabelsAndAnnotations_identity E i ua)"
  unfolding addLabelsAndAnnotations_user_def addLabelsAndAnnotations_identity_def Let_def
  by (auto intro!: emits_rules)

lemma update_identities_still [emits_rules]: "still is_lifecycle (update_identities E u ids)"
  unfolding update_identities_def Let_def by (auto intro!: emits_rules)

lemma update_mapping_still [emits_rules]: "still is_lifecycle (update_mapping E cfg n u i)"
  unfolding update_mapping_def Let_def by (auto intro!: emits_rules)

text \<open>What a failing wrapper returns is an error again.\<close>

lemma ua_wrap_fails: "wp (wrapErrorWithStatusUpdate upd (Some e) fmt) (\<lambda>r s'. r = Some (Wrapped fmt e)) s"
  unfolding wrapErrorWithStatusUpdate_def option.case wp_bind
  by (rule wp_any) (simp add: wp_simps)

text \<open>The results (object, changed, err) of the ensure functions.\<close>

definition nothing_ensured :: "'a option \<times> bool \<times> err option \<Rightarrow> bool" where
  "nothing_ensured r = nothing_done (snd r)"


lemma never_ensured [cautious_rules]:
  "never nothing_ensured (case err of None \<Rightarrow> ret (x, True, None) | Some e \<Rightarrow> ret (y, b, Some e))"
  by (auto simp: nothing_ensured_def nothing_done_def intro!: cautious_rules)

lemma wrap_result_cautious:
  "(\<And>m. still is_lifecycle (upd m)) \<Longrightarrow>
   cautious is_lifecycle q (State_Monad.bind (wrapErrorWithStatusUpdate upd e fmt) (\<lambda>err. ret (f err)))"
  by (intro cautious_rules ua_wrap_still)

lemma create_user_cautious: "cautious is_lifecycle nothing_ensured (create_user E cfg)"
  unfolding create_user_def Let_def
  apply (rule cautious_still_bind [OF ua_status_still(4)])
  apply (intro cautious_case_option cautious_return cautious_still_bind [OF emits_get_mem] cautious_call_bind;
     simp add: wrap_result_cautious ua_status_still never_ensured never_bind emits_rules)
  done

lemma ensureUser_cautious: "cautious is_lifecycle nothing_ensured (ensureUser E cfg)"
  unfolding ensureUser_def Let_def
  by (auto intro!: cautious_rules create_user_cautious cautious_still [OF update_identities_still] emits_rules)

lemma create_identity_cautious: "cautious is_lifecycle nothing_ensured (create_identity E cfg n u)"
  unfolding create_identity_def Let_def
  apply (rule cautious_still_bind [OF ua_status_still(4)])
  apply (intro cautious_case_option cautious_return cautious_still_bind [OF emits_get_mem] cautious_call_bind;
     simp add: wrap_result_cautious ua_status_still never_ensured never_bind emits_rules)
  done

lemma loadIdentity_cautious: "cautious is_lifecycle nothing_ensured (loadIdentityAndEnsureMapping E cfg n u)"
  unfolding loadIdentityAndEnsureMapping_def Let_def
  by (auto intro!: cautious_rules create_identity_cautious cautious_still [OF update_mapping_still] emits_rules)

lemma ensured_iff: "nothing_ensured (x, c, e) \<longleftrightarrow> \<not> c \<and> e = None"
  by (simp add: nothing_ensured_def nothing_done_def)

lemma load_pair_cautious:
  "cautious is_lifecycle nothing_done
     (do { (_, c, e) \<leftarrow> loadIdentityAndEnsureMapping E cfg n u; ret (c, e) })"
  by (rule cautious_bind [OF loadIdentity_cautious])
     (auto simp: ensured_iff done_iff intro!: cautious_rules emits_rules)

lemma ensureIdentity_cautious: "cautious is_lifecycle nothing_ensured (ensureIdentity E cfg u)"
proof -
  have step: "cautious is_lifecycle nothing_ensured
      (do { (c, e) \<leftarrow> (if b then do { (_, c, e) \<leftarrow> loadIdentityAndEnsureMapping E cfg n u; ret (c, e) }
                           else ret (False, None));
            if c \<or> e \<noteq> None then ret (None, c, e) else m })"
    if "cautious is_lifecycle nothing_ensured m" for b n and m :: "(identity option \<times> bool \<times> err option) uprog"
    using load_pair_cautious [simplified]
    by (intro cautious_bind [where p = nothing_done])
       (auto simp: ensured_iff done_iff that intro!: cautious_if load_pair_cautious cautious_return never_return emits_return)
  show ?thesis
    unfolding ensureIdentity_def
    apply (rule cautious_still_bind [OF emits_get_mem])
    apply (rule cautious_bind [OF loadIdentity_cautious])
      apply (intro cautious_case_prod cautious_if cautious_return cautious_still_bind [OF emits_get_mem] step)
     apply (auto simp: ensured_iff intro!: never_return emits_return)
    done
qed

lemma deleteUserResources_still [emits_rules]: "still is_lifecycle (deleteUserResources E uid)"
  unfolding deleteUserResources_def deleteResource_def by (auto intro!: emits_rules)

interpretation identity_deletion: cautious_step "deleteIdentity E" is_lifecycle
proof unfold_locales
  show "cautious is_lifecycle nothing_done (deleteIdentity E)"
    unfolding deleteIdentity_def
    apply (intro cautious_still_bind [OF emits_get_mem] cautious_still_bind [OF emits_call] cautious_case_sum
        cautious_return)
     apply simp
    apply (auto split: list.splits intro!: cautious_call_err_bind cautious_return emits_return delete_never)
    done
qed

interpretation user_deletion: cautious_step "deleteUser E" is_lifecycle
proof unfold_locales
  show "cautious is_lifecycle nothing_done (deleteUser E)"
    unfolding deleteUser_def getUsersByOwnerName_def
    apply (intro cautious_still_bind [OF emits_get_mem] cautious_still_bind [OF emits_call] cautious_case_sum
        cautious_return)
     apply simp
    apply (auto split: list.splits option.splits intro!: cautious_still_bind [OF deleteUserResources_still]
       cautious_call_err_bind cautious_return emits_return delete_never)
    done
qed

lemma deleteIdentityAndUser_steps:
  "deleteIdentityAndUser E = then_step (deleteIdentity E) (then_step (deleteUser E) (ret (False, None)))"
  unfolding deleteIdentityAndUser_def then_step_def ..

interpretation deletion: cautious_pair "deleteIdentity E" "then_step (deleteUser E) (ret (False, None))" is_lifecycle
  by unfold_locales (rule user_deletion.before, rule cautious_return)

lemma deletion_cautious: "cautious is_lifecycle nothing_done (deleteIdentityAndUser E)"
  unfolding deleteIdentityAndUser_steps by (rule deletion.pair_one_change)

lemma ensureUserAndIdentity_cautious: "cautious is_lifecycle nothing_done (ensureUserAndIdentity E cfg)"
  unfolding ensureUserAndIdentity_def
proof (rule cautious_if)
  assume "\<not> cf_skip_user_creation cfg"
  have later: "cautious is_lifecycle nothing_done (do { (_, c, e) \<leftarrow> ensureIdentity E cfg u; ret (c, e) })" for u
    by (rule cautious_bind [OF ensureIdentity_cautious])
       (auto simp: ensured_iff done_iff intro!: cautious_rules emits_rules)
  show "cautious is_lifecycle nothing_done
     (do { (u, c, e) \<leftarrow> ensureUser E cfg;
           (case (c \<or> e \<noteq> None, u) of
              (False, Some u) \<Rightarrow> do { (_, c, e) \<leftarrow> ensureIdentity E cfg u; ret (c, e) }
            | _ \<Rightarrow> ret (c, e)) })"
    using later [simplified]
    by (intro cautious_bind [OF ensureUser_cautious])
       (auto simp: ensured_iff done_iff split: bool.splits option.splits
         intro!: cautious_return never_return emits_return)
next
  show "cautious is_lifecycle nothing_done
     (do { (deleted, err) \<leftarrow> deleteIdentityAndUser E;
           (case err of
              Some e \<Rightarrow> do {
                e \<leftarrow> wrapErrorWithStatusUpdate (setStatusUserCreationFailed E) (Some e)
                  ''failed to delete redundant user or identity'';
                ret (deleted, e)
              }
            | None \<Rightarrow>
                if deleted then do { err \<leftarrow> setStatusProvisioning E; ret (deleted, err) }
                else ret (False, None)) })"
  proof (rule cautious_bind [OF deletion_cautious], goal_cases)
    case (1 r)
    then show ?case by (auto simp: done_iff split: prod.splits intro!: cautious_return)
  next
    case (2 r)
    then show ?case by (auto split: prod.splits option.splits intro!: emits_rules)
  next
    case (3 r)
    have "never nothing_done (do { e \<leftarrow> wrapErrorWithStatusUpdate upd (Some x) fmt; ret (d, e) })" for upd x fmt d
      unfolding never_def wp_bind
      by (intro allI wp_mono [OF ua_wrap_fails]) (simp add: wp_simps done_iff)
    with 3 show ?case
      by (auto simp: done_iff split: prod.splits option.splits intro!: never_bind never_return)
  qed
qed

lemma addFinalizer_still [emits_rules]: "still is_lifecycle (addFinalizer E)"
  unfolding addFinalizer_def Let_def by (auto intro!: emits_rules)

lemma finish_still [emits_rules]: "still is_lifecycle (finish_reconcile E)"
  unfolding finish_reconcile_def by (auto intro!: emits_rules)

lemma disable_account_cautious: "cautious is_lifecycle always_false (disable_account E)"
  unfolding disable_account_def
  by (intro cautious_still_bind [OF ua_status_still(6)] cautious_case_option cautious_return
      cautious_bind [OF deletion_cautious] never_False)
     (auto simp: done_iff split: prod.splits option.splits intro!: cautious_still emits_rules)

lemma ensureUserAccountDeletion_cautious: "cautious is_lifecycle always_false (ensureUserAccountDeletion E)"
  unfolding ensureUserAccountDeletion_def Let_def
  by (intro cautious_still_bind [OF emits_get_mem] cautious_if cautious_return
      cautious_bind [OF deletion_cautious] never_False)
     (auto simp: done_iff split: prod.splits option.splits intro!: cautious_still emits_rules)

lemma Reconcile_cautious: "cautious is_lifecycle always_false (Reconcile E ns name)"
proof -
  have active: "cautious is_lifecycle always_false
      (do { (c, err) \<leftarrow> ensureUserAndIdentity E cfg; if err \<noteq> None \<or> c then ret (0, err) else finish_reconcile E })" for cfg
    by (intro cautious_bind [OF ensureUserAndIdentity_cautious] never_False)
       (auto simp: done_iff split: prod.splits intro!: cautious_still emits_rules)
  have gone: "cautious is_lifecycle always_false (do { err \<leftarrow> ensureUserAccountDeletion E; ret (0, err) })"
    by (intro cautious_bind [OF ensureUserAccountDeletion_cautious] never_False) (auto intro!: emits_rules)
  show ?thesis
    unfolding Reconcile_def
    by (auto split: sum.splits simp del: not_None_eq
        intro!: cautious_rules active gone disable_account_cautious emits_rules)
qed

section \<open>Labels and annotations\<close>

lemma alist_update_same: "map_of l k = Some v \<Longrightarrow> AList.update k v l = l"
  by (induction l) (auto split: if_splits)

lemma alist_delete_absent: "map_of l k = None \<Longrightarrow> AList.delete k l = l"
  by (induction l) (auto split: if_splits)

lemma put_same: "lookup m k = Some v \<Longrightarrow> put m k v = m"
  by (cases m) (simp_all add: put_def alist_update_same)

lemma drop_absent: "lookup m k = None \<Longrightarrow> drop_key m k = m"
  by (cases m) (simp_all add: drop_key_def alist_delete_absent)

lemma drop_key_None [simp]: "drop_key m k = None \<longleftrightarrow> m = None"
  by (simp add: drop_key_def split: option.splits)

lemma set_label_lookup:
  "lookup (m_labels (fst (set_label k v (m, c)))) k' =
     (if k = k' \<and> lookup (m_labels m) k = None then Some v else lookup (m_labels m) k')"
  by (auto simp: set_label_def)

lemma set_label_annotations [simp]: "m_annotations (fst (set_label k v mc)) = m_annotations (fst mc)"
  by (cases mc) (simp add: set_label_def)

lemma set_annotations_labels [simp]: "m_labels (fst (set_annotations cl mc)) = m_labels (fst mc)"
  by (cases mc) (simp add: set_annotations_def Let_def)

lemma set_label_present: "lookup (m_labels m) k \<noteq> None \<Longrightarrow> set_label k v (m, c) = (m, c)"
  by (auto simp: set_label_def)

lemma set_annotations_changed: "snd (set_annotations cl mc)"
  by (cases mc) (auto simp: set_annotations_def Let_def)

text \<open>The annotations afterwards, key by key.\<close>

lemma set_annotations_lookup:
  "lookup (m_annotations (fst (set_annotations cl (m, c)))) k =
     (if k = EmailUserAnnotationKey then
        (case lookup (m_annotations m) EmailUserAnnotationKey of None \<Rightarrow> Some (cl_email cl) | Some e \<Rightarrow> Some e)
      else if k = UserIDUserAnnotationKey then
        (if cl_user_id cl \<noteq> [] \<and> cl_account_id cl \<noteq> [] then Some (cl_user_id cl) else None)
      else if k = AccountIDUserAnnotationKey then
        (if cl_user_id cl \<noteq> [] \<and> cl_account_id cl \<noteq> [] then Some (cl_account_id cl) else None)
      else lookup (m_annotations m) k)"
  by (cases "m_annotations m") (auto simp: set_annotations_def Let_def split: option.splits)

lemma set_annotations_stable:
  assumes "lookup (m_annotations m) EmailUserAnnotationKey \<noteq> None"
    and "cl_user_id cl \<noteq> [] \<and> cl_account_id cl \<noteq> [] \<Longrightarrow>
      lookup (m_annotations m) UserIDUserAnnotationKey = Some (cl_user_id cl) \<and>
      lookup (m_annotations m) AccountIDUserAnnotationKey = Some (cl_account_id cl)"
    and "\<not> (cl_user_id cl \<noteq> [] \<and> cl_account_id cl \<noteq> []) \<Longrightarrow>
      lookup (m_annotations m) UserIDUserAnnotationKey = None \<and>
      lookup (m_annotations m) AccountIDUserAnnotationKey = None"
  shows "set_annotations cl (m, c) = (m, True)"
proof (cases "cl_user_id cl \<noteq> [] \<and> cl_account_id cl \<noteq> []")
  case True
  from assms(1) assms(2) [OF this] show ?thesis
    using True by (auto simp: set_annotations_def put_same)
next
  case False
  from assms(1) obtain a where "m_annotations m = Some a" by (cases "m_annotations m") auto
  with assms(1) assms(3) [OF False] False show ?thesis
    by (auto simp: set_annotations_def drop_absent)
qed

lemma setLabels_labels:
  "lookup (m_labels (fst (setLabelsAndAnnotations m ua b))) k =
     (case lookup (m_labels m) k of Some v \<Rightarrow> Some v
      | None \<Rightarrow> if k = ProviderLabelKey then Some ProviderLabelValue
                else if k = OwnerLabelKey then Some (m_name (ua_meta ua)) else None)"
proof -
  obtain m1 c1 where 1: "set_label ProviderLabelKey ProviderLabelValue (m, False) = (m1, c1)"
    by (cases "set_label ProviderLabelKey ProviderLabelValue (m, False)")
  have "lookup (m_labels m1) k' = (if ProviderLabelKey = k' \<and> lookup (m_labels m) ProviderLabelKey = None
      then Some ProviderLabelValue else lookup (m_labels m) k')" for k'
    using set_label_lookup [of ProviderLabelKey ProviderLabelValue m False k'] 1 by simp
  then show ?thesis
    by (auto simp: setLabelsAndAnnotations_def 1 set_label_lookup Let_def split: option.splits)
qed

lemma setLabels_annotations:
  "m_annotations (fst (setLabelsAndAnnotations m ua True)) =
   m_annotations (fst (set_annotations (ua_claims ua) (m, False)))"
proof -
  have "m_annotations (fst (set_annotations cl (m1, c))) = m_annotations (fst (set_annotations cl (m2, d)))"
    if "m_annotations m1 = m_annotations m2" for cl m1 m2 c d
    using that by (auto simp: set_annotations_def Let_def)
  then show ?thesis
    by (simp add: setLabelsAndAnnotations_def Let_def)
       (metis prod.collapse set_label_annotations fst_conv)
qed

lemma setLabels_again:
  "setLabelsAndAnnotations (fst (setLabelsAndAnnotations m ua b)) ua b = (fst (setLabelsAndAnnotations m ua b), b)"
proof -
  let ?m = "fst (setLabelsAndAnnotations m ua b)"
  have labels: "lookup (m_labels ?m) ProviderLabelKey \<noteq> None" "lookup (m_labels ?m) OwnerLabelKey \<noteq> None"
    by (auto simp: setLabels_labels split: option.splits)
  show ?thesis
  proof (cases b)
    case False
    then show ?thesis
      unfolding setLabelsAndAnnotations_def [of ?m] set_label_present [OF labels(1)]
        set_label_present [OF labels(2)] Let_def by simp
  next
    case True
    have "set_annotations (ua_claims ua) (?m, False) = (?m, True)"
      by (rule set_annotations_stable) (auto simp: True setLabels_annotations set_annotations_lookup split: option.splits)
    with True show ?thesis
      unfolding setLabelsAndAnnotations_def [of ?m] set_label_present [OF labels(1)]
        set_label_present [OF labels(2)] Let_def by simp
  qed
qed

lemma setLabels_user_changed: "snd (setLabelsAndAnnotations m ua True)"
  by (simp add: setLabelsAndAnnotations_def Let_def set_annotations_changed)

section \<open>Identities\<close>

lemma newUser_identities: "us_identities (newUser E ua cfg) = expectedIdentities E cfg (ua_claims ua)"
  by (simp add: newUser_def expectedIdentities_def Let_def)

lemma slices_equal_from_iff: "length a = length b \<Longrightarrow> slices_equal_from a b = (a = b)"
  by (induction a b rule: slices_equal_from.induct) auto

lemma stringSlicesEqual_iff: "stringSlicesEqual a b = (a = b)"
  by (auto simp: stringSlicesEqual_def slices_equal_from_iff)

lemma update_mapping_done: "wp (update_mapping E cfg n u i) (\<lambda>(i, c, e) s'. c \<or> e \<noteq> None) s"
  unfolding update_mapping_def Let_def wp_bind
  by (rule wp_any)
     (auto simp: wp_simps split: option.splits sum.splits
       intro!: wp_any [where m = "setStatusProvisioning E"] wp_mono [OF ua_wrap_fails])

lemma create_identity_done: "wp (create_identity E cfg n u) (\<lambda>(i, c, e) s'. c \<or> e \<noteq> None) s"
  unfolding create_identity_def Let_def wp_bind
  by (rule wp_any)
     (auto simp: wp_simps split: option.splits sum.splits
       intro!: wp_any [where m = "setStatusProvisioning E"] wp_mono [OF ua_wrap_fails])

definition maps_to :: "user \<Rightarrow> identity \<Rightarrow> bool" where
  "maps_to u i \<longleftrightarrow> it_user_name i = m_name (us_meta u) \<and> it_user_uid i = m_uid (us_meta u)"

lemma loadIdentity_mapped:
  "wp (loadIdentityAndEnsureMapping E cfg n u)
     (\<lambda>(i, c, e) s'. c \<or> e \<noteq> None \<or> (\<exists>j. i = Some j \<and> maps_to u j)) s"
  unfolding loadIdentityAndEnsureMapping_def Let_def
  by (auto simp: wp_simps maps_to_def split: sum.splits prod.splits
      intro!: wp_mono [OF create_identity_done] wp_mono [OF update_mapping_done]
        wp_mono [OF ua_wrap_fails] wp_any [where m = "addLabelsAndAnnotations_identity E i ua" for i ua])

lemma ua_grows [emits_rules]:
  "grows (wrapErrorWithStatusUpdate (setStatusIdentityCreationFailed E) e fmt)"
  "grows (wrapErrorWithStatusUpdate (setStatusMappingCreationFailed E) e fmt)"
  "grows (setStatusProvisioning E)" "grows (addLabelsAndAnnotations_identity E i ua)"
  unfolding wrapErrorWithStatusUpdate_def ua_status_defs updateStatusConditions_def
    addLabelsAndAnnotations_identity_def Let_def
  by (auto intro!: emits_rules)

lemma loadIdentity_grows [emits_rules]: "grows (loadIdentityAndEnsureMapping E cfg n u)"
  unfolding loadIdentityAndEnsureMapping_def create_identity_def update_mapping_def Let_def
  by (auto intro!: emits_rules)

lemma loadIdentity_called:
  "wp (loadIdentityAndEnsureMapping E cfg n u)
     (\<lambda>r s'. called (GetIdentity (ue_identity_name E (cf_idp cfg) n)) s') s"
  unfolding loadIdentityAndEnsureMapping_def create_identity_def update_mapping_def Let_def
  by (rule called_bind) (auto simp: wp_simps intro!: emits_rules)

lemma loadIdentity_keeps [keeps_rules]:
  "status_only E \<Longrightarrow> keeps account_spec (loadIdentityAndEnsureMapping E cfg n u)"
  unfolding loadIdentityAndEnsureMapping_def create_identity_def update_mapping_def
    addLabelsAndAnnotations_identity_def ua_status_defs Let_def
  by (auto intro!: keeps_rules)

section \<open>Deletion\<close>

definition tolerated :: "uenv \<Rightarrow> utrace \<Rightarrow> ucall \<Rightarrow> bool \<Rightarrow> bool" where
  "tolerated E tr c ok \<longleftrightarrow> ok \<or> (\<exists>e. ue_exec E tr c = Some e \<and> IsNotFound (ue_lib E) e)"

definition settings_call :: "user \<Rightarrow> settings_kind \<Rightarrow> ucall" where
  "settings_call u k = DeleteSettings k UserSettingNS (settings_name (m_uid (us_meta u)) k)"

lemma settings_call_neq [simp]:
  "DeleteUser n \<noteq> settings_call u k" "UpdateUserAccount ua \<noteq> settings_call u k"
  by (simp_all add: settings_call_def)

lemma deleteIdentity_result:
  "wp (deleteIdentity E) (\<lambda>(d, e) s'. mem s' = mem s \<and>
     (if \<not> d \<and> e = None
      then ue_list_identities E (calls s) (m_name (ua_meta (mem s))) = Inr [] \<and>
        calls s' = calls s @ [(ListIdentities (m_name (ua_meta (mem s))), True)]
      else ue_list_identities E (calls s) (m_name (ua_meta (mem s))) \<noteq> Inr [] \<and>
        (\<exists>t. calls s' = calls s @ t \<and> (\<forall>n ok. (DeleteUser n, ok) \<notin> set t) \<and>
           (\<forall>ua ok. (UpdateUserAccount ua, ok) \<notin> set t)))) s"
  by (auto simp: deleteIdentity_def wp_simps split: sum.splits list.splits option.splits)

lemma deleteUserResources_result:
  "wp (deleteUserResources E (m_uid (us_meta u)))
     (\<lambda>e s'. mem s' = mem s \<and> (\<exists>t. calls s' = calls s @ t \<and> (\<forall>n ok. (DeleteUser n, ok) \<notin> set t) \<and>
        (\<forall>ua ok. (UpdateUserAccount ua, ok) \<notin> set t) \<and>
        (e = None \<longrightarrow> (\<exists>ok1 ok2 ok3. t = [(settings_call u ConfigMap, ok1), (settings_call u Role, ok2),
           (settings_call u RoleBinding, ok3)] \<and>
           tolerated E (calls s) (settings_call u ConfigMap) ok1 \<and>
           tolerated E (calls s @ take 1 t) (settings_call u Role) ok2 \<and>
           tolerated E (calls s @ take 2 t) (settings_call u RoleBinding) ok3)))) s"
  by (auto simp: deleteUserResources_def deleteResource_def wp_simps settings_call_def tolerated_def
      split: option.splits)

lemma deleteUser_result:
  "wp (deleteUser E) (\<lambda>(d, e) s'. mem s' = mem s \<and> (\<exists>t. calls s' = calls s @ t \<and>
     (\<forall>ua ok. (UpdateUserAccount ua, ok) \<notin> set t) \<and>
     (\<not> d \<and> e = None \<longleftrightarrow> ue_list_users E (calls s) (m_name (ua_meta (mem s))) = Inr []) \<and>
     (\<not> d \<and> e = None \<longrightarrow> t = [(ListUsers (m_name (ua_meta (mem s))), True)]) \<and>
     (\<forall>n ok. (DeleteUser n, ok) \<in> set t \<longrightarrow> (\<exists>u us ok1 ok2 ok3.
        ue_list_users E (calls s) (m_name (ua_meta (mem s))) = Inr (u # us) \<and> n = m_name (us_meta u) \<and>
        t = [(ListUsers (m_name (ua_meta (mem s))), True), (settings_call u ConfigMap, ok1),
             (settings_call u Role, ok2), (settings_call u RoleBinding, ok3), (DeleteUser n, ok)] \<and>
        tolerated E (calls s @ take 1 t) (settings_call u ConfigMap) ok1 \<and>
        tolerated E (calls s @ take 2 t) (settings_call u Role) ok2 \<and>
        tolerated E (calls s @ take 3 t) (settings_call u RoleBinding) ok3)))) s"
proof -
  let ?n = "m_name (ua_meta (mem s))"
  show ?thesis
  proof (cases "ue_list_users E (calls s) ?n")
    case (Inl e)
    then show ?thesis by (simp add: deleteUser_def getUsersByOwnerName_def wp_simps)
  next
    case (Inr us)
    show ?thesis
    proof (cases us)
      case Nil
      with Inr show ?thesis by (simp add: deleteUser_def getUsersByOwnerName_def wp_simps)
    next
      case (Cons u rest)
      show ?thesis
        unfolding deleteUser_def getUsersByOwnerName_def wp_bind wp_get_mem wp_call Inr Cons sum.case list.case
        by (rule wp_mono [OF deleteUserResources_result])
           (auto simp: wp_simps split: option.splits)
    qed
  qed
qed

text \<open>
  The trace \<open>t\<close> of a deletion that reached a User: no Identity is left, and the console settings
  named after the UID of the first User were each deleted or found missing before.
\<close>

definition orderly_user_deletion :: "uenv \<Rightarrow> utrace \<Rightarrow> string \<Rightarrow> utrace \<Rightarrow> bool" where
  "orderly_user_deletion E tr name t \<longleftrightarrow> ue_list_identities E tr name = Inr [] \<and>
     (\<exists>u us ok1 ok2 ok3 ok. ue_list_users E (tr @ take 1 t) name = Inr (u # us) \<and>
        t = [(ListIdentities name, True), (ListUsers name, True), (settings_call u ConfigMap, ok1),
             (settings_call u Role, ok2), (settings_call u RoleBinding, ok3),
             (DeleteUser (m_name (us_meta u)), ok)] \<and>
        tolerated E (tr @ take 2 t) (settings_call u ConfigMap) ok1 \<and>
        tolerated E (tr @ take 3 t) (settings_call u Role) ok2 \<and>
        tolerated E (tr @ take 4 t) (settings_call u RoleBinding) ok3)"

text \<open>Nothing left to delete.\<close>

definition all_deleted :: "uenv \<Rightarrow> utrace \<Rightarrow> string \<Rightarrow> bool" where
  "all_deleted E tr name \<longleftrightarrow> ue_list_identities E tr name = Inr [] \<and>
     ue_list_users E (tr @ [(ListIdentities name, True)]) name = Inr []"

definition deletion_post :: "uenv \<Rightarrow> (user_account, ucall) st \<Rightarrow> bool \<times> err option \<Rightarrow>
    (user_account, ucall) st \<Rightarrow> bool" where
  "deletion_post E s r s' \<longleftrightarrow> mem s' = mem s \<and> (\<exists>t. calls s' = calls s @ t \<and>
     (\<forall>ua ok. (UpdateUserAccount ua, ok) \<notin> set t) \<and>
     nothing_done r = all_deleted E (calls s) (m_name (ua_meta (mem s))) \<and>
     (\<forall>n ok. (DeleteUser n, ok) \<in> set t \<longrightarrow> orderly_user_deletion E (calls s) (m_name (ua_meta (mem s))) t))"

lemma deleteIdentityAndUser_result: "wp (deleteIdentityAndUser E) (deletion_post E s) s"
  unfolding deleteIdentityAndUser_def wp_bind
proof (rule wp_mono [OF deleteIdentity_result], clarify, goal_cases)
  case (1 d e s1)
  let ?n = "m_name (ua_meta (mem s))"
  show ?case
  proof (cases "\<not> d \<and> e = None")
    case False
    with 1 show ?thesis
      by (auto simp: wp_simps deletion_post_def all_deleted_def done_iff)
  next
    case True
    with 1 have h: "mem s1 = mem s" "ue_list_identities E (calls s) ?n = Inr []"
        "calls s1 = calls s @ [(ListIdentities ?n, True)]" by auto
    have "wp (deleteUser E) (deletion_post E s) s1"
    proof (rule wp_mono [OF deleteUser_result], clarify, goal_cases)
      case (1 d e s2 t)
      let ?t = "(ListIdentities ?n, True) # t"
      have "nothing_done (d, e) = all_deleted E (calls s) ?n"
        using 1(4) h by (simp add: all_deleted_def done_iff)
      moreover have "orderly_user_deletion E (calls s) ?n ?t" if mem: "(DeleteUser n, ok) \<in> set t" for n ok
      proof -
        from 1(6) mem obtain u us ok1 ok2 ok3 where "ue_list_users E (calls s1) ?n = Inr (u # us)"
          and "t = [(ListUsers ?n, True), (settings_call u ConfigMap, ok1), (settings_call u Role, ok2),
             (settings_call u RoleBinding, ok3), (DeleteUser (m_name (us_meta u)), ok)]"
          and "tolerated E (calls s1 @ take 1 t) (settings_call u ConfigMap) ok1"
          and "tolerated E (calls s1 @ take 2 t) (settings_call u Role) ok2"
          and "tolerated E (calls s1 @ take 3 t) (settings_call u RoleBinding) ok3"
          unfolding h(1) by blast
        with h show ?thesis
          unfolding orderly_user_deletion_def by (intro conjI exI [of _ u]) auto
      qed
      moreover have "mem s2 = mem s" "calls s2 = calls s @ ?t" using 1(1,2) h by simp_all
      ultimately show ?case
        unfolding deletion_post_def using 1(3)
        by (intro conjI exI [of _ ?t]) auto
    qed
    with True show ?thesis
      by (auto simp: wp_bind wp_simps split: prod.splits elim!: wp_mono)
  qed
qed

section \<open>Disabled accounts\<close>

text \<open>The calls that create or update a User or an Identity.\<close>

fun is_provisioning :: "ucall \<Rightarrow> bool" where
  "is_provisioning (CreateUser u) = True"
| "is_provisioning (UpdateUser u) = True"
| "is_provisioning (CreateIdentity i) = True"
| "is_provisioning (UpdateIdentity i) = True"
| "is_provisioning _ = False"

lemma deletion_no_provisioning [emits_rules]:
  "emits (\<lambda>(c, ok). \<not> is_provisioning c) (deleteIdentityAndUser E)"
  unfolding deleteIdentityAndUser_def deleteIdentity_def deleteUser_def getUsersByOwnerName_def
    deleteUserResources_def deleteResource_def
  by (auto intro!: emits_rules split: list.splits)

lemma disable_no_provisioning: "emits (\<lambda>(c, ok). \<not> is_provisioning c) (disable_account E)"
  unfolding disable_account_def wrapErrorWithStatusUpdate_def ua_status_defs updateStatusConditions_def Let_def
  by (auto intro!: emits_rules)

end
