(* ===== verification/UserAccountSpec.thy ===== *)
theory UserAccountSpec
  imports UserAccount UserAccountProofs
begin

text \<open>
  The properties of the user account controller, with instances at a concrete account.
\<close>

section \<open>A concrete cluster\<close>

definition demo_claims :: claims where
  "demo_claims = \<lparr>cl_sub = ''sub'', cl_user_id = ''id'', cl_account_id = ''acc'', cl_original_sub = [],
     cl_email = ''john@x.com''\<rparr>"

definition demo_account :: user_account where
  "demo_account = \<lparr>ua_meta = (new_meta ''member'' ''john'')\<lparr>m_finalizers := [FinalizerName]\<rparr>,
     ua_disabled = False, ua_claims = demo_claims, ua_conds = []\<rparr>"

definition demo_config :: config where
  "demo_config = \<lparr>cf_skip_user_creation = False, cf_idp = ''sso''\<rparr>"

definition demo_user :: user where
  "demo_user = \<lparr>us_meta = (new_meta [] ''john'')\<lparr>m_uid := ''u1''\<rparr>, us_identities = [''sso:sub'', ''sso:id'']\<rparr>"

definition demo_identity :: "string \<Rightarrow> identity" where
  "demo_identity n = \<lparr>it_meta = new_meta [] n, it_provider = ''sso'', it_provider_user = n,
     it_user_name = ''john'', it_user_uid = ''u1''\<rparr>"

text \<open>The user and the identities exist as given, error-only calls succeed, writes are stored.\<close>

definition demo_uenv :: "(string \<Rightarrow> err + user) \<Rightarrow> user list \<Rightarrow> identity list \<Rightarrow> uenv" where
  "demo_uenv getu us is = \<lparr>ue_lib = ref_lib NoReason, ue_now = (\<lambda>t. int t * second),
     ue_watch_ns = Inr ''member'', ue_config = (\<lambda>tr. Inr demo_config),
     ue_get_account = (\<lambda>tr ns n. Inr demo_account), ue_update_account = (\<lambda>tr a. Inr a),
     ue_update_status = (\<lambda>tr a. Inr a), ue_get_user = (\<lambda>tr n. getu n),
     ue_create_user = (\<lambda>tr u. Inr u), ue_update_user = (\<lambda>tr u. Inr u), ue_list_users = (\<lambda>tr n. Inr us),
     ue_get_identity = (\<lambda>tr n. Inr (demo_identity n)), ue_create_identity = (\<lambda>tr i. Inr i),
     ue_update_identity = (\<lambda>tr i. Inr i), ue_list_identities = (\<lambda>tr n. Inr is),
     ue_exec = (\<lambda>tr c. None), ue_identity_name = (\<lambda>idp n. idp @ '':'' @ n),
     ue_apply_identity = (\<lambda>idp n i. i\<lparr>it_provider := idp, it_provider_user := n\<rparr>)\<rparr>"

lemmas account_demo_defs = demo_claims_def demo_account_def demo_config_def demo_user_def demo_identity_def
  demo_uenv_def new_meta_def

lemma demo_status_only: "status_only (demo_uenv getu us is)"
  by (simp add: status_only_def demo_uenv_def)

section \<open>One change per reconcile\<close>

text \<open>
  C16: a reconcile of a UserAccount creates or deletes at most one User or Identity, whatever the
  cluster answers and whatever path it takes (provisioning, skipped user creation, disabling or
  deletion); the rest waits for the reconcile that the change triggers.
\<close>

theorem one_change_per_reconcile:
  "\<exists>t. calls (snd (run_state (Reconcile E ns name) s)) = calls s @ t \<and> changes is_lifecycle t \<le> 1"
proof -
  have "run_state (Reconcile E ns name) s =
      (fst (run_state (Reconcile E ns name) s), snd (run_state (Reconcile E ns name) s))"
    by simp
  from cautiousD [OF Reconcile_cautious this] show ?thesis by blast
qed

section \<open>Deletion\<close>

text \<open>
  C17: a User is deleted only when no Identity with the account's owner label is left, and only after the
  console settings named after its UID (ConfigMap, Role, RoleBinding, in this order) were each
  deleted or found missing; the calls are exactly these.
\<close>

theorem user_deleted_last:
  assumes "run_state (deleteIdentityAndUser E) s = (r, s')" and "calls s' = calls s @ t"
    and "(DeleteUser n, ok) \<in> set t"
  shows "orderly_user_deletion E (calls s) (m_name (ua_meta (mem s))) t"
  using wpD [OF deleteIdentityAndUser_result assms(1)] assms(2,3)
  by (auto simp: deletion_post_def)

theorem user_deleted_last_witness:
  "let E = demo_uenv (\<lambda>n. Inr demo_user) [demo_user] [] in
     orderly_user_deletion E [] ''john'' (calls (snd (run_state (deleteIdentityAndUser E) (fresh demo_account))))"
proof -
  let ?E = "demo_uenv (\<lambda>n. Inr demo_user) [demo_user] []"
  let ?r = "run_state (deleteIdentityAndUser ?E) (fresh demo_account)"
  have "calls (snd ?r) = calls (fresh demo_account) @ calls (snd ?r)" by simp
  moreover have "(DeleteUser ''john'', True) \<in> set (calls (snd ?r))"
    by (simp add: account_demo_defs deleteIdentityAndUser_def deleteIdentity_def deleteUser_def
        getUsersByOwnerName_def deleteUserResources_def deleteResource_def)
  ultimately show ?thesis
    using user_deleted_last [of ?E "fresh demo_account" "fst ?r" "snd ?r" "calls (snd ?r)" "''john''" True]
    by (simp add: demo_account_def new_meta_def Let_def)
qed

text \<open>
  C18: the finalizer of a UserAccount being deleted is removed, by an update of the account that no longer has it, exactly when both the
  list of its Identities and the list of its Users come back empty; no other update of the account is sent.
\<close>

theorem finalizer_removed_exactly_when:
  assumes "finalizers_lib (ue_lib E)" and "HasFinalizer (ue_lib E) (ua_meta (mem s)) FinalizerName"
    and "run_state (ensureUserAccountDeletion E) s = (r, s')" and "calls s' = calls s @ t"
  shows "(\<exists>ua ok. (UpdateUserAccount ua, ok) \<in> set t \<and> FinalizerName \<notin> set (m_finalizers (ua_meta ua))) =
      all_deleted E (calls s) (m_name (ua_meta (mem s))) \<and>
    (\<forall>ua ok. (UpdateUserAccount ua, ok) \<in> set t \<longrightarrow> FinalizerName \<notin> set (m_finalizers (ua_meta ua)))"
proof -
  let ?P = "\<lambda>(c, ok). \<forall>ua. c \<noteq> UpdateUserAccount ua"
  define R where "R t \<longleftrightarrow> (\<exists>ua ok. (UpdateUserAccount ua, ok) \<in> set t) = all_deleted E (calls s) (m_name (ua_meta (mem s))) \<and>
    (\<forall>ua ok. (UpdateUserAccount ua, ok) \<in> set t \<longrightarrow> FinalizerName \<notin> set (m_finalizers (ua_meta ua)))"
    for t :: "(ucall \<times> bool) list"
  let ?Q = "\<lambda>r s'. \<exists>t. calls s' = calls s @ t \<and> R t"
  have removed: "FinalizerName \<notin> set (m_finalizers (RemoveFinalizer (ue_lib E) m FinalizerName))" for m
    using assms(1) by (simp add: finalizers_lib_def)
  have quiet: "R t" if "\<forall>ua ok. (UpdateUserAccount ua, ok) \<notin> set t" "\<not> all_deleted E (calls s) (m_name (ua_meta (mem s)))" for t
    using that by (simp add: R_def)
  have sent: "R (t @ [(UpdateUserAccount (ua\<lparr>ua_meta := RemoveFinalizer (ue_lib E) (ua_meta ua) FinalizerName\<rparr>), ok)])"
    if "\<forall>ua ok. (UpdateUserAccount ua, ok) \<notin> set t" "all_deleted E (calls s) (m_name (ua_meta (mem s)))" for t ua ok
    using that removed by (auto simp: R_def)
  have st: "emits ?P (setStatusTerminating E m)" for m
    unfolding setStatusTerminating_def updateStatusConditions_def Let_def by (auto intro!: emits_rules)
  have wr: "emits ?P (wrapErrorWithStatusUpdate (setStatusTerminating E) e f)" for e f
    unfolding wrapErrorWithStatusUpdate_def by (auto intro!: emits_rules st)
  have tail: "wp m ?Q s1" if "emits ?P m" "?Q () s1" for m :: "'x uprog" and s1
  proof (rule wp_mono [OF emits_wp [OF that(1)]])
    note before = that(2)
    fix r s2 assume "\<exists>t. calls s2 = calls s1 @ t \<and> list_all ?P t"
    then obtain u where u: "calls s2 = calls s1 @ u" "list_all ?P u" by blast
    then have "\<forall>ua ok. (UpdateUserAccount ua, ok) \<notin> set u" by (auto simp: list_all_iff)
    moreover obtain t where "calls s1 = calls s @ t" "R t" using before by blast
    ultimately show "?Q r s2" using u(1) by (intro exI [of _ "t @ u"]) (auto simp: R_def)
  qed
  have "wp (ensureUserAccountDeletion E) ?Q s"
    unfolding ensureUserAccountDeletion_def wp_bind wp_get_mem
  proof (simp only: assms(2) if_True wp_bind, rule wp_mono [OF deleteIdentityAndUser_result])
    fix r s1
    assume post: "deletion_post E s r s1"
    obtain d e where r: "r = (d, e)" by (cases r)
    show "wp (case r of (deleted, err) \<Rightarrow> (case err of
          Some e \<Rightarrow> wrapErrorWithStatusUpdate (setStatusTerminating E) (Some e) ''failed to delete user/identity''
        | None \<Rightarrow> if deleted then setStatusTerminating E ''deleting user/identity''
            else do {
              ua \<leftarrow> get_mem;
              let ua = ua\<lparr>ua_meta := RemoveFinalizer (ue_lib E) (ua_meta ua) FinalizerName\<rparr>;
              set_mem ua;
              r \<leftarrow> call (\<lambda>tr. ue_update_account E tr ua) (UpdateUserAccount ua);
              (case r of
                 Inl e \<Rightarrow> wrapErrorWithStatusUpdate (setStatusTerminating E) (Some e) ''failed to remove finalizer''
               | Inr new \<Rightarrow> do { set_mem new; ret None })
            })) ?Q s1"
      using post unfolding r
      by (auto simp: deletion_post_def done_iff Let_def wp_simps split: option.splits sum.splits
          intro!: tail wr st quiet sent)
  qed
  with assms(3,4) have "R t" by (auto simp: wp_def)
  then show ?thesis by (auto simp: R_def)
qed

theorem finalizer_removed_exactly_when_witness:
  "let E = demo_uenv (\<lambda>n. Inr demo_user) [] [] in
     \<exists>ua ok. (UpdateUserAccount ua, ok) \<in> set (calls (snd (run_state (ensureUserAccountDeletion E) (fresh demo_account)))) \<and>
       FinalizerName \<notin> set (m_finalizers (ua_meta ua))"
proof -
  let ?E = "demo_uenv (\<lambda>n. Inr demo_user) [] []"
  let ?r = "run_state (ensureUserAccountDeletion ?E) (fresh demo_account)"
  have "all_deleted ?E [] ''john''" by (simp add: all_deleted_def account_demo_defs)
  then show ?thesis
    using finalizer_removed_exactly_when [of ?E "fresh demo_account" "fst ?r" "snd ?r" "calls (snd ?r)"]
    by (simp add: Let_def account_demo_defs ref_lib_finalizers) (simp add: ref_lib_def)
qed

section \<open>Provisioning\<close>

text \<open>
  A User in the form in which the controller creates it is accepted as it is by the next reconcile:
  \<open>ensureUser\<close> finds the identities it expects, changes only labels and annotations, and goes on
  to the identities.
\<close>

theorem created_user_is_accepted:
  assumes "ue_get_user E (calls s) (m_name (ua_meta (mem s))) = Inr u"
    and "us_identities u = us_identities (newUser E (mem s) cfg)"
    and "\<forall>tr a b. ue_update_user E tr a = Inr b \<longrightarrow> us_identities b = us_identities a"
  shows "\<exists>u'. fst (run_state (ensureUser E cfg) s) = (Some u', False, None) \<and>
    us_identities u' = us_identities u \<and> mem (snd (run_state (ensureUser E cfg) s)) = mem s"
proof -
  have "wp (ensureUser E cfg) (\<lambda>r s'. \<exists>u'. r = (Some u', False, None) \<and>
      us_identities u' = us_identities u \<and> mem s' = mem s) s"
    unfolding ensureUser_def addLabelsAndAnnotations_user_def Let_def
    using assms(1,2) assms(3) [rule_format]
    by (auto simp: wp_simps newUser_identities stringSlicesEqual_iff split: prod.splits sum.splits)
  then show ?thesis by (auto simp: wp_def split_beta)
qed

theorem created_user_is_accepted_witness:
  "\<exists>u'. fst (run_state (ensureUser (demo_uenv (\<lambda>n. Inr demo_user) [] []) demo_config) (fresh demo_account))
    = (Some u', False, None)"
  using created_user_is_accepted [of "demo_uenv (\<lambda>n. Inr demo_user) [] []" "fresh demo_account" demo_user demo_config]
  by (auto simp: account_demo_defs newUser_def Let_def)

text \<open>
  C20: after \<open>setLabelsAndAnnotations\<close> the object has the provider label and an owner label, both
  kept where they were set before; a User also has an e-mail annotation, and the user id and account id
  annotations exactly when the account has both claims.
\<close>

theorem labels_and_annotations:
  "lookup (m_labels (fst (setLabelsAndAnnotations m ua b))) k =
     (case lookup (m_labels m) k of Some v \<Rightarrow> Some v
      | None \<Rightarrow> if k = ProviderLabelKey then Some ProviderLabelValue
                else if k = OwnerLabelKey then Some (m_name (ua_meta ua)) else None) \<and>
   lookup (m_annotations (fst (setLabelsAndAnnotations m ua True))) k =
     (let both = (cl_user_id (ua_claims ua) \<noteq> [] \<and> cl_account_id (ua_claims ua) \<noteq> []) in
      if k = EmailUserAnnotationKey then
        (case lookup (m_annotations m) k of Some v \<Rightarrow> Some v | None \<Rightarrow> Some (cl_email (ua_claims ua)))
      else if k = UserIDUserAnnotationKey then (if both then Some (cl_user_id (ua_claims ua)) else None)
      else if k = AccountIDUserAnnotationKey then (if both then Some (cl_account_id (ua_claims ua)) else None)
      else lookup (m_annotations m) k)"
  by (simp add: setLabels_labels setLabels_annotations set_annotations_lookup split: option.split)

text \<open>
  Labelling an object again leaves it exactly as it is; nevertheless the function reports a change
  for every User (not for an Identity), so an existing User is sent in an Update on every
  reconcile although the comment speaks of adding what is missing.
\<close>

theorem labelling_is_idempotent:
  "setLabelsAndAnnotations (fst (setLabelsAndAnnotations m ua b)) ua b = (fst (setLabelsAndAnnotations m ua b), b)"
  by (rule setLabels_again)

text \<open>
  C19: when \<open>ensureIdentity\<close> has nothing left to do, every identity the account needs (from \<open>sub\<close>,
  \<open>originalSub\<close> and \<open>userID\<close>, the names that \<open>newUser\<close> puts into the User) was looked up, and the
  identity it returns refers to the user's name and UID.
\<close>

theorem all_identities_ensured:
  assumes "status_only E" and "run_state (ensureIdentity E cfg u) s = ((i, False, None), s')"
    and "n \<in> set (expectedIdentities E cfg (ua_claims (mem s)))"
  shows "called (GetIdentity n) s' \<and> (\<exists>j. i = Some j \<and> maps_to u j)"
proof -
  let ?id = "ue_identity_name E (cf_idp cfg)"
  let ?cl = "ua_claims (mem s)"
  have load: "wp (loadIdentityAndEnsureMapping E cfg x u) (\<lambda>(i, c, e) s2. called (GetIdentity (?id x)) s2 \<and>
      (\<forall>y. called (GetIdentity y) s1 \<longrightarrow> called (GetIdentity y) s2) \<and> ua_claims (mem s2) = ua_claims (mem s1) \<and>
      (c \<or> e \<noteq> None \<or> (\<exists>j. i = Some j \<and> maps_to u j))) s1" for x s1
    using loadIdentity_called [of E cfg x u s1] loadIdentity_mapped [of E cfg x u s1]
      keeps_wp [OF loadIdentity_keeps [OF assms(1)], of cfg x u s1]
      called_grows [OF loadIdentity_grows, of "GetIdentity y" s1 E cfg x u for y]
    by (auto simp: wp_def split: prod.splits)
  have opt: "wp (if b then do { (_, c, e) \<leftarrow> loadIdentityAndEnsureMapping E cfg x u; ret (c, e) } else ret (False, None))
      (\<lambda>(c, e) s2. c \<or> e \<noteq> None \<or> ((b \<longrightarrow> called (GetIdentity (?id x)) s2) \<and>
        (\<forall>y. called (GetIdentity y) s1 \<longrightarrow> called (GetIdentity y) s2) \<and> ua_claims (mem s2) = ua_claims (mem s1))) s1"
    for b x s1
    by (auto simp: wp_simps split: prod.splits intro!: wp_mono [OF load])
  have "wp (ensureIdentity E cfg u) (\<lambda>(i, c, e) s'. c \<or> e \<noteq> None \<or>
      (\<forall>n \<in> set (expectedIdentities E cfg ?cl). called (GetIdentity n) s') \<and> (\<exists>j. i = Some j \<and> maps_to u j)) s"
    unfolding ensureIdentity_def wp_bind wp_get_mem
  proof (rule wp_mono [OF load], clarify, goal_cases)
    case (1 i c e s1)
    show ?case
    proof (cases "c \<or> e \<noteq> None")
      case True
      then show ?thesis by (auto simp: wp_simps)
    next
      case False
      with 1 have j: "\<exists>j. i = Some j \<and> maps_to u j" and sub: "called (GetIdentity (?id (cl_sub ?cl))) s1"
        and cl1: "ua_claims (mem s1) = ?cl" by auto
      show ?thesis
        unfolding if_not_P [OF False] wp_bind wp_get_mem
      proof (rule wp_mono [OF opt], unfold cl1, clarify, goal_cases)
        case (1 c2 e2 s2)
        show ?case
        proof (cases "c2 \<or> e2 \<noteq> None")
          case True
          then show ?thesis by (auto simp: wp_simps)
        next
          case False
          with 1 sub have osub: "cl_original_sub ?cl \<noteq> [] \<longrightarrow> called (GetIdentity (?id (cl_original_sub ?cl))) s2"
            and sub2: "called (GetIdentity (?id (cl_sub ?cl))) s2" and cl2: "ua_claims (mem s2) = ?cl" by auto
          show ?thesis
            unfolding if_not_P [OF False] wp_bind wp_get_mem
          proof (rule wp_mono [OF opt], unfold cl2, clarify, goal_cases)
            case (1 c3 e3 s3)
            show ?case
              using 1 osub sub2 j by (cases "c3 \<or> e3 \<noteq> None") (auto simp: wp_simps expectedIdentities_def Let_def)
          qed
        qed
      qed
    qed
  qed
  with assms(2,3) show ?thesis by (auto simp: wp_def)
qed

theorem all_identities_ensured_witness:
  "let E = demo_uenv (\<lambda>n. Inr demo_user) [] [] in
     called (GetIdentity ''sso:id'') (snd (run_state (ensureIdentity E demo_config demo_user) (fresh demo_account)))"
proof -
  let ?E = "demo_uenv (\<lambda>n. Inr demo_user) [] []"
  let ?r = "run_state (ensureIdentity ?E demo_config demo_user) (fresh demo_account)"
  have "snd (fst ?r) = (False, None)"
    by (simp add: account_demo_defs ensureIdentity_def loadIdentityAndEnsureMapping_def Let_def
        addLabelsAndAnnotations_identity_def setLabelsAndAnnotations_def set_label_def put_def)
  then have "?r = ((fst (fst ?r), False, None), snd ?r)"
    by (metis prod.collapse)
  then show ?thesis
    using all_identities_ensured [OF demo_status_only, of "\<lambda>n. Inr demo_user" "[]" "[]" demo_config demo_user
        "fresh demo_account" "fst (fst ?r)" "snd ?r" "''sso:id''"]
    by (simp add: Let_def account_demo_defs expectedIdentities_def)
qed

text \<open>
  A reconcile of a disabled account never creates or updates a User or an Identity; it can
  only delete, write the account's status and set its finalizer.
\<close>

theorem disabled_account_is_not_provisioned:
  assumes "ue_get_account E [(GetConfiguration, True)] ns name = Inr ua" and "ns \<noteq> []"
    and "\<not> IsBeingDeleted (ue_lib E) (ua_meta ua)" and "ua_disabled ua"
    and "\<forall>tr a b. ue_update_account E tr a = Inr b \<longrightarrow> ua_disabled b = ua_disabled a"
  shows "\<exists>t. calls (snd (run_state (Reconcile E ns name) (fresh z))) = t \<and>
    list_all (\<lambda>(c, ok). \<not> is_provisioning c) t"
proof -
  let ?Q = "\<lambda>r s'. list_all (\<lambda>(c, ok). \<not> is_provisioning c) (calls s')"
  have tail: "wp (disable_account E) ?Q s1" if "list_all (\<lambda>(c, ok). \<not> is_provisioning c) (calls s1)" for s1
    by (rule wp_mono [OF emits_wp [OF disable_no_provisioning]]) (use that in auto)
  have "wp (Reconcile E ns name) ?Q (fresh z)"
    unfolding Reconcile_def addFinalizer_def Let_def
    using assms by (auto simp: wp_simps split: sum.splits intro!: tail)
  then show ?thesis by (simp add: wp_def split_beta)
qed

theorem disabled_account_is_not_provisioned_witness:
  "let E = (demo_uenv (\<lambda>n. Inr demo_user) [] [demo_identity ''sso:sub''])
       \<lparr>ue_get_account := \<lambda>tr ns n. Inr (demo_account\<lparr>ua_disabled := True\<rparr>)\<rparr>
   in \<exists>t. calls (snd (run_state (Reconcile E ''member'' ''john'') (fresh demo_account))) = t \<and>
    list_all (\<lambda>(c, ok). \<not> is_provisioning c) t"
  using disabled_account_is_not_provisioned
    [of "(demo_uenv (\<lambda>n. Inr demo_user) [] [demo_identity ''sso:sub''])
       \<lparr>ue_get_account := \<lambda>tr ns n. Inr (demo_account\<lparr>ua_disabled := True\<rparr>)\<rparr>"
     "''member''" "''john''" "demo_account\<lparr>ua_disabled := True\<rparr>" demo_account]
  by (simp add: account_demo_defs ref_lib_def)

text \<open>
  An account that needs no change is set to Ready: when the reconcile's last part succeeds without
  asking for a requeue, the account in memory carries the condition Ready, True, Provisioned.
\<close>

theorem finished_account_is_ready:
  assumes "conditions_lib (ue_lib E)"
    and "\<forall>tr a b. ue_update_status E tr a = Inr b \<longrightarrow> ua_conds b = ua_conds a"
    and "run_state (finish_reconcile E) s = ((0, None), s')"
  shows "has_cond (ue_lib E) (ua_conds (mem s')) (mk_cond ConditionReady ConditionTrue UserAccountProvisionedReason [])"
proof -
  let ?c = "mk_cond ConditionReady ConditionTrue UserAccountProvisionedReason []"
  have set: "wp (setStatusReady E) (\<lambda>r s'. r = None \<longrightarrow> has_cond (ue_lib E) (ua_conds (mem s')) ?c) s1" for s1
  proof -
    obtain cs u where cs: "AddOrUpdateStatusConditions (ue_lib E) (ue_now E (tick s1)) (ua_conds (mem s1)) [?c] = (cs, u)"
      by (cases "AddOrUpdateStatusConditions (ue_lib E) (ue_now E (tick s1)) (ua_conds (mem s1)) [?c]")
    have "has_cond (ue_lib E) cs ?c"
      using assms(1) [unfolded conditions_lib_def, THEN spec [of _ "ue_now E (tick s1)"],
        THEN spec [of _ "ua_conds (mem s1)"], THEN spec [of _ ?c]] cs by auto
    with cs assms(2) show ?thesis
      by (auto simp: setStatusReady_def updateStatusConditions_def wp_simps Let_def split: sum.splits)
  qed
  have "wp (finish_reconcile E) (\<lambda>r s'. r = (0, None) \<longrightarrow> has_cond (ue_lib E) (ua_conds (mem s')) ?c) s"
    unfolding finish_reconcile_def
    by (auto simp: wp_simps split: prod.splits intro!: wp_mono [OF set])
  with assms(3) show ?thesis by (auto simp: wp_def)
qed

theorem finished_account_is_ready_witness:
  "let E = demo_uenv (\<lambda>n. Inr demo_user) [] [] in
     has_cond (ue_lib E) (ua_conds (mem (snd (run_state (finish_reconcile E) (fresh demo_account)))))
       (mk_cond ConditionReady ConditionTrue UserAccountProvisionedReason [])"
proof -
  let ?E = "demo_uenv (\<lambda>n. Inr demo_user) [] []"
  let ?r = "run_state (finish_reconcile ?E) (fresh demo_account)"
  have "fst ?r = (0, None)"
    by (simp add: account_demo_defs finish_reconcile_def ref_lib_def setStatusReady_def updateStatusConditions_def Let_def)
  then have run: "?r = ((0, None), snd ?r)" by (metis prod.collapse)
  have "conditions_lib (ue_lib ?E)"
      "\<forall>tr a b. ue_update_status ?E tr a = Inr b \<longrightarrow> ua_conds b = ua_conds a"
    by (simp_all add: demo_uenv_def ref_lib_conditions)
  from finished_account_is_ready [OF this run] show ?thesis by (simp add: Let_def)
qed

text \<open>
  A failing creation of the User is never lost: \<open>ensureUser\<close> returns the error, wrapped with the
  user's name, and reports no change, whether or not the failure could be written to the status.
\<close>

theorem failed_user_creation_is_reported:
  assumes "IsNotFound (ue_lib E) nf" and "ue_get_user E (calls s) (m_name (ua_meta (mem s))) = Inl nf"
    and "\<forall>tr u. ue_create_user E tr u = Inl e"
    and "run_state (setStatusProvisioning E) (log_call (GetUser (m_name (ua_meta (mem s)))) False s) = (None, s1)"
  shows "fst (run_state (ensureUser E cfg) s) =
    (None, False, Some (Wrapped (''failed to create user '' @ quoted (m_name (ua_meta (mem s1)))) e))"
proof -
  have "wp (create_user E cfg) (\<lambda>r s'. r =
      (None, False, Some (Wrapped (''failed to create user '' @ quoted (m_name (ua_meta (mem s1)))) e)))
      (log_call (GetUser (m_name (ua_meta (mem s)))) False s)"
    unfolding create_user_def Let_def wp_bind
    using assms(3,4)
    by (simp add: wp_def [of "setStatusProvisioning E"] wp_simps)
       (rule wp_mono [OF ua_wrap_fails], simp add: wp_simps)
  then show ?thesis
    using assms(1,2) by (simp add: ensureUser_def wp_def split_beta)
qed

theorem failed_user_creation_is_reported_witness:
  "let E = (demo_uenv (\<lambda>n. Inl (StatusErr ''NotFound'' [])) [] [])\<lparr>ue_create_user := \<lambda>tr u. Inl (Msg ''quota'')\<rparr>
   in fst (run_state (ensureUser E demo_config) (fresh demo_account)) =
     (None, False, Some (Wrapped (''failed to create user '' @ quoted ''john'') (Msg ''quota'')))"
proof -
  let ?E = "(demo_uenv (\<lambda>n. Inl (StatusErr ''NotFound'' [])) [] [])\<lparr>ue_create_user := \<lambda>tr u. Inl (Msg ''quota'')\<rparr>"
  let ?r = "run_state (setStatusProvisioning ?E) (log_call (GetUser ''john'') False (fresh demo_account))"
  have "fst ?r = None" and n: "m_name (ua_meta (mem (snd ?r))) = ''john''"
    by (simp_all add: account_demo_defs setStatusProvisioning_def updateStatusConditions_def Let_def ref_lib_def)
  then have "?r = (None, snd ?r)" by (metis prod.collapse)
  then show ?thesis
    using failed_user_creation_is_reported [of ?E "StatusErr ''NotFound'' []" "fresh demo_account" "Msg ''quota''"
        "snd ?r" demo_config] n
    by (simp add: Let_def demo_uenv_def demo_account_def new_meta_def ref_lib_def)
qed

end
