(* ===== verification/UserAccountStore.thy ===== *)
theory UserAccountStore
  imports UserAccountProofs UserAccountSpec
begin

text \<open>
  The cluster as a store of one account, Users and Identities that is changed by the controller's calls only, and what
  one step of the controller makes of it.  \<open>UserAccountConvergence\<close> puts reconciles in sequence on such a cluster.
\<close>

section \<open>The store\<close>

record ustore =
  sa :: user_account
  su :: "string \<rightharpoonup> user"
  si :: "string \<rightharpoonup> identity"

text \<open>What a call that succeeded leaves behind: the object the server answered with, under its name.\<close>

fun stored :: "uenv \<Rightarrow> utrace \<Rightarrow> ucall \<Rightarrow> ustore \<Rightarrow> ustore" where
  "stored E tr (UpdateUserAccount a) S = (case ue_update_account E tr a of Inr b \<Rightarrow> S\<lparr>sa := b\<rparr> | Inl e \<Rightarrow> S)"
| "stored E tr (UpdateUserAccountStatus a) S = (case ue_update_status E tr a of Inr b \<Rightarrow> S\<lparr>sa := b\<rparr> | Inl e \<Rightarrow> S)"
| "stored E tr (CreateUser u) S =
     (case ue_create_user E tr u of Inr v \<Rightarrow> S\<lparr>su := (su S)(m_name (us_meta v) \<mapsto> v)\<rparr> | Inl e \<Rightarrow> S)"
| "stored E tr (UpdateUser u) S =
     (case ue_update_user E tr u of Inr v \<Rightarrow> S\<lparr>su := (su S)(m_name (us_meta v) \<mapsto> v)\<rparr> | Inl e \<Rightarrow> S)"
| "stored E tr (CreateIdentity i) S =
     (case ue_create_identity E tr i of Inr j \<Rightarrow> S\<lparr>si := (si S)(m_name (it_meta j) \<mapsto> j)\<rparr> | Inl e \<Rightarrow> S)"
| "stored E tr (UpdateIdentity i) S =
     (case ue_update_identity E tr i of Inr j \<Rightarrow> S\<lparr>si := (si S)(m_name (it_meta j) \<mapsto> j)\<rparr> | Inl e \<Rightarrow> S)"
| "stored E tr (DeleteUser n) S = S\<lparr>su := (su S)(n := None)\<rparr>"
| "stored E tr (DeleteIdentity n) S = S\<lparr>si := (si S)(n := None)\<rparr>"
| "stored E tr c S = S"

fun store_rev :: "uenv \<Rightarrow> ustore \<Rightarrow> utrace \<Rightarrow> ustore" where
  "store_rev E S [] = S"
| "store_rev E S ((c, ok) # tr) = (if ok then stored E (rev tr) c (store_rev E S tr) else store_rev E S tr)"

definition store :: "uenv \<Rightarrow> ustore \<Rightarrow> utrace \<Rightarrow> ustore" where
  "store E S tr = store_rev E S (rev tr)"

lemma store_Nil [simp]: "store E S [] = S"
  by (simp add: store_def)

lemma store_snoc [simp]:
  "store E S (tr @ [(c, ok)]) = (if ok then stored E tr c (store E S tr) else store E S tr)"
  by (simp add: store_def)

lemma store_snoc2 [simp]:
  "store E S (tr @ [(c, ok), (d, ok')]) =
     (if ok' then stored E (tr @ [(c, ok)]) d (store E S (tr @ [(c, ok)])) else store E S (tr @ [(c, ok)]))"
  using store_snoc [of E S "tr @ [(c, ok)]" d ok'] by simp

definition keyed :: "ustore \<Rightarrow> bool" where
  "keyed S \<longleftrightarrow> (\<forall>n u. su S n = Some u \<longrightarrow> m_name (us_meta u) = n) \<and> (\<forall>n i. si S n = Some i \<longrightarrow> m_name (it_meta i) = n)"

lemma stored_keyed: "keyed S \<Longrightarrow> keyed (stored E tr c S)"
  by (cases c) (auto simp: keyed_def split: sum.split)

lemma store_keyed: "keyed S \<Longrightarrow> keyed (store E S tr)"
proof (induction tr rule: rev_induct)
  case (snoc x tr)
  then show ?case by (cases x) (simp add: stored_keyed)
qed simp

section \<open>A cluster that keeps what it is told\<close>

text \<open>
  Reads answer from the store, writes are accepted and keep what they were given (the server chooses UIDs and resource
  versions), lists select by the owner label, and nobody else changes these objects.  \<open>S0\<close> is what is stored
  in the beginning.
\<close>

definition owned :: "meta \<Rightarrow> string \<Rightarrow> bool" where
  "owned m owner \<longleftrightarrow> lookup (m_labels m) OwnerLabelKey = Some owner"

fun finds :: "(err \<Rightarrow> bool) \<Rightarrow> err + 'x \<Rightarrow> 'x option \<Rightarrow> bool" where
  "finds nf (Inr x) y \<longleftrightarrow> y = Some x"
| "finds nf (Inl e) y \<longleftrightarrow> y = None \<and> nf e"

definition lists :: "err + 'x list \<Rightarrow> ('x \<Rightarrow> bool) \<Rightarrow> (string \<rightharpoonup> 'x) \<Rightarrow> bool" where
  "lists r P m \<longleftrightarrow> (\<exists>xs. r = Inr xs \<and> set xs = {x \<in> ran m. P x})"

definition reads_store :: "uenv \<Rightarrow> ustore \<Rightarrow> string \<Rightarrow> string \<Rightarrow> bool" where
  "reads_store E S0 ns name \<longleftrightarrow> (\<forall>tr. let S = store E S0 tr in
     ue_get_account E tr ns name = Inr (sa S) \<and>
     (\<forall>n. finds (IsNotFound (ue_lib E)) (ue_get_user E tr n) (su S n)) \<and>
     (\<forall>n. finds (IsNotFound (ue_lib E)) (ue_get_identity E tr n) (si S n)))"

definition lists_store :: "uenv \<Rightarrow> ustore \<Rightarrow> bool" where
  "lists_store E S0 \<longleftrightarrow> (\<forall>tr owner.
     lists (ue_list_users E tr owner) (\<lambda>u. owned (us_meta u) owner) (su (store E S0 tr)) \<and>
     lists (ue_list_identities E tr owner) (\<lambda>i. owned (it_meta i) owner) (si (store E S0 tr)))"

abbreviation account_facts :: "user_account \<Rightarrow> _" where
  "account_facts ua \<equiv> (account_spec ua, ua_conds ua, m_finalizers (ua_meta ua), m_deletion (ua_meta ua))"

abbreviation reference :: "user \<Rightarrow> string \<times> string" where
  "reference u \<equiv> (m_name (us_meta u), m_uid (us_meta u))"

abbreviation identity_facts :: "identity \<Rightarrow> _" where
  "identity_facts i \<equiv> (m_name (it_meta i), m_labels (it_meta i), it_user_name i, it_user_uid i)"

text \<open>A write that succeeds and keeps the part \<open>f\<close> of what it is given.\<close>

definition accepts :: "(utrace \<Rightarrow> 'x \<Rightarrow> err + 'x) \<Rightarrow> ('x \<Rightarrow> 'y) \<Rightarrow> bool" where
  "accepts wr f \<longleftrightarrow> (\<forall>tr x. \<exists>y. wr tr x = Inr y \<and> f y = f x)"

lemma acceptsE:
  assumes "accepts wr f"
  obtains y where "wr tr x = Inr y" and "f y = f x"
  using assms by (auto simp: accepts_def)

definition accepts_writes :: "uenv \<Rightarrow> bool" where
  "accepts_writes E \<longleftrightarrow>
     accepts (ue_update_account E) (\<lambda>a. account_facts a) \<and> accepts (ue_update_status E) (\<lambda>a. account_facts a) \<and>
     accepts (ue_create_user E) (\<lambda>u. (m_name (us_meta u), m_labels (us_meta u), us_identities u)) \<and>
     accepts (ue_update_user E) (\<lambda>u. (reference u, m_labels (us_meta u), us_identities u)) \<and>
     accepts (ue_create_identity E) (\<lambda>i. identity_facts i) \<and> accepts (ue_update_identity E) (\<lambda>i. identity_facts i) \<and>
     (\<forall>tr n. ue_exec E tr (DeleteUser n) = None) \<and> (\<forall>tr n. ue_exec E tr (DeleteIdentity n) = None) \<and>
     (\<forall>tr k ns n. pred_option (IsNotFound (ue_lib E)) (ue_exec E tr (DeleteSettings k ns n)))"

text \<open>\<open>ApplyToIdentity\<close> sets the names by the naming standard and leaves the reference to the user.\<close>

definition naming_standard :: "uenv \<Rightarrow> bool" where
  "naming_standard E \<longleftrightarrow> (\<forall>idp n i. m_name (it_meta (ue_apply_identity E idp n i)) = ue_identity_name E idp n \<and>
     it_user_name (ue_apply_identity E idp n i) = it_user_name i \<and> it_user_uid (ue_apply_identity E idp n i) = it_user_uid i)"

definition account_cluster :: "uenv \<Rightarrow> ustore \<Rightarrow> string \<Rightarrow> string \<Rightarrow> config \<Rightarrow> bool" where
  "account_cluster E S0 ns name cfg \<longleftrightarrow> reads_store E S0 ns name \<and> accepts_writes E \<and> naming_standard E \<and>
     keyed S0 \<and> m_name (ua_meta (sa S0)) = name \<and> ns \<noteq> [] \<and> (\<forall>tr. ue_config E tr = Inr cfg) \<and>
     conditions_lib (ue_lib E) \<and> finalizers_lib (ue_lib E)"

text \<open>The store now, and a handler whose account in memory is the one stored.\<close>

abbreviation now :: "uenv \<Rightarrow> ustore \<Rightarrow> (user_account, ucall) st \<Rightarrow> ustore" where
  "now E S0 s \<equiv> store E S0 (calls s)"

definition synced :: "uenv \<Rightarrow> ustore \<Rightarrow> string \<Rightarrow> (user_account, ucall) st \<Rightarrow> bool" where
  "synced E S0 name s \<longleftrightarrow> sa (now E S0 s) = mem s \<and> m_name (ua_meta (mem s)) = name"

definition same_objects :: "ustore \<Rightarrow> ustore \<Rightarrow> bool" where
  "same_objects S S' \<longleftrightarrow> su S' = su S \<and> si S' = si S"

text \<open>What no step but the finalizer's changes of the account.\<close>

abbreviation account_fixed :: "user_account \<Rightarrow> _" where
  "account_fixed ua \<equiv> (ua_claims ua, ua_disabled ua, m_finalizers (ua_meta ua), m_deletion (ua_meta ua))"

definition not_updating :: "uenv \<Rightarrow> user_account \<Rightarrow> bool" where
  "not_updating E ua \<longleftrightarrow>
     (case FindConditionByType (ue_lib E) (ua_conds ua) ConditionReady of (c, ok) \<Rightarrow> ok \<longrightarrow> c_reason c \<noteq> UserAccountUpdatingReason)"

lemma has_cond_not_updating:
  "has_cond (ue_lib E) (ua_conds ua) (mk_cond ConditionReady st r m) \<Longrightarrow> r \<noteq> UserAccountUpdatingReason \<Longrightarrow> not_updating E ua"
  by (auto simp: has_cond_def not_updating_def)

section \<open>The steps of a reconcile on the store\<close>

lemma cluster_writes:
  assumes "account_cluster E S0 ns name cfg"
  shows "accepts (ue_update_account E) (\<lambda>a. account_facts a)" and "accepts (ue_update_status E) (\<lambda>a. account_facts a)"
    and "accepts (ue_create_user E) (\<lambda>u. (m_name (us_meta u), m_labels (us_meta u), us_identities u))"
    and "accepts (ue_update_user E) (\<lambda>u. (reference u, m_labels (us_meta u), us_identities u))"
    and "accepts (ue_create_identity E) (\<lambda>i. identity_facts i)" and "accepts (ue_update_identity E) (\<lambda>i. identity_facts i)"
    and "ue_exec E tr (DeleteUser n) = None" and "ue_exec E tr (DeleteIdentity n) = None"
    and "pred_option (IsNotFound (ue_lib E)) (ue_exec E tr (DeleteSettings k nsp n))"
  using assms by (simp_all add: account_cluster_def accepts_writes_def)

lemma cluster_reads:
  assumes "account_cluster E S0 ns name cfg"
  shows "ue_get_account E tr ns name = Inr (sa (store E S0 tr))" and "ue_config E tr = Inr cfg"
    and "finds (IsNotFound (ue_lib E)) (ue_get_user E tr n) (su (store E S0 tr) n)"
    and "finds (IsNotFound (ue_lib E)) (ue_get_identity E tr n) (si (store E S0 tr) n)"
    and "keyed (store E S0 tr)"
  using assms by (simp_all add: account_cluster_def reads_store_def Let_def store_keyed)

lemma cluster_libs:
  assumes "account_cluster E S0 ns name cfg"
  shows "finalizers_lib (ue_lib E)" and "conditions_lib (ue_lib E)" and "ns \<noteq> []"
    and "m_name (it_meta (ue_apply_identity E idp n i)) = ue_identity_name E idp n"
    and "it_user_name (ue_apply_identity E idp n i) = it_user_name i"
    and "it_user_uid (ue_apply_identity E idp n i) = it_user_uid i"
  using assms by (simp_all add: account_cluster_def naming_standard_def)

lemma has_cond_added:
  assumes "conditions_lib L" and "AddOrUpdateStatusConditions L t cs [c] = (cs', u)"
  shows "has_cond L cs' c" and "\<not> u \<Longrightarrow> cs' = cs"
  using assms(1) [unfolded conditions_lib_def, THEN spec [of _ t], THEN spec [of _ cs], THEN spec [of _ c]] assms(2) by auto

lemma status_step:
  assumes "account_cluster E S0 ns name cfg" and "synced E S0 name s"
  shows "wp (updateStatusConditions E [c]) (\<lambda>e s'. e = None \<and> synced E S0 name s' \<and> same_objects (now E S0 s) (now E S0 s') \<and>
    account_fixed (mem s') = account_fixed (mem s) \<and> has_cond (ue_lib E) (ua_conds (mem s')) c) s"
proof -
  let ?add = "AddOrUpdateStatusConditions (ue_lib E) (ue_now E (tick s)) (ua_conds (mem s)) [c]"
  obtain cs u where cs: "?add = (cs, u)" by (cases ?add)
  note added = has_cond_added [OF cluster_libs(2) [OF assms(1)] cs]
  let ?a = "mem s\<lparr>ua_conds := cs\<rparr>"
  obtain b where b: "ue_update_status E (calls s) ?a = Inr b" "account_facts b = account_facts ?a"
    by (rule acceptsE [OF cluster_writes(2) [OF assms(1)]])
  show ?thesis
    using assms(2) cs added b
    by (auto simp: updateStatusConditions_def wp_simps Let_def synced_def same_objects_def)
qed

lemma Provisioning_step:
  assumes "account_cluster E S0 ns name cfg" and "synced E S0 name s"
  shows "wp (setStatusProvisioning E) (\<lambda>e s'. e = None \<and> synced E S0 name s' \<and> same_objects (now E S0 s) (now E S0 s') \<and>
    account_fixed (mem s') = account_fixed (mem s) \<and> not_updating E (mem s')) s"
  unfolding setStatusProvisioning_def
  by (rule wp_mono [OF status_step [OF assms]]) (auto dest: has_cond_not_updating)

lemma addFinalizer_step:
  assumes "account_cluster E S0 ns name cfg" and "synced E S0 name s"
  shows "wp (addFinalizer E) (\<lambda>e s'. e = None \<and> synced E S0 name s' \<and> same_objects (now E S0 s) (now E S0 s') \<and>
    ua_claims (mem s') = ua_claims (mem s) \<and> ua_disabled (mem s') = ua_disabled (mem s) \<and> ua_conds (mem s') = ua_conds (mem s) \<and>
    m_deletion (ua_meta (mem s')) = m_deletion (ua_meta (mem s)) \<and> FinalizerName \<in> set (m_finalizers (ua_meta (mem s')))) s"
proof -
  let ?a = "mem s\<lparr>ua_meta := AddFinalizer (ue_lib E) (ua_meta (mem s)) FinalizerName\<rparr>"
  obtain b where "ue_update_account E (calls s) ?a = Inr b" "account_facts b = account_facts ?a"
    by (rule acceptsE [OF cluster_writes(1) [OF assms(1)]])
  with assms(2) cluster_libs(1) [OF assms(1)] show ?thesis
    by (auto simp: addFinalizer_def wp_simps Let_def synced_def same_objects_def finalizers_lib_def)
qed

lemma label_keeps [simp]:
  "m_name (fst (set_label k v mc)) = m_name (fst mc)" "m_uid (fst (set_label k v mc)) = m_uid (fst mc)"
  "m_name (fst (set_annotations cl mc)) = m_name (fst mc)" "m_uid (fst (set_annotations cl mc)) = m_uid (fst mc)"
  by (cases mc; simp add: set_label_def set_annotations_def Let_def)+

lemma labelling_keeps [simp]:
  "m_name (fst (setLabelsAndAnnotations m ua b)) = m_name m" "m_uid (fst (setLabelsAndAnnotations m ua b)) = m_uid m"
  by (simp_all add: setLabelsAndAnnotations_def Let_def)

lemma labelling_eq_keeps:
  "setLabelsAndAnnotations m ua b = (m', c) \<Longrightarrow> m_name m' = m_name m \<and> m_uid m' = m_uid m"
  by (metis fst_conv labelling_keeps)

section \<open>Provisioning, step by step\<close>

text \<open>What every step from \<open>s\<close> to \<open>s'\<close> keeps.\<close>

definition steady :: "uenv \<Rightarrow> ustore \<Rightarrow> string \<Rightarrow> (user_account, ucall) st \<Rightarrow> (user_account, ucall) st \<Rightarrow> bool" where
  "steady E S0 name s s' \<longleftrightarrow> synced E S0 name s' \<and> account_fixed (mem s') = account_fixed (mem s) \<and>
     (not_updating E (mem s) \<longrightarrow> not_updating E (mem s'))"

lemma steady_trans: "steady E S0 name s s1 \<Longrightarrow> steady E S0 name s1 s2 \<Longrightarrow> steady E S0 name s s2"
  by (simp add: steady_def)

lemma steadyD:
  assumes "steady E S0 name s s'"
  shows "synced E S0 name s'" and "m_name (ua_meta (mem s')) = name" and "ua_claims (mem s') = ua_claims (mem s)"
    and "sa (now E S0 s') = mem s'"
  using assms by (simp_all add: steady_def synced_def)

lemma Provisioning_steady:
  assumes "account_cluster E S0 ns name cfg" and "synced E S0 name s"
  shows "wp (setStatusProvisioning E) (\<lambda>e s'. e = None \<and> steady E S0 name s s' \<and> same_objects (now E S0 s) (now E S0 s')) s"
  by (rule wp_mono [OF Provisioning_step [OF assms]]) (simp add: steady_def)

definition user_ready :: "uenv \<Rightarrow> config \<Rightarrow> user_account \<Rightarrow> ustore \<Rightarrow> bool" where
  "user_ready E cfg ua S \<longleftrightarrow>
     (\<exists>u. su S (m_name (ua_meta ua)) = Some u \<and> us_identities u = expectedIdentities E cfg (ua_claims ua))"

definition mapped :: "user \<Rightarrow> ustore \<Rightarrow> string \<Rightarrow> bool" where
  "mapped u S n \<longleftrightarrow> (\<exists>i. si S n = Some i \<and> maps_to u i)"

lemma user_readyI:
  assumes "steady E S0 name s s'" and "su S name = Some u"
    and "us_identities u = expectedIdentities E cfg (ua_claims (mem s))"
  shows "user_ready E cfg (mem s') S"
  using assms by (auto simp: user_ready_def steady_def synced_def)

text \<open>A call that leaves the account alone, and a status write after it.\<close>

lemma log_steady:
  assumes "steady E S0 name s s1" and "sa (stored E (calls s1) c (now E S0 s1)) = sa (now E S0 s1)"
  shows "steady E S0 name s (log_call c ok s1)"
  using assms by (auto simp: steady_def synced_def)

lemma then_provisioning:
  assumes "account_cluster E S0 ns name cfg" and "steady E S0 name s s1"
    and "\<And>s'. steady E S0 name s s' \<Longrightarrow> su (now E S0 s') = su (now E S0 s1) \<Longrightarrow> si (now E S0 s') = si (now E S0 s1) \<Longrightarrow> Q None s'"
  shows "wp (setStatusProvisioning E) Q s1"
  by (rule wp_mono [OF Provisioning_steady [OF assms(1) steadyD(1) [OF assms(2)]]])
     (auto simp: same_objects_def intro: assms(3) steady_trans [OF assms(2)])

lemma create_user_step:
  assumes C: "account_cluster E S0 ns name cfg" and "synced E S0 name s"
  shows "wp (create_user E cfg) (\<lambda>(u, c, e) s'. c \<and> e = None \<and> steady E S0 name s s' \<and> si (now E S0 s') = si (now E S0 s) \<and>
    user_ready E cfg (mem s') (now E S0 s')) s"
  unfolding create_user_def wp_bind Let_def
proof (rule wp_mono [OF Provisioning_steady [OF assms]], elim conjE, hypsubst, goal_cases)
  case (1 e s1)
  let ?u = "(newUser E (mem s1) cfg)\<lparr>us_meta := fst (setLabelsAndAnnotations (us_meta (newUser E (mem s1) cfg)) (mem s1) True)\<rparr>"
  obtain v where v: "ue_create_user E (calls s1) ?u = Inr v" "m_name (us_meta v) = m_name (us_meta ?u)"
      "us_identities v = us_identities ?u"
    using acceptsE [OF cluster_writes(3) [OF C]] by blast
  let ?s2 = "log_call (CreateUser ?u) True s1"
  have st: "steady E S0 name s ?s2" by (rule log_steady [OF 1(1)]) (simp add: v(1))
  have "m_name (us_meta v) = name"
    using steadyD(2) [OF 1(1)] v(2) by (simp add: newUser_def Let_def new_meta_def)
  moreover have "us_identities v = expectedIdentities E cfg (ua_claims (mem s))"
    using steadyD(3) [OF 1(1)] v(3) by (simp add: newUser_identities)
  ultimately show ?case
    using v(1) 1(2)
    by (simp add: wp_simps)
       (rule then_provisioning [OF C st], auto simp: wp_simps same_objects_def intro: user_readyI)
qed


lemma update_identities_step:
  assumes C: "account_cluster E S0 ns name cfg" and "synced E S0 name s" and "m_name (us_meta u) = name"
  shows "wp (update_identities E u (expectedIdentities E cfg (ua_claims (mem s))))
    (\<lambda>(u, c, e) s'. c \<and> e = None \<and> steady E S0 name s s' \<and> si (now E S0 s') = si (now E S0 s) \<and>
    user_ready E cfg (mem s') (now E S0 s')) s"
  unfolding update_identities_def wp_bind Let_def
proof (rule wp_mono [OF Provisioning_steady [OF assms(1,2)]], elim conjE, hypsubst, goal_cases)
  case (1 e s1)
  let ?u = "u\<lparr>us_identities := expectedIdentities E cfg (ua_claims (mem s))\<rparr>"
  obtain v where v: "ue_update_user E (calls s1) ?u = Inr v" "reference v = reference ?u" "us_identities v = us_identities ?u"
    using acceptsE [OF cluster_writes(4) [OF C]] by blast
  have st: "steady E S0 name s (log_call (UpdateUser ?u) True s1)" by (rule log_steady [OF 1(1)]) (simp add: v(1))
  have "m_name (us_meta v) = name" "us_identities v = expectedIdentities E cfg (ua_claims (mem s))"
    using v(2,3) assms(3) by simp_all
  then show ?case
    using v(1) 1(2)
    by (simp add: wp_simps)
       (rule then_provisioning [OF C st], auto simp: wp_simps same_objects_def intro: user_readyI)
qed

lemma label_user_step:
  assumes C: "account_cluster E S0 ns name cfg" and "synced E S0 name s" and "su (now E S0 s) name = Some u"
    and "m_name (us_meta u) = name"
  shows "wp (addLabelsAndAnnotations_user E u (mem s)) (\<lambda>(v, e) s'. e = None \<and> steady E S0 name s s' \<and>
    mem s' = mem s \<and> si (now E S0 s') = si (now E S0 s) \<and> su (now E S0 s') = (su (now E S0 s))(name \<mapsto> v) \<and> reference v = reference u \<and>
    us_identities v = us_identities u) s"
proof -
  obtain m where m: "setLabelsAndAnnotations (us_meta u) (mem s) True = (m, True)"
    using setLabels_user_changed [of "us_meta u" "mem s"] by (cases "setLabelsAndAnnotations (us_meta u) (mem s) True") simp
  let ?u = "u\<lparr>us_meta := m\<rparr>"
  obtain v where v: "ue_update_user E (calls s) ?u = Inr v" "reference v = reference ?u" "us_identities v = us_identities ?u"
    using acceptsE [OF cluster_writes(4) [OF C]] by blast
  have "reference v = reference u" using v(2) labelling_eq_keeps [OF m] by simp
  moreover have "steady E S0 name s (log_call (UpdateUser ?u) True s)"
    by (rule log_steady) (use assms(2) v(1) in \<open>simp_all add: steady_def\<close>)
  ultimately show ?thesis
    using v(1,3) m assms(4) by (simp add: addLabelsAndAnnotations_user_def wp_simps Let_def)
qed

lemma ensureUser_step:
  assumes C: "account_cluster E S0 ns name cfg" and syn: "synced E S0 name s"
  shows "wp (ensureUser E cfg) (\<lambda>(u, c, e) s'. e = None \<and> steady E S0 name s s' \<and> si (now E S0 s') = si (now E S0 s) \<and>
    user_ready E cfg (mem s') (now E S0 s') \<and> (c \<longrightarrow> \<not> user_ready E cfg (mem s) (now E S0 s)) \<and>
    (\<not> c \<longrightarrow> (\<exists>v w. u = Some v \<and> su (now E S0 s') name = Some v \<and> su (now E S0 s) name = Some w \<and> reference v = reference w))) s"
proof -
  have name: "m_name (ua_meta (mem s)) = name" using syn by (simp add: synced_def)
  let ?s1 = "\<lambda>ok. log_call (GetUser name) ok s"
  have st: "steady E S0 name s (?s1 ok)" for ok using syn by (simp add: steady_def synced_def)
  note syn1 = steadyD(1) [OF st]
  show ?thesis
  proof (cases "su (now E S0 s) name")
    case None
    then obtain e where "ue_get_user E (calls s) name = Inl e" "IsNotFound (ue_lib E) e"
      using cluster_reads(3) [OF C, of "calls s" name] by (cases "ue_get_user E (calls s) name") auto
    then show ?thesis
      using None name
      by (simp add: ensureUser_def wp_simps)
         (rule wp_mono [OF create_user_step [OF C syn1]], use st in \<open>auto simp: user_ready_def intro: steady_trans\<close>)
  next
    case (Some w)
    then have get: "ue_get_user E (calls s) name = Inr w"
      using cluster_reads(3) [OF C, of "calls s" name] by (cases "ue_get_user E (calls s) name") auto
    have w: "m_name (us_meta w) = name"
      using cluster_reads(5) [OF C] Some by (auto simp: keyed_def)
    have Some1: "su (now E S0 (?s1 True)) name = Some w" using Some by simp
    let ?ids = "expectedIdentities E cfg (ua_claims (mem s))"
    show ?thesis
      unfolding ensureUser_def wp_bind wp_get_mem wp_call name get sum.case Let_def
    proof (simp, rule wp_mono [OF label_user_step [OF C syn1 Some1 w], simplified], clarify, goal_cases)
      case (1 v e s2)
      have st2: "steady E S0 name s s2" using st 1(1) by (rule steady_trans)
      have ids: "us_identities v = us_identities w" "m_name (us_meta v) = name" using 1 w by simp_all
      show ?case
      proof (cases "?ids = us_identities v")
        case True
        then show ?thesis
          using Some ids st2 1 by (auto simp: stringSlicesEqual_iff wp_simps user_ready_def name)
      next
        case False
        then have "\<not> user_ready E cfg (mem s) (now E S0 s)" using Some ids(1) by (simp add: user_ready_def name)
        moreover have "wp (update_identities E v ?ids) (\<lambda>(u, c, e) s'. c \<and> e = None \<and> steady E S0 name s2 s' \<and>
            si (now E S0 s') = si (now E S0 s2) \<and> user_ready E cfg (mem s') (now E S0 s')) s2"
          using update_identities_step [OF C steadyD(1) [OF st2] ids(2)] steadyD(3) [OF st2] by simp
        ultimately show ?thesis
          using False 1
          by (simp add: stringSlicesEqual_iff)
             (erule wp_mono, auto intro: steady_trans [OF st2])
      qed
    qed
  qed
qed


lemma labelling_unchanged: "setLabelsAndAnnotations m ua False = (m', False) \<Longrightarrow> m' = m"
  by (auto simp: setLabelsAndAnnotations_def set_label_def Let_def split: if_splits)

lemma label_identity_step:
  assumes C: "account_cluster E S0 ns name cfg" and "synced E S0 name s" and i: "si (now E S0 s) n = Some i"
  shows "wp (addLabelsAndAnnotations_identity E i (mem s)) (\<lambda>(j, e) s'. e = None \<and> steady E S0 name s s' \<and>
    mem s' = mem s \<and> su (now E S0 s') = su (now E S0 s) \<and> si (now E S0 s') = (si (now E S0 s))(n \<mapsto> j) \<and>
    (it_user_name j, it_user_uid j) = (it_user_name i, it_user_uid i)) s"
proof -
  have n: "m_name (it_meta i) = n" using cluster_reads(5) [OF C] i by (auto simp: keyed_def)
  have here: "steady E S0 name s s" using assms(2) by (simp add: steady_def)
  obtain m c where m: "setLabelsAndAnnotations (it_meta i) (mem s) False = (m, c)"
    by (cases "setLabelsAndAnnotations (it_meta i) (mem s) False")
  show ?thesis
  proof (cases c)
    case False
    with m have "m = it_meta i" by (simp add: labelling_unchanged)
    with False m n i here show ?thesis
      by (simp add: addLabelsAndAnnotations_identity_def wp_simps Let_def fun_upd_idem)
  next
    case True
    let ?i = "i\<lparr>it_meta := m\<rparr>"
    obtain j where j: "ue_update_identity E (calls s) ?i = Inr j" "identity_facts j = identity_facts ?i"
      by (rule acceptsE [OF cluster_writes(6) [OF C]])
    have "m_name (it_meta j) = n" using j(2) labelling_eq_keeps [OF m] n by simp
    moreover have "steady E S0 name s (log_call (UpdateIdentity ?i) True s)"
      by (rule log_steady [OF here]) (simp add: j(1))
    ultimately show ?thesis
      using j True m by (simp add: addLabelsAndAnnotations_identity_def wp_simps Let_def)
  qed
qed

lemma update_mapping_step:
  assumes C: "account_cluster E S0 ns name cfg" and "synced E S0 name s" and "m_name (it_meta i) = n"
  shows "wp (update_mapping E cfg x u i) (\<lambda>(i, c, e) s'. c \<and> e = None \<and> steady E S0 name s s' \<and>
    su (now E S0 s') = su (now E S0 s) \<and> (\<exists>j. maps_to u j \<and> si (now E S0 s') = (si (now E S0 s))(n \<mapsto> j))) s"
  unfolding update_mapping_def wp_bind Let_def
proof (rule wp_mono [OF Provisioning_steady [OF assms(1,2)]], elim conjE, hypsubst, goal_cases)
  case (1 e s1)
  let ?i = "i\<lparr>it_user_name := m_name (us_meta u), it_user_uid := m_uid (us_meta u)\<rparr>"
  obtain j where j: "ue_update_identity E (calls s1) ?i = Inr j" "identity_facts j = identity_facts ?i"
    by (rule acceptsE [OF cluster_writes(6) [OF C]])
  have st: "steady E S0 name s (log_call (UpdateIdentity ?i) True s1)" by (rule log_steady [OF 1(1)]) (simp add: j(1))
  have "m_name (it_meta j) = n" "maps_to u j" using j(2) assms(3) by (simp_all add: maps_to_def)
  then show ?case
    using j(1) 1(2)
    by (simp add: wp_simps)
       (rule then_provisioning [OF C st], auto simp: wp_simps same_objects_def)
qed

lemma create_identity_step:
  assumes C: "account_cluster E S0 ns name cfg" and "synced E S0 name s"
  shows "wp (create_identity E cfg x u) (\<lambda>(i, c, e) s'. c \<and> e = None \<and> steady E S0 name s s' \<and>
    su (now E S0 s') = su (now E S0 s) \<and>
    (\<exists>j. maps_to u j \<and> si (now E S0 s') = (si (now E S0 s))(ue_identity_name E (cf_idp cfg) x \<mapsto> j))) s"
  unfolding create_identity_def wp_bind Let_def
proof (rule wp_mono [OF Provisioning_steady [OF assms]], elim conjE, hypsubst, goal_cases)
  case (1 e s1)
  let ?new = "ue_apply_identity E (cf_idp cfg) x (newIdentity u)"
  let ?i = "?new\<lparr>it_meta := fst (setLabelsAndAnnotations (it_meta ?new) (mem s1) False)\<rparr>"
  obtain j where j: "ue_create_identity E (calls s1) ?i = Inr j" "identity_facts j = identity_facts ?i"
    by (rule acceptsE [OF cluster_writes(5) [OF C]])
  have st: "steady E S0 name s (log_call (CreateIdentity ?i) True s1)" by (rule log_steady [OF 1(1)]) (simp add: j(1))
  have "m_name (it_meta j) = ue_identity_name E (cf_idp cfg) x" "maps_to u j"
    using j(2) cluster_libs(4-6) [OF C] by (simp_all add: maps_to_def newIdentity_def)
  then show ?case
    using j(1) 1(2)
    by (simp add: wp_simps)
       (rule then_provisioning [OF C st], auto simp: wp_simps same_objects_def)
qed

text \<open>Identities only get better: what refers to the user keeps doing so.\<close>

definition improved :: "user \<Rightarrow> ustore \<Rightarrow> ustore \<Rightarrow> bool" where
  "improved u S S' \<longleftrightarrow> su S' = su S \<and> (\<forall>m. mapped u S m \<longrightarrow> mapped u S' m)"

lemma improved_trans: "improved u S S1 \<Longrightarrow> improved u S1 S2 \<Longrightarrow> improved u S S2"
  by (simp add: improved_def)

lemma mapped_upd: "maps_to u j \<Longrightarrow> si S' = (si S)(n \<mapsto> j) \<Longrightarrow> su S' = su S \<Longrightarrow> improved u S S' \<and> mapped u S' n"
  by (auto simp: mapped_def improved_def)

lemma load_step:
  assumes C: "account_cluster E S0 ns name cfg" and syn: "synced E S0 name s"
    and n_def: "n = ue_identity_name E (cf_idp cfg) x"
  shows "wp (loadIdentityAndEnsureMapping E cfg x u) (\<lambda>(i, c, e) s'. e = None \<and> steady E S0 name s s' \<and>
    improved u (now E S0 s) (now E S0 s') \<and> mapped u (now E S0 s') n \<and> (c \<longrightarrow> \<not> mapped u (now E S0 s) n)) s"
proof -
  let ?s1 = "\<lambda>ok. log_call (GetIdentity n) ok s"
  have st: "steady E S0 name s (?s1 ok)" for ok using syn by (simp add: steady_def synced_def)
  note syn1 = steadyD(1) [OF st]
  show ?thesis
  proof (cases "si (now E S0 s) n")
    case None
    then obtain e where "ue_get_identity E (calls s) n = Inl e" "IsNotFound (ue_lib E) e"
      using cluster_reads(4) [OF C, of "calls s" n] by (cases "ue_get_identity E (calls s) n") auto
    moreover have "\<not> mapped u (now E S0 s) n" using None by (simp add: mapped_def)
    ultimately show ?thesis
      by (simp add: loadIdentityAndEnsureMapping_def wp_simps Let_def flip: n_def)
         (rule wp_mono [OF create_identity_step [OF C syn1]],
          auto simp flip: n_def intro: steady_trans [OF st] dest!: mapped_upd [rotated])
  next
    case (Some i)
    then have get: "ue_get_identity E (calls s) n = Inr i"
      using cluster_reads(4) [OF C, of "calls s" n] by (cases "ue_get_identity E (calls s) n") auto
    have Some1: "si (now E S0 (?s1 True)) n = Some i" using Some by simp
    show ?thesis
      unfolding loadIdentityAndEnsureMapping_def wp_bind wp_get_mem wp_call n_def [symmetric] Let_def get sum.case
    proof (simp, rule wp_mono [OF label_identity_step [OF C syn1 Some1], simplified], clarify, goal_cases)
      case (1 j e s2)
      have st2: "steady E S0 name s s2" using st 1(1) by (rule steady_trans)
      have j: "m_name (it_meta j) = n" using cluster_reads(5) [OF C, of "calls s2"] 1 by (auto simp: keyed_def)
      have eq: "maps_to u j = maps_to u i" using 1 by (simp add: maps_to_def)
      have "improved u (now E S0 s) (now E S0 s2)"
        using 1 Some eq by (auto simp: improved_def mapped_def)
      moreover have here: "mapped u (now E S0 s) n = maps_to u i" using Some by (simp add: mapped_def)
      ultimately show ?case
      proof (cases "maps_to u j")
        case True
        with 1 eq here st2 \<open>improved u (now E S0 s) (now E S0 s2)\<close> show ?thesis
          by (auto simp: maps_to_def wp_simps mapped_def)
      next
        case False
        from \<open>improved u (now E S0 s) (now E S0 s2)\<close> have "wp (update_mapping E cfg x u j)
          (\<lambda>(i, c, e) s'. c \<and> e = None \<and> steady E S0 name s s' \<and> improved u (now E S0 s) (now E S0 s') \<and> mapped u (now E S0 s') n) s2"
          by (intro wp_mono [OF update_mapping_step [OF C steadyD(1) [OF st2] j]])
             (auto intro: steady_trans [OF st2] improved_trans dest!: mapped_upd [rotated])
        moreover have "\<not> mapped u (now E S0 s) n" using False eq here by simp
        moreover have "it_user_name j \<noteq> m_name (us_meta u) \<or> it_user_uid j \<noteq> m_uid (us_meta u)" using False by (simp add: maps_to_def)
        ultimately show ?thesis by (auto elim: wp_mono)
      qed
    qed
  qed
qed


text \<open>An optional identity: looked at only if the account has the claim \<open>b\<close>.\<close>

lemma optional_step:
  assumes C: "account_cluster E S0 ns name cfg" and syn: "synced E S0 name s" and "n = ue_identity_name E (cf_idp cfg) x"
  shows "wp (if b then do { (_, c, e) \<leftarrow> loadIdentityAndEnsureMapping E cfg x u; ret (c, e) } else ret (False, None))
    (\<lambda>(c, e) s'. e = None \<and> steady E S0 name s s' \<and> improved u (now E S0 s) (now E S0 s') \<and>
      (b \<longrightarrow> mapped u (now E S0 s') n) \<and> (c \<longrightarrow> b \<and> \<not> mapped u (now E S0 s) n)) s"
proof (cases b)
  case True
  then show ?thesis
    by (simp add: wp_simps) (rule wp_mono [OF load_step [OF assms]], auto simp: wp_simps)
next
  case False
  with syn show ?thesis by (simp add: wp_simps steady_def improved_def)
qed

text \<open>What \<open>ensureIdentity\<close> achieves between \<open>s\<close> and \<open>s'\<close>: an identity more refers to the user, or all of them do.\<close>

definition progress :: "uenv \<Rightarrow> ustore \<Rightarrow> string \<Rightarrow> user \<Rightarrow> string set \<Rightarrow> bool \<Rightarrow> (user_account, ucall) st \<Rightarrow> (user_account, ucall) st \<Rightarrow> bool" where
  "progress E S0 name u ids c s s' \<longleftrightarrow> steady E S0 name s s' \<and> improved u (now E S0 s) (now E S0 s') \<and>
     (if c then \<exists>n \<in> ids. \<not> mapped u (now E S0 s) n \<and> mapped u (now E S0 s') n else \<forall>n \<in> ids. mapped u (now E S0 s') n)"

lemma optional_then:
  assumes C: "account_cluster E S0 ns name cfg" and st: "steady E S0 name s s1" and im: "improved u (now E S0 s) (now E S0 s1)"
    and ids: "B (ua_claims (mem s)) \<Longrightarrow> ue_identity_name E (cf_idp cfg) (X (ua_claims (mem s))) \<in> ids"
    and stop: "\<And>s2. progress E S0 name u ids True s s2 \<Longrightarrow> Q (None, True, None) s2"
    and cont: "\<And>s2. steady E S0 name s s2 \<Longrightarrow> improved u (now E S0 s) (now E S0 s2) \<Longrightarrow> improved u (now E S0 s1) (now E S0 s2) \<Longrightarrow>
      (B (ua_claims (mem s)) \<longrightarrow> mapped u (now E S0 s2) (ue_identity_name E (cf_idp cfg) (X (ua_claims (mem s))))) \<Longrightarrow> wp k Q s2"
  shows "wp (do {
       ua \<leftarrow> get_mem;
       (c, e) \<leftarrow> (if B (ua_claims ua) then do { (_, c, e) \<leftarrow> loadIdentityAndEnsureMapping E cfg (X (ua_claims ua)) u; ret (c, e) }
         else ret (False, None));
       if c \<or> e \<noteq> None then ret (None, c, e) else k }) Q s1"
  unfolding wp_bind wp_get_mem steadyD(3) [OF st]
proof (rule wp_mono [OF optional_step [OF C steadyD(1) [OF st] refl]], clarify, goal_cases)
  case (1 c e s2)
  have st2: "steady E S0 name s s2" using st 1(1) by (rule steady_trans)
  have im2: "improved u (now E S0 s) (now E S0 s2)" using im 1(2) by (rule improved_trans)
  show ?case
  proof (cases c)
    case True
    with 1 ids st2 im2 im have "progress E S0 name u ids True s s2" by (auto simp: progress_def improved_def)
    with True show ?thesis by (simp add: wp_simps stop)
  next
    case False
    with 1 cont [OF st2 im2 1(2)] show ?thesis by simp
  qed
qed

lemma ensureIdentity_step:
  assumes C: "account_cluster E S0 ns name cfg" and syn: "synced E S0 name s"
    and ids: "ids = set (expectedIdentities E cfg (ua_claims (mem s)))"
  shows "wp (ensureIdentity E cfg u) (\<lambda>(i, c, e) s'. e = None \<and> progress E S0 name u ids c s s') s"
  unfolding ensureIdentity_def wp_bind [of get_mem] wp_get_mem wp_bind [of "loadIdentityAndEnsureMapping E cfg x u" for x]
proof (rule wp_mono [OF load_step [OF C syn refl]], clarify, goal_cases)
  case (1 i c1 e1 s1)
  let ?id = "\<lambda>x. ue_identity_name E (cf_idp cfg) x" and ?cl = "ua_claims (mem s)"
  have ids_eq: "ids = {?id (cl_sub ?cl)} \<union> (if cl_original_sub ?cl \<noteq> [] then {?id (cl_original_sub ?cl)} else {}) \<union>
      (if cl_user_id ?cl \<noteq> [] \<and> cl_user_id ?cl \<noteq> cl_sub ?cl then {?id (cl_user_id ?cl)} else {})"
    by (auto simp: ids expectedIdentities_def Let_def)
  show ?case
  proof (cases c1)
    case True
    with 1 ids_eq show ?thesis by (auto simp: wp_simps progress_def)
  next
    case False
    have last: "wp (do {
       ua \<leftarrow> get_mem;
       (c, e) \<leftarrow> (if cl_user_id (ua_claims ua) \<noteq> [] \<and> cl_user_id (ua_claims ua) \<noteq> cl_sub (ua_claims ua) then do {
            (_, c, e) \<leftarrow> loadIdentityAndEnsureMapping E cfg (cl_user_id (ua_claims ua)) u; ret (c, e) }
         else ret (False, None));
       if c \<or> e \<noteq> None then ret (None, c, e) else ret (i, False, None) })
      (\<lambda>(i, c, e) s'. e = None \<and> progress E S0 name u ids c s s') s2"
      if "steady E S0 name s s2" "improved u (now E S0 s) (now E S0 s2)" "improved u (now E S0 s1) (now E S0 s2)"
        "cl_original_sub ?cl \<noteq> [] \<longrightarrow> mapped u (now E S0 s2) (?id (cl_original_sub ?cl))" for s2
      by (rule optional_then [OF C that(1,2), where B = "\<lambda>cl. cl_user_id cl \<noteq> [] \<and> cl_user_id cl \<noteq> cl_sub cl" and X = cl_user_id and ids = ids])
         (use that 1(3) in \<open>auto simp: wp_simps progress_def ids_eq improved_def\<close>)
    have "wp (do {
       ua \<leftarrow> get_mem;
       (c, e) \<leftarrow> (if cl_original_sub (ua_claims ua) \<noteq> [] then do {
            (_, c, e) \<leftarrow> loadIdentityAndEnsureMapping E cfg (cl_original_sub (ua_claims ua)) u; ret (c, e) }
         else ret (False, None));
       if c \<or> e \<noteq> None then ret (None, c, e) else do {
         ua \<leftarrow> get_mem;
         (c, e) \<leftarrow> (if cl_user_id (ua_claims ua) \<noteq> [] \<and> cl_user_id (ua_claims ua) \<noteq> cl_sub (ua_claims ua) then do {
              (_, c, e) \<leftarrow> loadIdentityAndEnsureMapping E cfg (cl_user_id (ua_claims ua)) u; ret (c, e) }
           else ret (False, None));
         if c \<or> e \<noteq> None then ret (None, c, e) else ret (i, False, None) } })
      (\<lambda>(i, c, e) s'. e = None \<and> progress E S0 name u ids c s s') s1"
      by (rule optional_then [where B = "\<lambda>cl. cl_original_sub cl \<noteq> []" and X = cl_original_sub and ids = ids, OF C 1(1,2) _ _ last])
         (simp_all add: ids_eq)
    with False show ?thesis by simp
  qed
qed

end
