(* ===== verification/UserAccountConvergence.thy ===== *)
theory UserAccountConvergence
  imports UserAccountStore
begin

text \<open>
  Reconciles of a UserAccount in sequence, on a cluster that keeps what it is told: an account reaches Ready.
\<close>

section \<open>The work left\<close>

definition expected_ids :: "uenv \<Rightarrow> config \<Rightarrow> user_account \<Rightarrow> string set" where
  "expected_ids E cfg ua = set (expectedIdentities E cfg (ua_claims ua))"

definition unmapped :: "user \<Rightarrow> ustore \<Rightarrow> string set \<Rightarrow> string set" where
  "unmapped u S ids = {n \<in> ids. \<not> mapped u S n}"

text \<open>
  The User, where it is missing or lists other identities, and each identity that is missing or refers to another user
  (all of them as long as the User is not right).
\<close>

definition provisioning_left :: "uenv \<Rightarrow> config \<Rightarrow> ustore \<Rightarrow> nat" where
  "provisioning_left E cfg S =
     (if user_ready E cfg (sa S) S
      then card (unmapped (the (su S (m_name (ua_meta (sa S))))) S (expected_ids E cfg (sa S)))
      else Suc (card (expected_ids E cfg (sa S))))"

lemma card_expected: "card (expected_ids E cfg ua) \<le> 3"
proof -
  have "card (expected_ids E cfg ua) \<le> length (expectedIdentities E cfg (ua_claims ua))"
    by (simp add: expected_ids_def card_length)
  also have "\<dots> \<le> 3" by (simp add: expectedIdentities_def Let_def)
  finally show ?thesis .
qed

lemma unmapped_le: "card (unmapped u S (expected_ids E cfg ua)) \<le> card (expected_ids E cfg ua)"
  by (rule card_mono) (auto simp: unmapped_def expected_ids_def)

lemma provisioning_left_le: "provisioning_left E cfg S \<le> 4"
  using le_trans [OF unmapped_le card_expected] card_expected [of E cfg "sa S"]
  by (simp add: provisioning_left_def le_SucI eval_nat_numeral)

lemma unmapped_less:
  assumes "finite ids" and "improved u S S'" and "n \<in> ids" and "\<not> mapped u S n" and "mapped u S' n"
  shows "card (unmapped u S' ids) < card (unmapped u S ids)"
proof (rule psubset_card_mono)
  show "finite (unmapped u S ids)" using assms(1) by (simp add: unmapped_def)
  show "unmapped u S' ids \<subset> unmapped u S ids"
    using assms(2-5) by (auto simp: unmapped_def improved_def)
qed

section \<open>One reconcile\<close>

lemma mapped_reference: "reference u = reference v \<Longrightarrow> mapped u S n = mapped v S n"
  by (simp add: mapped_def maps_to_def)

lemma mapped_objects: "si S' = si S \<Longrightarrow> mapped u S' n = mapped u S n"
  by (simp add: mapped_def)

lemma ensureUserAndIdentity_step:
  assumes C: "account_cluster E S0 ns name cfg" and syn: "synced E S0 name s" and "\<not> cf_skip_user_creation cfg"
  shows "wp (ensureUserAndIdentity E cfg) (\<lambda>(c, e) s'. e = None \<and> steady E S0 name s s' \<and>
    (if c then provisioning_left E cfg (now E S0 s') < provisioning_left E cfg (now E S0 s)
     else provisioning_left E cfg (now E S0 s') = 0)) s"
  unfolding ensureUserAndIdentity_def if_P [OF assms(3)] wp_bind
proof (rule wp_mono [OF ensureUser_step [OF C syn]], clarify, goal_cases)
  case (1 u c e s1)
  let ?left = "\<lambda>s. provisioning_left E cfg (now E S0 s)"
  have sa0: "sa (now E S0 s) = mem s" using syn by (simp add: synced_def)
  note st = steadyD [OF 1(1)]
  have ids: "expected_ids E cfg (mem s1) = expected_ids E cfg (mem s)" using st(3) by (simp add: expected_ids_def)
  show ?case
  proof (cases c)
    case True
    have "?left s1 \<le> card (expected_ids E cfg (mem s))"
      using 1(3) st(4) ids by (auto simp: provisioning_left_def expected_ids_def unmapped_def intro!: card_mono)
    moreover have "?left s = Suc (card (expected_ids E cfg (mem s)))"
      using 1 True sa0 by (simp add: provisioning_left_def)
    ultimately show ?thesis using True 1 by (simp add: wp_simps)
  next
    case False
    with 1 obtain v w where v: "u = Some v" "su (now E S0 s1) name = Some v" "su (now E S0 s) name = Some w" "reference v = reference w"
      by auto
    have "unmapped v (now E S0 s1) ids = unmapped w (now E S0 s) ids" for ids
      by (simp add: unmapped_def mapped_reference [OF v(4)] mapped_objects [OF 1(2)])
    then have "card (unmapped v (now E S0 s1) (expected_ids E cfg (mem s))) \<le> ?left s"
      using sa0 v(3) syn unmapped_le [of w "now E S0 s" E cfg "mem s"]
      by (simp add: provisioning_left_def synced_def)
    moreover have "wp (do { (_, c, e) \<leftarrow> ensureIdentity E cfg v; ret (c, e) }) (\<lambda>(c, e) s'. e = None \<and> steady E S0 name s s' \<and>
        (if c then ?left s' < card (unmapped v (now E S0 s1) (expected_ids E cfg (mem s)))
         else ?left s' = 0)) s1"
      unfolding wp_bind
    proof (rule wp_mono [OF ensureIdentity_step [OF C st(1) refl]], clarify, goal_cases)
      case (1 i c e s2)
      have st2: "steady E S0 name s s2" using \<open>steady E S0 name s s1\<close> 1 by (auto simp: progress_def intro: steady_trans)
      have im: "improved v (now E S0 s1) (now E S0 s2)" using 1 by (simp add: progress_def)
      have su2: "su (now E S0 s2) name = Some v" using im v(2) by (simp add: improved_def)
      have "user_ready E cfg (mem s2) (now E S0 s2)"
        using \<open>user_ready E cfg (mem s1) (now E S0 s1)\<close> su2 v(2) st(2,3) steadyD(2,3) [OF st2] by (simp add: user_ready_def)
      then have left2: "?left s2 = card (unmapped v (now E S0 s2) (expected_ids E cfg (mem s)))"
        using steadyD [OF st2] su2 by (simp add: provisioning_left_def expected_ids_def)
      show ?case
      proof (cases c)
        case True
        with 1 obtain n where "n \<in> expected_ids E cfg (mem s)" "\<not> mapped v (now E S0 s1) n" "mapped v (now E S0 s2) n"
          unfolding progress_def expected_ids_def st(3) by auto
        from unmapped_less [OF _ im this] True st2 left2 show ?thesis by (simp add: wp_simps expected_ids_def)
      next
        case False
        with 1 have "unmapped v (now E S0 s2) (expected_ids E cfg (mem s)) = {}"
          unfolding progress_def expected_ids_def st(3) by (auto simp: unmapped_def)
        with False left2 st2 1 show ?thesis by (simp add: wp_simps)
      qed
    qed
    ultimately show ?thesis using False v(1) by (auto elim!: wp_mono split: if_splits)
  qed
qed


text \<open>An account that is to be provisioned.\<close>

definition active :: "uenv \<Rightarrow> user_account \<Rightarrow> bool" where
  "active E ua \<longleftrightarrow> \<not> ua_disabled ua \<and> m_deletion (ua_meta ua) = None \<and> not_updating E ua"

definition account_ready :: "uenv \<Rightarrow> user_account \<Rightarrow> bool" where
  "account_ready E ua \<longleftrightarrow> FinalizerName \<in> set (m_finalizers (ua_meta ua)) \<and>
     has_cond (ue_lib E) (ua_conds ua) (mk_cond ConditionReady ConditionTrue UserAccountProvisionedReason [])"

lemma finish_step:
  assumes C: "account_cluster E S0 ns name cfg" and syn: "synced E S0 name s" and "not_updating E (mem s)"
  shows "wp (finish_reconcile E) (\<lambda>r s'. r = (0, None) \<and> synced E S0 name s' \<and> same_objects (now E S0 s) (now E S0 s') \<and>
    account_fixed (mem s') = account_fixed (mem s) \<and>
    has_cond (ue_lib E) (ua_conds (mem s')) (mk_cond ConditionReady ConditionTrue UserAccountProvisionedReason [])) s"
proof -
  let ?s1 = "s\<lparr>tick := Suc (tick s)\<rparr>"
  have "synced E S0 name ?s1" using syn by (simp add: synced_def)
  note ready = status_step [OF C this, of "mk_cond ConditionReady ConditionTrue UserAccountProvisionedReason []"]
  obtain c ok where f: "FindConditionByType (ue_lib E) (ua_conds (mem s)) ConditionReady = (c, ok)"
    by (cases "FindConditionByType (ue_lib E) (ua_conds (mem s)) ConditionReady")
  with assms(3) have "\<not> (ok \<and> c_reason c = UserAccountUpdatingReason)" by (auto simp: not_updating_def)
  with f show ?thesis
    unfolding finish_reconcile_def
    by (auto simp: wp_simps setStatusReady_def intro!: wp_mono [OF ready])
qed

lemma provisioning_left_same:
  assumes "same_objects S S'" and "m_name (ua_meta (sa S')) = m_name (ua_meta (sa S))" and "ua_claims (sa S') = ua_claims (sa S)"
  shows "provisioning_left E cfg S' = provisioning_left E cfg S"
proof -
  have "user_ready E cfg (sa S') S' = user_ready E cfg (sa S) S" "unmapped u S' ids = unmapped u S ids" for u ids
    using assms by (simp_all add: same_objects_def user_ready_def unmapped_def mapped_def)
  then show ?thesis using assms by (simp add: provisioning_left_def same_objects_def expected_ids_def)
qed

lemma account_reconcile_step:
  assumes C: "account_cluster E S0 ns name cfg" and "\<not> cf_skip_user_creation cfg" and act: "active E (sa (now E S0 s))"
    and nm: "m_name (ua_meta (sa (now E S0 s))) = name"
  shows "wp (Reconcile E ns name) (\<lambda>r s'. snd r = None \<and> active E (sa (now E S0 s')) \<and> m_name (ua_meta (sa (now E S0 s'))) = name \<and>
    (provisioning_left E cfg (now E S0 s') < provisioning_left E cfg (now E S0 s) \<or>
     provisioning_left E cfg (now E S0 s') = 0 \<and> account_ready E (sa (now E S0 s')))) s"
proof -
  let ?ua = "sa (now E S0 s)"
  define s1 where "s1 = log_call (GetUserAccount ns name) True (log_call GetConfiguration True s)\<lparr>mem := ?ua\<rparr>"
  have s1: "mem s1 = ?ua" "now E S0 s1 = now E S0 s" and syn1: "synced E S0 name s1"
    using nm by (simp_all add: s1_def synced_def)
  let ?left = "\<lambda>s. provisioning_left E cfg (now E S0 s)"
  let ?Q = "\<lambda>r s'. snd r = None \<and> active E (sa (now E S0 s')) \<and> m_name (ua_meta (sa (now E S0 s'))) = name \<and>
    (?left s' < ?left s \<or> ?left s' = 0 \<and> account_ready E (sa (now E S0 s')))"
  have body: "wp (do { (c, err) \<leftarrow> ensureUserAndIdentity E cfg; if err \<noteq> None \<or> c then ret (0, err) else finish_reconcile E }) ?Q s2"
    if "synced E S0 name s2" "?left s2 = ?left s" "active E (mem s2)" "FinalizerName \<in> set (m_finalizers (ua_meta (mem s2)))" for s2
    unfolding wp_bind
  proof (rule wp_mono [OF ensureUserAndIdentity_step [OF C that(1) assms(2)]], clarify, goal_cases)
    case (1 c e s3)
    note st = steadyD [OF 1(1)]
    have act3: "active E (mem s3)" and fin3: "FinalizerName \<in> set (m_finalizers (ua_meta (mem s3)))"
      using 1(1) that(3,4) by (simp_all add: steady_def active_def)
    show ?case
    proof (cases c)
      case True
      with 1 st act3 that(2) show ?thesis by (simp add: wp_simps)
    next
      case False
      have "wp (finish_reconcile E) ?Q s3"
      proof (rule wp_mono [OF finish_step [OF C st(1)]], goal_cases)
        case 1
        show ?case using act3 by (simp add: active_def)
      next
        case (2 r s4)
        then have sa4: "sa (now E S0 s4) = mem s4" "m_name (ua_meta (mem s4)) = name" by (simp_all add: synced_def)
        have "?left s4 = ?left s3"
          using 2 st sa4 by (intro provisioning_left_same) auto
        moreover have "active E (mem s4)" "account_ready E (mem s4)"
          using 2 act3 fin3 by (auto simp: active_def account_ready_def intro: has_cond_not_updating)
        ultimately show ?case using 2 False \<open>if c then _ else _\<close> sa4 by simp
      qed
      with False 1 show ?thesis by simp
    qed
  qed
  have "wp (addFinalizer E) (\<lambda>err. wp (case err of
        Some e \<Rightarrow> ret (0, Some e)
      | None \<Rightarrow> do {
          ua \<leftarrow> get_mem;
          if \<not> ua_disabled ua
          then do {
            (createdOrUpdated, err) \<leftarrow> ensureUserAndIdentity E cfg;
            if err \<noteq> None \<or> createdOrUpdated then ret (0, err)
            else finish_reconcile E
          }
          else disable_account E
        }) ?Q) s1"
  proof (rule wp_mono [OF addFinalizer_step [OF C syn1]], elim conjE, goal_cases)
    case (1 err s2)
    have "?left s2 = ?left s"
      using 1 s1 nm by (auto simp: synced_def intro!: provisioning_left_same)
    moreover have "active E (mem s2)" using 1 act s1(1) by (simp add: active_def not_updating_def)
    ultimately show ?case using body [OF 1(2)] 1 by (simp add: wp_bind wp_get_mem active_def)
  qed
  moreover have "\<not> IsBeingDeleted (ue_lib E) (ua_meta ?ua)"
    using act cluster_libs(1) [OF C] by (simp add: active_def finalizers_lib_def)
  ultimately show ?thesis
    using cluster_reads(1,2) [OF C] cluster_libs(3) [OF C]
    by (simp add: Reconcile_def wp_simps flip: s1_def)
qed


section \<open>Convergence\<close>

fun account_reconciles :: "uenv \<Rightarrow> string \<Rightarrow> string \<Rightarrow> nat \<Rightarrow> (user_account, ucall) st \<Rightarrow> (user_account, ucall) st" where
  "account_reconciles E ns name 0 s = s"
| "account_reconciles E ns name (Suc k) s = account_reconciles E ns name k (snd (run_state (Reconcile E ns name) s))"

definition provisioned :: "uenv \<Rightarrow> config \<Rightarrow> ustore \<Rightarrow> bool" where
  "provisioned E cfg S \<longleftrightarrow> account_ready E (sa S) \<and>
     (\<exists>u. su S (m_name (ua_meta (sa S))) = Some u \<and> us_identities u = expectedIdentities E cfg (ua_claims (sa S)) \<and>
        (\<forall>n \<in> set (us_identities u). \<exists>i. si S n = Some i \<and> maps_to u i))"

lemma nothing_left: "provisioning_left E cfg S = 0 \<Longrightarrow> account_ready E (sa S) \<Longrightarrow> provisioned E cfg S"
  by (auto simp: provisioned_def provisioning_left_def user_ready_def unmapped_def expected_ids_def mapped_def
      card_eq_0_iff split: if_splits)

lemma reconciles_provision:
  assumes C: "account_cluster E S0 ns name cfg" and "\<not> cf_skip_user_creation cfg"
  shows "active E (sa (now E S0 s)) \<Longrightarrow> m_name (ua_meta (sa (now E S0 s))) = name \<Longrightarrow>
    provisioning_left E cfg (now E S0 s) < k \<or> provisioning_left E cfg (now E S0 s) = 0 \<and> account_ready E (sa (now E S0 s)) \<Longrightarrow>
    provisioned E cfg (now E S0 (account_reconciles E ns name k s))"
proof (induction k arbitrary: s)
  case 0
  then show ?case by (simp add: nothing_left)
next
  case (Suc k)
  obtain r s' where run: "run_state (Reconcile E ns name) s = (r, s')" by (cases "run_state (Reconcile E ns name) s")
  from wpD [OF account_reconcile_step [OF assms Suc.prems(1,2)] run] Suc.prems(3)
  have "provisioned E cfg (now E S0 (account_reconciles E ns name k s'))"
    by (intro Suc.IH) auto
  with run show ?case by simp
qed

text \<open>
  C5: a UserAccount is provisioned: on a cluster where writes are kept and nobody else interferes, after five reconciles
  and ever after, whatever existed before, the account is Ready with its finalizer set, its User lists the expected
  identities, and each of them exists and refers to that User by name and UID.
\<close>

theorem account_becomes_ready:
  assumes "account_cluster E S0 ns name cfg" and "\<not> cf_skip_user_creation cfg" and "active E (sa S0)" and "5 \<le> k"
  shows "provisioned E cfg (store E S0 (calls (account_reconciles E ns name k (fresh z))))"
proof (rule reconciles_provision [OF assms(1,2)])
  show "active E (sa (now E S0 (fresh z)))" using assms(3) by simp
  show "m_name (ua_meta (sa (now E S0 (fresh z)))) = name" using assms(1) by (simp add: account_cluster_def)
  show "provisioning_left E cfg (now E S0 (fresh z)) < k \<or>
      provisioning_left E cfg (now E S0 (fresh z)) = 0 \<and> account_ready E (sa (now E S0 (fresh z)))"
    using provisioning_left_le [of E cfg "now E S0 (fresh z)"] assms(4) by linarith
qed

text \<open>A cluster that is a store: the writes first, then the reads from what they left.\<close>

definition write_env :: uenv where
  "write_env = (demo_uenv (\<lambda>n. Inr demo_user) [] [])\<lparr>
     ue_create_user := (\<lambda>tr u. Inr (u\<lparr>us_meta := (us_meta u)\<lparr>m_uid := ''u'' @ replicate (length tr) CHR ''1''\<rparr>\<rparr>)),
     ue_apply_identity := (\<lambda>idp n i. i\<lparr>it_meta := (it_meta i)\<lparr>m_name := idp @ '':'' @ n\<rparr>, it_provider := idp, it_provider_user := n\<rparr>)\<rparr>"

definition read_map :: "(string \<rightharpoonup> 'x) \<Rightarrow> string \<Rightarrow> err + 'x" where
  "read_map m n = (case m n of Some x \<Rightarrow> Inr x | None \<Rightarrow> Inl (StatusErr ''NotFound'' []))"

definition names_in :: "utrace \<Rightarrow> string list" where
  "names_in tr = concat (map (\<lambda>(c, ok). case c of CreateUser u \<Rightarrow> [m_name (us_meta u)] | UpdateUser u \<Rightarrow> [m_name (us_meta u)]
     | CreateIdentity i \<Rightarrow> [m_name (it_meta i)] | UpdateIdentity i \<Rightarrow> [m_name (it_meta i)] | _ \<Rightarrow> []) tr)"

definition store_env :: "ustore \<Rightarrow> string list \<Rightarrow> uenv" where
  "store_env S0 names = write_env\<lparr>
     ue_get_account := (\<lambda>tr ns n. Inr (sa (store write_env S0 tr))),
     ue_get_user := (\<lambda>tr n. read_map (su (store write_env S0 tr)) n),
     ue_get_identity := (\<lambda>tr n. read_map (si (store write_env S0 tr)) n),
     ue_list_users := (\<lambda>tr owner. Inr (filter (\<lambda>u. owned (us_meta u) owner)
       (List.map_filter (su (store write_env S0 tr)) (remdups (names @ names_in tr))))),
     ue_list_identities := (\<lambda>tr owner. Inr (filter (\<lambda>i. owned (it_meta i) owner)
       (List.map_filter (si (store write_env S0 tr)) (remdups (names @ names_in tr)))))\<rparr>"

lemma store_env_store: "store (store_env S0 names) S tr = store write_env S tr"
proof -
  have "stored (store_env S0 names) tr c S = stored write_env tr c S" for tr c S
    by (cases c) (simp_all add: store_env_def)
  then show ?thesis by (induction tr rule: rev_induct) auto
qed

lemma finds_read_map: "finds (IsNotFound (ref_lib z)) (read_map m n) (m n)"
  by (cases "m n") (simp_all add: read_map_def ref_lib_def)

lemma store_env_cluster:
  assumes "keyed S0" and "m_name (ua_meta (sa S0)) = name" and "ns \<noteq> []"
  shows "account_cluster (store_env S0 names) S0 ns name demo_config"
  unfolding account_cluster_def reads_store_def store_env_store Let_def
  using assms
  by (simp add: store_env_def write_env_def demo_uenv_def accepts_writes_def accepts_def
      finds_read_map ref_lib_ok naming_standard_def)

text \<open>An account with nothing in the cluster, and one whose identity refers to an earlier User of its name.\<close>

definition new_store :: ustore where
  "new_store = \<lparr>sa = demo_account, su = Map.empty, si = [''sso:sub'' \<mapsto> (demo_identity ''sso:sub'')\<lparr>it_user_uid := ''old''\<rparr>]\<rparr>"

theorem account_becomes_ready_witness:
  "let E = store_env new_store [] in
     provisioned E demo_config (store E new_store (calls (account_reconciles E ''member'' ''john'' 5 (fresh demo_account))))"
proof -
  have C: "account_cluster (store_env new_store []) new_store ''member'' ''john'' demo_config"
    by (rule store_env_cluster)
       (auto simp: keyed_def new_store_def account_demo_defs split: if_splits)
  have "active (store_env new_store []) (sa new_store)"
    by (simp add: active_def not_updating_def store_env_def write_env_def new_store_def account_demo_defs ref_lib_def)
  then show ?thesis
    unfolding Let_def by (intro account_becomes_ready [OF C]) (simp_all add: demo_config_def)
qed

end
