(* ===== verification/UserAccountRemoval.thy ===== *)
theory UserAccountRemoval
  imports UserAccountConvergence
begin

text \<open>
  Reconciles of a UserAccount in sequence, when it is deleted or disabled: everything it owns is removed, one object per
  reconcile.
\<close>

section \<open>What an account owns\<close>

definition owned_users :: "ustore \<Rightarrow> string \<Rightarrow> string set" where
  "owned_users S owner = {n. \<exists>u. su S n = Some u \<and> owned (us_meta u) owner}"

definition owned_identities :: "ustore \<Rightarrow> string \<Rightarrow> string set" where
  "owned_identities S owner = {n. \<exists>i. si S n = Some i \<and> owned (it_meta i) owner}"

definition removal_left :: "ustore \<Rightarrow> string \<Rightarrow> nat" where
  "removal_left S owner = card (owned_users S owner) + card (owned_identities S owner)"

definition finite_store :: "ustore \<Rightarrow> bool" where
  "finite_store S \<longleftrightarrow> finite (dom (su S)) \<and> finite (dom (si S))"

lemma stored_finite: "finite_store S \<Longrightarrow> finite_store (stored E tr c S)"
  by (cases c) (auto simp: finite_store_def split: sum.split)

lemma store_finite: "finite_store S \<Longrightarrow> finite_store (store E S tr)"
proof (induction tr rule: rev_induct)
  case (snoc x tr)
  then show ?case by (cases x) (simp add: stored_finite)
qed simp

lemma owned_finite: "finite_store S \<Longrightarrow> finite (owned_users S owner) \<and> finite (owned_identities S owner)"
  unfolding finite_store_def owned_users_def owned_identities_def
  by (auto elim: rev_finite_subset [of "dom (su S)"] rev_finite_subset [of "dom (si S)"])

lemma removal_left_0:
  "finite_store S \<Longrightarrow> removal_left S owner = 0 \<longleftrightarrow> owned_users S owner = {} \<and> owned_identities S owner = {}"
  using owned_finite [of S owner] by (simp add: removal_left_def)

lemma identity_removed:
  assumes "finite_store S" and "n \<in> owned_identities S owner"
  shows "removal_left (S\<lparr>si := (si S)(n := None)\<rparr>) owner < removal_left S owner"
proof -
  have "owned_identities (S\<lparr>si := (si S)(n := None)\<rparr>) owner = owned_identities S owner - {n}"
      "owned_users (S\<lparr>si := (si S)(n := None)\<rparr>) owner = owned_users S owner"
    by (auto simp: owned_identities_def owned_users_def)
  moreover have "0 < card (owned_identities S owner)"
    using assms(2) owned_finite [OF assms(1), of owner] by (auto simp: card_gt_0_iff)
  ultimately show ?thesis using assms(2) by (simp add: removal_left_def)
qed

lemma user_removed:
  assumes "finite_store S" and "n \<in> owned_users S owner"
  shows "removal_left (S\<lparr>su := (su S)(n := None)\<rparr>) owner < removal_left S owner"
proof -
  have "owned_users (S\<lparr>su := (su S)(n := None)\<rparr>) owner = owned_users S owner - {n}"
      "owned_identities (S\<lparr>su := (su S)(n := None)\<rparr>) owner = owned_identities S owner"
    by (auto simp: owned_identities_def owned_users_def)
  moreover have "0 < card (owned_users S owner)"
    using assms(2) owned_finite [OF assms(1), of owner] by (auto simp: card_gt_0_iff)
  ultimately show ?thesis using assms(2) by (simp add: removal_left_def)
qed

section \<open>One reconcile\<close>

definition removal_cluster :: "uenv \<Rightarrow> ustore \<Rightarrow> string \<Rightarrow> string \<Rightarrow> config \<Rightarrow> bool" where
  "removal_cluster E S0 ns name cfg \<longleftrightarrow> account_cluster E S0 ns name cfg \<and> lists_store E S0 \<and> finite_store S0"

lemma removalD:
  assumes "removal_cluster E S0 ns name cfg"
  shows "account_cluster E S0 ns name cfg" and "finite_store (store E S0 tr)"
    and "lists (ue_list_users E tr owner) (\<lambda>u. owned (us_meta u) owner) (su (store E S0 tr))"
    and "lists (ue_list_identities E tr owner) (\<lambda>i. owned (it_meta i) owner) (si (store E S0 tr))"
  using assms by (simp_all add: removal_cluster_def lists_store_def store_finite)

lemma deleteUserResources_step:
  assumes "removal_cluster E S0 ns name cfg"
  shows "wp (deleteUserResources E uid) (\<lambda>e s'. e = None \<and> mem s' = mem s \<and> now E S0 s' = now E S0 s) s"
proof -
  have one: "wp (deleteResource E uid k) (\<lambda>e s'. e = None \<and> mem s' = mem s \<and> now E S0 s' = now E S0 s) s" for k s
    using cluster_writes(9) [OF removalD(1) [OF assms], of "calls s" k UserSettingNS "settings_name uid k"]
    by (auto simp: deleteResource_def wp_simps pred_option_def split: option.splits)
  show ?thesis
    unfolding deleteUserResources_def wp_bind
    by (rule wp_mono [OF one], clarsimp simp: wp_bind, rule wp_mono [OF one], clarsimp, rule wp_mono [OF one], simp)
qed

text \<open>What every step keeps of the account, and of the objects if it removes one.\<close>

definition removes :: "uenv \<Rightarrow> ustore \<Rightarrow> string \<Rightarrow> bool \<Rightarrow> (user_account, ucall) st \<Rightarrow> (user_account, ucall) st \<Rightarrow> bool" where
  "removes E S0 name d s s' \<longleftrightarrow> mem s' = mem s \<and> synced E S0 name s' \<and>
     (if d then removal_left (now E S0 s') name < removal_left (now E S0 s) name else same_objects (now E S0 s) (now E S0 s'))"

lemma deleteIdentity_step:
  assumes R: "removal_cluster E S0 ns name cfg" and syn: "synced E S0 name s"
  shows "wp (deleteIdentity E) (\<lambda>(d, e) s'. e = None \<and> removes E S0 name d s s' \<and>
    (\<not> d \<longrightarrow> owned_identities (now E S0 s) name = {})) s"
proof -
  have name: "m_name (ua_meta (mem s)) = name" using syn by (simp add: synced_def)
  obtain ids where l: "ue_list_identities E (calls s) name = Inr ids"
      "set ids = {i \<in> ran (si (now E S0 s)). owned (it_meta i) name}"
    using removalD(4) [OF R] unfolding lists_def by blast
  show ?thesis
  proof (cases ids)
    case Nil
    with l(2) have "owned_identities (now E S0 s) name = {}" by (auto simp: owned_identities_def ran_def)
    with Nil l(1) name syn show ?thesis
      by (simp add: deleteIdentity_def wp_simps removes_def synced_def same_objects_def)
  next
    case (Cons i rest)
    with l(2) have "i \<in> ran (si (now E S0 s))" "owned (it_meta i) name" by auto
    moreover from this(1) have "si (now E S0 s) (m_name (it_meta i)) = Some i"
      using cluster_reads(5) [OF removalD(1) [OF R], of "calls s"] by (auto simp: keyed_def ran_def)
    ultimately have "m_name (it_meta i) \<in> owned_identities (now E S0 s) name" by (auto simp: owned_identities_def)
    from identity_removed [OF removalD(2) [OF R] this] Cons l(1) name syn show ?thesis
      using cluster_writes(8) [OF removalD(1) [OF R]]
      by (simp add: deleteIdentity_def wp_simps removes_def synced_def)
  qed
qed

lemma deleteUser_step:
  assumes R: "removal_cluster E S0 ns name cfg" and syn: "synced E S0 name s"
  shows "wp (deleteUser E) (\<lambda>(d, e) s'. e = None \<and> removes E S0 name d s s' \<and>
    (\<not> d \<longrightarrow> owned_users (now E S0 s) name = {})) s"
proof -
  have name: "m_name (ua_meta (mem s)) = name" using syn by (simp add: synced_def)
  obtain us where l: "ue_list_users E (calls s) name = Inr us"
      "set us = {u \<in> ran (su (now E S0 s)). owned (us_meta u) name}"
    using removalD(3) [OF R] unfolding lists_def by blast
  show ?thesis
  proof (cases us)
    case Nil
    with l(2) have "owned_users (now E S0 s) name = {}" by (auto simp: owned_users_def ran_def)
    with Nil l(1) name syn show ?thesis
      by (simp add: deleteUser_def getUsersByOwnerName_def wp_simps removes_def synced_def same_objects_def)
  next
    case (Cons u rest)
    with l(2) have "u \<in> ran (su (now E S0 s))" "owned (us_meta u) name" by auto
    moreover from this(1) have "su (now E S0 s) (m_name (us_meta u)) = Some u"
      using cluster_reads(5) [OF removalD(1) [OF R], of "calls s"] by (auto simp: keyed_def ran_def)
    ultimately have "m_name (us_meta u) \<in> owned_users (now E S0 s) name" by (auto simp: owned_users_def)
    note less = user_removed [OF removalD(2) [OF R] this]
    have delete: "ue_exec E tr (DeleteUser n) = None" for tr n using cluster_writes(7) [OF removalD(1) [OF R]] .
    show ?thesis
      unfolding deleteUser_def getUsersByOwnerName_def wp_bind wp_get_mem wp_call name l(1) Cons sum.case list.case
      by (rule wp_mono [OF deleteUserResources_step [OF R]])
         (use less delete syn in \<open>simp add: wp_simps removes_def synced_def\<close>)
  qed
qed

lemma deletion_step:
  assumes R: "removal_cluster E S0 ns name cfg" and syn: "synced E S0 name s"
  shows "wp (deleteIdentityAndUser E) (\<lambda>(d, e) s'. e = None \<and> removes E S0 name d s s' \<and>
    (\<not> d \<longrightarrow> removal_left (now E S0 s) name = 0)) s"
  unfolding deleteIdentityAndUser_def wp_bind
proof (rule wp_mono [OF deleteIdentity_step [OF assms]], clarify, goal_cases)
  case (1 d e s1)
  show ?case
  proof (cases d)
    case True
    with 1 show ?thesis by (simp add: wp_simps)
  next
    case False
    with 1 have s1: "synced E S0 name s1" "mem s1 = mem s" "same_objects (now E S0 s) (now E S0 s1)" by (simp_all add: removes_def)
    then have eq: "owned_users (now E S0 s1) name = owned_users (now E S0 s) name"
        "removal_left (now E S0 s1) name = removal_left (now E S0 s) name"
      by (simp_all add: same_objects_def owned_users_def owned_identities_def removal_left_def)
    have "wp (deleteUser E) (\<lambda>(d, e) s'. e = None \<and> removes E S0 name d s s' \<and>
        (\<not> d \<longrightarrow> removal_left (now E S0 s) name = 0)) s1"
      by (rule wp_mono [OF deleteUser_step [OF R s1(1)]])
         (use False 1 s1 eq removal_left_0 [OF removalD(2) [OF R]] in \<open>auto simp: removes_def same_objects_def split: if_splits\<close>)
    with False show ?thesis by (auto simp: wp_bind wp_simps split: prod.splits elim!: wp_mono)
  qed
qed


text \<open>
  An account that is removed: it is being deleted, with or without its finalizer, or it is disabled.  \<open>removed\<close> is the end: nothing
  owned is left, and the finalizer is gone or the condition is Disabled.
\<close>

definition removed :: "uenv \<Rightarrow> string \<Rightarrow> ustore \<Rightarrow> bool" where
  "removed E name S \<longleftrightarrow> owned_users S name = {} \<and> owned_identities S name = {} \<and>
     (if m_deletion (ua_meta (sa S)) \<noteq> None then FinalizerName \<notin> set (m_finalizers (ua_meta (sa S)))
      else has_cond (ue_lib E) (ua_conds (sa S)) (mk_cond ConditionReady ConditionFalse UserAccountDisabledReason []))"

text \<open>The objects kept and the account still to be removed in the same way.\<close>

abbreviation removal_kind :: "user_account \<Rightarrow> bool \<times> int option" where
  "removal_kind ua \<equiv> (ua_disabled ua, m_deletion (ua_meta ua))"

definition goes_on :: "uenv \<Rightarrow> ustore \<Rightarrow> string \<Rightarrow> (user_account, ucall) st \<Rightarrow> (user_account, ucall) st \<Rightarrow> bool" where
  "goes_on E S0 name s s' \<longleftrightarrow> synced E S0 name s' \<and> removal_kind (mem s') = removal_kind (mem s) \<and>
     (removal_left (now E S0 s') name < removal_left (now E S0 s) name \<and>
       (FinalizerName \<in> set (m_finalizers (ua_meta (mem s))) \<longrightarrow> FinalizerName \<in> set (m_finalizers (ua_meta (mem s')))) \<or>
      removed E name (now E S0 s'))"

lemma left_same:
  assumes "same_objects S S'"
  shows "removal_left S' name = removal_left S name" "owned_users S' name = owned_users S name"
    "owned_identities S' name = owned_identities S name"
  using assms by (simp_all add: same_objects_def owned_users_def owned_identities_def removal_left_def)

lemma disable_step:
  assumes R: "removal_cluster E S0 ns name cfg" and syn: "synced E S0 name s" and "m_deletion (ua_meta (mem s)) = None"
  shows "wp (disable_account E) (\<lambda>r s'. snd r = None \<and> goes_on E S0 name s s') s"
  unfolding disable_account_def setStatusDisabling_def wp_bind
proof (rule wp_mono [OF status_step [OF removalD(1) [OF R] syn]], elim conjE, hypsubst, goal_cases)
  case (1 e s1)
  note left1 = left_same [OF 1(2)]
  show ?case
    unfolding option.case wp_bind
  proof (rule wp_mono [OF deletion_step [OF R 1(1)]], clarify, goal_cases)
    case (1 d e s2)
    have s2: "synced E S0 name s2" "mem s2 = mem s1" using 1 by (simp_all add: removes_def)
    show ?case
    proof (cases d)
      case True
      with 1 s2 \<open>account_fixed (mem s1) = account_fixed (mem s)\<close> left1 show ?thesis
        by (auto simp: wp_simps goes_on_def removes_def)
    next
      case False
      with 1 have same: "same_objects (now E S0 s1) (now E S0 s2)" and "removal_left (now E S0 s1) name = 0"
        by (simp_all add: removes_def)
      then have none: "owned_users (now E S0 s2) name = {}" "owned_identities (now E S0 s2) name = {}"
        using removal_left_0 [OF removalD(2) [OF R]] left_same [OF same] by simp_all
      have "wp (setStatusDisabled E) (\<lambda>err s'. err = None \<and> goes_on E S0 name s s') s2"
        unfolding setStatusDisabled_def
      proof (rule wp_mono [OF status_step [OF removalD(1) [OF R] s2(1)]], elim conjE, goal_cases)
        case (1 e s3)
        then have "removed E name (now E S0 s3)"
          using none left_same [OF 1(3)] s2 \<open>account_fixed (mem s1) = account_fixed (mem s)\<close> assms(3)
          by (simp add: removed_def synced_def)
        with 1 s2 \<open>account_fixed (mem s1) = account_fixed (mem s)\<close> show ?case by (simp add: goes_on_def)
      qed
      with False 1 show ?thesis by (auto simp: wp_simps elim!: wp_mono)
    qed
  qed
qed

lemma removal_step:
  assumes R: "removal_cluster E S0 ns name cfg" and syn: "synced E S0 name s" and "m_deletion (ua_meta (mem s)) \<noteq> None"
    and start: "FinalizerName \<in> set (m_finalizers (ua_meta (mem s))) \<or> removed E name (now E S0 s)"
  shows "wp (ensureUserAccountDeletion E) (\<lambda>e s'. e = None \<and> goes_on E S0 name s s') s"
proof (cases "FinalizerName \<in> set (m_finalizers (ua_meta (mem s)))")
  case False
  then have "\<not> HasFinalizer (ue_lib E) (ua_meta (mem s)) FinalizerName"
    using cluster_libs(1) [OF removalD(1) [OF R]] by (simp add: finalizers_lib_def)
  with False start syn show ?thesis by (simp add: ensureUserAccountDeletion_def wp_simps goes_on_def)
next
  case True
  note fin = cluster_libs(1) [OF removalD(1) [OF R], unfolded finalizers_lib_def]
  have has: "HasFinalizer (ue_lib E) (ua_meta (mem s)) FinalizerName" using True fin by simp
  show ?thesis
    unfolding ensureUserAccountDeletion_def wp_bind wp_get_mem if_P [OF has]
  proof (rule wp_mono [OF deletion_step [OF R syn]], clarify, goal_cases)
    case (1 d e s1)
    have s1: "synced E S0 name s1" "mem s1 = mem s" using 1 by (simp_all add: removes_def)
    show ?case
    proof (cases d)
      case True
      with 1 have less: "removal_left (now E S0 s1) name < removal_left (now E S0 s) name" by (simp add: removes_def)
      have "wp (setStatusTerminating E m) (\<lambda>e s'. e = None \<and> goes_on E S0 name s s') s1" for m
        unfolding setStatusTerminating_def
      proof (rule wp_mono [OF status_step [OF removalD(1) [OF R] s1(1)]], elim conjE, goal_cases)
        case (1 e s2)
        with less left_same [OF 1(3)] s1 show ?case by (simp add: goes_on_def)
      qed
      with True show ?thesis by simp
    next
      case False
      with 1 have same: "same_objects (now E S0 s) (now E S0 s1)" and "removal_left (now E S0 s) name = 0"
        by (simp_all add: removes_def)
      then have none: "owned_users (now E S0 s1) name = {}" "owned_identities (now E S0 s1) name = {}"
        using removal_left_0 [OF removalD(2) [OF R]] left_same [OF same] by simp_all
      let ?a = "mem s1\<lparr>ua_meta := RemoveFinalizer (ue_lib E) (ua_meta (mem s1)) FinalizerName\<rparr>"
      obtain b where b: "ue_update_account E (calls s1) ?a = Inr b" "account_facts b = account_facts ?a"
        by (rule acceptsE [OF cluster_writes(1) [OF removalD(1) [OF R]]])
      have "removed E name (now E S0 (log_call (UpdateUserAccount ?a) True s1))"
        using b none fin assms(3) s1 by (simp add: removed_def owned_users_def owned_identities_def)
      with b fin s1 False show ?thesis
        by (simp add: wp_simps Let_def goes_on_def synced_def)
    qed
  qed
qed


definition leaving :: "uenv \<Rightarrow> string \<Rightarrow> ustore \<Rightarrow> bool" where
  "leaving E name S \<longleftrightarrow> m_name (ua_meta (sa S)) = name \<and>
     (if m_deletion (ua_meta (sa S)) \<noteq> None then FinalizerName \<in> set (m_finalizers (ua_meta (sa S))) \<or> removed E name S
      else ua_disabled (sa S))"

lemma removed_nothing_left:
  "removal_cluster E S0 ns name cfg \<Longrightarrow> removed E name (store E S0 tr) \<Longrightarrow> removal_left (store E S0 tr) name = 0"
  using removal_left_0 [OF removalD(2)] by (simp add: removed_def)

lemma leaving_step:
  assumes R: "removal_cluster E S0 ns name cfg" and l: "leaving E name (now E S0 s)"
  shows "wp (Reconcile E ns name) (\<lambda>r s'. snd r = None \<and> leaving E name (now E S0 s') \<and>
    (removal_left (now E S0 s') name < removal_left (now E S0 s) name \<or> removed E name (now E S0 s'))) s"
proof -
  note C = removalD(1) [OF R]
  let ?ua = "sa (now E S0 s)"
  define s1 where "s1 = log_call (GetUserAccount ns name) True (log_call GetConfiguration True s)\<lparr>mem := ?ua\<rparr>"
  have s1: "mem s1 = ?ua" "now E S0 s1 = now E S0 s" and syn1: "synced E S0 name s1"
    using l by (simp_all add: s1_def synced_def leaving_def)
  let ?Q = "\<lambda>r s'. snd r = None \<and> leaving E name (now E S0 s') \<and>
    (removal_left (now E S0 s') name < removal_left (now E S0 s) name \<or> removed E name (now E S0 s'))"
  have fin: "leaving E name (now E S0 s') \<and>
      (removal_left (now E S0 s') name < removal_left (now E S0 s) name \<or> removed E name (now E S0 s'))"
    if "goes_on E S0 name s2 s'" "removal_kind (mem s2) = removal_kind ?ua" "removal_left (now E S0 s2) name = removal_left (now E S0 s) name"
      "m_deletion (ua_meta ?ua) \<noteq> None \<Longrightarrow> FinalizerName \<in> set (m_finalizers (ua_meta (mem s2))) \<or> removed E name (now E S0 s')" for s2 s'
    using that l by (auto simp: goes_on_def leaving_def synced_def)
  show ?thesis
  proof (cases "m_deletion (ua_meta ?ua) = None")
    case False
    have "wp (ensureUserAccountDeletion E) (\<lambda>e s'. e = None \<and> ?Q (0 :: int, None) s') s1"
    proof (rule wp_mono [OF removal_step [OF R syn1]], goal_cases)
      case 1
      then show ?case using False s1(1) by simp
    next
      case 2
      then show ?case using l False s1 by (auto simp: leaving_def)
    next
      case (3 e s')
      have "FinalizerName \<in> set (m_finalizers (ua_meta (mem s1))) \<or> removed E name (now E S0 s')"
      proof (cases "removed E name (now E S0 s)")
        case True
        with 3 s1 removed_nothing_left [OF R] show ?thesis by (simp add: goes_on_def)
      next
        case False
        with l \<open>m_deletion (ua_meta ?ua) \<noteq> None\<close> s1 show ?thesis by (simp add: leaving_def)
      qed
      with 3 fin [of s1 s'] s1 show ?case by auto
    qed
    moreover have "IsBeingDeleted (ue_lib E) (ua_meta ?ua)"
      using False cluster_libs(1) [OF C] by (simp add: finalizers_lib_def)
    ultimately show ?thesis
      using cluster_reads(1,2) [OF C] cluster_libs(3) [OF C]
      by (auto simp: Reconcile_def wp_simps simp flip: s1_def elim: wp_mono)
  next
    case True
    then have dis: "ua_disabled ?ua" using l by (simp add: leaving_def)
    have "wp (addFinalizer E) (\<lambda>err. wp (case err of
        Some e \<Rightarrow> ret (0, Some e)
      | None \<Rightarrow> do {
          ua \<leftarrow> get_mem;
          if \<not> ua_disabled ua
          then do {
            (createdOrUpdated, err) \<leftarrow> ensureUserAndIdentity E cfg;
            if err \<noteq> None \<or> createdOrUpdated then ret (0, err)
            else finish_reconcile E
          }
          else disable_account E
        }) ?Q) s1"
    proof (rule wp_mono [OF addFinalizer_step [OF C syn1]], elim conjE, goal_cases)
      case (1 err s2)
      have "wp (disable_account E) ?Q s2"
      proof (rule wp_mono [OF disable_step [OF R 1(2)]], goal_cases)
        case 1
        then show ?case using \<open>m_deletion (ua_meta (mem s2)) = _\<close> s1(1) True by simp
      next
        case (2 r s')
        with fin [of s2 s'] \<open>same_objects (now E S0 s1) (now E S0 s2)\<close> left_same(1) show ?case
          using \<open>ua_disabled (mem s2) = _\<close> \<open>m_deletion (ua_meta (mem s2)) = _\<close> s1 True by simp
      qed
      with 1 dis s1(1) show ?case by (simp add: wp_bind wp_get_mem)
    qed
    moreover have "\<not> IsBeingDeleted (ue_lib E) (ua_meta ?ua)"
      using True cluster_libs(1) [OF C] by (simp add: finalizers_lib_def)
    ultimately show ?thesis
      using cluster_reads(1,2) [OF C] cluster_libs(3) [OF C]
      by (simp add: Reconcile_def wp_simps flip: s1_def)
  qed
qed

section \<open>Convergence\<close>

lemma reconciles_remove:
  assumes "removal_cluster E S0 ns name cfg"
  shows "leaving E name (now E S0 s) \<Longrightarrow> removal_left (now E S0 s) name < k \<or> removed E name (now E S0 s) \<Longrightarrow>
    removed E name (now E S0 (account_reconciles E ns name k s))"
proof (induction k arbitrary: s)
  case (Suc k)
  obtain r s' where run: "run_state (Reconcile E ns name) s = (r, s')" by (cases "run_state (Reconcile E ns name) s")
  note step = wpD [OF leaving_step [OF assms Suc.prems(1)] run]
  from step Suc.prems(2) removed_nothing_left [OF assms, of "calls s"] have "removed E name (now E S0 (account_reconciles E ns name k s'))"
    by (intro Suc.IH) auto
  with run show ?case by simp
qed simp

text \<open>
  An account that is deleted or disabled is removed: on a cluster where writes are kept and nobody else interferes, after
  one reconcile more than there are Users and Identities with its owner label, and ever after, none of them is left, and
  the finalizer of a deleted account is gone, the condition of a disabled one is Disabled.
\<close>

theorem account_is_removed:
  assumes "removal_cluster E S0 ns name cfg" and "leaving E name S0" and "removal_left S0 name < k"
  shows "removed E name (store E S0 (calls (account_reconciles E ns name k (fresh z))))"
  by (rule reconciles_remove [OF assms(1)]) (simp_all add: assms(2,3))

text \<open>An account being deleted, with a User and two Identities.\<close>

definition gone_account :: user_account where
  "gone_account = demo_account\<lparr>ua_meta := (ua_meta demo_account)\<lparr>m_deletion := Some 0\<rparr>\<rparr>"

definition owner_labels :: "smap option" where
  "owner_labels = Some [(OwnerLabelKey, ''john'')]"

definition old_store :: ustore where
  "old_store = \<lparr>sa = gone_account,
     su = [''john'' \<mapsto> demo_user\<lparr>us_meta := (us_meta demo_user)\<lparr>m_labels := owner_labels\<rparr>\<rparr>],
     si = [''sso:id'' \<mapsto> (demo_identity ''sso:id'')\<lparr>it_meta := (new_meta [] ''sso:id'')\<lparr>m_labels := owner_labels\<rparr>\<rparr>,
           ''sso:sub'' \<mapsto> (demo_identity ''sso:sub'')\<lparr>it_meta := (new_meta [] ''sso:sub'')\<lparr>m_labels := owner_labels\<rparr>\<rparr>]\<rparr>"

lemma names_in_append: "names_in (tr @ t) = names_in tr @ names_in t"
  by (simp add: names_in_def)

lemma store_env_names:
  assumes "dom (su S0) \<union> dom (si S0) \<subseteq> set names"
  shows "dom (su (store write_env S0 tr)) \<union> dom (si (store write_env S0 tr)) \<subseteq> set (names @ names_in tr)"
proof (induction tr rule: rev_induct)
  case Nil
  then show ?case using assms by (simp add: names_in_def)
next
  case (snoc x tr)
  obtain c ok where x: "x = (c, ok)" by (cases x)
  have "dom (su (stored write_env tr c S)) \<union> dom (si (stored write_env tr c S)) \<subseteq>
      dom (su S) \<union> dom (si S) \<union> set (names_in [(c, ok)])" for S
    by (cases c) (auto simp: names_in_def write_env_def demo_uenv_def split: if_splits)
  from this [of "store write_env S0 tr"] snoc show ?case
    unfolding x store_snoc names_in_append set_append by (cases ok) (simp, blast)+
qed

lemma lists_filter:
  assumes "dom m \<subseteq> set ns"
  shows "lists (Inr (filter P (List.map_filter m (remdups ns)))) P m"
  using assms by (force simp: lists_def List.map_filter_def ran_def)

lemma store_env_lists:
  assumes "dom (su S0) \<union> dom (si S0) \<subseteq> set names"
  shows "lists_store (store_env S0 names) S0"
proof -
  have "dom (su (store write_env S0 tr)) \<subseteq> set (names @ names_in tr)" "dom (si (store write_env S0 tr)) \<subseteq> set (names @ names_in tr)" for tr
    using store_env_names [OF assms, of tr] by blast+
  from lists_filter [OF this(1)] lists_filter [OF this(2)] show ?thesis
    unfolding lists_store_def store_env_store by (simp add: store_env_def)
qed

definition old_names :: "string list" where
  "old_names = [''john'', ''sso:id'', ''sso:sub'']"

lemma old_store_leaves:
  "removal_cluster (store_env old_store old_names) old_store ''member'' ''john'' demo_config"
  "leaving (store_env old_store old_names) ''john'' old_store" "removal_left old_store ''john'' < 4"
proof -
  have "keyed old_store"
    by (auto simp: keyed_def old_store_def gone_account_def account_demo_defs split: if_splits)
  moreover have "m_name (ua_meta (sa old_store)) = ''john''"
    by (simp add: old_store_def gone_account_def account_demo_defs)
  moreover have "lists_store (store_env old_store old_names) old_store"
    by (rule store_env_lists) (auto simp: old_store_def old_names_def)
  ultimately show "removal_cluster (store_env old_store old_names) old_store ''member'' ''john'' demo_config"
    by (simp add: removal_cluster_def store_env_cluster finite_store_def old_store_def)
  show "leaving (store_env old_store old_names) ''john'' old_store"
    by (simp add: leaving_def old_store_def gone_account_def account_demo_defs)
  have "owned_users old_store ''john'' \<subseteq> {''john''}" "owned_identities old_store ''john'' \<subseteq> {''sso:id'', ''sso:sub''}"
    by (auto simp: owned_users_def owned_identities_def old_store_def split: if_splits)
  from card_mono [OF _ this(1)] card_mono [OF _ this(2)] show "removal_left old_store ''john'' < 4"
    by (simp add: removal_left_def)
qed

theorem account_is_removed_witness:
  "let E = store_env old_store old_names in
     removed E ''john'' (store E old_store (calls (account_reconciles E ''member'' ''john'' 4 (fresh demo_account))))"
  unfolding Let_def by (rule account_is_removed [OF old_store_leaves])

end
