(* ===== verification/NSData.thy ===== *)
theory NSData
  imports Go_Prelude Go_Arith Kube "HOL-Library.Char_ord" "HOL-Library.List_Lexorder"
begin

text \<open>
  The NSTemplateSet controller (\<open>controllers/nstemplateset\<close>), first part: the data, the calls, the
  environment, the status manager (\<open>status.go\<close>) and the feature toggles (\<open>features.go\<close>).
\<close>

section \<open>Data\<close>

datatype nreason =
    NoReason | NSTemplateSetProvisioningReason | NSTemplateSetProvisionedReason
  | NSTemplateSetUpdatingReason | NSTemplateSetUpdateFailedReason
  | NSTemplateSetTerminatingReason | NSTemplateSetTerminatingFailedReason
  | NSTemplateSetUnableToProvisionReason | NSTemplateSetUnableToProvisionNamespaceReason
  | NSTemplateSetUnableToProvisionClusterResourcesReason
  | NSTemplateSetUnableToProvisionSpaceRolesReason | OtherReason string

record space_role =
  sr_ref :: string
  sr_users :: "string list"

text \<open>
  \<open>Spec\<close> and \<open>Status\<close> of an NSTemplateSet: a namespace entry is its template reference, the cluster
  resources an optional template reference, a provisioned namespace its name and type.
\<close>

record nstt =
  nt_meta :: meta
  nt_tier :: string
  nt_namespaces :: "string list"
  nt_cluster :: "string option"
  nt_roles :: "space_role list"
  st_conds :: "nreason cond list"
  st_namespaces :: "string list"
  st_cluster :: "string option"
  st_roles :: "space_role list"
  st_features :: "string list"
  st_provisioned :: "(string \<times> string) list"

record gvk =
  k_group :: string
  k_version :: string
  k_kind :: string

text \<open>An object of a template or of the cluster; \<open>o_body\<close> is everything beside its metadata.\<close>

record kobj =
  o_gvk :: gvk
  o_meta :: meta
  o_body :: string

record namespace =
  ns_meta :: meta
  ns_active :: bool

datatype ncall =
    GetNSTemplateSet string string
  | UpdateNSTemplateSet nstt
  | UpdateStatus nstt
  | ListNamespaces string
  | DeleteNamespace string
  | UpdateNamespace namespace
  | GetTierTemplateRevision string string
  | GetTierTemplate string string
  | GetObject kobj
  | CreateObject kobj
  | UpdateObject kobj
  | ApplyObject kobj smap
  | DeleteObject kobj
  | ListRoles string
  | ListRoleBindings string

type_synonym ntrace = "ncall history"
type_synonym 'a nprog = "(nstt, ncall, 'a) prog"

text \<open>
  The parts of a TierTemplate and of a TierTemplateRevision the code reads: the tier's name, the
  type, the template; the name, the label with the template's name, the parameters and the raw
  objects (each with its already unmarshalled form, where it has one).
\<close>

record raw_object =
  ro_raw :: string
  ro_object :: "kobj option"

record ttr =
  tr_name :: string
  tr_labels :: "smap option"
  tr_params :: "(string \<times> string) list"
  tr_objects :: "raw_object list"

record tier_template_res =
  tt_tier_name :: string
  tt_type :: string
  tt_template :: string

datatype ns_filter = RetainNamespaces | RetainAllButNamespaces

type_synonym params = "(string \<times> string) list"

text \<open>
  The environment.  Reads and writes of the cluster, as before; \<open>ne_host\<close> is the host client getter
  (its namespace, or the error of connecting).  Functions of other packages: \<open>SameGVKandName\<close>,
  \<open>SplitCommaSeparatedList\<close>, \<open>MergeLabels\<close>, \<open>MergeAnnotations\<close>, the template processor
  of toolchain-common, its filters, and the YAML, Go template and decoding steps of
  \<open>processGoTemplate\<close>; \<open>ne_marshal\<close> and \<open>ne_unmarshal\<close> are \<open>encoding/json\<close> on space roles.
\<close>

record nenv =
  ne_lib :: "nreason lib"
  ne_now :: "nat \<Rightarrow> int"
  ne_watch_ns :: "err + string"
  ne_groups :: "(string \<times> string list) list"
  ne_host :: "ntrace \<Rightarrow> err + string"
  ne_get_nstt :: "ntrace \<Rightarrow> string \<Rightarrow> string \<Rightarrow> err + nstt"
  ne_update_nstt :: "ntrace \<Rightarrow> nstt \<Rightarrow> err + nstt"
  ne_update_status :: "ntrace \<Rightarrow> nstt \<Rightarrow> err + nstt"
  ne_list_namespaces :: "ntrace \<Rightarrow> string \<Rightarrow> err + namespace list"
  ne_get_ttr :: "ntrace \<Rightarrow> string \<Rightarrow> string \<Rightarrow> err + ttr"
  ne_get_tt :: "ntrace \<Rightarrow> string \<Rightarrow> string \<Rightarrow> err + tier_template_res"
  ne_get_object :: "ntrace \<Rightarrow> kobj \<Rightarrow> err + kobj"
  ne_list_roles :: "ntrace \<Rightarrow> string \<Rightarrow> err + meta list"
  ne_list_rolebindings :: "ntrace \<Rightarrow> string \<Rightarrow> err + meta list"
  ne_exec :: "ntrace \<Rightarrow> ncall \<Rightarrow> err option"
  ne_same :: "kobj \<Rightarrow> kobj \<Rightarrow> bool"
  ne_split :: "string \<Rightarrow> string list"
  ne_merge_labels :: "kobj \<Rightarrow> smap option \<Rightarrow> kobj"
  ne_merge_annotations :: "kobj \<Rightarrow> smap option \<Rightarrow> kobj"
  ne_process :: "string \<Rightarrow> params \<Rightarrow> ns_filter option \<Rightarrow> err + kobj list"
  ne_filter :: "ns_filter \<Rightarrow> kobj \<Rightarrow> bool"
  ne_yaml :: "string \<Rightarrow> err + kobj"
  ne_parse :: "string \<Rightarrow> err + string"
  ne_execute :: "string \<Rightarrow> params \<Rightarrow> err + string"
  ne_decode :: "string \<Rightarrow> err + kobj"
  ne_marshal :: "space_role list \<Rightarrow> err + string"
  ne_unmarshal :: "string \<Rightarrow> err + space_role list"
  ne_cluster_type :: string
  ne_default_type :: string

abbreviation nexec :: "nenv \<Rightarrow> ncall \<Rightarrow> err option nprog" where
  "nexec E c \<equiv> call_err (\<lambda>tr. ne_exec E tr c) c"

text \<open>What the code relies on in \<open>SameGVKandName\<close>.\<close>

definition same_lib :: "nenv \<Rightarrow> bool" where
  "same_lib E \<longleftrightarrow> (\<forall>a b. ne_same E a b = (o_gvk a = o_gvk b \<and> m_name (o_meta a) = m_name (o_meta b)))"

section \<open>Status conditions\<close>

text \<open>\<open>r.Client.Status().Update(ctx, nsTmplSet)\<close> on the object in memory.\<close>

definition write_status :: "nenv \<Rightarrow> err option nprog" where
  "write_status E = do {
     nt \<leftarrow> get_mem;
     r \<leftarrow> call (\<lambda>tr. ne_update_status E tr nt) (UpdateStatus nt);
     (case r of Inl e \<Rightarrow> ret (Some e) | Inr new \<Rightarrow> do { set_mem new; ret None })
   }"

definition updateStatusConditions :: "nenv \<Rightarrow> nreason cond list \<Rightarrow> err option nprog" where
  "updateStatusConditions E cs = do {
     nt \<leftarrow> get_mem;
     now \<leftarrow> clock (ne_now E);
     (case AddOrUpdateStatusConditions (ne_lib E) now (st_conds nt) cs of (conds, updated) \<Rightarrow> do {
       set_mem (nt\<lparr>st_conds := conds\<rparr>);
       if \<not> updated then ret None else write_status E
     })
   }"

definition setReady :: "nenv \<Rightarrow> cstatus \<Rightarrow> nreason \<Rightarrow> string \<Rightarrow> err option nprog" where
  "setReady E st r msg = updateStatusConditions E [mk_cond ConditionReady st r msg]"

definition setStatusReady :: "nenv \<Rightarrow> err option nprog" where
  "setStatusReady E = setReady E ConditionTrue NSTemplateSetProvisionedReason []"

definition setStatusProvisionFailed :: "nenv \<Rightarrow> string \<Rightarrow> err option nprog" where
  "setStatusProvisionFailed E m = setReady E ConditionFalse NSTemplateSetUnableToProvisionReason m"

definition setStatusNamespaceProvisionFailed :: "nenv \<Rightarrow> string \<Rightarrow> err option nprog" where
  "setStatusNamespaceProvisionFailed E m =
     setReady E ConditionFalse NSTemplateSetUnableToProvisionNamespaceReason m"

definition setStatusClusterResourcesProvisionFailed :: "nenv \<Rightarrow> string \<Rightarrow> err option nprog" where
  "setStatusClusterResourcesProvisionFailed E m =
     setReady E ConditionFalse NSTemplateSetUnableToProvisionClusterResourcesReason m"

definition setStatusSpaceRolesProvisionFailed :: "nenv \<Rightarrow> string \<Rightarrow> err option nprog" where
  "setStatusSpaceRolesProvisionFailed E m =
     setReady E ConditionFalse NSTemplateSetUnableToProvisionSpaceRolesReason m"

definition setStatusTerminating :: "nenv \<Rightarrow> err option nprog" where
  "setStatusTerminating E = setReady E ConditionFalse NSTemplateSetTerminatingReason []"

definition setStatusUpdateFailed :: "nenv \<Rightarrow> string \<Rightarrow> err option nprog" where
  "setStatusUpdateFailed E m = setReady E ConditionFalse NSTemplateSetUpdateFailedReason m"

definition setStatusTerminatingFailed :: "nenv \<Rightarrow> string \<Rightarrow> err option nprog" where
  "setStatusTerminatingFailed E m = setReady E ConditionFalse NSTemplateSetTerminatingFailedReason m"

definition setStatusProvisioningIfNotUpdating :: "nenv \<Rightarrow> err option nprog" where
  "setStatusProvisioningIfNotUpdating E = do {
     nt \<leftarrow> get_mem;
     (case FindConditionByType (ne_lib E) (st_conds nt) ConditionReady of (c, found) \<Rightarrow>
        if found \<and> c_reason c = NSTemplateSetUpdatingReason then ret None
        else setReady E ConditionFalse NSTemplateSetProvisioningReason [])
   }"

definition setStatusUpdatingIfNotProvisioning :: "nenv \<Rightarrow> err option nprog" where
  "setStatusUpdatingIfNotProvisioning E = do {
     nt \<leftarrow> get_mem;
     (case FindConditionByType (ne_lib E) (st_conds nt) ConditionReady of (c, found) \<Rightarrow>
        if found \<and> c_reason c = NSTemplateSetProvisioningReason then ret None
        else setReady E ConditionFalse NSTemplateSetUpdatingReason [])
   }"

definition wrapErrorWithStatusUpdate ::
  "(string \<Rightarrow> err option nprog) \<Rightarrow> err option \<Rightarrow> string \<Rightarrow> err option nprog" where
  "wrapErrorWithStatusUpdate updater e fmt =
     (case e of None \<Rightarrow> ret None
      | Some e \<Rightarrow> do { _ \<leftarrow> updater (err_text e); ret (Some (Wrapped fmt e)) })"

text \<open>
  The condition of the two variants below is \<open>found && A || B\<close>: the second reason is read from the
  zero condition where there is none.
\<close>

definition update_failure :: "nenv \<Rightarrow> nstt \<Rightarrow> bool" where
  "update_failure E nt =
     (case FindConditionByType (ne_lib E) (st_conds nt) ConditionReady of (c, found) \<Rightarrow>
        found \<and> c_reason c = NSTemplateSetUpdatingReason \<or> c_reason c = NSTemplateSetUpdateFailedReason)"

definition wrapErrorWithStatusUpdateForClusterResourceFailure ::
  "nenv \<Rightarrow> err option \<Rightarrow> string \<Rightarrow> err option nprog" where
  "wrapErrorWithStatusUpdateForClusterResourceFailure E e fmt = do {
     nt \<leftarrow> get_mem;
     if update_failure E nt then wrapErrorWithStatusUpdate (setStatusUpdateFailed E) e fmt
     else wrapErrorWithStatusUpdate (setStatusClusterResourcesProvisionFailed E) e fmt
   }"

definition wrapErrorWithStatusUpdateForSpaceRolesFailure ::
  "nenv \<Rightarrow> err option \<Rightarrow> string \<Rightarrow> err option nprog" where
  "wrapErrorWithStatusUpdateForSpaceRolesFailure E e fmt = do {
     nt \<leftarrow> get_mem;
     if update_failure E nt then wrapErrorWithStatusUpdate (setStatusUpdateFailed E) e fmt
     else wrapErrorWithStatusUpdate (setStatusSpaceRolesProvisionFailed E) e fmt
   }"

section \<open>Revisions and features in the status\<close>

text \<open>\<open>slices.ContainsFunc\<close> and \<open>slices.Contains\<close> are \<open>list_ex\<close> and \<open>List.member\<close>; \<open>slices.Sort\<close> and
  \<open>slices.Compact\<close> are \<open>sort\<close> on strings as bytes and \<open>remdups_adj\<close>.\<close>

definition featureAnnotationNeedsUpdate :: "nenv \<Rightarrow> nstt \<Rightarrow> bool \<times> string list" where
  "featureAnnotationNeedsUpdate E nt =
     (let anno = lookup0 (m_annotations (nt_meta nt)) FeatureToggleNameAnnotationKey;
          features = remdups_adj (sort (ne_split E anno));
          statusFeatures = st_features nt;
          annosNotInStatus = list_ex (\<lambda>f. \<not> List.member statusFeatures f) features;
          statusesNotInAnno = list_ex (\<lambda>f. \<not> List.member features f) statusFeatures
      in (annosNotInStatus \<or> statusesNotInAnno, features))"

definition featuresChanged :: "nenv \<Rightarrow> nstt \<Rightarrow> bool" where
  "featuresChanged E nt = fst (featureAnnotationNeedsUpdate E nt)"

definition shouldCreate :: "nenv \<Rightarrow> kobj \<Rightarrow> nstt \<Rightarrow> bool" where
  "shouldCreate E obj nt =
     (case lookup (m_annotations (o_meta obj)) FeatureToggleNameAnnotationKey of
        None \<Rightarrow> True
      | Some feature \<Rightarrow>
          (case lookup (m_annotations (nt_meta nt)) FeatureToggleNameAnnotationKey of
             None \<Rightarrow> False
           | Some winners \<Rightarrow> List.member (ne_split E winners) feature))"

definition clusterResourcesNeedsUpdate :: "nstt \<Rightarrow> bool" where
  "clusterResourcesNeedsUpdate nt =
     (case st_cluster nt of
        Some applied \<Rightarrow> (case nt_cluster nt of None \<Rightarrow> True | Some ref \<Rightarrow> ref \<noteq> applied)
      | None \<Rightarrow> nt_cluster nt \<noteq> None)"

definition updateStatusClusterResourcesRevisions :: "nenv \<Rightarrow> err option nprog" where
  "updateStatusClusterResourcesRevisions E = do {
     nt \<leftarrow> get_mem;
     (case featureAnnotationNeedsUpdate E nt of (updateFeatureAnnotation, features) \<Rightarrow>
        if updateFeatureAnnotation \<or> clusterResourcesNeedsUpdate nt
        then do { set_mem (nt\<lparr>st_features := features, st_cluster := nt_cluster nt\<rparr>); write_status E }
        else ret None)
   }"

text \<open>
  \<open>cmp.Equal\<close> after sorting both sides.  The copy made for the space roles is shallow: sorting the
  user names of the copy sorts those of the object itself, in its spec and its status.
\<close>

definition updateStatusNamespacesRevisions :: "nenv \<Rightarrow> err option nprog" where
  "updateStatusNamespacesRevisions E = do {
     nt \<leftarrow> get_mem;
     if sort (nt_namespaces nt) \<noteq> sort (st_namespaces nt)
     then do { set_mem (nt\<lparr>st_namespaces := nt_namespaces nt\<rparr>); write_status E }
     else ret None
   }"

definition sort_users :: "space_role list \<Rightarrow> space_role list" where
  "sort_users = map (\<lambda>r. r\<lparr>sr_users := sort (sr_users r)\<rparr>)"

definition sorted_roles :: "space_role list \<Rightarrow> space_role list" where
  "sorted_roles rs = sort_users (sort_key sr_ref rs)"

definition updateStatusSpaceRolesRevisions :: "nenv \<Rightarrow> err option nprog" where
  "updateStatusSpaceRolesRevisions E = do {
     nt \<leftarrow> get_mem;
     let changed = (sorted_roles (nt_roles nt) \<noteq> sorted_roles (st_roles nt));
     let nt = nt\<lparr>nt_roles := sort_users (nt_roles nt), st_roles := sort_users (st_roles nt)\<rparr>;
     set_mem nt;
     if changed
     then do { set_mem (nt\<lparr>st_roles := nt_roles nt\<rparr>); write_status E }
     else ret None
   }"

definition updateStatusProvisionedNamespaces :: "nenv \<Rightarrow> namespace list \<Rightarrow> err option nprog" where
  "updateStatusProvisionedNamespaces E namespaces =
     (case sort (map (\<lambda>ns. m_name (ns_meta ns)) namespaces) of
        [] \<Rightarrow> ret None
      | n # ns \<Rightarrow> do {
          nt \<leftarrow> get_mem;
          set_mem (nt\<lparr>st_provisioned := (n, ne_default_type E) # map (\<lambda>n. (n, [])) ns\<rparr>);
          write_status E
        })"

definition clearStatusClusterResources :: "nenv \<Rightarrow> err option nprog" where
  "clearStatusClusterResources E = do {
     nt \<leftarrow> get_mem;
     (case st_cluster nt of
        None \<Rightarrow> ret None
      | Some _ \<Rightarrow> do { set_mem (nt\<lparr>st_cluster := None\<rparr>); write_status E })
   }"

end
