(* ===== verification/NSTemplates.thy ===== *)
theory NSTemplates
  imports NSData
begin

text \<open>
  The NSTemplateSet controller, second part: tier templates and their processing
  (\<open>nstemplatetier.go\<close>, \<open>tier_template_revision.go\<close>), applying and deleting objects
  (\<open>client.go\<close>, \<open>deleteObsoleteObjects\<close>) and the list of a space's namespaces.
\<close>

section \<open>Tier templates\<close>

record tierTemplate =
  t_ref :: string
  t_tier :: string
  t_type :: string
  t_template :: string
  t_ttr :: "ttr option"

definition getToolchainTierTemplate :: "nenv \<Rightarrow> string \<Rightarrow> (err + tier_template_res) nprog" where
  "getToolchainTierTemplate E templateRef = do {
     host \<leftarrow> peek (ne_host E);
     (case host of
        Inl e \<Rightarrow> ret (Inl (Wrapped ''unable to connect to the host cluster'' e))
      | Inr hostns \<Rightarrow> do {
          r \<leftarrow> call (\<lambda>tr. ne_get_tt E tr hostns templateRef) (GetTierTemplate hostns templateRef);
          (case r of
             Inl e \<Rightarrow> ret (Inl (Wrapped (''unable to retrieve the TierTemplate '' @ quoted templateRef @
                        '' from '' @ quoted ''Host'' @ '' cluster'') e))
           | Inr t \<Rightarrow> ret (Inr t))
        })
   }"

definition getTierTemplateRevision :: "nenv \<Rightarrow> string \<Rightarrow> (err + ttr) nprog" where
  "getTierTemplateRevision E templateRef = do {
     host \<leftarrow> peek (ne_host E);
     (case host of
        Inl e \<Rightarrow> ret (Inl (Wrapped ''unable to connect to the host cluster'' e))
      | Inr hostns \<Rightarrow> do {
          r \<leftarrow> call (\<lambda>tr. ne_get_ttr E tr hostns templateRef) (GetTierTemplateRevision hostns templateRef);
          (case r of
             Inl e \<Rightarrow> ret (Inl (Wrapped (''unable to retrieve the TierTemplateRevision '' @ quoted templateRef @
                        '' from '' @ quoted ''Host'' @ '' cluster'') e))
           | Inr t \<Rightarrow> ret (Inr t))
        })
   }"

definition getTierTemplate :: "nenv \<Rightarrow> string \<Rightarrow> (err + tierTemplate) nprog" where
  "getTierTemplate E templateRef =
     (if templateRef = []
      then ret (Inl (Msg (''templateRef is not provided - it'' @ [CHR 0x27] @
        ''s not possible to fetch related TierTemplate/TierTemplateRevision resource'')))
      else do {
        r \<leftarrow> getTierTemplateRevision E templateRef;
        (case r of
           Inl e \<Rightarrow>
             if IsNotFound (ne_lib E) e
             then with_value (getToolchainTierTemplate E templateRef) (\<lambda>e. ret (Inl e))
               (\<lambda>tmpl. ret (Inr \<lparr>t_ref = templateRef, t_tier = tt_tier_name tmpl, t_type = tt_type tmpl,
                  t_template = tt_template tmpl, t_ttr = None\<rparr>))
             else ret (Inl e)
         | Inr ttr \<Rightarrow>
             with_value (getToolchainTierTemplate E (lookup0 (tr_labels ttr) TemplateRefLabelKey)) (\<lambda>e. ret (Inl e))
               (\<lambda>tmpl. ret (Inr \<lparr>t_ref = templateRef, t_tier = tt_tier_name tmpl, t_type = tt_type tmpl,
                  t_template = [], t_ttr = Some ttr\<rparr>)))
      })"

text \<open>
  \<open>convertParametersToMap\<close>: the static parameters in order (a later one of the same name wins), then
  the runtime parameters over them.
\<close>

definition convertParametersToMap :: "ttr \<Rightarrow> params \<Rightarrow> params" where
  "convertParametersToMap t runtime =
     foldl (\<lambda>m (k, v). AList.update k v m) (foldl (\<lambda>m (k, v). AList.update k v m) [] (tr_params t)) runtime"

text \<open>
  The two loops of \<open>processGoTemplate\<close>: unmarshalling for the filter, then parse, execute, decode.  The
  index and the raw text that the messages also print are left out.
\<close>

fun unmarshal_objects :: "nenv \<Rightarrow> string \<Rightarrow> raw_object list \<Rightarrow> err + raw_object list" where
  "unmarshal_objects E name [] = Inr []"
| "unmarshal_objects E name (r # rs) =
     (case (case ro_object r of Some x \<Rightarrow> Inr x | None \<Rightarrow> ne_yaml E (ro_raw r)) of
        Inl e \<Rightarrow> Inl (Wrapped (''failed to unmarshal raw go template for object in tierTemplateRevision '' @ name) e)
      | Inr x \<Rightarrow>
          (case unmarshal_objects E name rs of
             Inl e \<Rightarrow> Inl e
           | Inr rs' \<Rightarrow> Inr (r\<lparr>ro_object := Some x\<rparr> # rs')))"

fun execute_objects :: "nenv \<Rightarrow> string \<Rightarrow> params \<Rightarrow> raw_object list \<Rightarrow> err + kobj list" where
  "execute_objects E name p [] = Inr []"
| "execute_objects E name p (r # rs) =
     (case ne_parse E (ro_raw r) of
        Inl e \<Rightarrow> Inl (Wrapped (''failed to parse go template in tierTemplateRevision '' @ name) e)
      | Inr tmpl \<Rightarrow>
     (case ne_execute E tmpl p of
        Inl e \<Rightarrow> Inl (Wrapped (''failed to execute go template in tierTemplateRevision '' @ name) e)
      | Inr text \<Rightarrow>
     (case ne_decode E text of
        Inl e \<Rightarrow> Inl (Wrapped (''failed to decode executed go template in tierTemplateRevision '' @ name) e)
      | Inr obj \<Rightarrow>
          (case execute_objects E name p rs of Inl e \<Rightarrow> Inl e | Inr objs \<Rightarrow> Inr (obj # objs)))))"

definition processGoTemplate :: "nenv \<Rightarrow> ttr \<Rightarrow> params \<Rightarrow> ns_filter option \<Rightarrow> err + kobj list" where
  "processGoTemplate E t runtimeParams fltr =
     (let paramMap = convertParametersToMap t runtimeParams in
      case fltr of
        None \<Rightarrow> execute_objects E (tr_name t) paramMap (tr_objects t)
      | Some f \<Rightarrow>
          (case unmarshal_objects E (tr_name t) (tr_objects t) of
             Inl e \<Rightarrow> Inl e
           | Inr rs \<Rightarrow>
               execute_objects E (tr_name t) paramMap
                 (filter (\<lambda>r. case ro_object r of None \<Rightarrow> False | Some x \<Rightarrow> ne_filter E f x) rs)))"

definition process :: "nenv \<Rightarrow> tierTemplate \<Rightarrow> params \<Rightarrow> ns_filter option \<Rightarrow> err + kobj list" where
  "process E t p fltr =
     (case t_ttr t of
        Some r \<Rightarrow> processGoTemplate E r p fltr
      | None \<Rightarrow>
          (case ne_watch_ns E of
             Inl e \<Rightarrow> Inl e
           | Inr ns \<Rightarrow> ne_process E (t_template t) (AList.update ''MEMBER_OPERATOR_NAMESPACE'' ns p) fltr))"

section \<open>Applying objects\<close>

definition apiGroupIsPresent :: "(string \<times> string list) list \<Rightarrow> gvk \<Rightarrow> bool" where
  "apiGroupIsPresent groups k =
     list_ex (\<lambda>(name, versions). name = k_group k \<and> list_ex (\<lambda>v. v = k_version k) versions) groups"

text \<open>\<open>strings.EqualFold\<close> on ASCII strings.\<close>

definition fold_char :: "char \<Rightarrow> char" where
  "fold_char c = (let n = of_char c :: nat in if 65 \<le> n \<and> n \<le> 90 then char_of (n + 32) else c)"

definition equal_fold :: "string \<Rightarrow> string \<Rightarrow> bool" where
  "equal_fold a b = (map fold_char a = map fold_char b)"

definition apply_service_account :: "nenv \<Rightarrow> kobj \<Rightarrow> smap \<Rightarrow> err option nprog" where
  "apply_service_account E obj newLabels = do {
     r \<leftarrow> call (\<lambda>tr. ne_get_object E tr obj) (GetObject obj);
     (case r of
        Inl e \<Rightarrow>
          if \<not> IsNotFound (ne_lib E) e then ret (Some e)
          else nexec E (CreateObject (ne_merge_labels E obj (Some newLabels)))
      | Inr sa \<Rightarrow>
          let sa = ne_merge_labels E sa (Some newLabels);
              sa = ne_merge_labels E sa (m_labels (o_meta obj));
              sa = ne_merge_annotations E sa (m_annotations (o_meta obj))
          in nexec E (UpdateObject sa))
   }"

fun apply_objects :: "nenv \<Rightarrow> kobj list \<Rightarrow> smap \<Rightarrow> bool \<Rightarrow> (bool \<times> err option) nprog" where
  "apply_objects E [] newLabels anyApplied = ret (anyApplied, None)"
| "apply_objects E (obj # objs) newLabels anyApplied =
     (if lookup (m_annotations (o_meta obj)) TierTemplateObjectOptionalResourceAnnotation \<noteq> None
         \<and> \<not> apiGroupIsPresent (ne_groups E) (o_gvk obj)
      then apply_objects E objs newLabels anyApplied
      else unless_err
        (if equal_fold (k_kind (o_gvk obj)) ''ServiceAccount'' then apply_service_account E obj newLabels
         else nexec E (ApplyObject obj newLabels))
        (\<lambda>e. (anyApplied, Some e))
        (apply_objects E objs newLabels True))"

definition ApplyToolchainObjects :: "nenv \<Rightarrow> kobj list \<Rightarrow> smap \<Rightarrow> (bool \<times> err option) nprog" where
  "ApplyToolchainObjects E objs newLabels = apply_objects E objs newLabels False"

text \<open>\<open>err\<close> of \<open>_, err := ApplyToolchainObjects(...)\<close>.\<close>

definition apply_all :: "nenv \<Rightarrow> kobj list \<Rightarrow> smap \<Rightarrow> err option nprog" where
  "apply_all E objs newLabels = do { (_, err) \<leftarrow> ApplyToolchainObjects E objs newLabels; ret err }"

section \<open>Deleting obsolete objects\<close>

fun deleteObsoleteObjects :: "nenv \<Rightarrow> kobj list \<Rightarrow> kobj list \<Rightarrow> err option nprog" where
  "deleteObsoleteObjects E [] newObjects = ret None"
| "deleteObsoleteObjects E (cur # currentObjs) newObjects =
     (if list_ex (\<lambda>new. ne_same E cur new) newObjects then deleteObsoleteObjects E currentObjs newObjects
      else do {
        err \<leftarrow> nexec E (DeleteObject cur);
        (case err of
           Some e \<Rightarrow>
             if \<not> IsNotFound (ne_lib E) e
             then ret (Some (Wrapped (''failed to delete obsolete object '' @ quoted (m_name (o_meta cur)) @
               '' of kind '' @ quoted (k_kind (o_gvk cur)) @ '' in namespace '' @ quoted (m_ns (o_meta cur))) e))
             else deleteObsoleteObjects E currentObjs newObjects
         | None \<Rightarrow> deleteObsoleteObjects E currentObjs newObjects)
      })"

section \<open>The namespaces of a space\<close>

definition fetchNamespacesByOwner :: "nenv \<Rightarrow> string \<Rightarrow> (err + namespace list) nprog" where
  "fetchNamespacesByOwner E spacename =
     with_value (call (\<lambda>tr. ne_list_namespaces E tr spacename) (ListNamespaces spacename))
       (\<lambda>e. ret (Inl e)) (\<lambda>nss. ret (Inr (sort_key (\<lambda>ns. m_name (ns_meta ns)) nss)))"

end
