(* ===== verification/NSCluster.thy ===== *)
theory NSCluster
  imports NSTemplates
begin

text \<open>
  The NSTemplateSet controller, third part: the cluster-scoped resources of a space
  (\<open>cluster_resources.go\<close>), applied all at once by the object applier, which then deletes what the new
  template no longer contains.
\<close>

definition getOldAndNewTemplateRefsIfChanged :: "nenv \<Rightarrow> nstt \<Rightarrow> string \<times> string \<times> bool" where
  "getOldAndNewTemplateRefsIfChanged E nt =
     (let new = (case nt_cluster nt of None \<Rightarrow> [] | Some r \<Rightarrow> r);
          old = (case st_cluster nt of None \<Rightarrow> [] | Some r \<Rightarrow> r)
      in (old, new, old \<noteq> new \<or> featuresChanged E nt))"

definition processTierTemplate :: "nenv \<Rightarrow> string option \<Rightarrow> string \<Rightarrow>
    (err + tierTemplate option \<times> kobj list) nprog" where
  "processTierTemplate E clusterResources spacename =
     (case clusterResources of
        None \<Rightarrow> ret (Inr (None, []))
      | Some ref \<Rightarrow>
          if ref = [] then ret (Inr (None, []))
          else with_value (getTierTemplate E ref) (\<lambda>e. ret (Inl e))
            (\<lambda>t. ret (case process E t [(''SPACE_NAME'', spacename)] None of
                        Inl e \<Rightarrow> Inl e | Inr objs \<Rightarrow> Inr (Some t, objs))))"

definition cluster_labels :: "nenv \<Rightarrow> nstt \<Rightarrow> tierTemplate \<Rightarrow> smap" where
  "cluster_labels E nt t =
     [(SpaceLabelKey, m_name (nt_meta nt)), (TypeLabelKey, ne_cluster_type E), (TemplateRefLabelKey, t_ref t),
      (TierLabelKey, t_tier t), (ProviderLabelKey, ProviderLabelValue)]"

definition apply_cluster :: "nenv \<Rightarrow> tierTemplate \<Rightarrow> kobj \<Rightarrow> (bool \<times> err option) nprog" where
  "apply_cluster E t obj = do {
     nt \<leftarrow> get_mem;
     (createdOrModified, err) \<leftarrow> ApplyToolchainObjects E [obj] (cluster_labels E nt t);
     (case err of
        Some e \<Rightarrow> ret (False, Some (Wrapped ''failed to apply cluster resource'' e))
      | None \<Rightarrow> ret (createdOrModified, None))
   }"

section \<open>The object applier\<close>

record objectApplier =
  oa_changed :: bool
  oa_first :: bool
  oa_current :: "kobj list"
  oa_new :: "tierTemplate option"

definition newObjectApplier :: "nstt \<Rightarrow> kobj list \<Rightarrow> tierTemplate option \<Rightarrow> objectApplier" where
  "newObjectApplier nt currentObjects newTierTemplate =
     \<lparr>oa_changed = False, oa_first = (st_cluster nt = None \<or> st_cluster nt = Some []),
      oa_current = currentObjects, oa_new = newTierTemplate\<rparr>"

definition failureStatusReason :: "nenv \<Rightarrow> objectApplier \<Rightarrow> string \<Rightarrow> err option nprog" where
  "failureStatusReason E oa =
     (if oa_first oa then setStatusClusterResourcesProvisionFailed E else setStatusUpdateFailed E)"

definition changeStatusIfNeeded :: "nenv \<Rightarrow> objectApplier \<Rightarrow> (objectApplier \<times> err option) nprog" where
  "changeStatusIfNeeded E oa =
     (if oa_changed oa then ret (oa, None)
      else do {
        err \<leftarrow> (if oa_first oa then setStatusProvisioningIfNotUpdating E else setStatusUpdatingIfNotProvisioning E);
        (case err of Some e \<Rightarrow> ret (oa, Some e) | None \<Rightarrow> ret (oa\<lparr>oa_changed := True\<rparr>, None))
      })"

text \<open>\<open>slices.Delete\<close> of the first current object that is the same as the new one.\<close>

fun remove_same :: "nenv \<Rightarrow> kobj \<Rightarrow> kobj list \<Rightarrow> kobj list" where
  "remove_same E obj [] = []"
| "remove_same E obj (cur # curs) = (if ne_same E cur obj then curs else cur # remove_same E obj curs)"

text \<open>
  \<open>oa.newTierTemplate\<close> is dereferenced where an object is applied; it is nil only when the new template
  has no objects.
\<close>

definition Apply :: "nenv \<Rightarrow> objectApplier \<Rightarrow> kobj \<Rightarrow> (objectApplier \<times> err option) nprog" where
  "Apply E oa obj = do {
     nt \<leftarrow> get_mem;
     if \<not> shouldCreate E obj nt then ret (oa, None)
     else do {
       (oa, err) \<leftarrow> changeStatusIfNeeded E (oa\<lparr>oa_current := remove_same E obj (oa_current oa)\<rparr>);
       (case (err, oa_new oa) of
          (Some e, _) \<Rightarrow> ret (oa, Some e)
        | (None, None) \<Rightarrow> ret (oa, Some (Msg ''nil pointer dereference''))
        | (None, Some t) \<Rightarrow> do {
            (_, err) \<leftarrow> apply_cluster E t obj;
            (case err of
               None \<Rightarrow> ret (oa, None)
             | Some e \<Rightarrow> do {
                 err \<leftarrow> wrapErrorWithStatusUpdate (failureStatusReason E oa)
                   (Some (Wrapped (''failed to apply changes to the cluster resource '' @ m_name (o_meta obj)) e))
                   ''failure while syncing cluster resources'';
                 ret (oa, err)
               })
          })
     }
   }"

fun apply_each :: "nenv \<Rightarrow> objectApplier \<Rightarrow> kobj list \<Rightarrow> (objectApplier \<times> err option) nprog" where
  "apply_each E oa [] = ret (oa, None)"
| "apply_each E oa (obj # objs) = do {
     (oa, err) \<leftarrow> Apply E oa obj;
     (case err of Some e \<Rightarrow> ret (oa, Some e) | None \<Rightarrow> apply_each E oa objs)
   }"

definition Cleanup :: "nenv \<Rightarrow> objectApplier \<Rightarrow> err option nprog" where
  "Cleanup E oa = do {
     (oa, err) \<leftarrow> (if oa_current oa \<noteq> [] then changeStatusIfNeeded E oa else ret (oa, None));
     (case err of
        Some e \<Rightarrow> ret (Some e)
      | None \<Rightarrow> do {
          err \<leftarrow> deleteObsoleteObjects E (oa_current oa) [];
          wrapErrorWithStatusUpdate (failureStatusReason E oa) err ''failure while syncing cluster resources''
        })
   }"

section \<open>Ensuring and deleting\<close>

definition ensure_cluster :: "nenv \<Rightarrow> err option nprog" where
  "ensure_cluster E = do {
     nt \<leftarrow> get_mem;
     (case getOldAndNewTemplateRefsIfChanged E nt of (old, new, changed) \<Rightarrow>
        if \<not> changed then ret None
        else with_value (processTierTemplate E (nt_cluster nt) (m_name (nt_meta nt)))
          (\<lambda>e. wrapErrorWithStatusUpdateForClusterResourceFailure E (Some e)
             (''failed to process the template for the to-be-applied cluster resources with the name '' @ quoted new))
          (\<lambda>(newTierTemplate, newObjs).
             with_value (processTierTemplate E (st_cluster nt) (m_name (nt_meta nt)))
               (\<lambda>e. wrapErrorWithStatusUpdateForClusterResourceFailure E (Some e)
                  (''failed to process the template for the last-applied cluster resources with the name '' @ quoted old))
               (\<lambda>(_, curObjs). do {
                  (oa, err) \<leftarrow> apply_each E (newObjectApplier nt curObjs newTierTemplate) newObjs;
                  (case err of Some e \<Rightarrow> ret (Some e) | None \<Rightarrow> Cleanup E oa)
                })))
   }"

text \<open>
  Deletion: every object of the last applied template is fetched and deleted unless it is gone or
  being deleted already.
\<close>

fun delete_each :: "nenv \<Rightarrow> kobj list \<Rightarrow> err option nprog" where
  "delete_each E [] = ret None"
| "delete_each E (obj # objs) = do {
     r \<leftarrow> call (\<lambda>tr. ne_get_object E tr obj) (GetObject obj);
     (case r of
        Inl e \<Rightarrow>
          if \<not> IsNotFound (ne_lib E) e
          then wrapErrorWithStatusUpdate (setStatusTerminatingFailed E) (Some e)
            (''failed to get the cluster resource '' @ quoted (m_name (o_meta obj)) @ '' while deleting cluster resources'')
          else delete_each E objs
      | Inr obj \<Rightarrow>
          if IsBeingDeleted (ne_lib E) (o_meta obj) then delete_each E objs
          else do {
            err \<leftarrow> nexec E (DeleteObject obj);
            (case err of
               Some e \<Rightarrow>
                 if IsNotFound (ne_lib E) e then delete_each E objs
                 else wrapErrorWithStatusUpdate (setStatusTerminatingFailed E) (Some e)
                   (''failed to delete cluster resource '' @ quoted (m_name (o_meta obj)))
             | None \<Rightarrow> delete_each E objs)
          })
   }"

definition delete_cluster :: "nenv \<Rightarrow> err option nprog" where
  "delete_cluster E = do {
     nt \<leftarrow> get_mem;
     (case st_cluster nt of
        None \<Rightarrow> ret None
      | Some _ \<Rightarrow>
          with_value (processTierTemplate E (st_cluster nt) (m_name (nt_meta nt)))
            (\<lambda>e. wrapErrorWithStatusUpdateForClusterResourceFailure E (Some e)
               ''failed to process the existing cluster resources'')
            (\<lambda>(_, currentObjects). delete_each E currentObjects))
   }"

end
