(* ===== verification/NSNamespaces.thy ===== *)
theory NSNamespaces
  imports NSTemplates
begin

text \<open>
  The NSTemplateSet controller, fourth part: the namespaces of a space (\<open>namespaces.go\<close>),
  provisioned, updated and deprovisioned one per reconcile.
\<close>

section \<open>Choosing a namespace\<close>

definition type_of :: "namespace \<Rightarrow> string" where
  "type_of ns = lookup0 (m_labels (ns_meta ns)) TypeLabelKey"

definition findNamespace :: "namespace list \<Rightarrow> string \<Rightarrow> namespace option" where
  "findNamespace namespaces typeName = find (\<lambda>ns. type_of ns = typeName) namespaces"

definition nextNamespaceToDeprovision :: "tierTemplate list \<Rightarrow> namespace list \<Rightarrow> namespace option" where
  "nextNamespaceToDeprovision tmpls namespaces =
     find (\<lambda>ns. \<not> list_ex (\<lambda>t. t_type t = type_of ns) tmpls) namespaces"

text \<open>\<open>contains\<close> and \<open>actual\<close> are label maps, nil or not.\<close>

definition mapContains :: "smap option \<Rightarrow> smap option \<Rightarrow> bool" where
  "mapContains actual contains =
     (case contains of
        None \<Rightarrow> True
      | Some c \<Rightarrow>
          (case actual of
             None \<Rightarrow> False
           | Some a \<Rightarrow> list_all (\<lambda>(k, _). case map_of a k of None \<Rightarrow> False | Some v \<Rightarrow> map_of c k = Some v) c))"

text \<open>The first role of that name decides.\<close>

definition contains_named :: "meta list \<Rightarrow> kobj \<Rightarrow> string \<Rightarrow> bool" where
  "contains_named items obj spacename =
     (case find (\<lambda>m. m_name m = m_name (o_meta obj)) items of
        None \<Rightarrow> False
      | Some m \<Rightarrow> lookup (m_labels m) SpaceLabelKey = Some spacename)"

definition containsRole :: "meta list \<Rightarrow> kobj \<Rightarrow> string \<Rightarrow> bool \<times> err option" where
  "containsRole items obj spacename =
     (if k_kind (o_gvk obj) \<noteq> ''Role'' then (False, Some (Msg ''object is not a role''))
      else (contains_named items obj spacename, None))"

definition containsRoleBindings :: "meta list \<Rightarrow> kobj \<Rightarrow> string \<Rightarrow> bool \<times> err option" where
  "containsRoleBindings items obj spacename =
     (if k_kind (o_gvk obj) \<noteq> ''RoleBinding'' then (False, Some (Msg ''object is not a rolebinding''))
      else (contains_named items obj spacename, None))"

text \<open>A loop over expected objects that returns at the first one missing or failing.\<close>

fun all_contained :: "(kobj \<Rightarrow> bool \<times> err option) \<Rightarrow> kobj list \<Rightarrow> bool \<times> err option" where
  "all_contained f [] = (True, None)"
| "all_contained f (obj # objs) =
     (case f obj of (found, err) \<Rightarrow> if \<not> found \<or> err \<noteq> None then (False, err) else all_contained f objs)"

definition isUpToDateAndProvisioned :: "nenv \<Rightarrow> namespace \<Rightarrow> tierTemplate \<Rightarrow> (bool \<times> err option) nprog" where
  "isUpToDateAndProvisioned E ns t =
     (let labels = m_labels (ns_meta ns) in
      if labels \<noteq> None \<and> lookup0 labels TierLabelKey = t_tier t \<and> lookup0 labels TemplateRefLabelKey = t_ref t
      then
        let space = lookup0 labels SpaceLabelKey in
        (case process E t [(''USERNAME'', space), (''SPACE_NAME'', space)] (Some RetainAllButNamespaces) of
           Inl e \<Rightarrow> ret (False, Some e)
         | Inr newObjs \<Rightarrow>
             let roles = filter (\<lambda>x. k_kind (o_gvk x) = ''Role'') newObjs;
                 bindings = filter (\<lambda>x. k_kind (o_gvk x) = ''RoleBinding'') newObjs
             in (case lookup labels SpaceLabelKey of
                  None \<Rightarrow> ret (False, Some (Msg (''namespace doesn'' @ [CHR 0x27] @ ''t have space label'')))
                | Some spacename \<Rightarrow>
                    with_value (call (\<lambda>tr. ne_list_roles E tr (m_name (ns_meta ns))) (ListRoles (m_name (ns_meta ns))))
                      (\<lambda>e. ret (False, Some e))
                      (\<lambda>roleList.
                         with_value (call (\<lambda>tr. ne_list_rolebindings E tr (m_name (ns_meta ns)))
                                       (ListRoleBindings (m_name (ns_meta ns))))
                           (\<lambda>e. ret (False, Some e))
                           (\<lambda>bindingList. ret
                              (case all_contained (\<lambda>x. containsRole roleList x spacename) roles of
                                 (True, None) \<Rightarrow> all_contained (\<lambda>x. containsRoleBindings bindingList x spacename) bindings
                               | r \<Rightarrow> r)))))
      else ret (False, None))"

text \<open>The result: the template and the namespace to work on (\<open>None\<close> for nil), found, the error.\<close>

fun nextNamespaceToProvisionOrUpdate :: "nenv \<Rightarrow> tierTemplate list \<Rightarrow> namespace list \<Rightarrow>
    (tierTemplate option \<times> namespace option \<times> bool \<times> err option) nprog" where
  "nextNamespaceToProvisionOrUpdate E [] namespaces = ret (None, None, False, None)"
| "nextNamespaceToProvisionOrUpdate E (t # ts) namespaces =
     (case findNamespace namespaces (t_type t) of
        None \<Rightarrow> ret (Some t, None, True, None)
      | Some ns \<Rightarrow>
          if ns_active ns
          then do {
            (isProvisioned, err) \<leftarrow> isUpToDateAndProvisioned E ns t;
            (case err of
               Some e \<Rightarrow> ret (Some t, None, True, Some e)
             | None \<Rightarrow>
                 if \<not> isProvisioned then ret (Some t, Some ns, True, None)
                 else nextNamespaceToProvisionOrUpdate E ts namespaces)
          }
          else nextNamespaceToProvisionOrUpdate E ts namespaces)"

section \<open>Working on a namespace\<close>

fun getTierTemplates :: "nenv \<Rightarrow> string list \<Rightarrow> tierTemplate list \<Rightarrow> (err + tierTemplate list) nprog" where
  "getTierTemplates E [] tmpls = ret (Inr tmpls)"
| "getTierTemplates E (ref # refs) tmpls =
     with_value (getTierTemplate E ref) (\<lambda>e. ret (Inl e)) (\<lambda>t. getTierTemplates E refs (tmpls @ [t]))"

definition getTierTemplatesForAllNamespaces :: "nenv \<Rightarrow> (err + tierTemplate list) nprog" where
  "getTierTemplatesForAllNamespaces E = do { nt \<leftarrow> get_mem; getTierTemplates E (nt_namespaces nt) [] }"

definition namespaceHasExpectedLabelsFromTemplate :: "nenv \<Rightarrow> tierTemplate \<Rightarrow> namespace \<Rightarrow> err + bool" where
  "namespaceHasExpectedLabelsFromTemplate E t ns =
     (case process E t [(''SPACE_NAME'', lookup0 (m_labels (ns_meta ns)) SpaceLabelKey)] (Some RetainNamespaces) of
        Inl e \<Rightarrow> Inl e
      | Inr objs \<Rightarrow>
          (case find (\<lambda>x. m_name (o_meta x) = m_name (ns_meta ns)) (rev objs) of
             None \<Rightarrow> Inl (Msg (''no matching template object found for namespace '' @ m_name (ns_meta ns)))
           | Some tmplObj \<Rightarrow> Inr (mapContains (m_labels (ns_meta ns)) (m_labels (o_meta tmplObj)))))"

definition ensureNamespaceResource :: "nenv \<Rightarrow> tierTemplate \<Rightarrow> err option nprog" where
  "ensureNamespaceResource E t = do {
     nt \<leftarrow> get_mem;
     (case process E t [(''SPACE_NAME'', m_name (nt_meta nt))] (Some RetainNamespaces) of
        Inl e \<Rightarrow> wrapErrorWithStatusUpdate (setStatusNamespaceProvisionFailed E) (Some e)
          (''failed to process template for namespace type '' @ quoted (t_type t))
      | Inr objs \<Rightarrow> do {
          err \<leftarrow> apply_all E objs [(SpaceLabelKey, m_name (nt_meta nt)), (TypeLabelKey, t_type t),
            (ProviderLabelKey, ProviderLabelValue)];
          wrapErrorWithStatusUpdate (setStatusNamespaceProvisionFailed E) err
            (''failed to create namespace with type '' @ quoted (t_type t))
        })
   }"

text \<open>Deleting what the template applied last had and the new one has not; the part before the apply.\<close>

definition delete_redundant :: "nenv \<Rightarrow> tierTemplate \<Rightarrow> namespace \<Rightarrow> kobj list \<Rightarrow> err option nprog" where
  "delete_redundant E t ns newObjs = do {
     nt \<leftarrow> get_mem;
     (case lookup (m_labels (ns_meta ns)) TemplateRefLabelKey of
        None \<Rightarrow> ret None
      | Some currentRef \<Rightarrow>
          if currentRef \<noteq> [] \<and> currentRef \<noteq> t_ref t
          then unless_err (setStatusUpdatingIfNotProvisioning E) Some
            (with_value (getTierTemplate E currentRef)
               (\<lambda>e. wrapErrorWithStatusUpdate (setStatusUpdateFailed E) (Some e)
                  (''failed to retrieve current TierTemplate with name '' @ quoted currentRef))
               (\<lambda>cur. case process E cur [(''SPACE_NAME'', m_name (nt_meta nt))] (Some RetainAllButNamespaces) of
                    Inl e \<Rightarrow> wrapErrorWithStatusUpdate (setStatusUpdateFailed E) (Some e)
                      (''failed to process template for TierTemplate with name '' @ quoted currentRef)
                  | Inr currentObjs \<Rightarrow> do {
                      err \<leftarrow> deleteObsoleteObjects E currentObjs newObjs;
                      wrapErrorWithStatusUpdate (setStatusUpdateFailed E) err
                        (''failed to delete redundant objects in namespace '' @ quoted (m_name (ns_meta ns)))
                    }))
          else ret None)
   }"

definition mark_provisioned :: "tierTemplate \<Rightarrow> namespace \<Rightarrow> namespace" where
  "mark_provisioned t ns =
     ns\<lparr>ns_meta := (ns_meta ns)\<lparr>m_labels :=
       put (put (m_labels (ns_meta ns)) TemplateRefLabelKey (t_ref t)) TierLabelKey (t_tier t)\<rparr>\<rparr>"

definition ensureInnerNamespaceResources :: "nenv \<Rightarrow> tierTemplate \<Rightarrow> namespace \<Rightarrow> err option nprog" where
  "ensureInnerNamespaceResources E t ns = do {
     nt \<leftarrow> get_mem;
     (case process E t [(''SPACE_NAME'', m_name (nt_meta nt))] (Some RetainAllButNamespaces) of
        Inl e \<Rightarrow> wrapErrorWithStatusUpdate (setStatusNamespaceProvisionFailed E) (Some e)
          (''failed to process template for namespace '' @ quoted (m_name (ns_meta ns)))
      | Inr newObjs \<Rightarrow>
          unless_err (delete_redundant E t ns newObjs) Some
            (do {
               nt \<leftarrow> get_mem;
               err \<leftarrow> apply_all E newObjs [(ProviderLabelKey, ProviderLabelValue), (SpaceLabelKey, m_name (nt_meta nt))];
               (case err of
                  Some e \<Rightarrow> wrapErrorWithStatusUpdate (setStatusNamespaceProvisionFailed E) (Some e)
                    (''failed to provision namespace '' @ quoted (m_name (ns_meta ns)) @ '' with required resources'')
                | None \<Rightarrow> do {
                    err \<leftarrow> nexec E (UpdateNamespace (mark_provisioned t ns));
                    wrapErrorWithStatusUpdate (setStatusNamespaceProvisionFailed E) err
                      (''failed to update namespace '' @ quoted (m_name (ns_meta ns)))
                  })
             }))
   }"

definition ensureNamespace :: "nenv \<Rightarrow> tierTemplate \<Rightarrow> namespace option \<Rightarrow> err option nprog" where
  "ensureNamespace E t userNamespace =
     (case userNamespace of
        None \<Rightarrow> ensureNamespaceResource E t
      | Some ns \<Rightarrow>
          (case namespaceHasExpectedLabelsFromTemplate E t ns of
             Inl e \<Rightarrow> wrapErrorWithStatusUpdate (setStatusNamespaceProvisionFailed E) (Some e)
               (''failed to get namespace object from template for namespace type '' @ quoted (t_type t))
           | Inr upToDate \<Rightarrow>
               if \<not> upToDate then ensureNamespaceResource E t else ensureInnerNamespaceResources E t ns))"

section \<open>Ensuring and deleting\<close>

definition provision_next :: "nenv \<Rightarrow> tierTemplate list \<Rightarrow> namespace list \<Rightarrow> (bool \<times> err option) nprog" where
  "provision_next E tmpls userNamespaces = do {
     (t, userNamespace, found, err) \<leftarrow> nextNamespaceToProvisionOrUpdate E tmpls userNamespaces;
     (case (err, t) of
        (Some e, _) \<Rightarrow> ret (False, Some e)
      | (None, None) \<Rightarrow> ret (False, None)
      | (None, Some t) \<Rightarrow>
          if \<not> found then ret (False, None)
          else unless_err
            (if userNamespaces \<noteq> [] then setStatusUpdatingIfNotProvisioning E
             else setStatusProvisioningIfNotUpdating E)
            (\<lambda>e. (False, Some e))
            (do { err \<leftarrow> ensureNamespace E t userNamespace; ret (True, err) }))
   }"

definition ensure_namespaces :: "nenv \<Rightarrow> (bool \<times> err option) nprog" where
  "ensure_namespaces E = do {
     nt \<leftarrow> get_mem;
     with_value (fetchNamespacesByOwner E (m_name (nt_meta nt)))
       (\<lambda>e. do {
          err \<leftarrow> wrapErrorWithStatusUpdate (setStatusProvisionFailed E) (Some e)
            (''failed to list namespaces with label owner '' @ quoted (m_name (nt_meta nt)));
          ret (False, err)
        })
       (\<lambda>userNamespaces.
          with_value (getTierTemplatesForAllNamespaces E)
            (\<lambda>e. do {
               err \<leftarrow> wrapErrorWithStatusUpdate (setStatusNamespaceProvisionFailed E) (Some e)
                 (''failed to get TierTemplates for tier '' @ quoted (nt_tier nt));
               ret (False, err)
             })
            (\<lambda>tmpls.
               case nextNamespaceToDeprovision tmpls userNamespaces of
                 Some ns \<Rightarrow>
                   unless_err (setStatusUpdatingIfNotProvisioning E) (\<lambda>e. (False, Some e))
                     (do {
                        err \<leftarrow> nexec E (DeleteNamespace (m_name (ns_meta ns)));
                        (case err of
                           Some e \<Rightarrow> do {
                             err \<leftarrow> wrapErrorWithStatusUpdate (setStatusUpdateFailed E) (Some e)
                               (''failed to delete namespace '' @ m_name (ns_meta ns));
                             ret (False, err)
                           }
                         | None \<Rightarrow> ret (True, None))
                      })
               | None \<Rightarrow> provision_next E tmpls userNamespaces))
   }"

definition ensureDeleted :: "nenv \<Rightarrow> (bool \<times> err option) nprog" where
  "ensureDeleted E = do {
     nt \<leftarrow> get_mem;
     with_value (fetchNamespacesByOwner E (m_name (nt_meta nt)))
       (\<lambda>e. do {
          err \<leftarrow> wrapErrorWithStatusUpdate (setStatusTerminatingFailed E) (Some e)
            (''failed to list namespace with label owner '' @ quoted (m_name (nt_meta nt)));
          ret (False, err)
        })
       (\<lambda>userNamespaces. case userNamespaces of
            [] \<Rightarrow> ret (True, None)
          | ns # _ \<Rightarrow>
              if \<not> IsBeingDeleted (ne_lib E) (ns_meta ns)
              then do {
                err \<leftarrow> nexec E (DeleteNamespace (m_name (ns_meta ns)));
                err \<leftarrow> wrapErrorWithStatusUpdate (setStatusTerminatingFailed E) err
                  (''failed to delete user namespace '' @ quoted (m_name (ns_meta ns)));
                ret (False, err)
              }
              else ret (False, None))
   }"

definition setProvisionedNamespaceList :: "nenv \<Rightarrow> err option nprog" where
  "setProvisionedNamespaceList E = do {
     nt \<leftarrow> get_mem;
     with_value (fetchNamespacesByOwner E (m_name (nt_meta nt))) (\<lambda>e. ret (Some e))
       (\<lambda>userNamespaces. updateStatusProvisionedNamespaces E userNamespaces)
   }"

end
