(* ===== verification/NSController.thy ===== *)
theory NSController
  imports NSCluster NSNamespaces
begin

text \<open>
  The NSTemplateSet controller, last part: the space roles (\<open>space_roles.go\<close>) and the reconcile loop
  (\<open>nstemplateset_controller.go\<close>) that orders cluster resources, namespaces and space roles.
\<close>

section \<open>Space roles\<close>

fun process_users :: "nenv \<Rightarrow> tierTemplate \<Rightarrow> string \<Rightarrow> string list \<Rightarrow> err + kobj list" where
  "process_users E t nsname [] = Inr []"
| "process_users E t nsname (username # usernames) =
     (case process E t [(''NAMESPACE'', nsname), (''USERNAME'', username)] None of
        Inl e \<Rightarrow> Inl (Wrapped (''failed to process space roles template '' @ quoted (t_ref t) @ '' for the user '' @
          quoted username @ '' in namespace '' @ quoted nsname) e)
      | Inr objs \<Rightarrow>
          (case process_users E t nsname usernames of Inl e \<Rightarrow> Inl e | Inr rest \<Rightarrow> Inr (objs @ rest)))"

fun getSpaceRolesObjects :: "nenv \<Rightarrow> string \<Rightarrow> space_role list \<Rightarrow> (err + kobj list) nprog" where
  "getSpaceRolesObjects E nsname [] = ret (Inr [])"
| "getSpaceRolesObjects E nsname (r # rs) =
     with_value (getTierTemplate E (sr_ref r)) (\<lambda>e. ret (Inl e))
       (\<lambda>t. case process_users E t nsname (sr_users r) of
            Inl e \<Rightarrow> ret (Inl e)
          | Inr objs \<Rightarrow> with_value (getSpaceRolesObjects E nsname rs) (\<lambda>e. ret (Inl e))
              (\<lambda>rest. ret (Inr (objs @ rest))))"

text \<open>The last applied roles as the namespace's annotation records them.\<close>

definition last_applied :: "nenv \<Rightarrow> namespace \<Rightarrow> err + space_role list" where
  "last_applied E ns =
     (case lookup (m_annotations (ns_meta ns)) LastAppliedSpaceRolesAnnotationKey of
        None \<Rightarrow> Inr []
      | Some a \<Rightarrow>
          if a = [] then Inr []
          else (case ne_unmarshal E a of
                  Inl e \<Rightarrow> Inl (Wrapped ''unable to decode current space roles in annotation'' e)
                | Inr rs \<Rightarrow> Inr rs))"

definition store_applied :: "nenv \<Rightarrow> namespace \<Rightarrow> (bool \<times> err option) nprog" where
  "store_applied E ns = do {
     nt \<leftarrow> get_mem;
     (case ne_marshal E (nt_roles nt) of
        Inl e \<Rightarrow> do {
          err \<leftarrow> wrapErrorWithStatusUpdate (setStatusProvisionFailed E) (Some e)
            ''failed to marshal space roles to update the annotation on namespace'';
          ret (False, err)
        }
      | Inr sr \<Rightarrow> do {
          err \<leftarrow> nexec E (UpdateNamespace (ns\<lparr>ns_meta := (ns_meta ns)\<lparr>m_annotations :=
            put (m_annotations (ns_meta ns)) LastAppliedSpaceRolesAnnotationKey sr\<rparr>\<rparr>));
          (case err of
             Some e \<Rightarrow> do {
               err \<leftarrow> wrapErrorWithStatusUpdate (setStatusProvisionFailed E) (Some e)
                 ''failed to update namespace with the annotation'';
               ret (False, err)
             }
           | None \<Rightarrow> ret (True, None))
        })
   }"

text \<open>
  The work on one namespace: \<open>(True, None)\<close> after the annotation changed, \<open>(False, None)\<close> when the next
  namespace is to be looked at.
\<close>

definition ensure_roles_in :: "nenv \<Rightarrow> namespace \<Rightarrow> (bool \<times> err option) nprog" where
  "ensure_roles_in E ns = do {
     nt \<leftarrow> get_mem;
     (case last_applied E ns of
        Inl e \<Rightarrow> ret (False, Some e)
      | Inr applied \<Rightarrow>
          unless_err (if nt_roles nt \<noteq> applied then setStatusUpdatingIfNotProvisioning E else ret None)
            (\<lambda>e. (False, Some e))
            (with_value (getSpaceRolesObjects E (m_name (ns_meta ns)) applied)
               (\<lambda>e. do {
                  err \<leftarrow> wrapErrorWithStatusUpdateForSpaceRolesFailure E (Some e) ''failed to retrieve last applied space roles'';
                  ret (False, err)
                })
               (\<lambda>lastObjs. do {
                  nt \<leftarrow> get_mem;
                  with_value (getSpaceRolesObjects E (m_name (ns_meta ns)) (nt_roles nt))
                    (\<lambda>e. do {
                       err \<leftarrow> wrapErrorWithStatusUpdateForSpaceRolesFailure E (Some e) ''failed to retrieve space roles to apply'';
                       ret (False, err)
                     })
                    (\<lambda>objs. do {
                       err \<leftarrow> apply_all E objs [(ProviderLabelKey, ProviderLabelValue), (SpaceLabelKey, m_name (nt_meta nt))];
                       (case err of
                          Some e \<Rightarrow> do {
                            err \<leftarrow> wrapErrorWithStatusUpdate (setStatusNamespaceProvisionFailed E) (Some e)
                              (''failed to provision namespace '' @ quoted (m_name (ns_meta ns)) @ '' with space roles'');
                            ret (False, err)
                          }
                        | None \<Rightarrow> do {
                            err \<leftarrow> deleteObsoleteObjects E lastObjs objs;
                            (case err of
                               Some e \<Rightarrow> do {
                                 err \<leftarrow> wrapErrorWithStatusUpdate (setStatusUpdateFailed E) (Some e)
                                   (''failed to delete redundant objects in namespace '' @ quoted (m_name (ns_meta ns)));
                                 ret (False, err)
                               }
                             | None \<Rightarrow> if nt_roles nt \<noteq> applied then store_applied E ns else ret (False, None))
                          })
                     })
                })))
   }"

fun ensure_roles_each :: "nenv \<Rightarrow> namespace list \<Rightarrow> (bool \<times> err option) nprog" where
  "ensure_roles_each E [] = ret (False, None)"
| "ensure_roles_each E (ns # nss) = do {
     (changed, err) \<leftarrow> ensure_roles_in E ns;
     if err \<noteq> None \<or> changed then ret (changed, err) else ensure_roles_each E nss
   }"

definition ensure_roles :: "nenv \<Rightarrow> (bool \<times> err option) nprog" where
  "ensure_roles E = do {
     nt \<leftarrow> get_mem;
     with_value (fetchNamespacesByOwner E (m_name (nt_meta nt)))
       (\<lambda>e. do {
          err \<leftarrow> wrapErrorWithStatusUpdate (setStatusProvisionFailed E) (Some e)
            (''failed to list namespaces for workspace '' @ quoted (m_name (nt_meta nt)));
          ret (False, err)
        })
       (\<lambda>nss. ensure_roles_each E nss)
   }"

section \<open>Reconciling\<close>

definition addFinalizer :: "nenv \<Rightarrow> err option nprog" where
  "addFinalizer E = do {
     nt \<leftarrow> get_mem;
     if \<not> HasFinalizer (ne_lib E) (nt_meta nt) FinalizerName
     then do {
       let nt = nt\<lparr>nt_meta := AddFinalizer (ne_lib E) (nt_meta nt) FinalizerName\<rparr>;
       set_mem nt;
       r \<leftarrow> call (\<lambda>tr. ne_update_nstt E tr nt) (UpdateNSTemplateSet nt);
       (case r of Inl e \<Rightarrow> ret (Some e) | Inr new \<Rightarrow> do { set_mem new; ret None })
     }
     else ret None
   }"

text \<open>The deletion; \<open>m_deletion\<close> is set there, since the object is being deleted.\<close>

definition remove_finalizer :: "nenv \<Rightarrow> (int \<times> err option) nprog" where
  "remove_finalizer E = do {
     nt \<leftarrow> get_mem;
     let spacename = m_name (nt_meta nt);
     let nt = nt\<lparr>nt_meta := RemoveFinalizer (ne_lib E) (nt_meta nt) FinalizerName\<rparr>;
     set_mem nt;
     r \<leftarrow> call (\<lambda>tr. ne_update_nstt E tr nt) (UpdateNSTemplateSet nt);
     (case r of
        Inl e \<Rightarrow> do {
          err \<leftarrow> wrapErrorWithStatusUpdate (setStatusTerminatingFailed E) (Some e)
            (''failed to remove finalizer on NSTemplateSet '' @ quoted spacename);
          ret (0, err)
        }
      | Inr new \<Rightarrow> do { set_mem new; ret (0, None) })
   }"

definition delete_namespaces :: "nenv \<Rightarrow> (int \<times> err option) nprog" where
  "delete_namespaces E = do {
     (allDeleted, err) \<leftarrow> ensureDeleted E;
     (case err of
        Some e \<Rightarrow> do {
          err \<leftarrow> wrapErrorWithStatusUpdate (setStatusTerminatingFailed E) (Some e) ''failed to ensure namespace deletion'';
          ret (0, err)
        }
      | None \<Rightarrow>
          if \<not> allDeleted
          then do {
            nt \<leftarrow> get_mem;
            now \<leftarrow> clock (ne_now E);
            if sat64 (now - (case m_deletion (nt_meta nt) of Some d \<Rightarrow> d | None \<Rightarrow> 0)) > 60 * second
            then ret (0, Some (Msg ''NSTemplateSet deletion has not completed in over 1 minute''))
            else ret (second, None)
          }
          else remove_finalizer E)
   }"

definition deleteNSTemplateSet :: "nenv \<Rightarrow> (int \<times> err option) nprog" where
  "deleteNSTemplateSet E = do {
     nt \<leftarrow> get_mem;
     if \<not> HasFinalizer (ne_lib E) (nt_meta nt) FinalizerName then ret (0, None)
     else do {
       err \<leftarrow> setStatusTerminating E;
       (case err of
          Some e \<Rightarrow> do {
            err \<leftarrow> wrapErrorWithStatusUpdate (setStatusTerminatingFailed E) (Some e)
              (''failed to set status to '' @ quoted ''ready=false/reason=terminating'' @ '' on NSTemplateSet'');
            ret (0, err)
          }
        | None \<Rightarrow>
            unless_err (delete_cluster E) (\<lambda>e. (0, Some e))
              (do {
                 err \<leftarrow> clearStatusClusterResources E;
                 (case err of
                    Some e \<Rightarrow> do {
                      err \<leftarrow> wrapErrorWithStatusUpdate (setStatusTerminatingFailed E) (Some e)
                        ''failed to clear ClusterResources status'';
                      ret (0, err)
                    }
                  | None \<Rightarrow> delete_namespaces E)
               }))
     }
   }"

text \<open>A step \<open>(changed, err)\<close>, after which the reconcile ends when something changed or failed.\<close>

definition ensure_step :: "(bool \<times> err option) nprog \<Rightarrow> (int \<times> err option) nprog \<Rightarrow> (int \<times> err option) nprog" where
  "ensure_step m k = do {
     (createdOrUpdated, err) \<leftarrow> m;
     (case err of
        Some e \<Rightarrow> ret (0, Some e)
      | None \<Rightarrow> if createdOrUpdated then ret (0, None) else k)
   }"

definition ensure_all :: "nenv \<Rightarrow> (int \<times> err option) nprog" where
  "ensure_all E =
     unless_err (ensure_cluster E) (\<lambda>e. (0, Some e))
    (unless_err (updateStatusClusterResourcesRevisions E) (\<lambda>e. (0, Some e))
    (ensure_step (ensure_namespaces E)
    (unless_err (updateStatusNamespacesRevisions E) (\<lambda>e. (0, Some e))
    (unless_err (setProvisionedNamespaceList E) (\<lambda>e. (0, Some e))
    (ensure_step (ensure_roles E)
    (unless_err (updateStatusSpaceRolesRevisions E) (\<lambda>e. (0, Some e))
    (do { err \<leftarrow> setStatusReady E; ret (0, err) })))))))"

definition getNamespaceName :: "nenv \<Rightarrow> string \<Rightarrow> err + string" where
  "getNamespaceName E namespace = (if namespace = [] then ne_watch_ns E else Inr namespace)"

definition Reconcile :: "nenv \<Rightarrow> string \<Rightarrow> string \<Rightarrow> (int \<times> err option) nprog" where
  "Reconcile E ns name =
     (case getNamespaceName E ns of
        Inl e \<Rightarrow> ret (0, Some e)
      | Inr ns \<Rightarrow> do {
          r \<leftarrow> call (\<lambda>tr. ne_get_nstt E tr ns name) (GetNSTemplateSet ns name);
          (case r of
             Inl e \<Rightarrow> if IsNotFound (ne_lib E) e then ret (0, None) else ret (0, Some e)
           | Inr nt \<Rightarrow> do {
               set_mem nt;
               if IsBeingDeleted (ne_lib E) (nt_meta nt) then deleteNSTemplateSet E
               else unless_err (addFinalizer E) (\<lambda>e. (0, Some e)) (ensure_all E)
             })
        })"

end
