(* ===== verification/NSProofs.thy ===== *)
theory NSProofs
  imports NSController Steps
begin

text \<open>
  Lemmas on the NSTemplateSet controller: status writes, what each part calls, one namespace change per
  reconcile, the object applier's bookkeeping, the deletion, template parameters, applied objects.
\<close>

section \<open>Status writes\<close>

fun is_status_write :: "ncall \<Rightarrow> bool" where
  "is_status_write (UpdateStatus nt) = True"
| "is_status_write _ = False"

interpretation nstt_status: status_writer "\<lambda>c. updateStatusConditions E [c]" is_status_write
  by unfold_locales
     (auto simp: updateStatusConditions_def write_status_def wp_simps Let_def split: prod.splits sum.splits)

lemmas set_defs = setStatusReady_def setStatusProvisionFailed_def setStatusNamespaceProvisionFailed_def
  setStatusClusterResourcesProvisionFailed_def setStatusSpaceRolesProvisionFailed_def
  setStatusTerminating_def setStatusUpdateFailed_def setStatusTerminatingFailed_def

lemma setReady_emits: "emits (\<lambda>(c, ok). is_status_write c) (setReady E st r m)"
  unfolding setReady_def by (rule nstt_status.status_emits)

lemma setReady_not [emits_rules]: "(\<And>nt b. P (UpdateStatus nt, b)) \<Longrightarrow> emits P (setReady E st r m)"
  by (rule emits_mono [OF setReady_emits]) (auto elim: is_status_write.elims)

lemma set_status_not [emits_rules]:
  assumes "\<And>nt b. P (UpdateStatus nt, b)"
  shows "emits P (setStatusReady E)" "emits P (setStatusProvisionFailed E m)"
    "emits P (setStatusNamespaceProvisionFailed E m)" "emits P (setStatusClusterResourcesProvisionFailed E m)"
    "emits P (setStatusSpaceRolesProvisionFailed E m)" "emits P (setStatusTerminating E)"
    "emits P (setStatusUpdateFailed E m)" "emits P (setStatusTerminatingFailed E m)"
    "emits P (setStatusProvisioningIfNotUpdating E)" "emits P (setStatusUpdatingIfNotProvisioning E)"
  unfolding set_defs setStatusProvisioningIfNotUpdating_def setStatusUpdatingIfNotProvisioning_def
  using assms by (auto intro!: emits_rules)

lemma wrap_not [emits_rules]:
  "(\<And>m. emits P (upd m)) \<Longrightarrow> emits P (wrapErrorWithStatusUpdate upd e fmt)"
  unfolding wrapErrorWithStatusUpdate_def by (auto intro!: emits_rules)

lemma wrap_failure_not [emits_rules]:
  assumes "\<And>nt b. P (UpdateStatus nt, b)"
  shows "emits P (wrapErrorWithStatusUpdateForClusterResourceFailure E e fmt)"
    "emits P (wrapErrorWithStatusUpdateForSpaceRolesFailure E e fmt)"
  unfolding wrapErrorWithStatusUpdateForClusterResourceFailure_def
    wrapErrorWithStatusUpdateForSpaceRolesFailure_def
  using assms by (auto intro!: emits_rules)

lemma write_status_not [emits_rules]: "(\<And>nt b. P (UpdateStatus nt, b)) \<Longrightarrow> emits P (write_status E)"
  unfolding write_status_def by (auto intro!: emits_rules)

lemma revisions_not [emits_rules]:
  assumes "\<And>nt b. P (UpdateStatus nt, b)"
  shows "emits P (updateStatusClusterResourcesRevisions E)" "emits P (updateStatusNamespacesRevisions E)"
    "emits P (updateStatusSpaceRolesRevisions E)" "emits P (updateStatusProvisionedNamespaces E nss)"
    "emits P (clearStatusClusterResources E)"
  unfolding updateStatusClusterResourcesRevisions_def updateStatusNamespacesRevisions_def
    updateStatusSpaceRolesRevisions_def updateStatusProvisionedNamespaces_def clearStatusClusterResources_def Let_def
  using assms by (auto intro!: emits_rules split: list.split)

text \<open>Writing the status with an error always gives that error back.\<close>

lemma nwrap_result: "wp (wrapErrorWithStatusUpdate upd e fmt) (\<lambda>r s'. r = map_option (Wrapped fmt) e) s"
  by (cases e) (auto simp: wrapErrorWithStatusUpdate_def wp_simps intro: wp_any)

section \<open>What the parts call\<close>

text \<open>Calls to the host cluster and reads.\<close>

lemma getTierTemplate_not [emits_rules]:
  assumes "\<And>ns n b. P (GetTierTemplateRevision ns n, b)" "\<And>ns n b. P (GetTierTemplate ns n, b)"
  shows "emits P (getTierTemplate E ref)"
  unfolding getTierTemplate_def getTierTemplateRevision_def getToolchainTierTemplate_def
  using assms by (auto intro!: emits_rules)

lemma fetch_not [emits_rules]:
  "(\<And>n b. P (ListNamespaces n, b)) \<Longrightarrow> emits P (fetchNamespacesByOwner E n)"
  unfolding fetchNamespacesByOwner_def by (auto intro!: emits_rules)

text \<open>Applying objects: ServiceAccounts are fetched and created or updated, all others applied.\<close>

definition wanted :: "nenv \<Rightarrow> kobj \<Rightarrow> bool" where
  "wanted E obj \<longleftrightarrow> lookup (m_annotations (o_meta obj)) TierTemplateObjectOptionalResourceAnnotation = None \<or>
     apiGroupIsPresent (ne_groups E) (o_gvk obj)"

definition service_account :: "kobj \<Rightarrow> bool" where
  "service_account obj \<longleftrightarrow> equal_fold (k_kind (o_gvk obj)) ''ServiceAccount''"

lemma apply_objects_emits:
  assumes "\<And>obj b. obj \<in> set objs \<Longrightarrow> wanted E obj \<Longrightarrow> \<not> service_account obj \<Longrightarrow> P (ApplyObject obj labels, b)"
    and "\<And>obj b. obj \<in> set objs \<Longrightarrow> wanted E obj \<Longrightarrow> service_account obj \<Longrightarrow> P (GetObject obj, b)"
    and "\<And>x b. P (CreateObject x, b)" and "\<And>x b. P (UpdateObject x, b)"
  shows "emits P (apply_objects E objs labels any)"
  using assms
proof (induction objs arbitrary: any)
  case Nil
  then show ?case by (simp add: emits_rules)
next
  case (Cons obj objs)
  have IH: "emits P (apply_objects E objs labels any)" for any
    by (rule Cons.IH) (use Cons.prems in auto)
  have sa: "emits P (apply_service_account E obj labels)" if "service_account obj" "wanted E obj"
    unfolding apply_service_account_def Let_def using Cons.prems(2-4) that by (auto intro!: emits_rules)
  show ?case
    using Cons.prems(1) sa IH
    by (auto simp: wanted_def service_account_def intro!: emits_rules)
qed

lemma apply_all_not [emits_rules]:
  assumes "\<And>obj b. P (ApplyObject obj labels, b)" "\<And>obj b. P (GetObject obj, b)"
    "\<And>obj b. P (CreateObject obj, b)" "\<And>obj b. P (UpdateObject obj, b)"
  shows "emits P (apply_all E objs labels)"
  unfolding apply_all_def ApplyToolchainObjects_def
  using assms by (auto intro!: emits_rules apply_objects_emits)

lemma deleteObsolete_emits:
  assumes "\<And>obj b. obj \<in> set curs \<Longrightarrow> \<not> list_ex (\<lambda>new. ne_same E obj new) news \<Longrightarrow> P (DeleteObject obj, b)"
  shows "emits P (deleteObsoleteObjects E curs news)"
  using assms by (induction curs) (auto intro!: emits_rules)

lemma deleteObsolete_not [emits_rules]:
  "(\<And>obj b. P (DeleteObject obj, b)) \<Longrightarrow> emits P (deleteObsoleteObjects E curs news)"
  by (rule deleteObsolete_emits)

section \<open>One namespace change per reconcile\<close>

text \<open>
  The calls that delete or update a namespace object, and those that create or update one through \<open>ApplyObject\<close>: the objects it
  applies as namespaces carry the type of their template in a label, those of the cluster resources a type of their own, and others none.
  \<open>T\<close> says which types count.
\<close>

fun ns_change :: "(string \<Rightarrow> bool) \<Rightarrow> ncall \<Rightarrow> bool" where
  "ns_change T (DeleteNamespace n) = True"
| "ns_change T (UpdateNamespace ns) = True"
| "ns_change T (ApplyObject obj l) = (case map_of l TypeLabelKey of None \<Rightarrow> False | Some ty \<Rightarrow> T ty)"
| "ns_change T _ = False"

text \<open>The templates the host cluster has: each has one namespace object at most.\<close>

definition one_namespace :: "nenv \<Rightarrow> tierTemplate \<Rightarrow> bool" where
  "one_namespace E t \<longleftrightarrow> (\<forall>p xs. process E t p (Some RetainNamespaces) = Inr xs \<longrightarrow> length xs \<le> 1)"

definition one_namespace_templates :: "nenv \<Rightarrow> bool" where
  "one_namespace_templates E \<longleftrightarrow>
     (\<forall>tr h n r p xs. ne_get_ttr E tr h n = Inr r \<longrightarrow> processGoTemplate E r p (Some RetainNamespaces) = Inr xs \<longrightarrow> length xs \<le> 1) \<and>
     (\<forall>tr h n x p xs. ne_get_tt E tr h n = Inr x \<longrightarrow> ne_process E (tt_template x) p (Some RetainNamespaces) = Inr xs \<longrightarrow> length xs \<le> 1)"

definition countable_types :: "nenv \<Rightarrow> (string \<Rightarrow> bool) \<Rightarrow> bool" where
  "countable_types E T \<longleftrightarrow> \<not> T (ne_cluster_type E) \<and> ((\<exists>ty. T ty) \<longrightarrow> one_namespace_templates E)"

lemma countable_none [simp]: "countable_types E (\<lambda>_. False)"
  by (simp add: countable_types_def)

lemma fetched_one:
  assumes "one_namespace_templates E"
  shows "wp (getTierTemplate E ref) (\<lambda>r s'. \<forall>t. r = Inr t \<longrightarrow> one_namespace E t) s"
proof -
  have ttr: "length xs \<le> Suc 0" if "ne_get_ttr E tr h n = Inr r" "processGoTemplate E r p (Some RetainNamespaces) = Inr xs" for tr h n r p xs
    using assms that unfolding one_namespace_templates_def One_nat_def by blast
  have tt: "length xs \<le> Suc 0" if "ne_get_tt E tr h n = Inr x" "ne_process E (tt_template x) p (Some RetainNamespaces) = Inr xs" for tr h n x p xs
    using assms that unfolding one_namespace_templates_def One_nat_def by blast
  show ?thesis
    by (auto simp: getTierTemplate_def getTierTemplateRevision_def getToolchainTierTemplate_def wp_simps wp_with_value one_namespace_def
        process_def ttr tt split: sum.split)
qed

lemma fetched_each_one:
  assumes "one_namespace_templates E" and "list_all (one_namespace E) ts"
  shows "wp (getTierTemplates E refs ts) (\<lambda>r s'. \<forall>us. r = Inr us \<longrightarrow> list_all (one_namespace E) us) s"
  using assms(2)
proof (induction refs arbitrary: ts s)
  case (Cons ref refs)
  show ?case
    unfolding getTierTemplates.simps wp_with_value
    by (rule wp_mono [OF fetched_one [OF assms(1)]]) (use Cons in \<open>auto simp: wp_return split: sum.split\<close>)
qed (simp add: wp_return)

lemma fetched_all_one:
  assumes "one_namespace_templates E"
  shows "wp (getTierTemplatesForAllNamespaces E) (\<lambda>r s'. \<forall>ts. r = Inr ts \<longrightarrow> list_all (one_namespace E) ts) s"
  unfolding getTierTemplatesForAllNamespaces_def wp_bind wp_get_mem by (rule fetched_each_one [OF assms]) simp

lemma next_template:
  "wp (nextNamespaceToProvisionOrUpdate E ts nss) (\<lambda>r s'. \<forall>u. fst r = Some u \<longrightarrow> u \<in> set ts) s"
proof (induction ts arbitrary: s)
  case (Cons t ts)
  have IH: "wp (nextNamespaceToProvisionOrUpdate E ts nss) (\<lambda>r s'. \<forall>u. fst r = Some u \<longrightarrow> u = t \<or> u \<in> set ts) s1" for s1
    by (rule wp_mono [OF Cons.IH]) auto
  have "wp (isUpToDateAndProvisioned E x t) (\<lambda>(b, e) s'. case e of Some e \<Rightarrow> True
      | None \<Rightarrow> if \<not> b then True else wp (nextNamespaceToProvisionOrUpdate E ts nss) (\<lambda>r s'. \<forall>u. fst r = Some u \<longrightarrow> u = t \<or> u \<in> set ts) s') s" for x
    by (rule wp_any) (simp add: IH split: option.split)
  then have "wp (isUpToDateAndProvisioned E x t) (\<lambda>r s'. wp (case r of (b, e) \<Rightarrow> (case e of Some e \<Rightarrow> ret (Some t, None, True, Some e)
      | None \<Rightarrow> if \<not> b then ret (Some t, Some x, True, None) else nextNamespaceToProvisionOrUpdate E ts nss))
      (\<lambda>r s'. \<forall>u. fst r = Some u \<longrightarrow> u = t \<or> u \<in> set ts) s') s" for x
    by (rule wp_mono) (auto simp: wp_return split: option.splits if_splits)
  then show ?case
    using IH by (auto simp: wp_bind wp_return split: option.split)
qed (simp add: wp_return)

lemma cluster_labels_count: "countable_types E T \<Longrightarrow> \<not> ns_change T (ApplyObject obj (cluster_labels E nt t))"
  by (simp add: countable_types_def cluster_labels_def)

lemma apply_one_cautious:
  assumes "length xs \<le> 1" and "\<And>obj. \<not> P (GetObject obj)" "\<And>obj. \<not> P (CreateObject obj)" "\<And>obj. \<not> P (UpdateObject obj)"
  shows "cautious P (\<lambda>e. e \<noteq> None) (apply_all E xs l)"
proof (cases xs)
  case Nil
  then show ?thesis
    by (auto simp: apply_all_def ApplyToolchainObjects_def intro!: cautious_still emits_rules)
next
  case (Cons x ys)
  with assms(1) have xs: "xs = [x]" by simp
  have sa: "still P (apply_service_account E x l)"
    unfolding apply_service_account_def Let_def using assms(2-4) by (auto intro!: emits_rules)
  have "cautious P (\<lambda>(b, e). e \<noteq> None) (unless_err (nexec E (ApplyObject x l)) (\<lambda>e. (False, Some e)) (ret (True, None)))"
    unfolding unless_err_def
    by (rule cautious_call_err_bind) (auto intro!: cautious_still emits_rules never_return)
  then have "cautious P (\<lambda>(b, e). e \<noteq> None) (apply_objects E xs l False)"
    unfolding xs apply_objects.simps
    by (intro cautious_if) (auto intro!: cautious_still emits_rules sa)
  then show ?thesis
    unfolding apply_all_def ApplyToolchainObjects_def
    by (rule cautious_bind) (auto intro!: cautious_still emits_rules never_return)
qed

lemma isUpToDate_not [emits_rules]:
  assumes "\<And>n b. P (ListRoles n, b)" "\<And>n b. P (ListRoleBindings n, b)"
  shows "emits P (isUpToDateAndProvisioned E ns t)"
  unfolding isUpToDateAndProvisioned_def Let_def using assms by (auto intro!: emits_rules)

lemma nextNamespace_not [emits_rules]:
  assumes "\<And>n b. P (ListRoles n, b)" "\<And>n b. P (ListRoleBindings n, b)"
  shows "emits P (nextNamespaceToProvisionOrUpdate E ts nss)"
  using assms by (induction ts) (auto intro!: emits_rules)

lemma getTierTemplates_not [emits_rules]:
  assumes "\<And>ns n b. P (GetTierTemplateRevision ns n, b)" "\<And>ns n b. P (GetTierTemplate ns n, b)"
  shows "emits P (getTierTemplates E refs ts)" "emits P (getTierTemplatesForAllNamespaces E)"
proof -
  show "emits P (getTierTemplates E refs ts)" for refs ts
    using assms by (induction refs arbitrary: ts) (auto intro!: emits_rules)
  then show "emits P (getTierTemplatesForAllNamespaces E)"
    unfolding getTierTemplatesForAllNamespaces_def by (auto intro!: emits_rules)
qed

lemma ensureNamespaceResource_not [emits_rules]:
  assumes "\<And>obj l b. P (ApplyObject obj l, b)" "\<And>obj b. P (GetObject obj, b)"
    "\<And>obj b. P (CreateObject obj, b)" "\<And>obj b. P (UpdateObject obj, b)" "\<And>nt b. P (UpdateStatus nt, b)"
  shows "emits P (ensureNamespaceResource E t)"
  unfolding ensureNamespaceResource_def using assms by (auto intro!: emits_rules)

lemma delete_redundant_not [emits_rules]:
  assumes "\<And>obj b. P (DeleteObject obj, b)" "\<And>nt b. P (UpdateStatus nt, b)"
    "\<And>ns n b. P (GetTierTemplateRevision ns n, b)" "\<And>ns n b. P (GetTierTemplate ns n, b)"
  shows "emits P (delete_redundant E t ns objs)"
  unfolding delete_redundant_def Let_def using assms by (auto intro!: emits_rules)

lemma resource_cautious:
  assumes "(\<exists>ty. T ty) \<longrightarrow> one_namespace E t"
  shows "cautious (ns_change T) always_false (ensureNamespaceResource E t)"
proof (cases "\<exists>ty. T ty")
  case False
  then show ?thesis by (intro cautious_still ensureNamespaceResource_not) (auto split: option.split)
next
  case True
  with assms have one: "process E t p (Some RetainNamespaces) = Inr xs \<Longrightarrow> length xs \<le> 1" for p xs
    by (auto simp: one_namespace_def)
  show ?thesis
    unfolding ensureNamespaceResource_def
    apply (rule cautious_still_bind [OF emits_get_mem])
    apply (rule cautious_case_sum)
     apply (rule cautious_still, rule emits_rules, rule emits_rules, simp)
    apply (rule cautious_bind, rule apply_one_cautious, erule one)
         apply (auto intro!: cautious_still emits_rules never_False)
    done
qed

lemma inner_cautious: "cautious (ns_change T) always_false (ensureInnerNamespaceResources E t ns)"
  unfolding ensureInnerNamespaceResources_def
  apply (rule cautious_still_bind [OF emits_get_mem])
  apply (rule cautious_case_sum)
   apply (rule cautious_still, rule emits_rules, rule emits_rules, simp)
  apply (rule cautious_unless_err, rule delete_redundant_not, simp_all)
  apply (rule cautious_still_bind [OF emits_get_mem])
  apply (rule cautious_still_bind, rule apply_all_not, simp_all)
  apply (rule cautious_case_option)
   apply (rule cautious_call_err_bind)
     apply (auto intro!: cautious_still emits_rules never_False)
  done

lemma ensureNamespace_cautious:
  assumes "(\<exists>ty. T ty) \<longrightarrow> one_namespace E t"
  shows "cautious (ns_change T) always_false (ensureNamespace E t ns)"
  unfolding ensureNamespace_def
  by (intro cautious_case_option cautious_case_sum cautious_if inner_cautious resource_cautious [OF assms]; rule cautious_still)
     (auto intro!: emits_rules)

lemma provision_next_cautious:
  assumes "(\<exists>ty. T ty) \<longrightarrow> list_all (one_namespace E) ts"
  shows "cautious (ns_change T) nothing_done (provision_next E ts nss)"
proof -
  have last: "cautious (ns_change T) nothing_done (do { err \<leftarrow> ensureNamespace E t ns; ret (True, err) })" if "t \<in> set ts" for t ns
    by (rule cautious_bind [OF ensureNamespace_cautious]) (use assms that in \<open>auto simp: list_all_iff intro!: emits_rules delete_never\<close>)
  show ?thesis
    unfolding provision_next_def
    apply (rule cautious_known_bind [OF _ next_template], rule nextNamespace_not, simp, simp)
    apply (auto split: option.splits simp del: if_split
      intro!: cautious_if cautious_return cautious_unless_err last emits_rules)
    done
qed

lemma ensure_namespaces_cautious:
  assumes "countable_types E T"
  shows "cautious (ns_change T) nothing_done (ensure_namespaces E)"
proof -
  have fail: "cautious (ns_change T) nothing_done (do { err \<leftarrow> wrapErrorWithStatusUpdate upd e fmt; ret (False, err) })"
    if "\<And>m. still (ns_change T) (upd m)" for upd e fmt
    by (rule cautious_still) (auto intro!: emits_rules that)
  have delete: "cautious (ns_change T) nothing_done
      (do { err \<leftarrow> nexec E (DeleteNamespace n);
            (case err of
               Some e \<Rightarrow> do { err \<leftarrow> wrapErrorWithStatusUpdate (setStatusUpdateFailed E) (Some e) fmt; ret (False, err) }
             | None \<Rightarrow> ret (True, None)) })" for n fmt
    by (rule cautious_call_err_bind) (auto intro!: fail emits_rules delete_never)
  have known: "wp (getTierTemplatesForAllNamespaces E)
      (\<lambda>r s'. (\<exists>ty. T ty) \<longrightarrow> (\<forall>ts. r = Inr ts \<longrightarrow> list_all (one_namespace E) ts)) s" for s
  proof (cases "\<exists>ty. T ty")
    case True
    with assms have "one_namespace_templates E" by (simp add: countable_types_def)
    then show ?thesis by (intro wp_mono [OF fetched_all_one]) auto
  qed (simp add: wp_any)
  show ?thesis
    unfolding ensure_namespaces_def
    apply (rule cautious_still_bind [OF emits_get_mem])
    apply (rule cautious_with_value, rule fetch_not, simp)
     apply (rule fail, rule emits_rules, simp)
    unfolding with_value_def
    apply (rule cautious_known_bind [OF _ known], rule getTierTemplates_not, simp, simp)
    apply (rule cautious_case_sum, rule fail, rule emits_rules, simp)
    apply (rule cautious_case_option, rule provision_next_cautious, simp)
    apply (rule cautious_unless_err, rule emits_rules, simp)
    apply (rule delete)
    done
qed

interpretation namespaces_step: cautious_step "ensure_namespaces E" "ns_change (\<lambda>_. False)"
  by unfold_locales (rule ensure_namespaces_cautious [OF countable_none])

lemma getSpaceRolesObjects_not [emits_rules]:
  assumes "\<And>ns n b. P (GetTierTemplateRevision ns n, b)" "\<And>ns n b. P (GetTierTemplate ns n, b)"
  shows "emits P (getSpaceRolesObjects E n rs)"
  using assms by (induction rs) (auto intro!: emits_rules)

lemma store_applied_cautious: "cautious (ns_change T) nothing_done (store_applied E ns)"
  unfolding store_applied_def
  apply (rule cautious_still_bind [OF emits_get_mem])
  apply (rule cautious_case_sum)
   apply (rule cautious_still, (rule emits_rules)+, simp, rule emits_rules)
  apply (rule cautious_call_err_bind)
    apply (simp add: option.case, rule cautious_still, (rule emits_rules)+, simp, rule emits_rules)
   apply (auto intro!: emits_rules delete_never)
  done

lemma fail_cautious:
  "(\<And>m. still P (upd m)) \<Longrightarrow>
   cautious P q (do { err \<leftarrow> wrapErrorWithStatusUpdate upd e fmt; ret (f err) })"
  by (rule cautious_still) (auto intro!: emits_rules)

lemma fail_cautious2:
  "(\<And>nt. \<not> P (UpdateStatus nt)) \<Longrightarrow>
   cautious P q (do { err \<leftarrow> wrapErrorWithStatusUpdateForSpaceRolesFailure E e fmt; ret (f err) })"
  by (rule cautious_still) (auto intro!: emits_rules)

lemma ensure_roles_in_cautious: "cautious (ns_change T) nothing_done (ensure_roles_in E ns)"
  unfolding ensure_roles_in_def
  apply (rule cautious_still_bind [OF emits_get_mem])
  apply (rule cautious_case_sum, rule cautious_return)
  apply (rule cautious_unless_err, (rule emits_rules)+, simp, rule emits_rules)
  apply (rule cautious_with_value, rule emits_rules, simp, simp)
   apply (rule fail_cautious2, simp)
  apply (rule cautious_still_bind [OF emits_get_mem])
  apply (rule cautious_with_value, rule emits_rules, simp, simp)
   apply (rule fail_cautious2, simp)
  apply (rule cautious_still_bind, rule apply_all_not, simp, simp, simp, simp)
  apply (rule cautious_case_option)
   apply (rule cautious_still_bind, rule deleteObsolete_not, simp)
   apply (rule cautious_case_option)
    apply (rule cautious_if, rule store_applied_cautious, rule cautious_return)
   apply (rule fail_cautious, rule emits_rules, simp)+
  done

lemma ensure_roles_each_cautious: "cautious (ns_change T) nothing_done (ensure_roles_each E nss)"
proof (induction nss)
  case Nil
  then show ?case by (simp add: cautious_return)
next
  case (Cons ns nss)
  then show ?case
    unfolding ensure_roles_each.simps
    by (intro cautious_bind [OF ensure_roles_in_cautious])
       (auto simp: done_iff intro!: cautious_if cautious_return never_return emits_return)
qed

lemma ensure_roles_cautious: "cautious (ns_change T) nothing_done (ensure_roles E)"
  unfolding ensure_roles_def
  apply (rule cautious_still_bind [OF emits_get_mem])
  apply (rule cautious_with_value, rule fetch_not, simp)
   apply (rule fail_cautious, rule emits_rules, simp)
  apply (rule ensure_roles_each_cautious)
  done

interpretation roles_step: cautious_step "ensure_roles E" "ns_change (\<lambda>_. False)"
  by unfold_locales (rule ensure_roles_cautious)

text \<open>The object applier and the cluster resources touch no namespace of a tier.\<close>

lemma processTierTemplate_not [emits_rules]:
  assumes "\<And>ns n b. P (GetTierTemplateRevision ns n, b)" "\<And>ns n b. P (GetTierTemplate ns n, b)"
  shows "emits P (processTierTemplate E c n)"
  unfolding processTierTemplate_def using assms by (auto intro!: emits_rules)

lemma failureStatusReason_not [emits_rules]:
  "(\<And>nt b. P (UpdateStatus nt, b)) \<Longrightarrow> emits P (failureStatusReason E oa m)"
  unfolding failureStatusReason_def by (auto intro: emits_rules)

lemma changeStatus_not [emits_rules]:
  "(\<And>nt b. P (UpdateStatus nt, b)) \<Longrightarrow> emits P (changeStatusIfNeeded E oa)"
  unfolding changeStatusIfNeeded_def by (auto intro!: emits_rules)

lemma Apply_not:
  assumes "\<And>obj nt t b. P (ApplyObject obj (cluster_labels E nt t), b)" "\<And>obj b. P (GetObject obj, b)"
    "\<And>obj b. P (CreateObject obj, b)" "\<And>obj b. P (UpdateObject obj, b)" "\<And>nt b. P (UpdateStatus nt, b)"
  shows "emits P (Apply E oa obj)"
  unfolding Apply_def apply_cluster_def ApplyToolchainObjects_def
  using assms by (auto split: option.split intro!: emits_rules apply_objects_emits simp del: apply_objects.simps)

lemma apply_each_not [emits_rules]:
  assumes "\<And>obj nt t b. P (ApplyObject obj (cluster_labels E nt t), b)" "\<And>obj b. P (GetObject obj, b)"
    "\<And>obj b. P (CreateObject obj, b)" "\<And>obj b. P (UpdateObject obj, b)" "\<And>nt b. P (UpdateStatus nt, b)"
  shows "emits P (apply_each E oa objs)"
  by (induction objs arbitrary: oa) (auto intro!: emits_rules Apply_not assms)

lemma Cleanup_not [emits_rules]:
  assumes "\<And>obj b. P (DeleteObject obj, b)" "\<And>nt b. P (UpdateStatus nt, b)"
  shows "emits P (Cleanup E oa)"
  unfolding Cleanup_def using assms by (auto intro!: emits_rules)

lemma ensure_cluster_still: "countable_types E T \<Longrightarrow> still (ns_change T) (ensure_cluster E)"
  unfolding ensure_cluster_def by (auto simp: cluster_labels_count simp del: ns_change.simps(3) intro!: emits_rules)

lemma setProvisioned_still [emits_rules]: "still (ns_change T) (setProvisionedNamespaceList E)"
  unfolding setProvisionedNamespaceList_def by (auto intro!: emits_rules)

lemma ensure_step_cautious:
  assumes "cautious P nothing_done m" and "cautious P always_false k"
  shows "cautious P always_false (ensure_step m k)"
  unfolding ensure_step_def
  by (rule cautious_bind [OF assms(1)])
     (use assms(2) in \<open>auto simp: done_iff split: option.splits intro!: cautious_return never_False emits_return\<close>)

lemma ensure_all_cautious:
  assumes "countable_types E T"
  shows "cautious (ns_change T) always_false (ensure_all E)"
  unfolding ensure_all_def
  by (intro cautious_unless_err ensure_step_cautious ensure_namespaces_cautious [OF assms] ensure_roles_cautious ensure_cluster_still [OF assms]
      cautious_still_bind cautious_return emits_rules) simp_all

section \<open>What is left of the object\<close>

text \<open>A status update leaves the name, the annotations and the spec.\<close>

abbreviation nstt_spec :: "nstt \<Rightarrow> string \<times> smap option \<times> string \<times> string list \<times> string option \<times> space_role list" where
  "nstt_spec nt \<equiv> (m_name (nt_meta nt), m_annotations (nt_meta nt), nt_tier nt, nt_namespaces nt, nt_cluster nt, nt_roles nt)"

definition status_keeps_spec :: "nenv \<Rightarrow> bool" where
  "status_keeps_spec E \<longleftrightarrow> (\<forall>tr a b. ne_update_status E tr a = Inr b \<longrightarrow> nstt_spec b = nstt_spec a)"

lemma write_status_keeps [keeps_rules]: "status_keeps_spec E \<Longrightarrow> keeps nstt_spec (write_status E)"
  by (rule wp_keeps)
     (auto simp: write_status_def wp_simps status_keeps_spec_def split: sum.splits)

lemma setReady_keeps [keeps_rules]: "status_keeps_spec E \<Longrightarrow> keeps nstt_spec (setReady E st r m)"
proof (rule wp_keeps)
  fix s
  assume E: "status_keeps_spec E"
  show "wp (setReady E st r m) (\<lambda>r s'. nstt_spec (mem s') = nstt_spec (mem s)) s"
    unfolding setReady_def updateStatusConditions_def
    by (auto simp: wp_simps split: prod.splits intro!: wp_mono [OF keeps_wp [OF write_status_keeps [OF E]]])
qed

lemma set_status_keeps [keeps_rules]:
  assumes "status_keeps_spec E"
  shows "keeps nstt_spec (setStatusReady E)" "keeps nstt_spec (setStatusProvisionFailed E m)"
    "keeps nstt_spec (setStatusNamespaceProvisionFailed E m)"
    "keeps nstt_spec (setStatusClusterResourcesProvisionFailed E m)"
    "keeps nstt_spec (setStatusSpaceRolesProvisionFailed E m)" "keeps nstt_spec (setStatusTerminating E)"
    "keeps nstt_spec (setStatusUpdateFailed E m)" "keeps nstt_spec (setStatusTerminatingFailed E m)"
    "keeps nstt_spec (setStatusProvisioningIfNotUpdating E)" "keeps nstt_spec (setStatusUpdatingIfNotProvisioning E)"
  unfolding set_defs setStatusProvisioningIfNotUpdating_def setStatusUpdatingIfNotProvisioning_def
  using assms by (auto intro!: keeps_rules)

lemma wrap_keeps [keeps_rules]:
  "(\<And>m. keeps f (upd m)) \<Longrightarrow> keeps f (wrapErrorWithStatusUpdate upd e fmt)"
  unfolding wrapErrorWithStatusUpdate_def by (auto intro!: keeps_rules)

lemma getTierTemplate_keeps [keeps_rules]: "keeps f (getTierTemplate E ref)"
  unfolding getTierTemplate_def getTierTemplateRevision_def getToolchainTierTemplate_def
  by (auto intro!: keeps_rules)

lemma processTierTemplate_keeps [keeps_rules]: "keeps f (processTierTemplate E c n)"
  unfolding processTierTemplate_def by (auto intro!: keeps_rules)

lemma apply_objects_keeps [keeps_rules]: "keeps f (apply_objects E objs l any)"
  by (induction objs arbitrary: any) (auto simp: apply_service_account_def Let_def intro!: keeps_rules)

lemma apply_cluster_keeps [keeps_rules]: "keeps f (apply_cluster E t obj)"
  unfolding apply_cluster_def ApplyToolchainObjects_def
  by (auto intro!: keeps_rules simp del: apply_objects.simps)

lemma deleteObsolete_keeps [keeps_rules]: "keeps f (deleteObsoleteObjects E curs news)"
  by (induction curs) (auto intro!: keeps_rules)

section \<open>Obsolete objects\<close>

text \<open>The objects a trace deletes, in order.\<close>

fun deletions :: "ntrace \<Rightarrow> kobj list" where
  "deletions [] = []"
| "deletions ((DeleteObject obj, ok) # t) = obj # deletions t"
| "deletions (_ # t) = deletions t"

lemma deletions_append [simp]: "deletions (t @ u) = deletions t @ deletions u"
  by (induction t rule: deletions.induct) auto

lemma deletions_none: "list_all (\<lambda>(c, ok). \<forall>obj. c \<noteq> DeleteObject obj) t \<Longrightarrow> deletions t = []"
  by (induction t rule: deletions.induct) auto

abbreviation no_deletion :: "ncall \<times> bool \<Rightarrow> bool" where
  "no_deletion \<equiv> \<lambda>(c, ok). \<forall>obj. c \<noteq> DeleteObject obj"

lemma no_deletion_wp:
  "emits no_deletion m \<Longrightarrow> wp m (\<lambda>r s'. \<exists>t. calls s' = calls s @ t \<and> deletions t = []) s"
  by (rule wp_mono [OF emits_wp], assumption) (auto intro: deletions_none)

lemma deleteObsolete_deletions:
  "wp (deleteObsoleteObjects E curs news) (\<lambda>r s'. \<exists>t. calls s' = calls s @ t \<and> prefix (deletions t)
     (filter (\<lambda>c. \<not> list_ex (ne_same E c) news) curs) \<and>
     (r = None \<longrightarrow> deletions t = filter (\<lambda>c. \<not> list_ex (ne_same E c) news) curs)) s"
proof (induction curs arbitrary: s)
  case Nil
  then show ?case by (simp add: wp_simps)
next
  case (Cons c curs)
  show ?case
  proof (cases "list_ex (ne_same E c) news")
    case True
    with Cons.IH show ?thesis by simp
  next
    case False
    have next_one: "wp (deleteObsoleteObjects E curs news) (\<lambda>r s'. \<exists>t. calls s' = calls s @ t \<and>
        prefix (deletions t) (c # filter (\<lambda>c. \<not> list_ex (ne_same E c) news) curs) \<and>
        (r = None \<longrightarrow> deletions t = c # filter (\<lambda>c. \<not> list_ex (ne_same E c) news) curs))
      (log_call (DeleteObject c) ok s)" for ok
      by (rule wp_mono [OF Cons.IH]) force
    have e: "(\<lambda>new. ne_same E c new) = ne_same E c" by (rule ext) simp
    from False next_one show ?thesis
      by (auto simp: wp_simps split: option.splits)
  qed
qed

definition obj_key :: "kobj \<Rightarrow> gvk \<times> string" where
  "obj_key obj = (o_gvk obj, m_name (o_meta obj))"

lemma same_key: "same_lib E \<Longrightarrow> ne_same E a b \<longleftrightarrow> obj_key a = obj_key b"
  by (simp add: same_lib_def obj_key_def)

lemma remove_same_filter:
  assumes "same_lib E" and "distinct (map obj_key curs)"
  shows "remove_same E obj curs = filter (\<lambda>c. \<not> ne_same E c obj) curs"
  using assms(2)
proof (induction curs)
  case Nil
  then show ?case by simp
next
  case (Cons c curs)
  then have "obj_key c \<noteq> obj_key x" if "x \<in> set curs" for x
    using that by (metis distinct.simps(2) image_eqI list.set_map list.simps(9))
  then have "ne_same E c obj \<Longrightarrow> filter (\<lambda>c. \<not> ne_same E c obj) curs = curs"
    by (intro filter_True) (metis assms(1) same_key)
  with Cons show ?case by simp
qed

definition obsolete :: "nenv \<Rightarrow> nstt \<Rightarrow> kobj list \<Rightarrow> kobj \<Rightarrow> bool" where
  "obsolete E nt news c \<longleftrightarrow> \<not> list_ex (\<lambda>new. shouldCreate E new nt \<and> ne_same E c new) news"

lemma changeStatus_result:
  assumes "status_keeps_spec E"
  shows "wp (changeStatusIfNeeded E oa) (\<lambda>(oa', e) s'. oa_current oa' = oa_current oa \<and> oa_first oa' = oa_first oa \<and>
     oa_new oa' = oa_new oa \<and> nstt_spec (mem s') = nstt_spec (mem s) \<and>
     (\<exists>t. calls s' = calls s @ t \<and> deletions t = [])) s"
proof -
  have status: "wp m (\<lambda>e s'. nstt_spec (mem s') = nstt_spec (mem s) \<and>
      (\<exists>t. calls s' = calls s @ t \<and> deletions t = [])) s"
    if "keeps nstt_spec m" "emits no_deletion m" for m :: "err option nprog"
    by (rule wp_conj [OF keeps_wp [OF that(1)] no_deletion_wp [OF that(2)]])
  show ?thesis
    unfolding changeStatusIfNeeded_def
    by (auto simp: wp_simps split: option.splits
        intro!: wp_mono [OF status] keeps_rules emits_rules assms)
qed

text \<open>Applying the new objects leaves exactly the obsolete ones, and deletes nothing.\<close>

lemma apply_cluster_no_deletion: "emits no_deletion (apply_cluster E t obj)"
  unfolding apply_cluster_def ApplyToolchainObjects_def
  by (auto intro!: emits_rules apply_objects_emits simp del: apply_objects.simps)

lemma shouldCreate_spec: "nstt_spec a = nstt_spec b \<Longrightarrow> shouldCreate E obj a = shouldCreate E obj b"
  by (auto simp: shouldCreate_def split: option.splits)

lemma Apply_result:
  assumes "status_keeps_spec E" and "same_lib E" and "distinct (map obj_key (oa_current oa))"
  shows "wp (Apply E oa obj) (\<lambda>(oa', e) s'. (\<exists>t. calls s' = calls s @ t \<and> deletions t = []) \<and>
     nstt_spec (mem s') = nstt_spec (mem s) \<and>
     (e = None \<longrightarrow> oa_current oa' = filter (\<lambda>c. \<not> (shouldCreate E obj (mem s) \<and> ne_same E c obj)) (oa_current oa))) s"
proof (cases "shouldCreate E obj (mem s)")
  case False
  then show ?thesis by (simp add: Apply_def wp_simps)
next
  case True
  let ?oa = "oa\<lparr>oa_current := remove_same E obj (oa_current oa)\<rparr>"
  have rest: "wp m (\<lambda>r s2. (\<exists>t. calls s2 = calls s @ t \<and> deletions t = []) \<and> nstt_spec (mem s2) = nstt_spec (mem s)) s1"
    if "emits no_deletion m" "keeps nstt_spec m" "\<exists>t. calls s1 = calls s @ t \<and> deletions t = []"
      "nstt_spec (mem s1) = nstt_spec (mem s)" for m :: "'x nprog" and s1
    by (rule wp_mono [OF wp_conj [OF no_deletion_wp [OF that(1)] keeps_wp [OF that(2)]]])
       (use that(3,4) in auto)
  have wrapped: "wp (wrapErrorWithStatusUpdate (failureStatusReason E x) (Some e) f)
      (\<lambda>r s2. r \<noteq> None \<and> (\<exists>t. calls s2 = calls s @ t \<and> deletions t = []) \<and> nstt_spec (mem s2) = nstt_spec (mem s)) s1"
    if "\<exists>t. calls s1 = calls s @ t \<and> deletions t = []" "nstt_spec (mem s1) = nstt_spec (mem s)" for x e f s1
  proof (rule wp_mono [OF wp_conj [OF nwrap_result rest [OF _ _ that]]])
    show "emits no_deletion (wrapErrorWithStatusUpdate (failureStatusReason E x) (Some e) f)"
      by (auto intro!: emits_rules)
    show "keeps nstt_spec (wrapErrorWithStatusUpdate (failureStatusReason E x) (Some e) f)"
      unfolding failureStatusReason_def using assms(1) by (auto intro!: keeps_rules)
  qed auto
  have cluster: "wp (apply_cluster E t obj) (\<lambda>r s2. (\<exists>t. calls s2 = calls s @ t \<and> deletions t = []) \<and>
      nstt_spec (mem s2) = nstt_spec (mem s)) s1"
    if "\<exists>t. calls s1 = calls s @ t \<and> deletions t = []" "nstt_spec (mem s1) = nstt_spec (mem s)" for t s1
    by (rule rest [OF apply_cluster_no_deletion apply_cluster_keeps that])
  show ?thesis
    unfolding Apply_def wp_bind wp_get_mem
    by (simp only: True not_True_eq_False if_False wp_bind)
       (rule wp_mono [OF changeStatus_result [OF assms(1), of ?oa]],
        auto simp: True wp_simps remove_same_filter [OF assms(2,3)] split: prod.splits option.splits
          intro!: wp_mono [OF cluster] wp_mono [OF wrapped])
qed

lemma apply_each_result:
  assumes "status_keeps_spec E" and "same_lib E" and "distinct (map obj_key (oa_current oa))"
    and "nstt_spec (mem s) = nstt_spec nt"
  shows "wp (apply_each E oa objs) (\<lambda>(oa', e) s'. (\<exists>t. calls s' = calls s @ t \<and> deletions t = []) \<and>
     (e = None \<longrightarrow> oa_current oa' = filter (obsolete E nt objs) (oa_current oa))) s"
  using assms(3,4)
proof (induction objs arbitrary: oa s)
  case Nil
  then show ?case by (simp add: wp_simps obsolete_def)
next
  case (Cons obj objs)
  have create: "shouldCreate E obj (mem s) = shouldCreate E obj nt"
    by (rule shouldCreate_spec [OF Cons.prems(2)])
  have split: "filter (obsolete E nt (obj # objs)) (oa_current oa) =
      filter (obsolete E nt objs) (filter (\<lambda>c. \<not> (shouldCreate E obj (mem s) \<and> ne_same E c obj)) (oa_current oa))"
    by (auto simp: obsolete_def create intro: filter_cong)
  show ?case
    unfolding apply_each.simps wp_bind
  proof (rule wp_mono [OF Apply_result [OF assms(1,2) Cons.prems(1)]], clarify, goal_cases)
    case (1 oa' e s1 t)
    show ?case
    proof (cases e)
      case None
      with 1 have cur: "oa_current oa' = filter (\<lambda>c. \<not> (shouldCreate E obj (mem s) \<and> ne_same E c obj)) (oa_current oa)"
        by simp
      have d: "distinct (map obj_key (oa_current oa'))"
        unfolding cur using Cons.prems(1) by (rule distinct_map_filter)
      have "nstt_spec (mem s1) = nstt_spec nt" using 1 Cons.prems(2) by simp
      from wp_mono [OF Cons.IH [OF d this]] show ?thesis
        unfolding None prod.case option.case split cur
        by (rule wp_mono) (use 1 in auto)
    qed (use 1 in \<open>auto simp: wp_simps\<close>)
  qed
qed

lemma Cleanup_result:
  assumes "status_keeps_spec E"
  shows "wp (Cleanup E oa) (\<lambda>r s'. r = None \<longrightarrow> (\<exists>t. calls s' = calls s @ t \<and> deletions t = oa_current oa)) s"
proof -
  have del: "wp (deleteObsoleteObjects E (oa_current oa') [])
      (\<lambda>r s2. wp (wrapErrorWithStatusUpdate (failureStatusReason E oa') r f)
        (\<lambda>r s'. r = None \<longrightarrow> (\<exists>t. calls s' = calls s @ t \<and> deletions t = oa_current oa)) s2) s1"
    if "oa_current oa' = oa_current oa" "\<exists>t. calls s1 = calls s @ t \<and> deletions t = []" for oa' f s1
  proof (rule wp_mono [OF deleteObsolete_deletions], goal_cases)
    case (1 r s2)
    show ?case
    proof (cases r)
      case None
      with 1 that show ?thesis by (auto simp: wrapErrorWithStatusUpdate_def wp_simps)
    next
      case (Some e)
      show ?thesis unfolding Some by (rule wp_mono [OF nwrap_result]) simp
    qed
  qed
  show ?thesis
  proof (cases "oa_current oa = []")
    case True
    have "wp (do { err \<leftarrow> deleteObsoleteObjects E (oa_current oa) [];
        wrapErrorWithStatusUpdate (failureStatusReason E oa) err ''failure while syncing cluster resources'' })
      (\<lambda>r s'. r = None \<longrightarrow> (\<exists>t. calls s' = calls s @ t \<and> deletions t = oa_current oa)) s"
      unfolding wp_bind by (rule del) auto
    then show ?thesis by (simp add: Cleanup_def True)
  next
    case False
    show ?thesis
      unfolding Cleanup_def if_P [OF False] wp_bind
    proof (rule wp_mono [OF changeStatus_result [OF assms]], clarify, goal_cases)
      case (1 oa' e s1 t)
      show ?case
      proof (cases e)
        case None
        show ?thesis
          unfolding None prod.case option.case wp_bind by (rule del) (use 1 in auto)
      qed (simp add: wp_simps)
    qed
  qed
qed

lemma ensure_cluster_deletions:
  assumes "status_keeps_spec E" and "same_lib E"
    and changed: "getOldAndNewTemplateRefsIfChanged E (mem s) = (old, new, True)"
    and news: "run_state (processTierTemplate E (nt_cluster (mem s)) (m_name (nt_meta (mem s)))) s = (Inr (t, newObjs), s1)"
    and curs: "run_state (processTierTemplate E (st_cluster (mem s)) (m_name (nt_meta (mem s)))) s1 = (Inr (t', curObjs), s2)"
    and "distinct (map obj_key curObjs)"
    and run: "run_state (ensure_cluster E) s = (None, s3)"
  shows "\<exists>u. calls s3 = calls s2 @ u \<and> deletions u = filter (obsolete E (mem s) newObjs) curObjs"
proof -
  have m: "mem s1 = mem s" "mem s2 = mem s"
    using keepsD [OF processTierTemplate_keeps [where f = "\<lambda>x. x"] news]
      keepsD [OF processTierTemplate_keeps [where f = "\<lambda>x. x"] curs] by simp_all
  let ?oa = "newObjectApplier (mem s) curObjs t"
  have step: "run_state (ensure_cluster E) s = run_state (do {
      (oa, err) \<leftarrow> apply_each E ?oa newObjs;
      (case err of Some e \<Rightarrow> ret (Some e) | None \<Rightarrow> Cleanup E oa) }) s2"
    using changed news curs by (simp add: ensure_cluster_def with_value_def)
  have "wp (do { (oa, err) \<leftarrow> apply_each E ?oa newObjs;
      (case err of Some e \<Rightarrow> ret (Some e) | None \<Rightarrow> Cleanup E oa) })
    (\<lambda>r s'. r = None \<longrightarrow> (\<exists>u. calls s' = calls s2 @ u \<and> deletions u = filter (obsolete E (mem s) newObjs) curObjs)) s2"
    unfolding wp_bind
  proof (rule wp_mono [OF apply_each_result [where nt = "mem s", OF assms(1,2)]], goal_cases)
    case 1
    then show ?case using assms(6) by (simp add: newObjectApplier_def)
  next
    case 2
    then show ?case by (simp add: m)
  next
    case (3 r s')
    then show ?case
      by (auto simp: wp_simps newObjectApplier_def split: prod.splits option.splits
          intro!: wp_mono [OF Cleanup_result [OF assms(1)]])
  qed
  with run show ?thesis unfolding step by (auto simp: wp_def)
qed

section \<open>Deleting an NSTemplateSet\<close>

lemma delete_each_not [emits_rules]:
  assumes "\<And>obj b. P (DeleteObject obj, b)" "\<And>obj b. P (GetObject obj, b)" "\<And>nt b. P (UpdateStatus nt, b)"
  shows "emits P (delete_each E objs)"
  using assms by (induction objs) (auto intro!: emits_rules)

lemma delete_cluster_not [emits_rules]:
  assumes "\<And>obj b. P (DeleteObject obj, b)" "\<And>obj b. P (GetObject obj, b)" "\<And>nt b. P (UpdateStatus nt, b)"
    "\<And>ns n b. P (GetTierTemplateRevision ns n, b)" "\<And>ns n b. P (GetTierTemplate ns n, b)"
  shows "emits P (delete_cluster E)"
  unfolding delete_cluster_def using assms by (auto intro!: emits_rules)

lemma delete_each_keeps [keeps_rules]: "status_keeps_spec E \<Longrightarrow> keeps nstt_spec (delete_each E objs)"
  by (induction objs) (auto intro!: keeps_rules)

lemma wrap_failure_keeps [keeps_rules]:
  assumes "status_keeps_spec E"
  shows "keeps nstt_spec (wrapErrorWithStatusUpdateForClusterResourceFailure E e fmt)"
    "keeps nstt_spec (wrapErrorWithStatusUpdateForSpaceRolesFailure E e fmt)"
  unfolding wrapErrorWithStatusUpdateForClusterResourceFailure_def
    wrapErrorWithStatusUpdateForSpaceRolesFailure_def
  using assms by (auto intro!: keeps_rules)

lemma delete_cluster_keeps [keeps_rules]: "status_keeps_spec E \<Longrightarrow> keeps nstt_spec (delete_cluster E)"
  unfolding delete_cluster_def by (auto intro!: keeps_rules)

lemma clear_keeps [keeps_rules]:
  assumes "status_keeps_spec E"
  shows "keeps nstt_spec (clearStatusClusterResources E)"
proof (rule wp_keeps)
  fix s
  show "wp (clearStatusClusterResources E) (\<lambda>r s'. nstt_spec (mem s') = nstt_spec (mem s)) s"
    unfolding clearStatusClusterResources_def
    by (auto simp: wp_simps split: option.splits intro!: wp_mono [OF keeps_wp [OF write_status_keeps [OF assms]]])
qed

text \<open>
  The finalizer goes only when the list of namespaces, asked for last before the update, came back
  empty: the calls are \<open>t\<close>, the list, the update, and perhaps a status write.
\<close>

definition finalizer_step :: "nenv \<Rightarrow> string \<Rightarrow> ntrace \<Rightarrow> ntrace \<Rightarrow> bool" where
  "finalizer_step E name tr new \<longleftrightarrow> (\<exists>t u nt ok. new = t @ [(ListNamespaces name, True), (UpdateNSTemplateSet nt, ok)] @ u \<and>
     ne_list_namespaces E (tr @ t) name = Inr [] \<and> list_all (\<lambda>(c, ok). is_status_write c) u \<and>
     list_all (\<lambda>(c, ok). \<forall>n. c \<noteq> DeleteNamespace n) t)"

abbreviation no_update :: "ncall \<times> bool \<Rightarrow> bool" where
  "no_update \<equiv> \<lambda>(c, ok). \<forall>x. c \<noteq> UpdateNSTemplateSet x"

lemma ensureDeleted_no_update: "emits no_update (ensureDeleted E)"
  unfolding ensureDeleted_def by (auto split: list.split intro!: emits_rules)

lemma ensureDeleted_all:
  "wp (ensureDeleted E) (\<lambda>(all, e) s'. all \<and> e = None \<longrightarrow>
     ne_list_namespaces E (calls s) (m_name (nt_meta (mem s))) = Inr [] \<and>
     calls s' = calls s @ [(ListNamespaces (m_name (nt_meta (mem s))), True)] \<and> mem s' = mem s) s"
proof -
  show ?thesis
  proof (cases "ne_list_namespaces E (calls s) (m_name (nt_meta (mem s)))")
    case (Inl e)
    show ?thesis
      unfolding ensureDeleted_def fetchNamespacesByOwner_def wp_bind wp_get_mem wp_with_value wp_call Inl sum.case wp_return
      by (rule wp_any) simp
  next
    case (Inr nss)
    show ?thesis
    proof (cases "sort_key (\<lambda>ns. m_name (ns_meta ns)) nss")
      case Nil
      then have "nss = []" by (metis length_0_conv length_sort)
      with Inr show ?thesis
        by (simp add: ensureDeleted_def fetchNamespacesByOwner_def wp_simps)
    next
      case (Cons ns rest)
      show ?thesis
        unfolding ensureDeleted_def fetchNamespacesByOwner_def wp_bind wp_get_mem wp_with_value wp_call Inr sum.case
          wp_return Cons list.case
        by (cases "IsBeingDeleted (ne_lib E) (ns_meta ns)")
           (simp_all add: wp_return wp_bind wp_call_err, rule wp_any, simp add: wp_return)
    qed
  qed
qed

lemma remove_finalizer_calls:
  "wp (remove_finalizer E) (\<lambda>r s'. \<exists>nt ok u. calls s' = calls s @ (UpdateNSTemplateSet nt, ok) # u \<and>
     list_all (\<lambda>(c, ok). is_status_write c) u) s"
proof -
  have wrap: "emits (\<lambda>(c, ok). is_status_write c) (wrapErrorWithStatusUpdate (setStatusTerminatingFailed E) e f)" for e f
    by (auto intro!: emits_rules)
  show ?thesis
    unfolding remove_finalizer_def
    by (auto simp: wp_simps Let_def split: sum.splits intro!: wp_mono [OF emits_wp [OF wrap]])
qed

lemma delete_namespaces_finalizer:
  assumes "name = m_name (nt_meta (mem s))"
  shows "wp (delete_namespaces E) (\<lambda>r s'. \<exists>new. calls s' = calls s @ new \<and>
     ((\<exists>nt ok. (UpdateNSTemplateSet nt, ok) \<in> set new) \<longrightarrow>
       ne_list_namespaces E (calls s) name = Inr [] \<and>
       (\<exists>nt ok u. new = [(ListNamespaces name, True), (UpdateNSTemplateSet nt, ok)] @ u \<and>
          list_all (\<lambda>(c, ok). is_status_write c) u))) s"
    (is "wp _ (\<lambda>r s'. ?Q s') _")
proof -
  have quiet: "?Q s2" if "calls s2 = calls s @ t" "list_all no_update t" for s2 t
    using that by (intro exI [of _ t]) (auto simp: list_all_iff)
  have stay: "wp m (\<lambda>r s'. ?Q s') s1" if "emits no_update m" "calls s1 = calls s @ t" "list_all no_update t"
    for m :: "'x nprog" and s1 t
  proof (rule wp_mono [OF emits_wp [OF that(1)]], elim exE conjE)
    fix r u and s2 :: "(nstt, ncall) st"
    assume "calls s2 = calls s1 @ u" "list_all no_update u"
    then show "?Q s2" using that(2,3) by (intro quiet [of s2 "t @ u"]) simp_all
  qed
  have both: "wp (ensureDeleted E) (\<lambda>r s'. (\<exists>t. calls s' = calls s @ t \<and> list_all no_update t) \<and>
      (fst r \<and> snd r = None \<longrightarrow> ne_list_namespaces E (calls s) name = Inr [] \<and>
         calls s' = calls s @ [(ListNamespaces name, True)] \<and> mem s' = mem s)) s"
    by (rule wp_conj [OF emits_wp [OF ensureDeleted_no_update]], rule wp_mono [OF ensureDeleted_all])
       (auto simp: assms split: prod.splits)
  show ?thesis
    unfolding delete_namespaces_def wp_bind
  proof (rule wp_mono [OF both], clarify, goal_cases)
    case (1 all e s1 t)
    have fin: "wp (remove_finalizer E) (\<lambda>r s'. ?Q s') s1" if "all" "e = None"
      by (rule wp_mono [OF remove_finalizer_calls]) (use 1 that in auto)
    show ?case
    proof (cases e)
      case (Some x)
      show ?thesis
        unfolding Some prod.case option.case wp_bind
        by (rule stay [OF _ 1(2,3), THEN wp_mono]) (auto simp: wp_simps intro!: emits_rules)
    next
      case None
      show ?thesis
      proof (cases all)
        case True
        then show ?thesis using None fin by simp
      next
        case False
        then show ?thesis
          using None quiet [OF 1(2,3)] by (simp add: wp_simps)
      qed
    qed
  qed
qed

abbreviation quiet_call :: "ncall \<times> bool \<Rightarrow> bool" where
  "quiet_call \<equiv> \<lambda>(c, ok). (\<forall>x. c \<noteq> UpdateNSTemplateSet x) \<and> (\<forall>n. c \<noteq> DeleteNamespace n)"

lemma deleteNSTemplateSet_finalizer:
  assumes "status_keeps_spec E" and "name = m_name (nt_meta (mem s))"
  shows "wp (deleteNSTemplateSet E) (\<lambda>r s'. \<exists>new. calls s' = calls s @ new \<and>
     ((\<exists>nt ok. (UpdateNSTemplateSet nt, ok) \<in> set new) \<longrightarrow> finalizer_step E name (calls s) new)) s"
    (is "wp _ (\<lambda>r s'. ?Q s') _")
proof -
  let ?R = "\<lambda>s'. (\<exists>t. calls s' = calls s @ t \<and> list_all quiet_call t) \<and> name = m_name (nt_meta (mem s'))"
  have R: "wp m (\<lambda>r s'. ?R s') s1" if "emits quiet_call m" "keeps nstt_spec m" "?R s1"
    for m :: "err option nprog" and s1
    by (rule wp_mono [OF wp_conj [OF emits_wp [OF that(1)] keeps_wp [OF that(2)]]]) (use that(3) in auto)
  have RQ: "?Q s1" if R: "?R s1" for s1
  proof -
    from R obtain t where "calls s1 = calls s @ t" "list_all quiet_call t" by blast
    then show ?thesis by (intro exI [of _ t]) (auto simp: list_all_iff)
  qed
  have wrapQ: "wp (wrapErrorWithStatusUpdate (setStatusTerminatingFailed E) e f) (\<lambda>r s'. ?Q s') s1" if "?R s1" for e f s1
  proof -
    have "wp (wrapErrorWithStatusUpdate (setStatusTerminatingFailed E) e f) (\<lambda>r s'. ?R s') s1"
      by (rule R [OF _ _ that]) (use assms(1) in \<open>auto intro!: emits_rules keeps_rules\<close>)
    then show ?thesis by (rule wp_mono) (rule RQ)
  qed
  have last: "wp (delete_namespaces E) (\<lambda>r s'. ?Q s') s1" if R: "?R s1" for s1
  proof -
    from R obtain t where t: "calls s1 = calls s @ t" "list_all quiet_call t" and n: "name = m_name (nt_meta (mem s1))"
      by blast
    have none: "(UpdateNSTemplateSet nt, ok) \<notin> set t" for nt ok
      using t(2) by (auto simp: list_all_iff)
    have td: "list_all (\<lambda>(c, ok). \<forall>n. c \<noteq> DeleteNamespace n) t"
      using t(2) by (auto simp: list_all_iff)
    show ?thesis
    proof (rule wp_mono [OF delete_namespaces_finalizer [OF n]], elim exE conjE)
      fix r new and s2 :: "(nstt, ncall) st"
      assume s2: "calls s2 = calls s1 @ new"
        and fin: "(\<exists>nt ok. (UpdateNSTemplateSet nt, ok) \<in> set new) \<longrightarrow> ne_list_namespaces E (calls s1) name = Inr [] \<and>
          (\<exists>nt ok u. new = [(ListNamespaces name, True), (UpdateNSTemplateSet nt, ok)] @ u \<and>
             list_all (\<lambda>(c, ok). is_status_write c) u)"
      have "finalizer_step E name (calls s) (t @ new)" if "(UpdateNSTemplateSet nt, ok) \<in> set (t @ new)" for nt ok
      proof -
        have "(UpdateNSTemplateSet nt, ok) \<in> set new" using that none by simp
        with fin obtain nt' ok' u where "ne_list_namespaces E (calls s1) name = Inr []"
          "new = [(ListNamespaces name, True), (UpdateNSTemplateSet nt', ok')] @ u"
          "list_all (\<lambda>(c, ok). is_status_write c) u" by blast
        then show ?thesis
          unfolding finalizer_step_def using t(1) td by (intro exI [of _ t] exI [of _ u]) auto
      qed
      then show "?Q s2" using s2 t(1) by (intro exI [of _ "t @ new"]) auto
    qed
  qed
  have start: "?R s" using assms(2) by simp
  have clear: "wp (clearStatusClusterResources E) (\<lambda>e s'. ?R s') s1" if "?R s1" for s1
    by (rule R [OF _ _ that]) (use assms(1) in \<open>auto intro!: emits_rules keeps_rules\<close>)
  have cluster: "wp (delete_cluster E) (\<lambda>e s'. ?R s') s1" if "?R s1" for s1
    by (rule R [OF _ _ that]) (use assms(1) in \<open>auto intro!: emits_rules keeps_rules\<close>)
  have terminating: "wp (setStatusTerminating E) (\<lambda>e s'. ?R s') s"
    by (rule R [OF _ _ start]) (use assms(1) in \<open>auto intro!: emits_rules keeps_rules\<close>)
  have c3: "wp (do { err \<leftarrow> clearStatusClusterResources E;
      (case err of
         Some e \<Rightarrow> do {
           err \<leftarrow> wrapErrorWithStatusUpdate (setStatusTerminatingFailed E) (Some e) ''failed to clear ClusterResources status'';
           ret (0, err) }
       | None \<Rightarrow> delete_namespaces E) }) (\<lambda>r s'. ?Q s') s1" if "?R s1" for s1
    unfolding wp_bind
  proof (rule wp_mono [OF clear [OF that]])
    fix e and s2 :: "(nstt, ncall) st" assume R2: "?R s2"
    show "wp (case e of
         Some e \<Rightarrow> do {
           err \<leftarrow> wrapErrorWithStatusUpdate (setStatusTerminatingFailed E) (Some e) ''failed to clear ClusterResources status'';
           ret (0, err) }
       | None \<Rightarrow> delete_namespaces E) (\<lambda>r s'. ?Q s') s2"
    proof (cases e)
      case None
      show ?thesis unfolding None option.case by (rule last [OF R2])
    next
      case (Some x)
      show ?thesis unfolding Some option.case wp_bind wp_return by (rule wrapQ [OF R2])
    qed
  qed
  have c2: "wp (unless_err (delete_cluster E) (\<lambda>e. (0, Some e)) k) (\<lambda>r s'. ?Q s') s1"
    if "?R s1" "\<And>s2. ?R s2 \<Longrightarrow> wp k (\<lambda>r s'. ?Q s') s2" for k :: "(int \<times> err option) nprog" and s1
    unfolding wp_unless_err
  proof (rule wp_mono [OF cluster [OF that(1)]])
    fix e and s2 :: "(nstt, ncall) st" assume R2: "?R s2"
    show "case e of Some e \<Rightarrow> ?Q s2 | None \<Rightarrow> wp k (\<lambda>r s'. ?Q s') s2"
    proof (cases e)
      case None
      show ?thesis unfolding None option.case by (rule that(2) [OF R2])
    next
      case (Some x)
      show ?thesis unfolding Some option.case by (rule RQ [OF R2])
    qed
  qed
  show ?thesis
  proof (cases "HasFinalizer (ne_lib E) (nt_meta (mem s)) FinalizerName")
    case False
    then show ?thesis using RQ [OF start] by (simp add: deleteNSTemplateSet_def wp_simps)
  next
    case True
    then have h: "\<not> \<not> HasFinalizer (ne_lib E) (nt_meta (mem s)) FinalizerName" by simp
    show ?thesis
      unfolding deleteNSTemplateSet_def wp_bind wp_get_mem if_not_P [OF h] wp_bind
    proof (rule wp_mono [OF terminating])
      fix e and s2 :: "(nstt, ncall) st" assume R2: "?R s2"
      show "wp (case e of
          Some e \<Rightarrow> do {
            err \<leftarrow> wrapErrorWithStatusUpdate (setStatusTerminatingFailed E) (Some e)
              (''failed to set status to '' @ quoted ''ready=false/reason=terminating'' @ '' on NSTemplateSet'');
            ret (0, err)
          }
        | None \<Rightarrow>
            unless_err (delete_cluster E) (\<lambda>e. (0, Some e))
              (do {
                 err \<leftarrow> clearStatusClusterResources E;
                 (case err of
                    Some e \<Rightarrow> do {
                      err \<leftarrow> wrapErrorWithStatusUpdate (setStatusTerminatingFailed E) (Some e)
                        ''failed to clear ClusterResources status'';
                      ret (0, err)
                    }
                  | None \<Rightarrow> delete_namespaces E)
               })) (\<lambda>r s'. ?Q s') s2"
      proof (cases e)
        case None
        show ?thesis unfolding None option.case by (rule c2 [OF R2 c3])
      next
        case (Some x)
        show ?thesis unfolding Some option.case wp_bind wp_return by (rule wrapQ [OF R2])
      qed
    qed
  qed
qed

section \<open>Deleting namespaces\<close>

lemma ensureDeleted_cautious: "cautious (ns_change T) always_false (ensureDeleted E)"
  unfolding ensureDeleted_def
  apply (rule cautious_still_bind [OF emits_get_mem])
  apply (rule cautious_with_value, rule fetch_not, simp)
   apply (rule fail_cautious, rule emits_rules, simp)
  apply (auto split: list.split intro!: cautious_return cautious_if cautious_call_err_bind fail_cautious
      emits_rules never_False)
  done

lemma remove_finalizer_still: "still (ns_change T) (remove_finalizer E)"
  unfolding remove_finalizer_def by (auto simp: Let_def intro!: emits_rules)

lemma delete_namespaces_cautious: "cautious (ns_change T) always_false (delete_namespaces E)"
proof -
  have "emits (\<lambda>(c, ok). True) (ensureDeleted E)"
    by (rule emits_mono [OF ensureDeleted_no_update]) simp
  have rest: "still (ns_change T) (case r of (allDeleted, err) \<Rightarrow> (case err of
        Some e \<Rightarrow> do {
          err \<leftarrow> wrapErrorWithStatusUpdate (setStatusTerminatingFailed E) (Some e) ''failed to ensure namespace deletion'';
          ret (0, err)
        }
      | None \<Rightarrow>
          if \<not> allDeleted
          then do {
            nt \<leftarrow> get_mem;
            now \<leftarrow> clock (ne_now E);
            if sat64 (now - (case m_deletion (nt_meta nt) of Some d \<Rightarrow> d | None \<Rightarrow> 0)) > 60 * second
            then ret (0, Some (Msg ''NSTemplateSet deletion has not completed in over 1 minute''))
            else ret (second, None)
          }
          else remove_finalizer E))" for r
    by (auto split: prod.splits intro!: emits_rules remove_finalizer_still)
  show ?thesis
    unfolding delete_namespaces_def
    by (rule cautious_bind [OF ensureDeleted_cautious]) (use rest in \<open>auto intro: never_False\<close>)
qed

lemma deleteNSTemplateSet_cautious: "cautious (ns_change T) always_false (deleteNSTemplateSet E)"
  unfolding deleteNSTemplateSet_def
  apply (rule cautious_still_bind [OF emits_get_mem])
  apply (rule cautious_if, rule cautious_return)
  apply (rule cautious_still_bind, rule emits_rules, simp)
  apply (rule cautious_case_option)
   apply (rule cautious_unless_err, rule delete_cluster_not, simp_all)
   apply (rule cautious_still_bind, rule emits_rules, simp)
   apply (rule cautious_case_option, rule delete_namespaces_cautious)
   apply (rule fail_cautious, rule emits_rules, simp)+
  done

lemma nstt_addFinalizer_still: "still (ns_change T) (addFinalizer E)"
  unfolding addFinalizer_def by (auto simp: Let_def intro!: emits_rules)

lemma nstt_Reconcile_cautious:
  assumes "countable_types E T"
  shows "cautious (ns_change T) always_false (NSController.Reconcile E ns name)"
  unfolding Reconcile_def
  apply (rule cautious_case_sum, rule cautious_return)
  apply (rule cautious_still_bind, rule emits_rules, simp)
  apply (rule cautious_case_sum)
   apply (rule cautious_if, (rule cautious_return)+)
  apply (rule cautious_still_bind, rule emits_rules)
  apply (rule cautious_if, rule deleteNSTemplateSet_cautious)
  apply (rule cautious_unless_err, rule nstt_addFinalizer_still, rule ensure_all_cautious [OF assms])
  done

abbreviation no_ns_deletion :: "ncall \<times> bool \<Rightarrow> bool" where
  "no_ns_deletion \<equiv> \<lambda>(c, ok). \<forall>n. c \<noteq> DeleteNamespace n"

lemma provision_next_no_deletion: "emits no_ns_deletion (provision_next E ts nss)"
proof -
  have inner: "emits no_ns_deletion (ensureInnerNamespaceResources E t ns)" for t ns
    unfolding ensureInnerNamespaceResources_def by (auto intro!: emits_rules)
  have "emits no_ns_deletion (ensureNamespace E t ns)" for t ns
    unfolding ensureNamespace_def by (auto intro!: emits_rules inner)
  then show ?thesis
    unfolding provision_next_def by (auto intro!: emits_rules split: option.split)
qed

lemma next_deprovision:
  assumes "nextNamespaceToDeprovision tmpls nss = Some ns"
  shows "ns \<in> set nss" "type_of ns \<notin> t_type ` set tmpls"
  using assms by (auto simp: nextNamespaceToDeprovision_def find_Some_iff list_ex_iff)

text \<open>Why a namespace may be deleted: it is one of the space's, and no template has its type.\<close>

definition unwanted :: "nenv \<Rightarrow> (nstt, ncall) st \<Rightarrow> string \<Rightarrow> bool" where
  "unwanted E s n \<longleftrightarrow> (\<exists>nss ns tmpls.
     ne_list_namespaces E (calls s) (m_name (nt_meta (mem s))) = Inr nss \<and> ns \<in> set nss \<and> m_name (ns_meta ns) = n \<and>
     fst (run_state (getTierTemplatesForAllNamespaces E) (log_call (ListNamespaces (m_name (nt_meta (mem s)))) True s)) = Inr tmpls \<and>
     type_of ns \<notin> t_type ` set tmpls)"

lemma ensure_namespaces_deletions:
  "wp (ensure_namespaces E) (\<lambda>r s'. \<exists>t. calls s' = calls s @ t \<and>
     (\<forall>n ok. (DeleteNamespace n, ok) \<in> set t \<longrightarrow> unwanted E s n)) s"
    (is "wp _ (\<lambda>r s'. ?Q s') s")
proof -
  let ?R = "\<lambda>s'. \<exists>t. calls s' = calls s @ t \<and> list_all no_ns_deletion t"
  have weak: "?Q s1" if "?R s1" for s1
    using that by (fastforce simp: list_all_iff)
  have R: "wp m (\<lambda>r s'. ?R s') s1" if "emits no_ns_deletion m" "?R s1" for m :: "'x nprog" and s1
    by (rule wp_mono [OF emits_wp [OF that(1)]]) (use that(2) in auto)
  have still: "wp m (\<lambda>r s'. ?Q s') s1" if "emits no_ns_deletion m" "?R s1" for m :: "'x nprog" and s1
    by (rule wp_mono [OF R [OF that]]) (rule weak)
  let ?name = "m_name (nt_meta (mem s))"
  show ?thesis
  proof (cases "ne_list_namespaces E (calls s) ?name")
    case (Inl e)
    show ?thesis
      unfolding ensure_namespaces_def fetchNamespacesByOwner_def wp_bind wp_get_mem wp_with_value wp_call Inl sum.case wp_return
      by (rule still) (auto intro!: emits_rules)
  next
    case (Inr nss)
    let ?s1 = "log_call (ListNamespaces ?name) True s"
    have R1: "?R ?s1" by simp
    have tmpl: "wp (getTierTemplatesForAllNamespaces E)
        (\<lambda>r s'. ?R s' \<and> r = fst (run_state (getTierTemplatesForAllNamespaces E) ?s1)) ?s1"
      by (rule wp_conj [OF R [OF _ R1]]) (auto intro!: emits_rules wpI)
    show ?thesis
      unfolding ensure_namespaces_def fetchNamespacesByOwner_def wp_bind wp_get_mem wp_with_value wp_call Inr sum.case
        wp_return isl_def
    proof (simp, rule wp_mono [OF tmpl [simplified]], goal_cases)
      case (1 r s2)
      then have R2: "?R s2" by simp
      show ?case
      proof (cases r)
        case (Inl e)
        show ?thesis
          unfolding Inl sum.case by (rule still [OF _ R2]) (auto intro!: emits_rules)
      next
        case tm: (Inr tmpls)
        let ?nss = "sort_key (\<lambda>ns. m_name (ns_meta ns)) nss"
        show ?thesis
        proof (cases "nextNamespaceToDeprovision tmpls ?nss")
          case None
          show ?thesis
            unfolding tm sum.case None option.case by (rule still [OF provision_next_no_deletion R2])
        next
          case (Some ns)
          have u: "unwanted E s (m_name (ns_meta ns))"
            unfolding unwanted_def using Inr next_deprovision [OF Some] 1 tm
            by (intro exI [of _ nss] exI [of _ ns] exI [of _ tmpls]) simp
          have mid: "\<exists>t. calls s3 = calls s @ t \<and> (\<forall>n ok. (DeleteNamespace n, ok) \<in> set t \<longrightarrow> unwanted E s n)"
            if "calls s3 = calls s2' @ [(DeleteNamespace (m_name (ns_meta ns)), b)] @ v" "?R s2'" "list_all no_ns_deletion v"
            for s2' s3 :: "(nstt, ncall) st" and b v
          proof -
            from that(2) obtain t where "calls s2' = calls s @ t" "list_all no_ns_deletion t" by blast
            then show ?thesis
              using that(1,3) u
              by (intro exI [of _ "t @ [(DeleteNamespace (m_name (ns_meta ns)), b)] @ v"]) (fastforce simp: list_all_iff)
          qed
          have fail: "wp (wrapErrorWithStatusUpdate (setStatusUpdateFailed E) (Some e) f) (\<lambda>x s'. ?Q s') s3"
            if "\<exists>t. calls s3 = calls s @ t \<and> (\<forall>n ok. (DeleteNamespace n, ok) \<in> set t \<longrightarrow> unwanted E s n)" for e f s3
          proof (rule wp_mono [OF emits_wp [of no_ns_deletion]])
            show "emits no_ns_deletion (wrapErrorWithStatusUpdate (setStatusUpdateFailed E) (Some e) f)"
              by (auto intro!: emits_rules)
          next
            fix x and s4 :: "(nstt, ncall) st" assume "\<exists>t. calls s4 = calls s3 @ t \<and> list_all no_ns_deletion t"
            then obtain v where v: "calls s4 = calls s3 @ v" "list_all no_ns_deletion v" by blast
            from that obtain t where "calls s3 = calls s @ t"
              "\<forall>n ok. (DeleteNamespace n, ok) \<in> set t \<longrightarrow> unwanted E s n" by blast
            then show "?Q s4" using v by (intro exI [of _ "t @ v"]) (fastforce simp: list_all_iff)
          qed
          have "wp (setStatusUpdatingIfNotProvisioning E) (\<lambda>x s'. ?R s') s2"
            by (rule R [OF _ R2]) (auto intro!: emits_rules)
          then show ?thesis
            unfolding tm sum.case Some option.case wp_unless_err
          proof (rule wp_mono, goal_cases)
            case (1 x s3)
            show ?case
            proof (cases x)
              case None
              have m: "\<exists>t. calls (log_call (DeleteNamespace (m_name (ns_meta ns))) b s3) = calls s @ t \<and>
                (\<forall>n ok. (DeleteNamespace n, ok) \<in> set t \<longrightarrow> unwanted E s n)" for b
                by (rule mid [OF _ 1, of _ b "[]"]) simp_all
              show ?thesis
              proof (cases "ne_exec E (calls s3) (DeleteNamespace (m_name (ns_meta ns)))")
                case e: None
                show ?thesis
                  unfolding None option.case wp_bind wp_call_err e wp_return by (rule m)
              next
                case (Some e)
                show ?thesis
                  unfolding None option.case wp_bind wp_call_err Some wp_return by (rule fail [OF m])
              qed
            qed (use weak [OF 1] in auto)
          qed
        qed
      qed
    qed
  qed
qed

section \<open>Parameters and applications\<close>

lemma foldl_update: "map_of (foldl (\<lambda>m (k, v). AList.update k v m) m p) k =
    (case map_of (rev p) k of Some v \<Rightarrow> Some v | None \<Rightarrow> map_of m k)"
proof (induction p rule: rev_induct)
  case Nil
  then show ?case by simp
next
  case (snoc x p)
  then show ?case by (cases x) (auto simp: update_conv' split: option.splits)
qed

fun applications :: "ntrace \<Rightarrow> kobj list" where
  "applications [] = []"
| "applications ((ApplyObject obj l, ok) # t) = obj # applications t"
| "applications (_ # t) = applications t"

lemma applications_append [simp]: "applications (t @ u) = applications t @ applications u"
  by (induction t rule: applications.induct) auto

lemma apply_service_account_not:
  assumes "\<And>obj b. P (GetObject obj, b)" "\<And>obj b. P (CreateObject obj, b)" "\<And>obj b. P (UpdateObject obj, b)"
  shows "emits P (apply_service_account E obj l)"
  unfolding apply_service_account_def Let_def using assms by (auto intro!: emits_rules)

lemma no_applications: "list_all (\<lambda>(c, ok). \<forall>obj l. c \<noteq> ApplyObject obj l) t \<Longrightarrow> applications t = []"
  by (induction t rule: applications.induct) auto

lemma apply_objects_applications:
  "wp (apply_objects E objs l any) (\<lambda>(b, e) s'. \<exists>t. calls s' = calls s @ t \<and>
     prefix (applications t) (filter (\<lambda>x. wanted E x \<and> \<not> service_account x) objs) \<and>
     (e = None \<longrightarrow> applications t = filter (\<lambda>x. wanted E x \<and> \<not> service_account x) objs \<and> b = (any \<or> list_ex (wanted E) objs))) s"
proof (induction objs arbitrary: any s)
  case Nil
  then show ?case by (simp add: wp_simps)
next
  case (Cons obj objs)
  let ?f = "filter (\<lambda>x. wanted E x \<and> \<not> service_account x)"
  have rest: "wp (apply_objects E objs l True) (\<lambda>(b, e) s'. \<exists>t. calls s' = calls s @ t \<and>
      prefix (applications t) (a @ ?f objs) \<and> (e = None \<longrightarrow> applications t = a @ ?f objs \<and> b)) s1"
    if "calls s1 = calls s @ u" "applications u = a" for s1 u a
    by (rule wp_mono [OF Cons.IH]) (use that in force)
  show ?case
  proof (cases "wanted E obj")
    case False
    then show ?thesis using Cons.IH [of any s] by (auto simp: wanted_def)
  next
    case True
    then have w: "\<not> (lookup (m_annotations (o_meta obj)) TierTemplateObjectOptionalResourceAnnotation \<noteq> None \<and>
        \<not> apiGroupIsPresent (ne_groups E) (o_gvk obj))"
      by (auto simp: wanted_def)
    show ?thesis
    proof (cases "service_account obj")
      case sa: True
      have "wp (apply_service_account E obj l) (\<lambda>r s'. \<exists>t. calls s' = calls s @ t \<and> applications t = []) s"
        by (rule wp_mono [OF emits_wp [OF apply_service_account_not [of "\<lambda>(c, ok). \<forall>obj l. c \<noteq> ApplyObject obj l"]]])
           (auto intro: no_applications)
      then show ?thesis
        unfolding apply_objects.simps if_not_P [OF w] if_P [OF sa [unfolded service_account_def]] wp_unless_err
        by (rule wp_mono) (use True sa rest [of _ _ "[]"] in \<open>auto split: option.split\<close>)
    next
      case sa: False
      have c: "wp (apply_objects E objs l True) (\<lambda>(b, e) s'. \<exists>t. calls s' = calls s @ t \<and>
          prefix (applications t) (obj # ?f objs) \<and> (e = None \<longrightarrow> applications t = obj # ?f objs \<and> b))
          (log_call (ApplyObject obj l) ok s)" for ok
        using rest [of "log_call (ApplyObject obj l) ok s" "[(ApplyObject obj l, ok)]" "[obj]"] by simp
      show ?thesis
        unfolding apply_objects.simps if_not_P [OF w] if_not_P [OF sa [unfolded service_account_def]] wp_unless_err wp_call_err
        using True sa c by (auto split: option.split)
    qed
  qed
qed

end
