(* ===== verification/NSSpec.thy ===== *)
theory NSSpec
  imports NSProofs "HOL-Library.Multiset"
begin

text \<open>
  The properties of the NSTemplateSet controller, with instances at a concrete space: which namespaces and
  cluster resources go and when, what the status holds, which templates and parameters are used, what is applied.
\<close>

section \<open>A concrete cluster\<close>

definition demo_obj :: "string \<Rightarrow> string \<Rightarrow> kobj" where
  "demo_obj kind n = \<lparr>o_gvk = \<lparr>k_group = ''g'', k_version = ''v1'', k_kind = kind\<rparr>, o_meta = new_meta [] n, o_body = []\<rparr>"

definition demo_ns :: "string \<Rightarrow> string \<Rightarrow> namespace" where
  "demo_ns n typ = \<lparr>ns_meta = (new_meta [] n)\<lparr>m_labels := Some [(TypeLabelKey, typ), (SpaceLabelKey, ''john'')]\<rparr>,
     ns_active = True\<rparr>"

definition demo_nstt :: nstt where
  "demo_nstt = \<lparr>nt_meta = (new_meta ''member'' ''john'')\<lparr>m_finalizers := [FinalizerName]\<rparr>, nt_tier = ''base'',
     nt_namespaces = [''dev''], nt_cluster = Some ''new'', nt_roles = [],
     st_conds = [], st_namespaces = [], st_cluster = Some ''old'', st_roles = [], st_features = [],
     st_provisioned = []\<rparr>"

text \<open>A template named \<open>r\<close> has the type \<open>r\<close> and the objects \<open>objs r\<close>; the namespaces are \<open>nss\<close>.\<close>

definition demo_nenv :: "(string \<Rightarrow> kobj list) \<Rightarrow> namespace list \<Rightarrow> nenv" where
  "demo_nenv objs nss = \<lparr>ne_lib = ref_lib NoReason, ne_now = (\<lambda>t. int t * second), ne_watch_ns = Inr ''member'',
     ne_groups = [(''g'', [''v1''])], ne_host = (\<lambda>tr. Inr ''host''), ne_get_nstt = (\<lambda>tr ns n. Inr demo_nstt),
     ne_update_nstt = (\<lambda>tr nt. Inr nt), ne_update_status = (\<lambda>tr nt. Inr nt),
     ne_list_namespaces = (\<lambda>tr n. Inr nss),
     ne_get_ttr = (\<lambda>tr ns n. Inl (StatusErr ''NotFound'' n)),
     ne_get_tt = (\<lambda>tr ns n. Inr \<lparr>tt_tier_name = ''base'', tt_type = n, tt_template = n\<rparr>),
     ne_get_object = (\<lambda>tr obj. Inr obj), ne_list_roles = (\<lambda>tr n. Inr []), ne_list_rolebindings = (\<lambda>tr n. Inr []),
     ne_exec = (\<lambda>tr c. None),
     ne_same = (\<lambda>a b. o_gvk a = o_gvk b \<and> m_name (o_meta a) = m_name (o_meta b)),
     ne_split = (\<lambda>s. if s = [] then [] else [s]),
     ne_merge_labels = (\<lambda>obj l. obj), ne_merge_annotations = (\<lambda>obj l. obj),
     ne_process = (\<lambda>t p f. Inr (objs t)), ne_filter = (\<lambda>f obj. True), ne_yaml = (\<lambda>r. Inr (demo_obj ''k'' r)),
     ne_parse = Inr, ne_execute = (\<lambda>t p. Inr t), ne_decode = (\<lambda>t. Inr (demo_obj ''k'' t)),
     ne_marshal = (\<lambda>rs. Inr ''[]''), ne_unmarshal = (\<lambda>s. Inr []),
     ne_cluster_type = ''clusterresources'', ne_default_type = ''default''\<rparr>"

lemmas nstt_demo_defs = demo_obj_def demo_ns_def demo_nstt_def demo_nenv_def new_meta_def

lemma demo_keeps: "status_keeps_spec (demo_nenv objs nss)"
  by (simp add: status_keeps_spec_def demo_nenv_def)

lemma demo_default: "ne_default_type (demo_nenv objs nss) = ''default''"
  by (simp add: demo_nenv_def)

lemma demo_same: "same_lib (demo_nenv objs nss)"
  by (simp add: same_lib_def demo_nenv_def)

section \<open>Namespaces\<close>

text \<open>
  C21: a reconcile of an NSTemplateSet deletes or updates at most one namespace object, whatever the cluster answers and
  whatever path it takes (provisioning, update, space roles, deletion).  Where no template that the host cluster has contains more than one namespace
  object, those that are created or updated by being applied count too: deletions, updates and applications of namespaces of the tier together
  are at most one.  (An object is applied as such a namespace when its type label is not the type of the cluster resources.)
\<close>

theorem one_namespace_change_per_reconcile:
  "\<exists>t. calls (snd (run_state (Reconcile E ns name) s)) = calls s @ t \<and> changes (ns_change (\<lambda>ty. False)) t \<le> 1 \<and>
     (one_namespace_templates E \<longrightarrow> changes (ns_change (\<lambda>ty. ty \<noteq> ne_cluster_type E)) t \<le> 1)"
proof -
  obtain r s' where run: "run_state (Reconcile E ns name) s = (r, s')" by (cases "run_state (Reconcile E ns name) s")
  have "countable_types E (\<lambda>ty. ty \<noteq> ne_cluster_type E)" if "one_namespace_templates E"
    using that by (simp add: countable_types_def)
  note counted = cautiousD [OF nstt_Reconcile_cautious [OF this] run]
  from cautiousD [OF nstt_Reconcile_cautious [OF countable_none] run] counted run show ?thesis by fastforce
qed

text \<open>The first reconcile of a space applies its namespace, the only change it makes to one.\<close>

definition applying_nenv :: nenv where
  "applying_nenv = demo_nenv (\<lambda>r. [demo_obj ''Namespace'' r]) []"

lemma applying_one: "one_namespace_templates applying_nenv"
  by (simp add: one_namespace_templates_def applying_nenv_def demo_nenv_def)

theorem one_namespace_change_per_reconcile_witness:
  "\<exists>t. calls (snd (run_state (Reconcile applying_nenv ''member'' ''john'') (fresh demo_nstt))) = t \<and>
     changes (ns_change (\<lambda>ty. ty \<noteq> ne_cluster_type applying_nenv)) t \<le> 1"
  using one_namespace_change_per_reconcile [of applying_nenv "''member''" "''john''" "fresh demo_nstt"] applying_one by fastforce

text \<open>
  C24: a namespace that \<open>namespacesManager.ensure\<close> asks to delete is one that the list of the space's
  namespaces contains and whose type label is the type of none of the templates of the spec.
\<close>

theorem only_unwanted_namespaces_are_deleted:
  assumes "run_state (ensure_namespaces E) s = (r, s')" and "calls s' = calls s @ t"
    and "(DeleteNamespace n, ok) \<in> set t"
  shows "\<exists>nss ns tmpls.
     ne_list_namespaces E (calls s) (m_name (nt_meta (mem s))) = Inr nss \<and> ns \<in> set nss \<and> m_name (ns_meta ns) = n \<and>
     fst (run_state (getTierTemplatesForAllNamespaces E)
       (log_call (ListNamespaces (m_name (nt_meta (mem s)))) True s)) = Inr tmpls \<and>
     type_of ns \<notin> t_type ` set tmpls"
  using wpD [OF ensure_namespaces_deletions assms(1)] assms(2,3) by (auto simp: unwanted_def)

theorem only_unwanted_namespaces_are_deleted_witness:
  "let E = demo_nenv (\<lambda>r. []) [demo_ns ''john-dev'' ''dev'', demo_ns ''john-stage'' ''stage''] in
   \<exists>ns tmpls. m_name (ns_meta ns) = ''john-stage'' \<and> type_of ns \<notin> t_type ` set tmpls \<and>
     fst (run_state (getTierTemplatesForAllNamespaces E) (log_call (ListNamespaces ''john'') True (fresh demo_nstt))) = Inr tmpls"
proof -
  let ?E = "demo_nenv (\<lambda>r. []) [demo_ns ''john-dev'' ''dev'', demo_ns ''john-stage'' ''stage'']"
  let ?r = "run_state (ensure_namespaces ?E) (fresh demo_nstt)"
  have "calls (snd ?r) = calls (fresh demo_nstt) @ calls (snd ?r)" by simp
  moreover have "(DeleteNamespace ''john-stage'', True) \<in> set (calls (snd ?r))"
    by (simp add: nstt_demo_defs ensure_namespaces_def fetchNamespacesByOwner_def with_value_def unless_err_def
        getTierTemplatesForAllNamespaces_def getTierTemplate_def getTierTemplateRevision_def getToolchainTierTemplate_def
        nextNamespaceToDeprovision_def type_of_def setStatusUpdatingIfNotProvisioning_def setReady_def
        updateStatusConditions_def write_status_def ref_lib_def mk_cond_def)
  ultimately show ?thesis
    using only_unwanted_namespaces_are_deleted [of ?E "fresh demo_nstt" "fst ?r" "snd ?r" "calls (snd ?r)" "''john-stage''" True]
    by (auto simp: demo_nstt_def new_meta_def Let_def)
qed

text \<open>
  \<open>ensureDeleted\<close> looks at the first namespace by name only: while that one is being deleted it
  deletes no other one and reports that it is not done, although the comment speaks of "some namespace
  which is not already in terminating state".
\<close>

theorem terminating_namespace_blocks_the_others:
  assumes "ne_list_namespaces E (calls s) (m_name (nt_meta (mem s))) = Inr nss" and "ns \<in> set nss"
    and "\<forall>x \<in> set nss. x = ns \<or> m_name (ns_meta ns) < m_name (ns_meta x)"
    and "IsBeingDeleted (ne_lib E) (ns_meta ns)"
  shows "run_state (ensureDeleted E) s =
    ((False, None), log_call (ListNamespaces (m_name (nt_meta (mem s)))) True s)"
proof -
  let ?key = "\<lambda>x. m_name (ns_meta x)"
  obtain n rest where l: "sort_key ?key nss = n # rest"
    using assms(2) by (metis empty_iff length_0_conv length_sort list.exhaust list.set(1))
  have "sorted (map ?key (n # rest))" by (metis l sorted_sort_key)
  moreover have "set (n # rest) = set nss" by (metis l set_sort)
  ultimately have "?key n \<le> ?key ns" "n \<in> set nss" using assms(2) by auto
  then have "n = ns" using assms(3) by (metis leD)
  with l assms(1,4) show ?thesis
    by (simp add: ensureDeleted_def fetchNamespacesByOwner_def with_value_def)
qed

theorem terminating_namespace_blocks_the_others_witness:
  "let b = demo_ns ''b'' ''dev'';
       a = (demo_ns ''a'' ''dev'')\<lparr>ns_meta := (new_meta [] ''a'')\<lparr>m_deletion := Some 0\<rparr>\<rparr> in
   run_state (ensureDeleted (demo_nenv (\<lambda>r. []) [b, a])) (fresh demo_nstt)
     = ((False, None), log_call (ListNamespaces ''john'') True (fresh demo_nstt))"
proof -
  let ?a = "(demo_ns ''a'' ''dev'')\<lparr>ns_meta := (new_meta [] ''a'')\<lparr>m_deletion := Some 0\<rparr>\<rparr>"
  show ?thesis
    using terminating_namespace_blocks_the_others [of "demo_nenv (\<lambda>r. []) [demo_ns ''b'' ''dev'', ?a]" "fresh demo_nstt"
        "[demo_ns ''b'' ''dev'', ?a]" ?a]
    by (simp add: nstt_demo_defs ref_lib_def Let_def less_char_def)
qed

text \<open>
  C23: the finalizer of an NSTemplateSet being deleted is removed only in a reconcile that deleted no
  namespace and whose list of the space's namespaces, the last call before the update, came back empty;
  after the update the reconcile writes the status at most.
\<close>

theorem finalizer_removed_last:
  assumes "status_keeps_spec E" and "run_state (deleteNSTemplateSet E) s = (r, s')" and "calls s' = calls s @ new"
    and "(UpdateNSTemplateSet nt, ok) \<in> set new"
  shows "finalizer_step E (m_name (nt_meta (mem s))) (calls s) new"
  using wpD [OF deleteNSTemplateSet_finalizer [OF assms(1) refl] assms(2)] assms(3,4) by auto

theorem finalizer_removed_last_witness:
  "let E = demo_nenv (\<lambda>r. []) [] in
     finalizer_step E ''john'' [] (calls (snd (run_state (deleteNSTemplateSet E) (fresh demo_nstt))))"
proof -
  let ?E = "demo_nenv (\<lambda>r. []) []"
  let ?r = "run_state (deleteNSTemplateSet ?E) (fresh demo_nstt)"
  have c: "calls (snd ?r) = calls (fresh demo_nstt) @ calls (snd ?r)" by simp
  have "\<exists>nt. (UpdateNSTemplateSet nt, True) \<in> set (calls (snd ?r))"
    by (simp add: nstt_demo_defs deleteNSTemplateSet_def setStatusTerminating_def setReady_def updateStatusConditions_def
        write_status_def ref_lib_def mk_cond_def delete_cluster_def processTierTemplate_def with_value_def unless_err_def
        getTierTemplate_def getTierTemplateRevision_def getToolchainTierTemplate_def process_def
        clearStatusClusterResources_def delete_namespaces_def ensureDeleted_def fetchNamespacesByOwner_def
        remove_finalizer_def Let_def)
  then obtain nt where "(UpdateNSTemplateSet nt, True) \<in> set (calls (snd ?r))" by blast
  then show ?thesis
    using finalizer_removed_last [of ?E "fresh demo_nstt" "fst ?r" "snd ?r" "calls (snd ?r)" nt True] c
    by (simp add: demo_keeps Let_def demo_nstt_def new_meta_def)
qed

section \<open>Cluster resources\<close>

text \<open>
  C22: when \<open>clusterResourcesManager.ensure\<close> succeeds after a change of the template or of the features, it
  has asked to delete exactly the objects of the template applied last that are obsolete, in their order: those
  of which the new template has no object of the same kind and name whose feature (if any) is enabled.
\<close>

theorem cluster_cleanup_is_exact:
  assumes "status_keeps_spec E" and "same_lib E"
    and "getOldAndNewTemplateRefsIfChanged E (mem s) = (old, new, True)"
    and "run_state (processTierTemplate E (nt_cluster (mem s)) (m_name (nt_meta (mem s)))) s = (Inr (t, newObjs), s1)"
    and "run_state (processTierTemplate E (st_cluster (mem s)) (m_name (nt_meta (mem s)))) s1 = (Inr (t', curObjs), s2)"
    and "distinct (map obj_key curObjs)"
    and "run_state (ensure_cluster E) s = (None, s3)"
  shows "\<exists>u. calls s3 = calls s2 @ u \<and>
    deletions u = filter (\<lambda>c. \<not> (\<exists>n \<in> set newObjs. shouldCreate E n (mem s) \<and> obj_key c = obj_key n)) curObjs"
proof -
  have "obsolete E (mem s) newObjs = (\<lambda>c. \<not> (\<exists>n \<in> set newObjs. shouldCreate E n (mem s) \<and> obj_key c = obj_key n))"
    by (rule ext) (auto simp: obsolete_def list_ex_iff same_key [OF assms(2)])
  with ensure_cluster_deletions [OF assms] show ?thesis by simp
qed

lemma demo_cluster:
  assumes "ref \<noteq> []"
  shows "run_state (processTierTemplate (demo_nenv objs nss) (Some ref) n) s =
     (Inr (Some \<lparr>t_ref = ref, t_tier = ''base'', t_type = ref, t_template = ref, t_ttr = None\<rparr>, objs ref),
      log_call (GetTierTemplate ''host'' ref) True (log_call (GetTierTemplateRevision ''host'' ref) False s))"
  using assms by (simp add: processTierTemplate_def with_value_def getTierTemplate_def getTierTemplateRevision_def
      getToolchainTierTemplate_def demo_nenv_def ref_lib_def process_def)

definition demo_templates :: "string \<Rightarrow> kobj list" where
  "demo_templates ref = (if ref = ''old'' then [demo_obj ''Quota'' ''a'', demo_obj ''Quota'' ''b'']
     else [demo_obj ''Quota'' ''b'', demo_obj ''Quota'' ''c''])"

theorem cluster_cleanup_is_exact_witness:
  "let E = demo_nenv demo_templates [] in
   deletions (calls (snd (run_state (ensure_cluster E) (fresh demo_nstt)))) = [demo_obj ''Quota'' ''a'']"
proof -
  let ?E = "demo_nenv demo_templates []"
  let ?s = "fresh demo_nstt :: (nstt, ncall) st"
  let ?r = "run_state (ensure_cluster ?E) ?s"
  have c: "nt_cluster (mem ?s) = Some ''new''" "st_cluster (mem ?s) = Some ''old''" "m_name (nt_meta (mem ?s)) = ''john''"
    by (simp_all add: demo_nstt_def new_meta_def)
  have m: "mem ?s = demo_nstt" by simp
  have d: "nt_cluster demo_nstt = Some ''new''" "st_cluster demo_nstt = Some ''old''" "m_name (nt_meta demo_nstt) = ''john''"
    by (simp_all add: demo_nstt_def new_meta_def)
  have changed: "getOldAndNewTemplateRefsIfChanged ?E (mem ?s) = (''old'', ''new'', True)"
    by (simp add: getOldAndNewTemplateRefsIfChanged_def demo_nstt_def)
  have fin: "fst ?r = None"
    by (simp add: ensure_cluster_def with_value_def changed [unfolded m] d demo_cluster del: fresh_simps(1) add: m)
       (simp add: nstt_demo_defs demo_templates_def newObjectApplier_def Apply_def
        shouldCreate_def changeStatusIfNeeded_def setStatusUpdatingIfNotProvisioning_def setReady_def
        updateStatusConditions_def write_status_def ref_lib_def mk_cond_def apply_cluster_def
        ApplyToolchainObjects_def Cleanup_def wrapErrorWithStatusUpdate_def unless_err_def equal_fold_def fold_char_def)
  then have run: "run_state (ensure_cluster ?E) ?s = (None, snd ?r)" by (simp add: prod_eq_iff)
  have "distinct (map obj_key (demo_templates ''old''))"
    by (simp add: demo_templates_def obj_key_def demo_obj_def new_meta_def)
  moreover have "filter (\<lambda>c. \<not> (\<exists>n \<in> set (demo_templates ''new''). shouldCreate ?E n (mem ?s) \<and> obj_key c = obj_key n))
      (demo_templates ''old'') = [demo_obj ''Quota'' ''a'']"
    by (simp add: demo_templates_def obj_key_def demo_obj_def new_meta_def shouldCreate_def)
  ultimately show ?thesis
    using cluster_cleanup_is_exact [OF demo_keeps demo_same changed, unfolded c demo_cluster [OF list.distinct(2)],
        OF refl refl _ run]
    by (auto simp: Let_def)
qed

section \<open>The status\<close>

text \<open>
  C25: the feature toggles of the annotation differ from those in the status exactly as sets; the list that
  goes into the status is sorted, without duplicates, and has the same members, and with it in the status
  nothing is left to update.
\<close>

theorem features_follow_the_annotation:
  "let anno = ne_split E (lookup0 (m_annotations (nt_meta nt)) FeatureToggleNameAnnotationKey);
       fs = snd (featureAnnotationNeedsUpdate E nt) in
   featuresChanged E nt = (set anno \<noteq> set (st_features nt)) \<and>
   sorted fs \<and> distinct fs \<and> set fs = set anno \<and> \<not> featuresChanged E (nt\<lparr>st_features := fs\<rparr>)"
proof -
  let ?anno = "ne_split E (lookup0 (m_annotations (nt_meta nt)) FeatureToggleNameAnnotationKey)"
  let ?fs = "remdups_adj (sort ?anno)"
  have fs: "sorted ?fs" "distinct ?fs" "set ?fs = set ?anno"
    using sorted_remdups_adj sorted_distinct_adj [OF sorted_sort] by auto
  have changed: "featuresChanged E x = (set ?anno \<noteq> set (st_features x))"
    if "m_annotations (nt_meta x) = m_annotations (nt_meta nt)" for x
    using fs(3) that
    by (auto simp: featuresChanged_def featureAnnotationNeedsUpdate_def Let_def list_ex_iff)
  show ?thesis
    using fs changed [of nt] changed [of "nt\<lparr>st_features := ?fs\<rparr>"]
    by (simp add: Let_def featureAnnotationNeedsUpdate_def)
qed

text \<open>
  With at least one namespace, the one status update lists the provisioned namespaces by name in
  ascending order, each of them once, the first with the default type and the others with none.
\<close>

theorem provisioned_namespaces_listed:
  assumes "nss \<noteq> []"
  shows "\<exists>nt ok. calls (snd (run_state (updateStatusProvisionedNamespaces E nss) s)) = calls s @ [(UpdateStatus nt, ok)] \<and>
    mset (map fst (st_provisioned nt)) = mset (map (\<lambda>ns. m_name (ns_meta ns)) nss) \<and>
    sorted (map fst (st_provisioned nt)) \<and>
    map snd (st_provisioned nt) = ne_default_type E # replicate (length nss - 1) []"
proof -
  let ?names = "sort (map (\<lambda>ns. m_name (ns_meta ns)) nss)"
  obtain n ns where names: "?names = n # ns"
    using assms by (metis length_0_conv length_map length_sort list.exhaust)
  define p where "p = (n, ne_default_type E) # map (\<lambda>n. (n, [])) ns"
  have fst: "map fst p = ?names"
    by (simp add: p_def names comp_def)
  have len: "length ns = length nss - 1"
    using names by (metis length_Cons length_map length_sort diff_Suc_1)
  have snd: "map snd p = ne_default_type E # replicate (length nss - 1) []"
    by (simp add: p_def comp_def map_replicate_const len)
  have "mset (map fst p) = mset (map (\<lambda>ns. m_name (ns_meta ns)) nss)" "sorted (map fst p)"
    unfolding fst by (rule mset_sort, rule sorted_sort)
  with snd show ?thesis
    by (intro exI [of _ "mem s\<lparr>st_provisioned := p\<rparr>"])
       (auto simp: updateStatusProvisionedNamespaces_def names write_status_def p_def split: sum.split)
qed

theorem provisioned_namespaces_listed_witness:
  "\<exists>nt ok. calls (snd (run_state (updateStatusProvisionedNamespaces (demo_nenv (\<lambda>r. []) [])
      [demo_ns ''b'' ''dev'', demo_ns ''a'' ''dev'']) (fresh demo_nstt))) = [(UpdateStatus nt, ok)] \<and>
     map snd (st_provisioned nt) = [''default'', []]"
  using provisioned_namespaces_listed [of "[demo_ns ''b'' ''dev'', demo_ns ''a'' ''dev'']" "demo_nenv (\<lambda>r. []) []" "fresh demo_nstt"]
  by (auto simp: demo_default)








text \<open>
  A namespace labelled the way \<open>ensureInnerNamespaceResources\<close> labels it when it is done counts as up to
  date at the next reconcile exactly when every Role and every RoleBinding of the template is there under its
  name with the space's label.
\<close>

theorem provisioned_namespace_is_recognised:
  assumes "lookup (m_labels (ns_meta ns)) SpaceLabelKey = Some space"
    and "process E t [(''USERNAME'', space), (''SPACE_NAME'', space)] (Some RetainAllButNamespaces) = Inr objs"
    and "ne_list_roles E (calls s) (m_name (ns_meta ns)) = Inr roles"
    and "ne_list_rolebindings E (calls s @ [(ListRoles (m_name (ns_meta ns)), True)]) (m_name (ns_meta ns)) = Inr bindings"
  shows "fst (run_state (isUpToDateAndProvisioned E (mark_provisioned t ns) t) s) =
    (list_all (\<lambda>x. (k_kind (o_gvk x) = ''Role'' \<longrightarrow> contains_named roles x space) \<and>
       (k_kind (o_gvk x) = ''RoleBinding'' \<longrightarrow> contains_named bindings x space)) objs, None)"
proof -
  let ?ns = "mark_provisioned t ns"
  have labels: "m_labels (ns_meta ?ns) \<noteq> None" "lookup0 (m_labels (ns_meta ?ns)) TierLabelKey = t_tier t"
    "lookup0 (m_labels (ns_meta ?ns)) TemplateRefLabelKey = t_ref t"
    "lookup (m_labels (ns_meta ?ns)) SpaceLabelKey = Some space" "lookup0 (m_labels (ns_meta ?ns)) SpaceLabelKey = space"
    "m_name (ns_meta ?ns) = m_name (ns_meta ns)"
    using assms(1) by (simp_all add: mark_provisioned_def lookup0_def)
  have roles: "all_contained (\<lambda>x. containsRole roles x space) xs =
      (list_all (\<lambda>x. contains_named roles x space) xs, None)"
    if "list_all (\<lambda>x. k_kind (o_gvk x) = ''Role'') xs" for xs
    using that by (induction xs) (auto simp: containsRole_def)
  have bindings: "all_contained (\<lambda>x. containsRoleBindings bindings x space) xs =
      (list_all (\<lambda>x. contains_named bindings x space) xs, None)"
    if "list_all (\<lambda>x. k_kind (o_gvk x) = ''RoleBinding'') xs" for xs
    using that by (induction xs) (auto simp: containsRoleBindings_def)
  show ?thesis
    unfolding isUpToDateAndProvisioned_def Let_def labels
    using labels(1) assms(2-4)
    by (simp add: with_value_def roles [of "filter _ _"] bindings [of "filter _ _"] list_all_iff split: if_splits bool.split)
       (auto simp: list_all_iff)
qed

theorem provisioned_namespace_is_recognised_witness:
  "let t = \<lparr>t_ref = ''dev'', t_tier = ''base'', t_type = ''dev'', t_template = ''dev'', t_ttr = None\<rparr> in
   fst (run_state (isUpToDateAndProvisioned (demo_nenv (\<lambda>r. [demo_obj ''Role'' ''view'']) [])
     (mark_provisioned t (demo_ns ''john-dev'' ''dev'')) t) (fresh demo_nstt)) = (False, None)"
  using provisioned_namespace_is_recognised [of "demo_ns ''john-dev'' ''dev''" "''john''" "demo_nenv (\<lambda>r. [demo_obj ''Role'' ''view'']) []"
      "\<lparr>t_ref = ''dev'', t_tier = ''base'', t_type = ''dev'', t_template = ''dev'', t_ttr = None\<rparr>"
      "[demo_obj ''Role'' ''view'']" "fresh demo_nstt" "[]" "[]"]
  by (simp add: Let_def demo_ns_def demo_nenv_def process_def contains_named_def demo_obj_def)

section \<open>Templates\<close>

text \<open>
  \<open>getTierTemplate\<close> uses the TierTemplateRevision of the given name where there is one, with the type
  and tier of the TierTemplate its label names; it falls back to the TierTemplate of the name itself only
  where the API answered NotFound for the revision, which wrapping the error does not hide.
\<close>

theorem revision_before_template:
  assumes "not_found_lib (ne_lib E)" and "\<forall>tr. ne_host E tr = Inr h"
    and "run_state (getTierTemplate E ref) s = (Inr t, s')"
  shows "case ne_get_ttr E (calls s) h ref of
       Inr r \<Rightarrow> (\<exists>tt. t = \<lparr>t_ref = ref, t_tier = tt_tier_name tt, t_type = tt_type tt, t_template = [], t_ttr = Some r\<rparr> \<and>
         ne_get_tt E (calls s @ [(GetTierTemplateRevision h ref, True)]) h (lookup0 (tr_labels r) TemplateRefLabelKey) = Inr tt)
     | Inl e \<Rightarrow> (\<exists>tt m. t = \<lparr>t_ref = ref, t_tier = tt_tier_name tt, t_type = tt_type tt, t_template = tt_template tt, t_ttr = None\<rparr> \<and>
         ne_get_tt E (calls s @ [(GetTierTemplateRevision h ref, False)]) h ref = Inr tt \<and> first_status e = Some (''NotFound'', m))"
proof -
  have "ref \<noteq> []" using assms(3) by (auto simp: getTierTemplate_def)
  then show ?thesis
    using assms
    by (auto simp: getTierTemplate_def getTierTemplateRevision_def getToolchainTierTemplate_def with_value_def
        not_found_lib_def split: sum.splits if_splits)
qed

theorem revision_before_template_witness:
  "\<exists>t (tt :: tier_template_res). fst (run_state (getTierTemplate (demo_nenv (\<lambda>r. []) []) ''dev'') (fresh demo_nstt)) = Inr t \<and>
     t = \<lparr>t_ref = ''dev'', t_tier = tt_tier_name tt, t_type = tt_type tt, t_template = tt_template tt, t_ttr = None\<rparr>"
proof -
  let ?E = "demo_nenv (\<lambda>r. []) []"
  let ?r = "run_state (getTierTemplate ?E ''dev'') (fresh demo_nstt)"
  have "\<exists>t. fst ?r = Inr t"
    by (simp add: getTierTemplate_def getTierTemplateRevision_def getToolchainTierTemplate_def demo_nenv_def ref_lib_def
        with_value_def)
  then obtain t where t: "fst ?r = Inr t" by blast
  then have run: "run_state (getTierTemplate ?E ''dev'') (fresh demo_nstt) = (Inr t, snd ?r)" by (simp add: prod_eq_iff)
  have lib: "not_found_lib (ne_lib ?E)" "\<forall>tr. ne_host ?E tr = Inr ''host''"
    by (simp_all add: demo_nenv_def ref_lib_not_found)
  have get: "ne_get_ttr ?E (calls (fresh demo_nstt :: (nstt, ncall) st)) ''host'' ''dev'' = Inl (StatusErr ''NotFound'' ''dev'')"
    by (simp add: demo_nenv_def)
  from revision_before_template [OF lib run, unfolded get sum.case] obtain tt :: tier_template_res where
    "t = \<lparr>t_ref = ''dev'', t_tier = tt_tier_name tt, t_type = tt_type tt, t_template = tt_template tt, t_ttr = None\<rparr>"
    by blast
  with t show ?thesis by (intro exI conjI)
qed

text \<open>
  In the parameters of a Go template the runtime parameters win over the static ones of the revision,
  and among the static ones the last of a name; no other name has a value.
\<close>

theorem runtime_parameters_win:
  "map_of (convertParametersToMap t runtime) = map_of (rev (tr_params t)) ++ map_of (rev runtime)"
  by (rule ext) (auto simp: convertParametersToMap_def foldl_update map_add_def split: option.split)

section \<open>Applying objects\<close>

text \<open>
  \<open>ApplyToolchainObjects\<close> never applies a ServiceAccount nor an optional object whose API group the
  cluster does not have; when it succeeds it has applied all the others, in their order, and it reports a change
  exactly when there was an object that is not skipped.
\<close>

theorem objects_applied:
  assumes "run_state (ApplyToolchainObjects E objs l) s = ((anyApplied, None), s')"
  shows "\<exists>t. calls s' = calls s @ t \<and>
    applications t = filter (\<lambda>x. (lookup (m_annotations (o_meta x)) TierTemplateObjectOptionalResourceAnnotation = None \<or>
      apiGroupIsPresent (ne_groups E) (o_gvk x)) \<and> \<not> equal_fold (k_kind (o_gvk x)) ''ServiceAccount'') objs \<and>
    anyApplied = list_ex (\<lambda>x. lookup (m_annotations (o_meta x)) TierTemplateObjectOptionalResourceAnnotation = None \<or>
      apiGroupIsPresent (ne_groups E) (o_gvk x)) objs"
  using wpD [OF apply_objects_applications assms [unfolded ApplyToolchainObjects_def]]
  by (auto simp: wanted_def [abs_def] service_account_def)

theorem objects_applied_witness:
  "let optional = (demo_obj ''Quota'' ''b'')\<lparr>o_gvk := \<lparr>k_group = ''other'', k_version = ''v1'', k_kind = ''Quota''\<rparr>,
         o_meta := (new_meta [] ''b'')\<lparr>m_annotations := Some [(TierTemplateObjectOptionalResourceAnnotation, ''true'')]\<rparr>\<rparr>;
       r = run_state (ApplyToolchainObjects (demo_nenv (\<lambda>r. []) []) [demo_obj ''Role'' ''a'', optional, demo_obj ''serviceaccount'' ''c''] [])
         (fresh demo_nstt)
   in applications (calls (snd r)) = [demo_obj ''Role'' ''a'']"
proof -
  let ?o = "(demo_obj ''Quota'' ''b'')\<lparr>o_gvk := \<lparr>k_group = ''other'', k_version = ''v1'', k_kind = ''Quota''\<rparr>,
         o_meta := (new_meta [] ''b'')\<lparr>m_annotations := Some [(TierTemplateObjectOptionalResourceAnnotation, ''true'')]\<rparr>\<rparr>"
  let ?objs = "[demo_obj ''Role'' ''a'', ?o, demo_obj ''serviceaccount'' ''c'']"
  let ?E = "demo_nenv (\<lambda>r. []) []"
  let ?r = "run_state (ApplyToolchainObjects ?E ?objs []) (fresh demo_nstt)"
  have fold: "equal_fold ''serviceaccount'' ''ServiceAccount''" "\<not> equal_fold ''Role'' ''ServiceAccount''"
    by code_simp+
  have "snd (fst ?r) = None"
    by (simp add: ApplyToolchainObjects_def nstt_demo_defs unless_err_def apiGroupIsPresent_def apply_service_account_def fold)
  then have "?r = ((fst (fst ?r), None), snd ?r)" by (simp add: prod_eq_iff)
  from objects_applied [OF this] show ?thesis
    by (auto simp: Let_def nstt_demo_defs apiGroupIsPresent_def fold)
qed

end
