(* ===== verification/NSConvergence.thy ===== *)
theory NSConvergence
  imports NSSpec
begin

text \<open>
  Repeated reconciles of an NSTemplateSet that is being deleted: against a cluster that deletes namespaces in the
  end, the namespaces go one after the other and the finalizer is removed after a number of reconciles known
  in advance.
\<close>

section \<open>The cluster\<close>

text \<open>
  A call that deleted the namespace \<open>n\<close>; the calls from that one on; how much longer a cluster that takes at most
  \<open>lag\<close> calls for the deletion may list the namespace.
\<close>

definition after_deletion :: "string \<Rightarrow> ntrace \<Rightarrow> ntrace" where
  "after_deletion n tr = dropWhile (\<lambda>c. c \<noteq> (DeleteNamespace n, True)) tr"

definition remaining :: "nat \<Rightarrow> ntrace \<Rightarrow> string \<Rightarrow> nat" where
  "remaining lag tr n = Suc lag - length (after_deletion n tr)"

definition no_finalizer_update :: "ntrace \<Rightarrow> bool" where
  "no_finalizer_update tr \<longleftrightarrow> list_all no_update tr"

text \<open>
  Cluster resources can be deleted: the templates are there and can be processed, an object can be read unless it is gone, and the
  deletion of one succeeds or finds it gone.
\<close>

definition clears_cluster :: "nenv \<Rightarrow> bool" where
  "clears_cluster E \<longleftrightarrow> not_found_lib (ne_lib E) \<and> (\<forall>tr. \<exists>h. ne_host E tr = Inr h) \<and>
     (\<forall>tr h n. \<exists>t. ne_get_tt E tr h n = Inr t) \<and>
     (\<forall>tr h n. case ne_get_ttr E tr h n of Inl e \<Rightarrow> IsNotFound (ne_lib E) e | Inr r \<Rightarrow> True) \<and>
     (\<forall>t p. \<exists>xs. process E t p None = Inr xs) \<and>
     (\<forall>tr x. case ne_get_object E tr x of Inl e \<Rightarrow> IsNotFound (ne_lib E) e | Inr y \<Rightarrow> True) \<and>
     (\<forall>tr x. case ne_exec E tr (DeleteObject x) of Some e \<Rightarrow> IsNotFound (ne_lib E) e | None \<Rightarrow> True)"

text \<open>
  A cluster in the middle of the deletion of the space \<open>name\<close>: as long as the NSTemplateSet has not been
  updated, it is there, being deleted, with its finalizer, and its cluster resources, if it has any, can be deleted; status updates
  succeed and keep the rest, and so does an update of the set itself; a namespace of \<open>N\<close> can be deleted, shows that it is
  being deleted from then on, and is no longer listed \<open>lag\<close> calls later.
\<close>

definition deleting :: "nenv \<Rightarrow> string \<Rightarrow> string \<Rightarrow> string set \<Rightarrow> nat \<Rightarrow> bool" where
  "deleting E ns name N lag \<longleftrightarrow>
     (\<forall>tr. no_finalizer_update tr \<longrightarrow> (\<exists>nt. ne_get_nstt E tr ns name = Inr nt \<and> m_name (nt_meta nt) = name \<and> (st_cluster nt = None \<or> clears_cluster E) \<and>
        IsBeingDeleted (ne_lib E) (nt_meta nt) \<and> FinalizerName \<in> set (m_finalizers (nt_meta nt)))) \<and>
     (\<forall>tr nt. \<exists>new. ne_update_status E tr nt = Inr new \<and> nt_meta new = nt_meta nt \<and> st_cluster new = st_cluster nt) \<and>
     (\<forall>tr nt. \<exists>new. ne_update_nstt E tr nt = Inr new) \<and> (\<forall>tr n. ne_exec E tr (DeleteNamespace n) = None) \<and>
     (\<forall>tr. \<exists>nss. ne_list_namespaces E tr name = Inr nss \<and>
        (\<forall>x \<in> set nss. m_name (ns_meta x) \<in> N \<and> 0 < remaining lag tr (m_name (ns_meta x)) \<and>
           IsBeingDeleted (ne_lib E) (ns_meta x) = ((DeleteNamespace (m_name (ns_meta x)), True) \<in> set tr)))"

text \<open>Repeated reconciles, each by what the earlier ones have done.\<close>

fun reconciles :: "nenv \<Rightarrow> string \<Rightarrow> string \<Rightarrow> nat \<Rightarrow> (nstt, ncall) st \<Rightarrow> (nstt, ncall) st" where
  "reconciles E ns name 0 s = s"
| "reconciles E ns name (Suc k) s = reconciles E ns name k (snd (run_state (Reconcile E ns name) s))"

section \<open>The measure\<close>

lemma after_deletion_append:
  "after_deletion n (tr @ t) = (if (DeleteNamespace n, True) \<in> set tr then after_deletion n tr @ t else after_deletion n t)"
  by (auto simp: after_deletion_def dropWhile_append)

lemma after_deletion_none: "(DeleteNamespace n, True) \<notin> set tr \<Longrightarrow> after_deletion n tr = []"
  by (auto simp: after_deletion_def dropWhile_eq_Nil_conv)

lemma remaining_append: "remaining lag (tr @ t) n \<le> remaining lag tr n"
  by (auto simp: remaining_def after_deletion_append after_deletion_none)

text \<open>A namespace still listed after its deletion loses time with every call, one not deleted when it is deleted.\<close>

lemma remaining_less:
  assumes "0 < remaining lag tr n" and "t \<noteq> []"
    and "(DeleteNamespace n, True) \<in> set tr \<or> (DeleteNamespace n, True) \<in> set t"
  shows "remaining lag (tr @ t) n < remaining lag tr n"
proof (cases "(DeleteNamespace n, True) \<in> set tr")
  case True
  then have "remaining lag (tr @ t) n = Suc lag - (length (after_deletion n tr) + length t)"
    by (simp add: remaining_def after_deletion_append)
  moreover have "0 < length t" using assms(2) by simp
  ultimately show ?thesis using assms(1) unfolding remaining_def by linarith
next
  case False
  with assms(3) have "after_deletion n t \<noteq> []" by (auto simp: after_deletion_def dropWhile_eq_Nil_conv)
  with False show ?thesis by (auto simp: remaining_def after_deletion_append after_deletion_none)
qed

definition work_left :: "string set \<Rightarrow> nat \<Rightarrow> ntrace \<Rightarrow> nat" where
  "work_left N lag tr = (\<Sum>n \<in> N. remaining lag tr n)"

lemma work_left_less:
  assumes "finite N" and "n \<in> N" and "0 < remaining lag tr n" and "t \<noteq> []"
    and "(DeleteNamespace n, True) \<in> set tr \<or> (DeleteNamespace n, True) \<in> set t"
  shows "work_left N lag (tr @ t) < work_left N lag tr"
  unfolding work_left_def
  by (rule sum_strict_mono_ex1) (use assms remaining_less [OF assms(3-5)] in \<open>auto intro: remaining_append\<close>)

lemma work_left_append: "work_left N lag (tr @ t) \<le> work_left N lag tr"
  unfolding work_left_def by (rule sum_mono) (rule remaining_append)

lemma work_left_Nil: "work_left N lag [] = card N * Suc lag"
  by (simp add: work_left_def remaining_def after_deletion_def)

section \<open>One reconcile\<close>

text \<open>The cluster has taken an update without the finalizer.\<close>

definition finalizer_removed :: "ntrace \<Rightarrow> bool" where
  "finalizer_removed tr \<longleftrightarrow> (\<exists>nt. (UpdateNSTemplateSet nt, True) \<in> set tr \<and> FinalizerName \<notin> set (m_finalizers (nt_meta nt)))"

lemma finalizer_removed_append: "finalizer_removed tr \<Longrightarrow> finalizer_removed (tr @ t)"
  unfolding finalizer_removed_def by (metis Un_iff set_append)

abbreviation space_of :: "nstt \<Rightarrow> meta \<times> string option" where
  "space_of nt \<equiv> (nt_meta nt, st_cluster nt)"

lemma terminating_wp:
  assumes "deleting E ns name N lag"
  shows "wp (setStatusTerminating E) (\<lambda>e s'. e = None \<and> space_of (mem s') = space_of (mem s) \<and>
    (\<exists>t. calls s' = calls s @ t \<and> list_all (\<lambda>(c, ok). is_status_write c) t)) s"
proof -
  have "wp (setStatusTerminating E) (\<lambda>e s'. e = None \<and> space_of (mem s') = space_of (mem s)) s"
  proof -
    obtain conds updated where c: "AddOrUpdateStatusConditions (ne_lib E) (ne_now E (tick s)) (st_conds (mem s))
        [mk_cond ConditionReady ConditionFalse NSTemplateSetTerminatingReason []] = (conds, updated)"
      by (cases "AddOrUpdateStatusConditions (ne_lib E) (ne_now E (tick s)) (st_conds (mem s))
        [mk_cond ConditionReady ConditionFalse NSTemplateSetTerminatingReason []]")
    obtain new where "ne_update_status E (calls s) (mem s\<lparr>st_conds := conds\<rparr>) = Inr new"
        "nt_meta new = nt_meta (mem s)" "st_cluster new = st_cluster (mem s)"
      using assms by (force simp: deleting_def)
    with c show ?thesis
      by (simp add: setStatusTerminating_def setReady_def updateStatusConditions_def write_status_def wp_simps)
  qed
  moreover have "emits (\<lambda>(c, ok). is_status_write c) (setStatusTerminating E)"
    unfolding setStatusTerminating_def by (rule setReady_emits)
  then have "wp (setStatusTerminating E) (\<lambda>e s'. \<exists>t. calls s' = calls s @ t \<and> list_all (\<lambda>(c, ok). is_status_write c) t) s"
    by (rule emits_wp)
  ultimately show ?thesis by (rule wp_mono [OF wp_conj]) blast
qed

lemma ensureDeleted_step:
  assumes "deleting E ns name N lag" and "finite N" and "m_name (nt_meta (mem s)) = name"
  shows "wp (ensureDeleted E) (\<lambda>(all, e) s'. e = None \<and> mem s' = mem s \<and>
    (\<exists>t. calls s' = calls s @ t \<and> list_all no_update t \<and> (all \<or> work_left N lag (calls s') < work_left N lag (calls s)))) s"
proof -
  obtain nss where nss: "ne_list_namespaces E (calls s) name = Inr nss" and N: "\<forall>x \<in> set nss. m_name (ns_meta x) \<in> N \<and>
      0 < remaining lag (calls s) (m_name (ns_meta x)) \<and>
      IsBeingDeleted (ne_lib E) (ns_meta x) = ((DeleteNamespace (m_name (ns_meta x)), True) \<in> set (calls s))"
    using assms(1) unfolding deleting_def by meson
  have exec: "ne_exec E tr (DeleteNamespace n) = None" for tr n using assms(1) by (simp add: deleting_def)
  show ?thesis
  proof (cases "sort_key (\<lambda>ns. m_name (ns_meta ns)) nss")
    case Nil
    then show ?thesis
      using nss assms(3) by (simp add: ensureDeleted_def fetchNamespacesByOwner_def wp_simps)
  next
    case (Cons x xs)
    then have "x \<in> set nss" by (metis list.set_intros(1) set_sort)
    with N have x: "m_name (ns_meta x) \<in> N" "0 < remaining lag (calls s) (m_name (ns_meta x))"
      "IsBeingDeleted (ne_lib E) (ns_meta x) = ((DeleteNamespace (m_name (ns_meta x)), True) \<in> set (calls s))"
      by auto
    show ?thesis
    proof (cases "IsBeingDeleted (ne_lib E) (ns_meta x)")
      case True
      with x have "work_left N lag (calls s @ [(ListNamespaces name, True)]) < work_left N lag (calls s)"
        by (intro work_left_less [OF assms(2)]) auto
      with Cons True nss assms(3) show ?thesis by (simp add: ensureDeleted_def fetchNamespacesByOwner_def wp_simps)
    next
      case False
      let ?t = "[(ListNamespaces name, True), (DeleteNamespace (m_name (ns_meta x)), True)]"
      have "work_left N lag (calls s @ ?t) < work_left N lag (calls s)"
        by (rule work_left_less [OF assms(2) x(1,2)]) auto
      with Cons False nss assms(3) exec show ?thesis
        by (simp add: ensureDeleted_def fetchNamespacesByOwner_def wp_simps wrapErrorWithStatusUpdate_def)
    qed
  qed
qed

lemma remove_finalizer_removes:
  assumes "deleting E ns name N lag" and "finalizers_lib (ne_lib E)"
  shows "wp (remove_finalizer E) (\<lambda>r s'. finalizer_removed (calls s')) s"
proof -
  let ?x = "mem s\<lparr>nt_meta := RemoveFinalizer (ne_lib E) (nt_meta (mem s)) FinalizerName\<rparr>"
  obtain new where "ne_update_nstt E (calls s) ?x = Inr new" using assms(1) unfolding deleting_def by blast
  moreover have "FinalizerName \<notin> set (m_finalizers (nt_meta ?x))" using assms(2) by (simp add: finalizers_lib_def)
  ultimately show ?thesis by (auto simp: remove_finalizer_def wp_simps Let_def finalizer_removed_def)
qed

text \<open>The cluster resources are deleted, and their template is taken out of the status.\<close>

lemma getTierTemplate_found:
  assumes "clears_cluster E" and "r \<noteq> []"
  shows "wp (getTierTemplate E r) (\<lambda>x s'. (\<exists>t. x = Inr t) \<and> mem s' = mem s) s"
proof -
  have wrapped: "IsNotFound (ne_lib E) (Wrapped m e) = IsNotFound (ne_lib E) e" for m e
    using assms(1) by (simp add: clears_cluster_def not_found_lib_def)
  have toolchain: "wp (getToolchainTierTemplate E n) (\<lambda>x s'. (\<exists>t. x = Inr t) \<and> mem s' = mem s1) s1" for n s1
  proof -
    obtain h where h: "ne_host E (calls s1) = Inr h" using assms(1) unfolding clears_cluster_def by blast
    obtain t where "ne_get_tt E (calls s1) h n = Inr t" using assms(1) unfolding clears_cluster_def by blast
    with h show ?thesis by (simp add: getToolchainTierTemplate_def wp_simps)
  qed
  obtain h where h: "ne_host E (calls s) = Inr h" using assms(1) unfolding clears_cluster_def by blast
  have tt: "\<forall>n. case ne_get_ttr E (calls s) h n of Inl e \<Rightarrow> IsNotFound (ne_lib E) e | Inr r \<Rightarrow> True"
    using assms(1) unfolding clears_cluster_def by blast
  show ?thesis
  proof (cases "ne_get_ttr E (calls s) h r")
    case (Inl e)
    with tt have "IsNotFound (ne_lib E) e" by (metis sum.case(1))
    with Inl h assms(2) show ?thesis
      by (simp add: getTierTemplate_def getTierTemplateRevision_def wp_simps wrapped)
         (rule wp_mono [OF toolchain], auto simp: wp_return)
  next
    case (Inr x)
    with h assms(2) show ?thesis
      by (simp add: getTierTemplate_def getTierTemplateRevision_def wp_simps)
         (rule wp_mono [OF toolchain], auto simp: wp_return)
  qed
qed

lemma delete_each_done:
  assumes "clears_cluster E"
  shows "wp (delete_each E objs) (\<lambda>e s'. e = None \<and> mem s' = mem s) s"
proof (induction objs arbitrary: s)
  case (Cons x objs)
  have get: "case ne_get_object E tr x of Inl e \<Rightarrow> IsNotFound (ne_lib E) e | Inr y \<Rightarrow> True" for tr x
    using assms unfolding clears_cluster_def by blast
  have del: "case ne_exec E tr (DeleteObject x) of Some e \<Rightarrow> IsNotFound (ne_lib E) e | None \<Rightarrow> True" for tr x
    using assms unfolding clears_cluster_def by blast
  have IH: "wp (delete_each E objs) (\<lambda>e s'. e = None \<and> mem s' = mem s) s1" if "mem s1 = mem s" for s1
    using Cons.IH [of s1] that by simp
  show ?case
  proof (cases "ne_get_object E (calls s) x")
    case (Inl e)
    with get [of "calls s" x] show ?thesis by (simp add: wp_simps IH)
  next
    case (Inr y)
    with del [of "calls s @ [(GetObject x, True)]" y] show ?thesis
      by (auto simp: wp_simps IH split: option.splits)
  qed
qed (simp add: wp_simps)

lemma delete_cluster_done:
  assumes "st_cluster (mem s) = None \<or> clears_cluster E"
  shows "wp (delete_cluster E) (\<lambda>e s'. e = None \<and> mem s' = mem s \<and> (\<exists>t. calls s' = calls s @ t \<and> list_all no_update t)) s"
proof (rule wp_mono [OF wp_conj [OF _ emits_wp [where P = no_update]]])
  show "wp (delete_cluster E) (\<lambda>e s'. e = None \<and> mem s' = mem s) s"
  proof (cases "st_cluster (mem s) = None \<or> st_cluster (mem s) = Some []")
    case True
    then show ?thesis by (auto simp: delete_cluster_def processTierTemplate_def wp_simps wp_with_value)
  next
    case False
    then obtain r where r: "st_cluster (mem s) = Some r" "r \<noteq> []" and c: "clears_cluster E" using assms by auto
    have p: "\<exists>xs. process E t p None = Inr xs" for t p using c unfolding clears_cluster_def by blast
    show ?thesis
      unfolding delete_cluster_def processTierTemplate_def wp_bind wp_get_mem wp_with_value r(1) option.case if_not_P [OF r(2)]
    proof (rule wp_mono [OF getTierTemplate_found [OF c r(2)]], clarsimp simp: wp_return, goal_cases)
      case (1 s1 t)
      obtain xs where "process E t [(''SPACE_NAME'', m_name (nt_meta (mem s)))] None = Inr xs" using p by blast
      with 1 show ?case by simp (rule wp_mono [OF delete_each_done [OF c]], simp)
    qed
  qed
qed (auto intro!: emits_rules)

lemma clear_status_done:
  assumes "deleting E ns name N lag"
  shows "wp (clearStatusClusterResources E) (\<lambda>e s'. e = None \<and> nt_meta (mem s') = nt_meta (mem s) \<and>
    (\<exists>t. calls s' = calls s @ t \<and> list_all no_update t)) s"
proof -
  obtain new where "ne_update_status E (calls s) (mem s\<lparr>st_cluster := None\<rparr>) = Inr new" "nt_meta new = nt_meta (mem s)"
    using assms by (force simp: deleting_def)
  then show ?thesis by (auto simp: clearStatusClusterResources_def write_status_def wp_simps split: option.split)
qed

lemma status_writes_quiet: "list_all (\<lambda>(c, ok). is_status_write c) t \<Longrightarrow> list_all no_update t"
  by (auto simp: list_all_iff)

lemma reconcile_step:
  assumes "deleting E ns name N lag" and "finite N" and "finalizers_lib (ne_lib E)" and "ns \<noteq> []"
    and "no_finalizer_update (calls s)"
  shows "wp (Reconcile E ns name) (\<lambda>r s'. finalizer_removed (calls s') \<or>
    no_finalizer_update (calls s') \<and> work_left N lag (calls s') < work_left N lag (calls s)) s"
proof -
  obtain nt where nt: "ne_get_nstt E (calls s) ns name = Inr nt" "m_name (nt_meta nt) = name" "st_cluster nt = None \<or> clears_cluster E"
    "IsBeingDeleted (ne_lib E) (nt_meta nt)" "HasFinalizer (ne_lib E) (nt_meta nt) FinalizerName"
    using assms(1,3,5) by (auto simp: deleting_def finalizers_lib_def)
  define s1 where "s1 = log_call (GetNSTemplateSet ns name) True s\<lparr>mem := nt\<rparr>"
  have s1: "mem s1 = nt" "calls s1 = calls s @ [(GetNSTemplateSet ns name, True)]" by (simp_all add: s1_def)
  let ?Q = "\<lambda>r s'. finalizer_removed (calls s') \<or>
    no_finalizer_update (calls s') \<and> work_left N lag (calls s') < work_left N lag (calls s)"
  have rest: "wp (delete_namespaces E) ?Q s2"
    if s2: "nt_meta (mem s2) = nt_meta nt" "calls s2 = calls s1 @ t" "list_all no_update t" for s2 t
  proof -
    have "no_finalizer_update (calls s2)"
      using s2(2,3) s1(2) assms(5) by (auto simp: no_finalizer_update_def list_all_iff)
    moreover have "work_left N lag (calls s2) \<le> work_left N lag (calls s)"
      unfolding s2(2) s1(2) append_assoc by (rule work_left_append)
    moreover have "m_name (nt_meta (mem s2)) = name" using s2(1) nt(2) by simp
    ultimately show ?thesis
      unfolding delete_namespaces_def wp_bind
      by (intro wp_mono [OF ensureDeleted_step [OF assms(1,2)]])
         (auto simp: wp_simps no_finalizer_update_def intro!: remove_finalizer_removes [OF assms(1,3), THEN wp_mono])
  qed
  have "wp (deleteNSTemplateSet E) ?Q s1"
    unfolding deleteNSTemplateSet_def wp_bind wp_get_mem s1(1) if_not_P [OF iffD2 [OF not_not nt(5)]]
  proof (rule wp_mono [OF terminating_wp [OF assms(1)]], clarsimp simp: wp_unless_err s1(1), goal_cases)
    case (1 s2 t2)
    show ?case
    proof (rule wp_mono [OF delete_cluster_done], use 1 nt(3) in simp, clarsimp simp: wp_bind 1, goal_cases)
      case (1 s3 t3)
      show ?case
        by (rule wp_mono [OF clear_status_done [OF assms(1)]])
           (use \<open>nt_meta (mem s2) = nt_meta nt\<close> \<open>list_all _ t2\<close> 1 in
             \<open>auto dest!: status_writes_quiet intro!: rest [of _ "t2 @ t3 @ _"]\<close>)
    qed
  qed
  then show ?thesis
    using nt(1,4) assms(4) by (simp add: Reconcile_def getNamespaceName_def wp_simps flip: s1_def)
qed

section \<open>Convergence\<close>

lemma reconciles_keep: "finalizer_removed (calls s) \<Longrightarrow> finalizer_removed (calls (reconciles E ns name k s))"
proof (induction k arbitrary: s)
  case (Suc k)
  obtain r s' where run: "run_state (Reconcile E ns name) s = (r, s')" by (cases "run_state (Reconcile E ns name) s")
  with cautiousD [OF nstt_Reconcile_cautious [OF countable_none] run] Suc.prems have "finalizer_removed (calls s')"
    by (auto intro: finalizer_removed_append)
  with run show ?case by (simp add: Suc.IH)
qed simp

lemma reconciles_finish:
  assumes "deleting E ns name N lag" and "finite N" and "finalizers_lib (ne_lib E)" and "ns \<noteq> []"
  shows "no_finalizer_update (calls s) \<Longrightarrow> work_left N lag (calls s) < k \<Longrightarrow> finalizer_removed (calls (reconciles E ns name k s))"
proof (induction k arbitrary: s)
  case (Suc k)
  obtain r s' where run: "run_state (Reconcile E ns name) s = (r, s')" by (cases "run_state (Reconcile E ns name) s")
  from wpD [OF reconcile_step [OF assms Suc.prems(1)] run] consider
      "finalizer_removed (calls s')" | "no_finalizer_update (calls s')" "work_left N lag (calls s') < work_left N lag (calls s)"
    by blast
  then show ?case
  proof cases
    case 1
    with run show ?thesis by (simp add: reconciles_keep)
  next
    case 2
    with Suc.prems(2) have "work_left N lag (calls s') < k" by simp
    with run 2(1) show ?thesis by (simp add: Suc.IH)
  qed
qed simp

text \<open>
  C6: deleting a space ends: while the NSTemplateSet is being deleted, after one reconcile more than \<open>lag + 1\<close> for
  each namespace of the space the cluster has taken an update of the set without the finalizer.  The cluster deletes a
  namespace within \<open>lag\<close> calls after it is asked to and takes updates of the set and of its status; the cluster resources, if the status
  has any, can be fetched, processed and deleted, or are gone (\<open>deleting\<close>).
\<close>

theorem deletion_terminates:
  assumes "deleting E ns name N lag" and "finite N" and "finalizers_lib (ne_lib E)" and "ns \<noteq> []"
  shows "finalizer_removed (calls (reconciles E ns name (card N * Suc lag + 1) (fresh nt)))"
  by (rule reconciles_finish [OF assms]) (simp_all add: no_finalizer_update_def work_left_Nil)

text \<open>Two namespaces that vanish at once, and cluster resources.\<close>

definition dying_nstt :: nstt where
  "dying_nstt = demo_nstt\<lparr>nt_meta := (nt_meta demo_nstt)\<lparr>m_deletion := Some 0\<rparr>, st_cluster := Some ''old''\<rparr>"

definition dying_nenv :: nenv where
  "dying_nenv = (demo_nenv (\<lambda>r. [demo_obj ''Quota'' r]) [])\<lparr>ne_get_nstt := (\<lambda>tr ns n. Inr dying_nstt),
     ne_list_namespaces := (\<lambda>tr n. Inr (filter (\<lambda>x. (DeleteNamespace (m_name (ns_meta x)), True) \<notin> set tr)
       [demo_ns ''john-dev'' ''dev'', demo_ns ''john-stage'' ''stage'']))\<rparr>"

lemma dying_nenv_simps [simp]:
  "ne_lib dying_nenv = ref_lib NoReason" "ne_host dying_nenv = (\<lambda>tr. Inr ''host'')" "ne_get_ttr dying_nenv = (\<lambda>tr ns n. Inl (StatusErr ''NotFound'' n))"
  "ne_get_tt dying_nenv = (\<lambda>tr ns n. Inr \<lparr>tt_tier_name = ''base'', tt_type = n, tt_template = n\<rparr>)" "ne_exec dying_nenv = (\<lambda>tr c. None)"
  "ne_get_object dying_nenv = (\<lambda>tr x. Inr x)" "ne_watch_ns dying_nenv = Inr ''member''" "ne_parse dying_nenv = Inr"
  "ne_execute dying_nenv = (\<lambda>t p. Inr t)" "ne_decode dying_nenv = (\<lambda>t. Inr (demo_obj ''k'' t))"
  "ne_process dying_nenv = (\<lambda>t p f. Inr [demo_obj ''Quota'' t])"
  by (simp_all add: dying_nenv_def demo_nenv_def)

lemma dying_process: "\<exists>xs. process dying_nenv t p None = Inr xs"
proof -
  have "\<exists>xs. execute_objects dying_nenv n q rs = Inr xs" for n q rs by (induction rs) auto
  then show ?thesis by (auto simp: process_def processGoTemplate_def split: option.split)
qed

theorem deletion_terminates_witness:
  "finalizer_removed (calls (reconciles dying_nenv ''member'' ''john'' 3 (fresh dying_nstt)))"
proof -
  have "remaining 0 tr n = 1" if "(DeleteNamespace n, True) \<notin> set tr" for tr n
    using that by (simp add: remaining_def after_deletion_none)
  moreover have "clears_cluster dying_nenv"
    using dying_process ref_lib_not_found by (simp add: clears_cluster_def) (simp add: ref_lib_def)
  ultimately have "deleting dying_nenv ''member'' ''john'' {''john-dev'', ''john-stage''} 0"
    by (auto simp: deleting_def dying_nenv_def dying_nstt_def nstt_demo_defs ref_lib_def)
  from deletion_terminates [OF this, of dying_nstt] show ?thesis
    by (simp add: dying_nenv_def demo_nenv_def ref_lib_finalizers numeral_3_eq_3)
qed

end
