(* ===== verification/NSStore.thy ===== *)
theory NSStore
  imports NSConvergence
begin

text \<open>
  The cluster as a store of one NSTemplateSet, its namespaces and the objects in them, which only the controller changes, and what
  one step of the controller makes of it.  \<open>NSProvisioning\<close> puts reconciles in sequence on such a cluster.
\<close>

section \<open>The store\<close>

text \<open>
  The namespaces of the space by their type, and the value of the space label of every object by kind, namespace and name.
  \<open>rv\<close> is how the server chooses resource versions.
\<close>

record space_store =
  sn :: nstt
  sns :: "string \<rightharpoonup> namespace"
  sobj :: "string \<times> string \<times> string \<rightharpoonup> string"

definition bump :: "(ntrace \<Rightarrow> string) \<Rightarrow> ntrace \<Rightarrow> meta \<Rightarrow> meta" where
  "bump rv tr m = m\<lparr>m_rv := rv tr\<rparr>"

definition obj_place :: "kobj \<Rightarrow> string \<times> string \<times> string" where
  "obj_place x = (k_kind (o_gvk x), m_ns (o_meta x), m_name (o_meta x))"

fun puts :: "smap \<Rightarrow> smap option \<Rightarrow> smap option" where
  "puts [] m = m"
| "puts ((k, v) # l) m = put (puts l m) k v"

definition entries :: "smap option \<Rightarrow> smap" where
  "entries m = (case m of None \<Rightarrow> [] | Some l \<Rightarrow> l)"

lemma lookup_puts [simp]: "lookup (puts l m) k = (case map_of l k of Some v \<Rightarrow> Some v | None \<Rightarrow> lookup m k)"
  by (induction l m rule: puts.induct) auto

lemma lookup0_eq: "lookup0 m k = (case lookup m k of None \<Rightarrow> [] | Some v \<Rightarrow> v)"
  by (simp add: lookup0_def)

lemma map_of_entries [simp]: "map_of (entries m) k = lookup m k"
  by (simp add: entries_def lookup_def split: option.split)

text \<open>A namespace is created from its object, or the labels and annotations of the object are added to those it has.\<close>

fun applied_ns :: "namespace option \<Rightarrow> kobj \<Rightarrow> smap \<Rightarrow> namespace" where
  "applied_ns None obj l = \<lparr>ns_meta = (o_meta obj)\<lparr>m_labels := puts l (m_labels (o_meta obj))\<rparr>, ns_active = True\<rparr>"
| "applied_ns (Some x) obj l = x\<lparr>ns_meta := (ns_meta x)\<lparr>m_labels := puts l (puts (entries (m_labels (o_meta obj))) (m_labels (ns_meta x))),
     m_annotations := puts (entries (m_annotations (o_meta obj))) (m_annotations (ns_meta x))\<rparr>\<rparr>"

text \<open>An update of the status leaves the rest, and the other way round.\<close>

definition with_status :: "nstt \<Rightarrow> nstt \<Rightarrow> nstt" where
  "with_status nt x = nt\<lparr>st_conds := st_conds x, st_namespaces := st_namespaces x, st_cluster := st_cluster x, st_roles := st_roles x,
     st_features := st_features x, st_provisioned := st_provisioned x\<rparr>"

fun recorded :: "(ntrace \<Rightarrow> string) \<Rightarrow> ntrace \<Rightarrow> ncall \<Rightarrow> space_store \<Rightarrow> space_store" where
  "recorded rv tr (UpdateNSTemplateSet x) S = S\<lparr>sn := (with_status x (sn S))\<lparr>nt_meta := bump rv tr (nt_meta x)\<rparr>\<rparr>"
| "recorded rv tr (UpdateStatus x) S = S\<lparr>sn := (with_status (sn S) x)\<lparr>nt_meta := bump rv tr (nt_meta (sn S))\<rparr>\<rparr>"
| "recorded rv tr (UpdateNamespace x) S = S\<lparr>sns := (sns S)(type_of x \<mapsto> x\<lparr>ns_meta := bump rv tr (ns_meta x)\<rparr>)\<rparr>"
| "recorded rv tr (ApplyObject obj l) S =
     (if k_kind (o_gvk obj) = ''Namespace''
      then let ty = lookup0 (Some l) TypeLabelKey in S\<lparr>sns := (sns S)(ty \<mapsto> applied_ns (sns S ty) obj l)\<rparr>
      else S\<lparr>sobj := (sobj S)(obj_place obj := map_of l SpaceLabelKey)\<rparr>)"
| "recorded rv tr (DeleteObject obj) S = S\<lparr>sobj := (sobj S)(obj_place obj := None)\<rparr>"
| "recorded rv tr c S = S"

fun space_rev :: "(ntrace \<Rightarrow> string) \<Rightarrow> space_store \<Rightarrow> ntrace \<Rightarrow> space_store" where
  "space_rev rv S [] = S"
| "space_rev rv S ((c, ok) # tr) = (if ok then recorded rv (rev tr) c (space_rev rv S tr) else space_rev rv S tr)"

definition space_at :: "(ntrace \<Rightarrow> string) \<Rightarrow> space_store \<Rightarrow> ntrace \<Rightarrow> space_store" where
  "space_at rv S tr = space_rev rv S (rev tr)"

lemma space_at_Nil [simp]: "space_at rv S [] = S"
  by (simp add: space_at_def)

lemma space_at_snoc [simp]:
  "space_at rv S (tr @ [(c, ok)]) = (if ok then recorded rv tr c (space_at rv S tr) else space_at rv S tr)"
  by (simp add: space_at_def)

section \<open>Templates\<close>

text \<open>The host cluster always answers as it did in the beginning; what \<open>getTierTemplate\<close> then finds.\<close>

definition fixed_host :: "nenv \<Rightarrow> bool" where
  "fixed_host E \<longleftrightarrow> (\<forall>tr h n. ne_host E tr = ne_host E [] \<and> ne_get_ttr E tr h n = ne_get_ttr E [] h n \<and>
     ne_get_tt E tr h n = ne_get_tt E [] h n)"

definition found :: "nenv \<Rightarrow> string \<Rightarrow> string \<Rightarrow> ttr option \<Rightarrow> tierTemplate option" where
  "found E ref tmpl r =
     (case ne_host E [] of Inl e \<Rightarrow> None | Inr h \<Rightarrow> (case ne_get_tt E [] h tmpl of Inl e \<Rightarrow> None
      | Inr t \<Rightarrow> Some \<lparr>t_ref = ref, t_tier = tt_tier_name t, t_type = tt_type t,
          t_template = (if r = None then tt_template t else []), t_ttr = r\<rparr>))"

definition template :: "nenv \<Rightarrow> string \<Rightarrow> tierTemplate option" where
  "template E ref =
     (if ref = [] then None else case ne_host E [] of Inl e \<Rightarrow> None | Inr h \<Rightarrow> (case ne_get_ttr E [] h ref of
        Inr r \<Rightarrow> found E ref (lookup0 (tr_labels r) TemplateRefLabelKey) (Some r)
      | Inl e \<Rightarrow> if IsNotFound (ne_lib E) e then found E ref ref None else None))"

lemma template_ref: "template E ref = Some t \<Longrightarrow> t_ref t = ref"
  by (auto simp: template_def found_def split: if_splits sum.splits)

text \<open>Calls that leave the store and the object in memory.\<close>

definition idle :: "(ntrace \<Rightarrow> string) \<Rightarrow> space_store \<Rightarrow> (nstt, ncall) st \<Rightarrow> (nstt, ncall) st \<Rightarrow> bool" where
  "idle rv S0 s s' \<longleftrightarrow> mem s' = mem s \<and> space_at rv S0 (calls s') = space_at rv S0 (calls s) \<and> (\<exists>u. calls s' = calls s @ u)"

lemma idle_refl [simp]: "idle rv S0 s s"
  by (simp add: idle_def)

lemma idle_trans: "idle rv S0 s s1 \<Longrightarrow> idle rv S0 s1 s2 \<Longrightarrow> idle rv S0 s s2"
  by (auto simp: idle_def)

fun reading :: "ncall \<Rightarrow> bool" where
  "reading (GetNSTemplateSet a b) = True"
| "reading (ListNamespaces n) = True"
| "reading (DeleteNamespace n) = True"
| "reading (GetTierTemplateRevision a b) = True"
| "reading (GetTierTemplate a b) = True"
| "reading (GetObject x) = True"
| "reading (CreateObject x) = True"
| "reading (UpdateObject x) = True"
| "reading (ListRoles n) = True"
| "reading (ListRoleBindings n) = True"
| "reading c = False"

lemma idle_call: "reading c \<Longrightarrow> idle rv S0 s (log_call c ok s)"
  by (cases c) (auto simp: idle_def)

lemma idle_after: "idle rv S0 (log_call c ok s) s' \<Longrightarrow> reading c \<Longrightarrow> idle rv S0 s s'"
  by (rule idle_trans [OF idle_call])

lemma getTierTemplate_idle:
  assumes "fixed_host E" and "not_found_lib (ne_lib E)" and "template E ref = Some t"
  shows "wp (getTierTemplate E ref) (\<lambda>r s'. r = Inr t \<and> idle rv S0 s s') s"
proof -
  have h: "ne_host E tr = ne_host E []" "ne_get_ttr E tr h n = ne_get_ttr E [] h n" "ne_get_tt E tr h n = ne_get_tt E [] h n" for tr h n
    using assms(1) unfolding fixed_host_def by blast+
  obtain ho where ref: "ref \<noteq> []" and ho: "ne_host E [] = Inr ho"
    using assms(3) by (auto simp: template_def split: if_splits sum.splits)
  have toolchain: "wp (getToolchainTierTemplate E n) (\<lambda>r s'. r = Inr x \<and> idle rv S0 s1 s') s1" if "ne_get_tt E [] ho n = Inr x" for n x s1
    unfolding getToolchainTierTemplate_def wp_bind wp_peek h(1) [of "calls s1"] ho
    by (simp add: wp_simps h(3) [of "calls s1"] that idle_call)
  have wrapped: "IsNotFound (ne_lib E) (Wrapped m e) = IsNotFound (ne_lib E) e" for m e
    using assms(2) by (simp add: not_found_lib_def)
  show ?thesis
  proof (cases "ne_get_ttr E [] ho ref")
    case (Inl e)
    with assms(3) ref ho obtain x where x: "IsNotFound (ne_lib E) e" "ne_get_tt E [] ho ref = Inr x"
        "t = \<lparr>t_ref = ref, t_tier = tt_tier_name x, t_type = tt_type x, t_template = tt_template x, t_ttr = None\<rparr>"
      by (auto simp: template_def found_def split: if_splits sum.splits)
    show ?thesis
      unfolding getTierTemplate_def if_not_P [OF ref] getTierTemplateRevision_def
      using Inl x
      by (simp add: wp_simps h(1) [of "calls s"] h(2) [of "calls s"] ho wrapped)
         (rule wp_mono [OF toolchain [OF x(2)]], auto simp: wp_return elim: idle_after)
  next
    case (Inr r)
    with assms(3) ref ho obtain x where x: "ne_get_tt E [] ho (lookup0 (tr_labels r) TemplateRefLabelKey) = Inr x"
        "t = \<lparr>t_ref = ref, t_tier = tt_tier_name x, t_type = tt_type x, t_template = [], t_ttr = Some r\<rparr>"
      by (auto simp: template_def found_def split: if_splits sum.splits)
    show ?thesis
      unfolding getTierTemplate_def if_not_P [OF ref] getTierTemplateRevision_def
      using Inr x
      by (simp add: wp_simps h(1) [of "calls s"] h(2) [of "calls s"] ho)
         (rule wp_mono [OF toolchain [OF x(1)]], auto simp: wp_return elim: idle_after)
  qed
qed


section \<open>What a tier asks for\<close>

definition tier_of :: "nenv \<Rightarrow> nstt \<Rightarrow> tierTemplate list" where
  "tier_of E nt = map (\<lambda>r. the (template E r)) (nt_namespaces nt)"

abbreviation types_of :: "nenv \<Rightarrow> nstt \<Rightarrow> string set" where
  "types_of E nt \<equiv> t_type ` set (tier_of E nt)"

text \<open>The namespace object of a template and the objects in it, as the code processes it for the space.\<close>

definition space_params :: "string \<Rightarrow> params" where
  "space_params name = [(''SPACE_NAME'', name)]"

definition ns_object :: "nenv \<Rightarrow> string \<Rightarrow> tierTemplate \<Rightarrow> kobj" where
  "ns_object E name t = (case process E t (space_params name) (Some RetainNamespaces) of Inr (x # xs) \<Rightarrow> x)"

abbreviation ns_name :: "nenv \<Rightarrow> string \<Rightarrow> tierTemplate \<Rightarrow> string" where
  "ns_name E name t \<equiv> m_name (o_meta (ns_object E name t))"

definition inner_objects :: "nenv \<Rightarrow> string \<Rightarrow> tierTemplate \<Rightarrow> kobj list" where
  "inner_objects E name t = (case process E t (space_params name) (Some RetainAllButNamespaces) of Inr xs \<Rightarrow> xs)"

abbreviation kind :: "kobj \<Rightarrow> string" where
  "kind x \<equiv> k_kind (o_gvk x)"

abbreviation is_rbac :: "kobj \<Rightarrow> bool" where
  "is_rbac x \<equiv> kind x = ''Role'' \<or> kind x = ''RoleBinding''"

definition needed :: "nenv \<Rightarrow> string \<Rightarrow> tierTemplate \<Rightarrow> (string \<times> string \<times> string) set" where
  "needed E name t = obj_place ` {x \<in> set (inner_objects E name t). is_rbac x}"

definition all_needed :: "nenv \<Rightarrow> string \<Rightarrow> nstt \<Rightarrow> (string \<times> string \<times> string) set" where
  "all_needed E name nt = (\<Union>t \<in> set (tier_of E nt). needed E name t)"

text \<open>
  A template of a tier: one namespace, which carries none of the labels of the operator, and objects in it; the objects do not depend on a
  user name, and roles are not optional.
\<close>

abbreviation own_labels :: "mkey set" where
  "own_labels \<equiv> {SpaceLabelKey, TypeLabelKey, TemplateRefLabelKey, TierLabelKey, ProviderLabelKey}"

definition good_template :: "nenv \<Rightarrow> string \<Rightarrow> tierTemplate \<Rightarrow> bool" where
  "good_template E name t \<longleftrightarrow>
     (let x = ns_object E name t; xs = inner_objects E name t in
      process E t (space_params name) (Some RetainNamespaces) = Inr [x] \<and> kind x = ''Namespace'' \<and>
      lookup (m_annotations (o_meta x)) TierTemplateObjectOptionalResourceAnnotation = None \<and>
      lookup (m_annotations (o_meta x)) LastAppliedSpaceRolesAnnotationKey = None \<and>
      (\<forall>k \<in> own_labels. lookup (m_labels (o_meta x)) k = None) \<and>
      process E t (space_params name) (Some RetainAllButNamespaces) = Inr xs \<and>
      process E t ((''USERNAME'', name) # space_params name) (Some RetainAllButNamespaces) = Inr xs \<and>
      (\<forall>y \<in> set xs. kind y \<noteq> ''Namespace'' \<and> m_ns (o_meta y) = m_name (o_meta x) \<and>
         (is_rbac y \<longrightarrow> lookup (m_annotations (o_meta y)) TierTemplateObjectOptionalResourceAnnotation = None)))"

text \<open>Cluster resources: objects of other kinds, none of which is needed in a namespace.\<close>

definition harmless :: "(string \<times> string \<times> string) set \<Rightarrow> kobj \<Rightarrow> bool" where
  "harmless K x \<longleftrightarrow> kind x \<noteq> ''Namespace'' \<and> obj_place x \<notin> K"

definition good_cluster_template :: "nenv \<Rightarrow> string \<Rightarrow> (string \<times> string \<times> string) set \<Rightarrow> string option \<Rightarrow> bool" where
  "good_cluster_template E name K c \<longleftrightarrow> (case c of None \<Rightarrow> True | Some r \<Rightarrow> r = [] \<or>
     (\<exists>t xs. template E r = Some t \<and> process E t (space_params name) None = Inr xs \<and> list_all (harmless K) xs))"

text \<open>The objects of space roles in a namespace.\<close>

fun role_objects :: "nenv \<Rightarrow> string \<Rightarrow> space_role list \<Rightarrow> kobj list option" where
  "role_objects E n [] = Some []"
| "role_objects E n (r # rs) =
     (case template E (sr_ref r) of None \<Rightarrow> None | Some t \<Rightarrow> (case process_users E t n (sr_users r) of Inl e \<Rightarrow> None
      | Inr xs \<Rightarrow> (case role_objects E n rs of None \<Rightarrow> None | Some ys \<Rightarrow> Some (xs @ ys))))"

definition good_roles :: "nenv \<Rightarrow> (string \<times> string \<times> string) set \<Rightarrow> string \<Rightarrow> space_role list \<Rightarrow> bool" where
  "good_roles E K n rs \<longleftrightarrow> (\<exists>xs. role_objects E n rs = Some xs \<and> list_all (harmless K) xs)"

text \<open>A namespace of the tier: of the space, active, with the name the template gives it; the template applied last and the roles applied last are known.\<close>

definition good_ref :: "nenv \<Rightarrow> string \<Rightarrow> tierTemplate \<Rightarrow> string \<Rightarrow> bool" where
  "good_ref E name t r \<longleftrightarrow> r = [] \<or> r = t_ref t \<or>
     (\<exists>c xs. template E r = Some c \<and> process E c (space_params name) (Some RetainAllButNamespaces) = Inr xs \<and>
        (\<forall>x \<in> set xs. m_ns (o_meta x) = ns_name E name t))"

definition good_namespace :: "nenv \<Rightarrow> string \<Rightarrow> (string \<times> string \<times> string) set \<Rightarrow> tierTemplate \<Rightarrow> namespace \<Rightarrow> bool" where
  "good_namespace E name K t x \<longleftrightarrow> type_of x = t_type t \<and> ns_active x \<and> m_name (ns_meta x) = ns_name E name t \<and>
     lookup (m_labels (ns_meta x)) SpaceLabelKey = Some name \<and> good_ref E name t (lookup0 (m_labels (ns_meta x)) TemplateRefLabelKey) \<and>
     (\<exists>rs. last_applied E x = Inr rs \<and> good_roles E K (ns_name E name t) rs)"

definition good_namespaces :: "nenv \<Rightarrow> string \<Rightarrow> nstt \<Rightarrow> (string \<rightharpoonup> namespace) \<Rightarrow> bool" where
  "good_namespaces E name nt m \<longleftrightarrow> (\<forall>t \<in> set (tier_of E nt). \<forall>x. m (t_type t) = Some x \<longrightarrow> good_namespace E name (all_needed E name nt) t x)"

definition good_tier :: "nenv \<Rightarrow> string \<Rightarrow> nstt \<Rightarrow> bool" where
  "good_tier E name nt \<longleftrightarrow>
     (\<forall>r \<in> set (nt_namespaces nt). template E r \<noteq> None) \<and> distinct (map t_type (tier_of E nt)) \<and>
     distinct (map (ns_name E name) (tier_of E nt)) \<and> (\<forall>t \<in> set (tier_of E nt). good_template E name t) \<and>
     good_cluster_template E name (all_needed E name nt) (nt_cluster nt) \<and>
     (\<forall>t \<in> set (tier_of E nt). good_roles E (all_needed E name nt) (ns_name E name t) (nt_roles nt)) \<and>
     (\<exists>a. ne_marshal E (nt_roles nt) = Inr a \<and> a \<noteq> [] \<and> ne_unmarshal E a = Inr (nt_roles nt))"

section \<open>A cluster that keeps what it is told\<close>

definition answers :: "(ntrace \<Rightarrow> string) \<Rightarrow> nenv \<Rightarrow> space_store \<Rightarrow> string \<Rightarrow> string \<Rightarrow> bool" where
  "answers rv E S0 ns name \<longleftrightarrow> (\<forall>tr. let S = space_at rv S0 tr in
     ne_get_nstt E tr ns name = Inr (sn S) \<and>
     (\<forall>x. ne_update_nstt E tr x = Inr (sn (recorded rv tr (UpdateNSTemplateSet x) S))) \<and>
     (\<forall>x. ne_update_status E tr x = Inr (sn (recorded rv tr (UpdateStatus x) S))) \<and>
     (\<forall>n. \<exists>ms. ne_list_roles E tr n = Inr ms \<and>
        (\<forall>x. contains_named ms x name = (sobj S (''Role'', n, m_name (o_meta x)) = Some name))) \<and>
     (\<forall>n. \<exists>ms. ne_list_rolebindings E tr n = Inr ms \<and>
        (\<forall>x. contains_named ms x name = (sobj S (''RoleBinding'', n, m_name (o_meta x)) = Some name))))"

definition takes_writes :: "nenv \<Rightarrow> bool" where
  "takes_writes E \<longleftrightarrow>
     (\<forall>tr c. case ne_exec E tr c of None \<Rightarrow> True | Some e \<Rightarrow> (\<exists>x. c = DeleteObject x) \<and> IsNotFound (ne_lib E) e) \<and>
     (\<forall>tr x. case ne_get_object E tr x of Inl e \<Rightarrow> IsNotFound (ne_lib E) e | Inr y \<Rightarrow> True)"

text \<open>
  The namespaces of the tier are listed as they are stored.  Others may be listed, all with names in \<open>N\<close>: for at most \<open>lag\<close> calls after
  they were deleted, and none that was gone before.
\<close>

definition foreign :: "nenv \<Rightarrow> string set \<Rightarrow> string \<Rightarrow> ntrace \<Rightarrow> namespace set" where
  "foreign E types name tr = {x. \<exists>xs. ne_list_namespaces E tr name = Inr xs \<and> x \<in> set xs \<and> type_of x \<notin> types}"

definition lists_namespaces :: "(ntrace \<Rightarrow> string) \<Rightarrow> nenv \<Rightarrow> space_store \<Rightarrow> string \<Rightarrow> string set \<Rightarrow> nat \<Rightarrow> bool" where
  "lists_namespaces rv E S0 name N lag \<longleftrightarrow>
     (\<forall>tr. \<exists>xs. ne_list_namespaces E tr name = Inr xs \<and>
        {x \<in> set xs. type_of x \<in> types_of E (sn S0)} = {x. \<exists>ty \<in> types_of E (sn S0). sns (space_at rv S0 tr) ty = Some x}) \<and>
     (\<forall>tr. \<forall>x \<in> foreign E (types_of E (sn S0)) name tr. m_name (ns_meta x) \<in> N \<and> 0 < remaining lag tr (m_name (ns_meta x))) \<and>
     (\<forall>tr t. foreign E (types_of E (sn S0)) name (tr @ t) \<subseteq> foreign E (types_of E (sn S0)) name tr)"

definition space_cluster :: "(ntrace \<Rightarrow> string) \<Rightarrow> nenv \<Rightarrow> space_store \<Rightarrow> string \<Rightarrow> string \<Rightarrow> string set \<Rightarrow> nat \<Rightarrow> bool" where
  "space_cluster rv E S0 ns name N lag \<longleftrightarrow>
     answers rv E S0 ns name \<and> takes_writes E \<and> lists_namespaces rv E S0 name N lag \<and> finite N \<and> fixed_host E \<and>
     not_found_lib (ne_lib E) \<and> conditions_lib (ne_lib E) \<and> finalizers_lib (ne_lib E) \<and> same_lib E \<and> ns \<noteq> [] \<and>
     m_name (nt_meta (sn S0)) = name \<and> m_deletion (nt_meta (sn S0)) = None \<and> good_tier E name (sn S0) \<and>
     good_cluster_template E name (all_needed E name (sn S0)) (st_cluster (sn S0)) \<and> good_namespaces E name (sn S0) (sns S0)"

lemma space_libs:
  assumes "space_cluster rv E S0 ns name N lag"
  shows "fixed_host E" "not_found_lib (ne_lib E)" "conditions_lib (ne_lib E)" "finalizers_lib (ne_lib E)" "finite N" "ns \<noteq> []"
    "takes_writes E" "good_tier E name (sn S0)" "m_name (nt_meta (sn S0)) = name" "m_deletion (nt_meta (sn S0)) = None"
    "good_cluster_template E name (all_needed E name (sn S0)) (st_cluster (sn S0))" "good_namespaces E name (sn S0) (sns S0)" "same_lib E"
  using assms by (simp_all add: space_cluster_def)

lemma space_reads:
  assumes "space_cluster rv E S0 ns name N lag"
  shows "ne_get_nstt E tr ns name = Inr (sn (space_at rv S0 tr))"
    "ne_update_nstt E tr x = Inr (sn (recorded rv tr (UpdateNSTemplateSet x) (space_at rv S0 tr)))"
    "ne_update_status E tr x = Inr (sn (recorded rv tr (UpdateStatus x) (space_at rv S0 tr)))"
    "\<exists>ms. ne_list_roles E tr n = Inr ms \<and>
      (\<forall>x. contains_named ms x name = (sobj (space_at rv S0 tr) (''Role'', n, m_name (o_meta x)) = Some name))"
    "\<exists>ms. ne_list_rolebindings E tr n = Inr ms \<and>
      (\<forall>x. contains_named ms x name = (sobj (space_at rv S0 tr) (''RoleBinding'', n, m_name (o_meta x)) = Some name))"
  using assms unfolding space_cluster_def answers_def Let_def by blast+

lemma space_lists:
  assumes "space_cluster rv E S0 ns name N lag"
  obtains xs where "ne_list_namespaces E tr name = Inr xs"
    and "{x \<in> set xs. type_of x \<in> types_of E (sn S0)} = {x. \<exists>ty \<in> types_of E (sn S0). sns (space_at rv S0 tr) ty = Some x}"
    and "{x \<in> set xs. type_of x \<notin> types_of E (sn S0)} = foreign E (types_of E (sn S0)) name tr"
proof -
  obtain xs where "ne_list_namespaces E tr name = Inr xs"
    "{x \<in> set xs. type_of x \<in> types_of E (sn S0)} = {x. \<exists>ty \<in> types_of E (sn S0). sns (space_at rv S0 tr) ty = Some x}"
    using assms unfolding space_cluster_def lists_namespaces_def by blast
  then show ?thesis by (intro that [of xs]) (auto simp: foreign_def)
qed

lemma write_taken:
  assumes "takes_writes E"
  shows "\<forall>x. c \<noteq> DeleteObject x \<Longrightarrow> ne_exec E tr c = None"
    and "ne_exec E tr c = Some e \<Longrightarrow> IsNotFound (ne_lib E) e"
    and "ne_get_object E tr x = Inl e \<Longrightarrow> IsNotFound (ne_lib E) e"
  using assms unfolding takes_writes_def by (fastforce split: option.splits sum.splits)+

section \<open>Objects\<close>

abbreviation at :: "(ntrace \<Rightarrow> string) \<Rightarrow> space_store \<Rightarrow> (nstt, ncall) st \<Rightarrow> space_store" where
  "at rv S0 s \<equiv> space_at rv S0 (calls s)"

text \<open>Calls that change objects in namespaces only.\<close>

definition objects_only :: "(ntrace \<Rightarrow> string) \<Rightarrow> space_store \<Rightarrow> (nstt, ncall) st \<Rightarrow> (nstt, ncall) st \<Rightarrow> bool" where
  "objects_only rv S0 s s' \<longleftrightarrow> mem s' = mem s \<and> sn (at rv S0 s') = sn (at rv S0 s) \<and> sns (at rv S0 s') = sns (at rv S0 s) \<and>
     (\<exists>u. calls s' = calls s @ u)"

lemma objects_only_refl [simp]: "objects_only rv S0 s s"
  by (simp add: objects_only_def)

lemma objects_only_trans: "objects_only rv S0 s s1 \<Longrightarrow> objects_only rv S0 s1 s2 \<Longrightarrow> objects_only rv S0 s s2"
  by (auto simp: objects_only_def)

lemma idle_objects: "idle rv S0 s s' \<Longrightarrow> objects_only rv S0 s s'"
  by (simp add: idle_def objects_only_def)

lemma apply_service_account_idle:
  assumes "takes_writes E"
  shows "wp (apply_service_account E obj l) (\<lambda>e s'. e = None \<and> idle rv S0 s s') s"
proof (cases "ne_get_object E (calls s) obj")
  case (Inl e)
  let ?x = "ne_merge_labels E obj (Some l)"
  have "idle rv S0 s (log_call (CreateObject ?x) True (log_call (GetObject obj) False s))"
    by (rule idle_trans; rule idle_call; simp)
  moreover have "ne_exec E tr (CreateObject ?x) = None" for tr by (rule write_taken(1) [OF assms]) simp
  ultimately show ?thesis
    by (simp add: Inl write_taken(3) [OF assms Inl] apply_service_account_def Let_def wp_simps)
next
  case (Inr y)
  let ?x = "ne_merge_annotations E (ne_merge_labels E (ne_merge_labels E y (Some l)) (m_labels (o_meta obj))) (m_annotations (o_meta obj))"
  have "idle rv S0 s (log_call (UpdateObject ?x) True (log_call (GetObject obj) True s))"
    by (rule idle_trans; rule idle_call; simp)
  moreover have "ne_exec E tr (UpdateObject ?x) = None" for tr by (rule write_taken(1) [OF assms]) simp
  ultimately show ?thesis
    by (simp add: Inr apply_service_account_def Let_def wp_simps)
qed

definition spreads :: "(ntrace \<Rightarrow> string) \<Rightarrow> space_store \<Rightarrow> string option \<Rightarrow> kobj set \<Rightarrow> (nstt, ncall) st \<Rightarrow> (nstt, ncall) st \<Rightarrow> bool" where
  "spreads rv S0 v X s s' \<longleftrightarrow> objects_only rv S0 s s' \<and>
     (\<forall>k. sobj (at rv S0 s') k = sobj (at rv S0 s) k \<or> sobj (at rv S0 s') k = v) \<and> (\<forall>x \<in> X. sobj (at rv S0 s') (obj_place x) = v)"

lemma spreads_after_idle: "idle rv S0 s s1 \<Longrightarrow> spreads rv S0 v X s1 s' \<Longrightarrow> spreads rv S0 v X s s'"
  unfolding spreads_def by (simp add: objects_only_trans [OF idle_objects] idle_def)

lemma spreads_after_apply:
  assumes "spreads rv S0 (map_of l SpaceLabelKey) X (log_call (ApplyObject x l) True s) s'" and "kind x \<noteq> ''Namespace''"
  shows "spreads rv S0 (map_of l SpaceLabelKey) (insert x X) s s'"
proof -
  let ?s = "log_call (ApplyObject x l) True s"
  have "objects_only rv S0 s ?s" using assms(2) by (simp add: objects_only_def)
  then have "objects_only rv S0 s s'" by (rule objects_only_trans) (use assms(1) in \<open>simp add: spreads_def\<close>)
  moreover have so: "sobj (at rv S0 ?s) = (sobj (at rv S0 s))(obj_place x := map_of l SpaceLabelKey)" using assms(2) by simp
  have "\<forall>k. sobj (at rv S0 s') k = sobj (at rv S0 ?s) k \<or> sobj (at rv S0 s') k = map_of l SpaceLabelKey"
    and "\<forall>y \<in> X. sobj (at rv S0 s') (obj_place y) = map_of l SpaceLabelKey"
    using assms(1) by (simp_all add: spreads_def)
  then have "\<forall>k. sobj (at rv S0 s') k = sobj (at rv S0 s) k \<or> sobj (at rv S0 s') k = map_of l SpaceLabelKey"
    and "\<forall>y \<in> insert x X. sobj (at rv S0 s') (obj_place y) = map_of l SpaceLabelKey"
    unfolding so by (simp_all only: fun_upd_apply ball_simps) (metis, metis)
  ultimately show ?thesis by (simp add: spreads_def)
qed

text \<open>Nothing that has the label \<open>v\<close> loses it.\<close>

lemma spreads_keeps: "spreads rv S0 (Some v) X s s' \<Longrightarrow> sobj (at rv S0 s) k = Some v \<Longrightarrow> sobj (at rv S0 s') k = Some v"
  unfolding spreads_def by metis

lemma apply_objects_spreads:
  assumes "takes_writes E" and "\<forall>x \<in> set xs. kind x \<noteq> ''Namespace''"
  shows "wp (apply_objects E xs l any) (\<lambda>(b, e) s'. e = None \<and>
    spreads rv S0 (map_of l SpaceLabelKey) {x \<in> set xs. wanted E x \<and> \<not> service_account x} s s') s"
  using assms(2)
proof (induction xs arbitrary: any s)
  case Nil
  then show ?case by (simp add: wp_simps spreads_def)
next
  case (Cons x xs)
  let ?X = "{x \<in> set xs. wanted E x \<and> \<not> service_account x}" and ?v = "map_of l SpaceLabelKey"
  have IH: "wp (apply_objects E xs l any) (\<lambda>(b, e) s'. e = None \<and> spreads rv S0 ?v ?X s1 s') s1" for any s1
    using Cons by simp
  show ?case
  proof (cases "wanted E x")
    case False
    then have "{y \<in> set (x # xs). wanted E y \<and> \<not> service_account y} = ?X" by auto
    with False IH show ?thesis by (simp add: wanted_def)
  next
    case True
    then have w: "\<not> (lookup (m_annotations (o_meta x)) TierTemplateObjectOptionalResourceAnnotation \<noteq> None \<and>
        \<not> apiGroupIsPresent (ne_groups E) (o_gvk x))"
      by (auto simp: wanted_def)
    show ?thesis
    proof (cases "service_account x")
      case sa: True
      then have X: "{y \<in> set (x # xs). wanted E y \<and> \<not> service_account y} = ?X" by auto
      show ?thesis
        unfolding apply_objects.simps if_not_P [OF w] if_P [OF sa [unfolded service_account_def]] wp_unless_err X
        by (rule wp_mono [OF apply_service_account_idle [OF assms(1), where rv = rv and ?S0.0 = S0]])
           (auto intro!: wp_mono [OF IH] elim: spreads_after_idle)
    next
      case sa: False
      let ?s = "log_call (ApplyObject x l) True s"
      have "ne_exec E (calls s) (ApplyObject x l) = None" by (rule write_taken(1) [OF assms(1)]) simp
      moreover have "wp (apply_objects E xs l True) (\<lambda>(b, e) s'. e = None \<and>
          spreads rv S0 ?v {y \<in> set (x # xs). wanted E y \<and> \<not> service_account y} s s') ?s"
      proof (intro wp_mono [OF IH], clarify)
        fix b s' assume "spreads rv S0 ?v ?X ?s s'"
        then have "spreads rv S0 ?v (insert x ?X) s s'" by (rule spreads_after_apply) (use Cons.prems in simp)
        moreover have "insert x ?X = {y \<in> set (x # xs). wanted E y \<and> \<not> service_account y}" using True sa by auto
        ultimately show "None = None \<and> spreads rv S0 ?v {y \<in> set (x # xs). wanted E y \<and> \<not> service_account y} s s'" by simp
      qed
      ultimately show ?thesis
        unfolding apply_objects.simps if_not_P [OF w] if_not_P [OF sa [unfolded service_account_def]] wp_unless_err wp_call_err
        by simp
    qed
  qed
qed

lemma apply_all_spreads:
  assumes "takes_writes E" and "\<forall>x \<in> set xs. kind x \<noteq> ''Namespace''"
  shows "wp (apply_all E xs l) (\<lambda>e s'. e = None \<and>
    spreads rv S0 (map_of l SpaceLabelKey) {x \<in> set xs. wanted E x \<and> \<not> service_account x} s s') s"
  unfolding apply_all_def ApplyToolchainObjects_def wp_bind
  by (rule wp_mono [OF apply_objects_spreads [OF assms, where rv = rv and ?S0.0 = S0]]) (auto simp: wp_return)

definition clears :: "(ntrace \<Rightarrow> string) \<Rightarrow> space_store \<Rightarrow> kobj set \<Rightarrow> (nstt, ncall) st \<Rightarrow> (nstt, ncall) st \<Rightarrow> bool" where
  "clears rv S0 X s s' \<longleftrightarrow> objects_only rv S0 s s' \<and> (\<forall>k. k \<notin> obj_place ` X \<longrightarrow> sobj (at rv S0 s') k = sobj (at rv S0 s) k)"

lemma deleteObsolete_clears:
  assumes "takes_writes E"
  shows "wp (deleteObsoleteObjects E cur new) (\<lambda>e s'. e = None \<and> clears rv S0 (set cur) s s') s"
proof (induction cur arbitrary: s)
  case (Cons x cur)
  have "wp (deleteObsoleteObjects E cur new) (\<lambda>e s'. e = None \<and> clears rv S0 (set (x # cur)) s s') (log_call (DeleteObject x) ok s)" for ok
    by (rule wp_mono [OF Cons.IH]) (auto simp: clears_def objects_only_def split: if_splits)
  then show ?case
    using write_taken(2) [OF assms] wp_mono [OF Cons.IH [of s], of "\<lambda>e s'. e = None \<and> clears rv S0 (set (x # cur)) s s'"]
    by (auto simp: wp_simps clears_def split: option.split)
qed (simp add: wp_simps clears_def)

lemma deleteObsolete_none:
  assumes "same_lib E" and "set cur \<subseteq> set new"
  shows "deleteObsoleteObjects E cur new = ret None"
  using assms(2)
proof (induction cur)
  case (Cons x cur)
  then have "list_ex (\<lambda>y. ne_same E x y) new" using assms(1) by (auto simp: list_ex_iff same_lib_def)
  with Cons show ?case by simp
qed simp

end
