(* ===== verification/NSSteps.thy ===== *)
theory NSSteps
  imports NSStore
begin

text \<open>
  One step after the other of a reconcile that provisions a space, on the cluster of \<open>NSStore\<close>: what it leaves of the store, and that it succeeds.
\<close>

section \<open>The handler and the store\<close>

abbreviation spec_of :: "nstt \<Rightarrow> _" where
  "spec_of nt \<equiv> (m_name (nt_meta nt), m_annotations (nt_meta nt), m_deletion (nt_meta nt), nt_tier nt, nt_namespaces nt, nt_cluster nt, nt_roles nt)"

abbreviation parts_of :: "nstt \<Rightarrow> _" where
  "parts_of nt \<equiv> (st_namespaces nt, st_cluster nt, m_finalizers (nt_meta nt))"

text \<open>The set in memory is the one stored, with the spec of the beginning.\<close>

definition settled :: "(ntrace \<Rightarrow> string) \<Rightarrow> space_store \<Rightarrow> (nstt, ncall) st \<Rightarrow> bool" where
  "settled rv S0 s \<longleftrightarrow> mem s = sn (at rv S0 s) \<and> spec_of (mem s) = spec_of (sn S0)"

text \<open>From \<open>s\<close> to \<open>s'\<close> no namespace changes and nothing needed in one is lost.\<close>

definition holds :: "string \<Rightarrow> (string \<times> string \<times> string) set \<Rightarrow> space_store \<Rightarrow> space_store \<Rightarrow> bool" where
  "holds name K S S' \<longleftrightarrow> (\<forall>k \<in> K. sobj S k = Some name \<longrightarrow> sobj S' k = Some name)"

definition stays :: "(ntrace \<Rightarrow> string) \<Rightarrow> nenv \<Rightarrow> space_store \<Rightarrow> (nstt, ncall) st \<Rightarrow> (nstt, ncall) st \<Rightarrow> bool" where
  "stays rv E S0 s s' \<longleftrightarrow> settled rv S0 s' \<and> sns (at rv S0 s') = sns (at rv S0 s) \<and>
     holds (m_name (nt_meta (sn S0))) (all_needed E (m_name (nt_meta (sn S0))) (sn S0)) (at rv S0 s) (at rv S0 s') \<and>
     (\<exists>u. calls s' = calls s @ u)"

definition moves :: "(ntrace \<Rightarrow> string) \<Rightarrow> nenv \<Rightarrow> space_store \<Rightarrow> (nstt, ncall) st \<Rightarrow> (nstt, ncall) st \<Rightarrow> bool" where
  "moves rv E S0 s s' \<longleftrightarrow> stays rv E S0 s s' \<and> parts_of (mem s') = parts_of (mem s)"

lemma stays_refl: "settled rv S0 s \<Longrightarrow> stays rv E S0 s s"
  by (simp add: stays_def holds_def)

lemma stays_trans: "stays rv E S0 s s1 \<Longrightarrow> stays rv E S0 s1 s2 \<Longrightarrow> stays rv E S0 s s2"
  by (auto simp: stays_def holds_def)

lemma moves_refl: "settled rv S0 s \<Longrightarrow> moves rv E S0 s s"
  by (simp add: moves_def stays_refl)

lemma moves_trans: "moves rv E S0 s s1 \<Longrightarrow> moves rv E S0 s1 s2 \<Longrightarrow> moves rv E S0 s s2"
  using stays_trans by (auto simp: moves_def)

lemma moves_settled: "moves rv E S0 s s' \<Longrightarrow> settled rv S0 s'"
  by (simp add: moves_def stays_def)

lemma settledD:
  assumes "settled rv S0 s"
  shows "m_name (nt_meta (mem s)) = m_name (nt_meta (sn S0))" "nt_namespaces (mem s) = nt_namespaces (sn S0)"
    "nt_cluster (mem s) = nt_cluster (sn S0)" "nt_roles (mem s) = nt_roles (sn S0)" "m_deletion (nt_meta (mem s)) = m_deletion (nt_meta (sn S0))"
    "sn (at rv S0 s) = mem s"
  using assms by (auto simp: settled_def)

lemma objects_moves:
  assumes "objects_only rv S0 s s'" and "settled rv S0 s"
    and "holds (m_name (nt_meta (sn S0))) (all_needed E (m_name (nt_meta (sn S0))) (sn S0)) (at rv S0 s) (at rv S0 s')"
  shows "moves rv E S0 s s'"
  using assms by (auto simp: moves_def stays_def settled_def objects_only_def)

lemma idle_moves: "idle rv S0 s s' \<Longrightarrow> settled rv S0 s \<Longrightarrow> moves rv E S0 s s'"
  by (rule objects_moves [OF idle_objects]) (simp_all add: holds_def idle_def)

lemma spreads_moves:
  assumes "spreads rv S0 (Some (m_name (nt_meta (sn S0)))) X s s'" and "settled rv S0 s"
  shows "moves rv E S0 s s'"
proof (rule objects_moves)
  show "holds (m_name (nt_meta (sn S0))) (all_needed E (m_name (nt_meta (sn S0))) (sn S0)) (at rv S0 s) (at rv S0 s')"
    using assms(1) unfolding spreads_def holds_def by metis
qed (use assms in \<open>simp_all add: spreads_def\<close>)

lemma clears_moves:
  assumes "clears rv S0 X s s'" and "settled rv S0 s"
    and "\<forall>x \<in> X. obj_place x \<notin> all_needed E (m_name (nt_meta (sn S0))) (sn S0)"
  shows "moves rv E S0 s s'"
proof (rule objects_moves)
  show "holds (m_name (nt_meta (sn S0))) (all_needed E (m_name (nt_meta (sn S0))) (sn S0)) (at rv S0 s) (at rv S0 s')"
    using assms(1,3) unfolding clears_def holds_def by (metis imageE)
qed (use assms in \<open>simp_all add: clears_def\<close>)

section \<open>The status\<close>

lemma writes_stay:
  assumes "space_cluster rv E S0 ns name N lag" and "spec_of (sn (at rv S0 s)) = spec_of (sn S0)"
  shows "wp (write_status E) (\<lambda>e s'. e = None \<and> stays rv E S0 s s' \<and>
    parts_of (mem s') = (st_namespaces (mem s), st_cluster (mem s), m_finalizers (nt_meta (sn (at rv S0 s)))) \<and>
    st_conds (mem s') = st_conds (mem s)) s"
  using assms(2) space_reads(3) [OF assms(1)]
  by (simp add: write_status_def wp_simps stays_def settled_def holds_def bump_def with_status_def)

lemma added_cond:
  assumes "conditions_lib L" and "AddOrUpdateStatusConditions L t cs [c] = (cs', u)"
  shows "has_cond L cs' c" and "\<not> u \<Longrightarrow> cs' = cs"
  using assms(1) [unfolded conditions_lib_def, THEN spec [of _ t], THEN spec [of _ cs], THEN spec [of _ c]] assms(2) by auto

lemma condition_moves:
  assumes "space_cluster rv E S0 ns name N lag" and "settled rv S0 s"
  shows "wp (updateStatusConditions E [c]) (\<lambda>e s'. e = None \<and> moves rv E S0 s s' \<and> has_cond (ne_lib E) (st_conds (mem s')) c) s"
proof -
  obtain cs u where cs: "AddOrUpdateStatusConditions (ne_lib E) (ne_now E (tick s)) (st_conds (mem s)) [c] = (cs, u)"
    by (cases "AddOrUpdateStatusConditions (ne_lib E) (ne_now E (tick s)) (st_conds (mem s)) [c]")
  note added = added_cond [OF space_libs(3) [OF assms(1)] cs]
  let ?s = "s\<lparr>tick := Suc (tick s), mem := mem s\<lparr>st_conds := cs\<rparr>\<rparr>"
  have "wp (write_status E) (\<lambda>e s'. e = None \<and> moves rv E S0 s s' \<and> has_cond (ne_lib E) (st_conds (mem s')) c) ?s"
    by (rule wp_mono [OF writes_stay [OF assms(1)]])
       (use assms(2) added(1) in \<open>auto simp: settled_def moves_def stays_def\<close>)
  moreover have "moves rv E S0 s ?s" if "\<not> u"
    using assms(2) added(2) [OF that] by (auto simp: settled_def moves_def stays_def holds_def)
  ultimately show ?thesis
    using cs added(1) by (auto simp: updateStatusConditions_def wp_simps)
qed

lemma ready_moves:
  assumes "space_cluster rv E S0 ns name N lag" and "settled rv S0 s"
  shows "wp (setReady E st r m) (\<lambda>e s'. e = None \<and> moves rv E S0 s s') s"
  unfolding setReady_def by (rule wp_mono [OF condition_moves [OF assms]]) simp

lemma progress_moves:
  assumes "space_cluster rv E S0 ns name N lag" and "settled rv S0 s"
  shows "wp (setStatusProvisioningIfNotUpdating E) (\<lambda>e s'. e = None \<and> moves rv E S0 s s') s"
    and "wp (setStatusUpdatingIfNotProvisioning E) (\<lambda>e s'. e = None \<and> moves rv E S0 s s') s"
  unfolding setStatusProvisioningIfNotUpdating_def setStatusUpdatingIfNotProvisioning_def
  using ready_moves [OF assms] moves_refl [OF assms(2)] by (auto simp: wp_simps split: prod.splits)

section \<open>Templates\<close>

lemma getTierTemplates_idle:
  assumes "fixed_host E" and "not_found_lib (ne_lib E)" and "\<forall>r \<in> set refs. template E r \<noteq> None"
  shows "wp (getTierTemplates E refs ts) (\<lambda>r s'. r = Inr (ts @ map (\<lambda>r. the (template E r)) refs) \<and> idle rv S0 s s') s"
  using assms(3)
proof (induction refs arbitrary: ts s)
  case (Cons ref refs)
  then obtain t where t: "template E ref = Some t" by auto
  show ?case
    unfolding getTierTemplates.simps wp_with_value
    by (rule wp_mono [OF getTierTemplate_idle [OF assms(1,2) t, where rv = rv and ?S0.0 = S0]])
       (use Cons.prems t in \<open>auto intro!: wp_mono [OF Cons.IH] elim: idle_trans\<close>)
qed (simp add: wp_simps)

lemma role_objects_idle:
  assumes "fixed_host E" and "not_found_lib (ne_lib E)" and "role_objects E n rs = Some xs"
  shows "wp (getSpaceRolesObjects E n rs) (\<lambda>r s'. r = Inr xs \<and> idle rv S0 s s') s"
  using assms(3)
proof (induction rs arbitrary: xs s)
  case (Cons r rs)
  then obtain t ys zs where t: "template E (sr_ref r) = Some t" "process_users E t n (sr_users r) = Inr ys"
      "role_objects E n rs = Some zs" "xs = ys @ zs"
    by (auto split: option.splits sum.splits)
  show ?case
    unfolding getSpaceRolesObjects.simps wp_with_value
    by (rule wp_mono [OF getTierTemplate_idle [OF assms(1,2) t(1), where rv = rv and ?S0.0 = S0]])
       (auto simp: t wp_simps intro!: wp_mono [OF Cons.IH [OF t(3)]] elim: idle_trans)
qed (simp add: wp_simps)


section \<open>Cluster resources\<close>

lemma clusterTemplate_idle:
  assumes "space_cluster rv E S0 ns name N lag" and "good_cluster_template E name K c"
  shows "wp (processTierTemplate E c name) (\<lambda>r s'. \<exists>t xs. r = Inr (t, xs) \<and> list_all (harmless K) xs \<and> (xs \<noteq> [] \<longrightarrow> t \<noteq> None) \<and>
    idle rv S0 s s') s"
proof (cases c)
  case (Some r)
  show ?thesis
  proof (cases "r = []")
    case False
    with assms(2) Some obtain t xs where t: "template E r = Some t" "process E t (space_params name) None = Inr xs" "list_all (harmless K) xs"
      by (auto simp: good_cluster_template_def)
    show ?thesis
      unfolding processTierTemplate_def Some option.case if_not_P [OF False] wp_with_value
      by (rule wp_mono [OF getTierTemplate_idle [OF space_libs(1,2) [OF assms(1)] t(1), where rv = rv and ?S0.0 = S0]])
         (use t in \<open>auto simp: wp_simps space_params_def\<close>)
  qed (simp add: processTierTemplate_def Some wp_simps)
qed (simp add: processTierTemplate_def wp_simps)

lemma changeStatus_moves:
  assumes "space_cluster rv E S0 ns name N lag" and "settled rv S0 s"
  shows "wp (changeStatusIfNeeded E oa) (\<lambda>(oa', e) s'. e = None \<and> moves rv E S0 s s' \<and> oa_new oa' = oa_new oa \<and> oa_current oa' = oa_current oa) s"
proof -
  have "wp (if oa_first oa then setStatusProvisioningIfNotUpdating E else setStatusUpdatingIfNotProvisioning E)
      (\<lambda>e s'. e = None \<and> moves rv E S0 s s') s"
    using progress_moves [OF assms] by simp
  then show ?thesis
    unfolding changeStatusIfNeeded_def using moves_refl [OF assms(2)]
    by (auto simp: wp_bind wp_return elim!: wp_mono)
qed

lemma remove_same_subset: "set (remove_same E x xs) \<subseteq> set xs"
  by (induction xs) auto

lemma Apply_moves:
  assumes C: "space_cluster rv E S0 ns name N lag" and "settled rv S0 s" and "kind x \<noteq> ''Namespace''" and "oa_new oa = Some t"
  shows "wp (Apply E oa x) (\<lambda>(oa', e) s'. e = None \<and> moves rv E S0 s s' \<and> oa_new oa' = Some t \<and> set (oa_current oa') \<subseteq> set (oa_current oa)) s"
proof (cases "shouldCreate E x (mem s)")
  case False
  then show ?thesis using assms moves_refl [OF assms(2)] by (simp add: Apply_def wp_simps)
next
  case True
  let ?oa = "oa\<lparr>oa_current := remove_same E x (oa_current oa)\<rparr>"
  have create: "\<not> \<not> shouldCreate E x (mem s)" using True by simp
  show ?thesis
    unfolding Apply_def wp_bind wp_get_mem if_not_P [OF create]
  proof (rule wp_mono [OF changeStatus_moves [OF C assms(2), of ?oa]], clarsimp simp: assms(4), goal_cases)
    case (1 oa' s1)
    note name = settledD(1) [OF moves_settled [OF 1(1)]]
    show ?case
      unfolding apply_cluster_def ApplyToolchainObjects_def wp_bind wp_get_mem
      by (rule wp_mono [OF apply_objects_spreads [OF space_libs(7) [OF C], where rv = rv and ?S0.0 = S0]])
         (use assms(3) 1 name remove_same_subset [of E x "oa_current oa"] in
           \<open>auto simp: cluster_labels_def wp_simps intro: moves_trans [OF 1(1) spreads_moves [OF _ moves_settled [OF 1(1)]]]\<close>)
  qed
qed


lemma apply_each_moves:
  assumes C: "space_cluster rv E S0 ns name N lag" and "list_all (harmless K) xs" and "xs \<noteq> [] \<longrightarrow> oa_new oa \<noteq> None"
    and "settled rv S0 s"
  shows "wp (apply_each E oa xs) (\<lambda>(oa', e) s'. e = None \<and> moves rv E S0 s s' \<and> set (oa_current oa') \<subseteq> set (oa_current oa)) s"
  using assms(2-4)
proof (induction xs arbitrary: oa s)
  case Nil
  then show ?case by (simp add: wp_simps moves_refl)
next
  case (Cons x xs)
  then obtain t where x: "kind x \<noteq> ''Namespace''" "oa_new oa = Some t" by (auto simp: harmless_def)
  show ?case
    unfolding apply_each.simps wp_bind
  proof (rule wp_mono [OF Apply_moves [OF C Cons.prems(3) x]], clarsimp, goal_cases)
    case (1 oa' s1)
    show ?case
      by (rule wp_mono [OF Cons.IH]) (use Cons.prems(1) 1 moves_settled [OF 1(1)] in \<open>auto intro: moves_trans\<close>)
  qed
qed

lemma Cleanup_moves:
  assumes C: "space_cluster rv E S0 ns name N lag" and "settled rv S0 s"
    and "\<forall>x \<in> set (oa_current oa). obj_place x \<notin> all_needed E (m_name (nt_meta (sn S0))) (sn S0)"
  shows "wp (Cleanup E oa) (\<lambda>e s'. e = None \<and> moves rv E S0 s s') s"
proof -
  have step: "wp (if oa_current oa \<noteq> [] then changeStatusIfNeeded E oa else ret (oa, None))
      (\<lambda>(oa', e) s'. e = None \<and> moves rv E S0 s s' \<and> oa_current oa' = oa_current oa) s"
    using moves_refl [OF assms(2)] by (auto simp: wp_return intro: wp_mono [OF changeStatus_moves [OF assms(1,2)]])
  show ?thesis
    unfolding Cleanup_def wp_bind
  proof (rule wp_mono [OF step], clarsimp simp: wp_bind, goal_cases)
    case (1 oa' s1)
    show ?case
      by (rule wp_mono [OF deleteObsolete_clears [OF space_libs(7) [OF C], where rv = rv and ?S0.0 = S0]])
         (use assms(3) 1 in \<open>auto simp: wrapErrorWithStatusUpdate_def wp_return
           intro: moves_trans [OF 1(1) clears_moves [OF _ moves_settled [OF 1(1)]]]\<close>)
  qed
qed

lemma ensure_cluster_moves:
  assumes C: "space_cluster rv E S0 ns name N lag" and "settled rv S0 s"
    and "good_cluster_template E name (all_needed E name (sn S0)) (st_cluster (mem s))"
  shows "wp (ensure_cluster E) (\<lambda>e s'. e = None \<and> moves rv E S0 s s') s"
proof -
  have nm: "m_name (nt_meta (sn S0)) = name" and new: "good_cluster_template E name (all_needed E name (sn S0)) (nt_cluster (mem s))"
    using space_libs(8,9) [OF C] settledD(3) [OF assms(2)] by (simp_all add: good_tier_def)
  obtain old r c where refs: "getOldAndNewTemplateRefsIfChanged E (mem s) = (old, r, c)"
    by (cases "getOldAndNewTemplateRefsIfChanged E (mem s)")
  show ?thesis
  proof (cases c)
    case False
    with refs show ?thesis using moves_refl [OF assms(2)] by (simp add: ensure_cluster_def wp_simps)
  next
    case True
    then have c: "\<not> \<not> c" by simp
    note names = settledD(1) [OF assms(2), unfolded nm]
    show ?thesis
      unfolding ensure_cluster_def wp_bind wp_get_mem refs prod.case if_not_P [OF c] wp_with_value names
    proof (rule wp_mono [OF clusterTemplate_idle [OF C new]], clarsimp simp: wp_with_value, goal_cases)
      case (1 s1 t xs)
      show ?case
      proof (rule wp_mono [OF clusterTemplate_idle [OF C assms(3)]], clarsimp simp: wp_bind, goal_cases)
        case (1 s2 t' ys)
        note idle = idle_trans [OF \<open>idle rv S0 s s1\<close> 1(3)]
        note m = idle_moves [OF idle assms(2)]
        have step: "wp (apply_each E (newObjectApplier (mem s) ys t) xs)
            (\<lambda>(oa', e) s'. e = None \<and> moves rv E S0 s2 s' \<and> set (oa_current oa') \<subseteq> set ys) s2"
          using apply_each_moves [OF C \<open>list_all _ xs\<close> _ moves_settled [OF m], of "newObjectApplier (mem s) ys t"] \<open>xs \<noteq> [] \<longrightarrow> _\<close>
          by (simp add: newObjectApplier_def)
        show ?case
        proof (rule wp_mono [OF step], clarsimp, goal_cases)
          case (1 oa s3)
          have "\<forall>x \<in> set (oa_current oa). obj_place x \<notin> all_needed E (m_name (nt_meta (sn S0))) (sn S0)"
            using 1 \<open>list_all _ ys\<close> by (auto simp: list_all_iff harmless_def nm)
          from Cleanup_moves [OF C moves_settled [OF 1(1)] this] show ?case
            by (rule wp_mono) (auto intro: moves_trans [OF moves_trans [OF m 1(1)]])
        qed
      qed
    qed
  qed
qed


lemma cluster_revisions_stay:
  assumes C: "space_cluster rv E S0 ns name N lag" and "settled rv S0 s"
  shows "wp (updateStatusClusterResourcesRevisions E) (\<lambda>e s'. e = None \<and> stays rv E S0 s s' \<and>
    parts_of (mem s') = (st_namespaces (mem s), nt_cluster (sn S0), m_finalizers (nt_meta (mem s)))) s"
proof -
  obtain c fs where f: "featureAnnotationNeedsUpdate E (mem s) = (c, fs)" by (cases "featureAnnotationNeedsUpdate E (mem s)")
  let ?s = "s\<lparr>mem := mem s\<lparr>st_features := fs, st_cluster := nt_cluster (mem s)\<rparr>\<rparr>"
  have "wp (write_status E) (\<lambda>e s'. e = None \<and> stays rv E S0 s s' \<and>
      parts_of (mem s') = (st_namespaces (mem s), nt_cluster (sn S0), m_finalizers (nt_meta (mem s)))) ?s"
    by (rule wp_mono [OF writes_stay [OF C]]) (use assms(2) in \<open>auto simp: settled_def stays_def\<close>)
  moreover have "st_cluster (mem s) = nt_cluster (mem s)" if "\<not> clusterResourcesNeedsUpdate (mem s)"
    using that by (auto simp: clusterResourcesNeedsUpdate_def split: option.splits)
  ultimately show ?thesis
    using stays_refl [OF assms(2)] settledD(3) [OF assms(2)] f
    by (auto simp: updateStatusClusterResourcesRevisions_def wp_simps)
qed

lemma namespace_revisions_stay:
  assumes C: "space_cluster rv E S0 ns name N lag" and "settled rv S0 s"
  shows "wp (updateStatusNamespacesRevisions E) (\<lambda>e s'. e = None \<and> stays rv E S0 s s' \<and>
    sort (st_namespaces (mem s')) = sort (nt_namespaces (sn S0)) \<and> st_cluster (mem s') = st_cluster (mem s) \<and>
    m_finalizers (nt_meta (mem s')) = m_finalizers (nt_meta (mem s))) s"
proof -
  let ?s = "s\<lparr>mem := mem s\<lparr>st_namespaces := nt_namespaces (mem s)\<rparr>\<rparr>"
  have "wp (write_status E) (\<lambda>e s'. e = None \<and> stays rv E S0 s s' \<and>
      sort (st_namespaces (mem s')) = sort (nt_namespaces (sn S0)) \<and> st_cluster (mem s') = st_cluster (mem s) \<and>
      m_finalizers (nt_meta (mem s')) = m_finalizers (nt_meta (mem s))) ?s"
    by (rule wp_mono [OF writes_stay [OF C]]) (use assms(2) in \<open>auto simp: settled_def stays_def\<close>)
  then show ?thesis
    using stays_refl [OF assms(2)] settledD(2) [OF assms(2)]
    by (auto simp: updateStatusNamespacesRevisions_def wp_simps)
qed

section \<open>Namespaces\<close>

text \<open>The list the controller works on: the namespaces of the tier as they are stored, and foreign ones.\<close>

definition listed :: "(ntrace \<Rightarrow> string) \<Rightarrow> nenv \<Rightarrow> space_store \<Rightarrow> (nstt, ncall) st \<Rightarrow> namespace list \<Rightarrow> bool" where
  "listed rv E S0 s xs \<longleftrightarrow>
     {x \<in> set xs. type_of x \<in> types_of E (sn S0)} = {x. \<exists>ty \<in> types_of E (sn S0). sns (at rv S0 s) ty = Some x} \<and>
     {x \<in> set xs. type_of x \<notin> types_of E (sn S0)} = foreign E (types_of E (sn S0)) (m_name (nt_meta (sn S0))) (calls s)"

lemma fetch_listed:
  assumes C: "space_cluster rv E S0 ns name N lag"
  shows "wp (fetchNamespacesByOwner E name) (\<lambda>r s'. idle rv S0 s s' \<and> (\<exists>xs. r = Inr xs \<and> listed rv E S0 s xs)) s"
proof -
  obtain xs where "ne_list_namespaces E (calls s) name = Inr xs"
    "{x \<in> set xs. type_of x \<in> types_of E (sn S0)} = {x. \<exists>ty \<in> types_of E (sn S0). sns (at rv S0 s) ty = Some x}"
    "{x \<in> set xs. type_of x \<notin> types_of E (sn S0)} = foreign E (types_of E (sn S0)) name (calls s)"
    by (rule space_lists [OF C])
  then show ?thesis
    using space_libs(9) [OF C] idle_call [of "ListNamespaces name" rv S0 s True]
    by (auto simp: fetchNamespacesByOwner_def wp_simps listed_def)
qed

lemma listed_find:
  assumes "listed rv E S0 s xs" and "good_namespaces E name (sn S0) (sns (at rv S0 s))" and "t \<in> set (tier_of E (sn S0))"
  shows "findNamespace xs (t_type t) = sns (at rv S0 s) (t_type t)"
proof -
  have ty: "type_of x = t_type u" if "sns (at rv S0 s) (t_type u) = Some x" "u \<in> set (tier_of E (sn S0))" for x u
    using assms(2) that unfolding good_namespaces_def good_namespace_def by blast
  have in_iff: "x \<in> set xs \<and> type_of x = t_type t \<longleftrightarrow> sns (at rv S0 s) (t_type t) = Some x" for x
    using assms(1,3) ty unfolding listed_def by (smt (verit) image_iff mem_Collect_eq)
  show ?thesis
  proof (cases "findNamespace xs (t_type t)")
    case None
    then have "\<not> (\<exists>x. x \<in> set xs \<and> type_of x = t_type t)" by (auto simp: findNamespace_def find_None_iff)
    then show ?thesis using in_iff None by (metis option.exhaust)
  next
    case (Some x)
    then have "x \<in> set xs" "type_of x = t_type t" by (auto simp: findNamespace_def find_Some_iff)
    then show ?thesis using in_iff Some by metis
  qed
qed

lemma listed_deprovision:
  assumes "listed rv E S0 s xs"
  shows "case nextNamespaceToDeprovision (tier_of E (sn S0)) xs of
      None \<Rightarrow> foreign E (types_of E (sn S0)) (m_name (nt_meta (sn S0))) (calls s) = {}
    | Some x \<Rightarrow> x \<in> foreign E (types_of E (sn S0)) (m_name (nt_meta (sn S0))) (calls s)"
proof -
  have out: "\<not> list_ex (\<lambda>t. t_type t = type_of x) (tier_of E (sn S0)) \<longleftrightarrow> type_of x \<notin> types_of E (sn S0)" for x
    by (simp add: list_ex_iff image_iff) metis
  show ?thesis
    using assms unfolding listed_def nextNamespaceToDeprovision_def out
    by (auto simp: find_None_iff find_Some_iff split: option.split)
qed

text \<open>A template is provisioned: its namespace has the labels of the template, and the roles it needs are there for the space.\<close>

definition provisioned :: "nenv \<Rightarrow> string \<Rightarrow> space_store \<Rightarrow> tierTemplate \<Rightarrow> bool" where
  "provisioned E name S t \<longleftrightarrow> (\<exists>x. sns S (t_type t) = Some x \<and> lookup0 (m_labels (ns_meta x)) TierLabelKey = t_tier t \<and>
     lookup0 (m_labels (ns_meta x)) TemplateRefLabelKey = t_ref t \<and> (\<forall>k \<in> needed E name t. sobj S k = Some name))"

lemma all_contained_iff:
  "(\<And>x. x \<in> set xs \<Longrightarrow> snd (f x) = None) \<Longrightarrow> all_contained f xs = ((\<forall>x \<in> set xs. fst (f x)), None)"
proof (induction xs)
  case (Cons x xs)
  obtain b e where f: "f x = (b, e)" by (cases "f x")
  with Cons.prems [of x] have "e = None" by simp
  with f Cons show ?case by simp
qed simp

lemma upToDate_idle:
  assumes C: "space_cluster rv E S0 ns name N lag" and t: "t \<in> set (tier_of E (sn S0))"
    and x: "sns (at rv S0 s) (t_type t) = Some x" and good: "good_namespaces E name (sn S0) (sns (at rv S0 s))"
  shows "wp (isUpToDateAndProvisioned E x t) (\<lambda>(b, e) s'. e = None \<and> b = provisioned E name (at rv S0 s) t \<and> idle rv S0 s s') s"
proof (cases "lookup0 (m_labels (ns_meta x)) TierLabelKey = t_tier t \<and> lookup0 (m_labels (ns_meta x)) TemplateRefLabelKey = t_ref t")
  case False
  then show ?thesis using x by (auto simp: isUpToDateAndProvisioned_def Let_def wp_simps provisioned_def)
next
  case True
  let ?labels = "m_labels (ns_meta x)" and ?n = "ns_name E name t" and ?xs = "inner_objects E name t"
  have g: "good_namespace E name (all_needed E name (sn S0)) t x" using good t x by (auto simp: good_namespaces_def)
  then have sp: "lookup ?labels SpaceLabelKey = Some name" "m_name (ns_meta x) = ?n" by (auto simp: good_namespace_def)
  then have l: "?labels \<noteq> None" "lookup0 ?labels SpaceLabelKey = name" by (cases ?labels; simp add: lookup0_eq)+
  have p: "process E t ((''USERNAME'', name) # space_params name) (Some RetainAllButNamespaces) = Inr ?xs"
    and ns: "\<forall>y \<in> set ?xs. m_ns (o_meta y) = ?n"
    using space_libs(8) [OF C] t by (auto simp: good_tier_def good_template_def Let_def)
  let ?s1 = "log_call (ListRoles ?n) True s"
  let ?s2 = "log_call (ListRoleBindings ?n) True ?s1"
  obtain rs where rs: "ne_list_roles E (calls s) ?n = Inr rs"
      "\<forall>y. contains_named rs y name = (sobj (at rv S0 s) (''Role'', ?n, m_name (o_meta y)) = Some name)"
    using space_reads(4) [OF C, of "calls s" ?n] by blast
  obtain bs where bs: "ne_list_rolebindings E (calls ?s1) ?n = Inr bs"
      "\<forall>y. contains_named bs y name = (sobj (at rv S0 ?s1) (''RoleBinding'', ?n, m_name (o_meta y)) = Some name)"
    using space_reads(5) [OF C, of "calls ?s1" ?n] by blast
  have same: "at rv S0 ?s1 = at rv S0 s" and idle: "idle rv S0 s ?s2"
    by simp (rule idle_trans; rule idle_call; simp)
  let ?roles = "filter (\<lambda>x. kind x = ''Role'') ?xs" and ?bindings = "filter (\<lambda>x. kind x = ''RoleBinding'') ?xs"
  have r: "all_contained (\<lambda>y. containsRole rs y name) ?roles =
      ((\<forall>y \<in> set ?xs. kind y = ''Role'' \<longrightarrow> sobj (at rv S0 s) (obj_place y) = Some name), None)"
    using rs(2) ns by (subst all_contained_iff) (auto simp: containsRole_def obj_place_def)
  have b: "all_contained (\<lambda>y. containsRoleBindings bs y name) ?bindings =
      ((\<forall>y \<in> set ?xs. kind y = ''RoleBinding'' \<longrightarrow> sobj (at rv S0 s) (obj_place y) = Some name), None)"
    using bs(2) ns same by (subst all_contained_iff) (auto simp: containsRoleBindings_def obj_place_def)
  have prov: "provisioned E name (at rv S0 s) t \<longleftrightarrow>
      (\<forall>y \<in> set ?xs. kind y = ''Role'' \<longrightarrow> sobj (at rv S0 s) (obj_place y) = Some name) \<and>
      (\<forall>y \<in> set ?xs. kind y = ''RoleBinding'' \<longrightarrow> sobj (at rv S0 s) (obj_place y) = Some name)"
    using x True by (auto simp: provisioned_def needed_def)
  show ?thesis
    unfolding isUpToDateAndProvisioned_def Let_def
    using l sp True rs(1) bs(1) idle
    by (simp add: p [unfolded space_params_def] wp_simps r b prov split: bool.split)
qed


lemma next_idle:
  assumes C: "space_cluster rv E S0 ns name N lag" and good: "good_namespaces E name (sn S0) (sns (at rv S0 s))"
    and find: "\<forall>t \<in> set (tier_of E (sn S0)). findNamespace xs (t_type t) = sns (at rv S0 s) (t_type t)"
    and "set ts \<subseteq> set (tier_of E (sn S0))"
  shows "wp (nextNamespaceToProvisionOrUpdate E ts xs) (\<lambda>(t, x, b, e) s'. e = None \<and> idle rv S0 s s' \<and>
    (case t of None \<Rightarrow> \<forall>u \<in> set ts. provisioned E name (at rv S0 s) u
     | Some u \<Rightarrow> b \<and> u \<in> set ts \<and> \<not> provisioned E name (at rv S0 s) u \<and> x = sns (at rv S0 s) (t_type u))) s"
  using good find assms(4)
proof (induction ts arbitrary: s)
  case (Cons t ts)
  have t: "t \<in> set (tier_of E (sn S0))" using Cons.prems(3) by simp
  show ?case
  proof (cases "sns (at rv S0 s) (t_type t)")
    case None
    with Cons.prems(2) t show ?thesis by (simp add: wp_simps provisioned_def)
  next
    case (Some x)
    with Cons.prems(2) t have f: "findNamespace xs (t_type t) = Some x" by simp
    have active: "ns_active x" using Cons.prems(1) t Some by (auto simp: good_namespaces_def good_namespace_def)
    show ?thesis
      unfolding nextNamespaceToProvisionOrUpdate.simps f option.case if_P [OF active] wp_bind
    proof (rule wp_mono [OF upToDate_idle [OF C t Some Cons.prems(1)]], clarsimp simp: wp_return Some, goal_cases)
      case (1 s1)
      then have "at rv S0 s1 = at rv S0 s" by (simp add: idle_def)
      with Cons.prems 1 show ?case
        by (intro wp_mono [OF Cons.IH]) (auto elim: idle_trans split: option.splits)
    qed
  qed
qed (simp add: wp_simps)

section \<open>Working on a namespace\<close>

text \<open>How much is left to do for a template, and for the roles in its namespace.\<close>

definition prov_left :: "nenv \<Rightarrow> string \<Rightarrow> space_store \<Rightarrow> tierTemplate \<Rightarrow> nat" where
  "prov_left E name S t =
     (if provisioned E name S t then 0
      else case sns S (t_type t) of None \<Rightarrow> 2
         | Some x \<Rightarrow> if mapContains (m_labels (ns_meta x)) (m_labels (o_meta (ns_object E name t))) then 1 else 2)"

definition role_left :: "nenv \<Rightarrow> space_role list \<Rightarrow> space_store \<Rightarrow> tierTemplate \<Rightarrow> nat" where
  "role_left E rs S t =
     (case sns S (t_type t) of None \<Rightarrow> if rs = [] then 0 else 1 | Some x \<Rightarrow> if last_applied E x = Inr rs then 0 else 1)"

text \<open>Work on the template \<open>t\<close>: the others keep what they have.\<close>

definition works_on :: "(ntrace \<Rightarrow> string) \<Rightarrow> nenv \<Rightarrow> space_store \<Rightarrow> tierTemplate \<Rightarrow> (nstt, ncall) st \<Rightarrow> (nstt, ncall) st \<Rightarrow> bool" where
  "works_on rv E S0 t s s' \<longleftrightarrow> (let name = m_name (nt_meta (sn S0)) in
     settled rv S0 s' \<and> parts_of (mem s') = parts_of (mem s) \<and> good_namespaces E name (sn S0) (sns (at rv S0 s')) \<and>
     (\<forall>u \<in> set (tier_of E (sn S0)). u \<noteq> t \<longrightarrow> sns (at rv S0 s') (t_type u) = sns (at rv S0 s) (t_type u) \<and>
        holds name (needed E name u) (at rv S0 s) (at rv S0 s')) \<and> (\<exists>u. calls s' = calls s @ u))"

lemma other_type:
  assumes "distinct (map f ts)" and "t \<in> set ts" "u \<in> set ts" "u \<noteq> t"
  shows "f u \<noteq> f t"
  using assms by (auto simp: distinct_map dest: inj_onD)

lemma tier_facts:
  assumes "space_cluster rv E S0 ns name N lag" and "t \<in> set (tier_of E (sn S0))"
  shows "process E t (space_params name) (Some RetainNamespaces) = Inr [ns_object E name t]" "kind (ns_object E name t) = ''Namespace''"
    "lookup (m_annotations (o_meta (ns_object E name t))) TierTemplateObjectOptionalResourceAnnotation = None"
    "lookup (m_annotations (o_meta (ns_object E name t))) LastAppliedSpaceRolesAnnotationKey = None"
    "k \<in> own_labels \<Longrightarrow> lookup (m_labels (o_meta (ns_object E name t))) k = None"
    "process E t (space_params name) (Some RetainAllButNamespaces) = Inr (inner_objects E name t)"
    "y \<in> set (inner_objects E name t) \<Longrightarrow> kind y \<noteq> ''Namespace'' \<and> m_ns (o_meta y) = ns_name E name t"
    "y \<in> set (inner_objects E name t) \<Longrightarrow> is_rbac y \<Longrightarrow> wanted E y"
    "u \<in> set (tier_of E (sn S0)) \<Longrightarrow> u \<noteq> t \<Longrightarrow> t_type u \<noteq> t_type t \<and> ns_name E name u \<noteq> ns_name E name t"
proof -
  have tier: "good_tier E name (sn S0)" by (rule space_libs(8) [OF assms(1)])
  then have g: "good_template E name t" using assms(2) by (simp add: good_tier_def)
  show "process E t (space_params name) (Some RetainNamespaces) = Inr [ns_object E name t]" "kind (ns_object E name t) = ''Namespace''"
    "lookup (m_annotations (o_meta (ns_object E name t))) TierTemplateObjectOptionalResourceAnnotation = None"
    "lookup (m_annotations (o_meta (ns_object E name t))) LastAppliedSpaceRolesAnnotationKey = None"
    "process E t (space_params name) (Some RetainAllButNamespaces) = Inr (inner_objects E name t)"
    using g by (simp_all add: good_template_def Let_def)
  have "\<forall>k \<in> own_labels. lookup (m_labels (o_meta (ns_object E name t))) k = None"
    using g unfolding good_template_def Let_def by (elim conjE)
  then show "k \<in> own_labels \<Longrightarrow> lookup (m_labels (o_meta (ns_object E name t))) k = None" by (rule bspec)
  show "y \<in> set (inner_objects E name t) \<Longrightarrow> kind y \<noteq> ''Namespace'' \<and> m_ns (o_meta y) = ns_name E name t"
    using g unfolding good_template_def Let_def by blast
  show "y \<in> set (inner_objects E name t) \<Longrightarrow> is_rbac y \<Longrightarrow> wanted E y"
    using g unfolding good_template_def Let_def wanted_def by blast
  show "u \<in> set (tier_of E (sn S0)) \<Longrightarrow> u \<noteq> t \<Longrightarrow> t_type u \<noteq> t_type t \<and> ns_name E name u \<noteq> ns_name E name t"
    using tier assms(2) unfolding good_tier_def by (metis other_type)
qed

lemma needed_place:
  assumes "space_cluster rv E S0 ns name N lag" and "t \<in> set (tier_of E (sn S0))" and "k \<in> needed E name t"
  shows "fst (snd k) = ns_name E name t" and "k \<in> all_needed E name (sn S0)"
  using assms(3) tier_facts(7) [OF assms(1,2)] apply (auto simp: needed_def obj_place_def)[1]
  using assms(2,3) by (auto simp: all_needed_def)

lemma namespace_kinds [simp]: "equal_fold ''Namespace'' ''ServiceAccount'' = False" "equal_fold ''Role'' ''ServiceAccount'' = False"
    "equal_fold ''RoleBinding'' ''ServiceAccount'' = False"
  by code_simp+

lemma expected_labels:
  assumes "space_cluster rv E S0 ns name N lag" and "t \<in> set (tier_of E (sn S0))" and "good_namespace E name K t x"
  shows "namespaceHasExpectedLabelsFromTemplate E t x = Inr (mapContains (m_labels (ns_meta x)) (m_labels (o_meta (ns_object E name t))))"
proof -
  have "lookup0 (m_labels (ns_meta x)) SpaceLabelKey = name" "m_name (ns_meta x) = ns_name E name t"
    using assms(3) by (simp_all add: good_namespace_def lookup0_eq)
  then show ?thesis
    using tier_facts(1) [OF assms(1,2)] by (simp add: namespaceHasExpectedLabelsFromTemplate_def space_params_def)
qed

end
