(* ===== verification/NSProvisioning.thy ===== *)
theory NSProvisioning
  imports NSSteps
begin

text \<open>
  Repeated reconciles provision a space on the cluster of \<open>NSStore\<close>: every reconcile that changes a namespace leaves less to do, and one that
  finds nothing to do makes the NSTemplateSet Ready.
\<close>

section \<open>A namespace object\<close>

definition ns_labels :: "string \<Rightarrow> tierTemplate \<Rightarrow> smap" where
  "ns_labels name t = [(SpaceLabelKey, name), (TypeLabelKey, t_type t), (ProviderLabelKey, ProviderLabelValue)]"

lemma mapContains_spread:
  assumes "\<forall>k \<in> own_labels. lookup b k = None" and "a = puts (ns_labels name t) c" and "\<And>k. lookup b k \<noteq> None \<Longrightarrow> lookup c k = lookup b k"
  shows "mapContains a b"
proof (cases b)
  case (Some l)
  have "lookup a k = lookup b k \<and> lookup b k \<noteq> None" if "(k, v) \<in> set l" for k v
  proof -
    have "map_of l k \<noteq> None" using that by (metis domIff dom_map_of_conv_image_fst fst_conv image_eqI)
    then have "lookup b k \<noteq> None" using Some by simp
    have "k \<notin> own_labels"
    proof
      assume "k \<in> own_labels"
      with assms(1) have "lookup b k = None" by (rule bspec)
      with \<open>lookup b k \<noteq> None\<close> show False by simp
    qed
    with assms(2,3) \<open>lookup b k \<noteq> None\<close> show ?thesis by (auto simp: ns_labels_def)
  qed
  moreover have "a \<noteq> None" using assms(2) by (simp add: ns_labels_def)
  ultimately show ?thesis using Some by (fastforce simp: mapContains_def list_all_iff split: option.split)
qed (simp add: mapContains_def)

lemma applied_namespace:
  assumes C: "space_cluster rv E S0 ns name N lag" and t: "t \<in> set (tier_of E (sn S0))"
    and known: "\<And>x. old = Some x \<Longrightarrow> good_namespace E name (all_needed E name (sn S0)) t x"
  defines "y \<equiv> applied_ns old (ns_object E name t) (ns_labels name t)"
  shows "good_namespace E name (all_needed E name (sn S0)) t y" and "mapContains (m_labels (ns_meta y)) (m_labels (o_meta (ns_object E name t)))"
    and "last_applied E y = (case old of None \<Rightarrow> Inr [] | Some x \<Rightarrow> last_applied E x)"
proof -
  let ?o = "ns_object E name t"
  note facts = tier_facts [OF C t]
  have own: "\<forall>k \<in> own_labels. lookup (m_labels (o_meta ?o)) k = None" by (rule ballI) (rule facts(5))
  show la: "last_applied E y = (case old of None \<Rightarrow> Inr [] | Some x \<Rightarrow> last_applied E x)"
    using facts(4) by (cases old) (simp_all add: y_def last_applied_def)
  show "mapContains (m_labels (ns_meta y)) (m_labels (o_meta ?o))"
    by (rule mapContains_spread [OF own, of _ name t "case old of None \<Rightarrow> m_labels (o_meta ?o)
        | Some x \<Rightarrow> puts (entries (m_labels (o_meta ?o))) (m_labels (ns_meta x))"])
       (auto simp: y_def split: option.split)
  have lo: "lookup (m_labels (ns_meta y)) SpaceLabelKey = Some name" "lookup0 (m_labels (ns_meta y)) TypeLabelKey = t_type t"
    "lookup0 (m_labels (ns_meta y)) TemplateRefLabelKey = (case old of None \<Rightarrow> [] | Some x \<Rightarrow> lookup0 (m_labels (ns_meta x)) TemplateRefLabelKey)"
    using own by (cases old; simp add: y_def ns_labels_def lookup0_eq)+
  show "good_namespace E name (all_needed E name (sn S0)) t y"
  proof (cases old)
    case None
    then show ?thesis
      using lo la by (auto simp: good_namespace_def type_of_def good_ref_def good_roles_def y_def)
  next
    case (Some x)
    with known [OF Some] lo la show ?thesis by (auto simp: good_namespace_def type_of_def y_def)
  qed
qed

text \<open>Applying the namespace object of a template that is not provisioned.\<close>

lemma good_namespaces_upd:
  assumes "space_cluster rv E S0 ns name N lag" and "t \<in> set (tier_of E (sn S0))" and "good_namespaces E name (sn S0) m"
    and "good_namespace E name (all_needed E name (sn S0)) t y"
  shows "good_namespaces E name (sn S0) (m(t_type t \<mapsto> y))"
  unfolding good_namespaces_def
proof (intro ballI allI impI)
  fix u x assume u: "u \<in> set (tier_of E (sn S0))" and x: "(m(t_type t \<mapsto> y)) (t_type u) = Some x"
  show "good_namespace E name (all_needed E name (sn S0)) u x"
  proof (cases "u = t")
    case False
    with tier_facts(9) [OF assms(1,2) u] x assms(3) u show ?thesis by (auto simp: good_namespaces_def)
  qed (use x assms(4) in simp)
qed

lemma resource_works:
  assumes C: "space_cluster rv E S0 ns name N lag" and t: "t \<in> set (tier_of E (sn S0))" and s: "settled rv S0 s"
    and good: "good_namespaces E name (sn S0) (sns (at rv S0 s))" and left: "prov_left E name (at rv S0 s) t = 2"
  shows "wp (ensureNamespaceResource E t) (\<lambda>e s'. e = None \<and> works_on rv E S0 t s s' \<and>
    prov_left E name (at rv S0 s') t < prov_left E name (at rv S0 s) t \<and>
    role_left E rs (at rv S0 s') t = role_left E rs (at rv S0 s) t) s"
proof -
  let ?o = "ns_object E name t" and ?l = "ns_labels name t"
  define s1 where "s1 = log_call (ApplyObject ?o ?l) True s"
  define y where "y = applied_ns (sns (at rv S0 s) (t_type t)) ?o ?l"
  note facts = tier_facts [OF C t]
  have nm: "m_name (nt_meta (mem s)) = name" "m_name (nt_meta (sn S0)) = name"
    using settledD(1) [OF s] space_libs(9) [OF C] by simp_all
  have y: "good_namespace E name (all_needed E name (sn S0)) t y" "mapContains (m_labels (ns_meta y)) (m_labels (o_meta ?o))"
      "last_applied E y = (case sns (at rv S0 s) (t_type t) of None \<Rightarrow> Inr [] | Some x \<Rightarrow> last_applied E x)"
    unfolding y_def using applied_namespace [OF C t] good t by (auto simp: good_namespaces_def)
  have s1: "at rv S0 s1 = (at rv S0 s)\<lparr>sns := (sns (at rv S0 s))(t_type t \<mapsto> y)\<rparr>" "mem s1 = mem s" "\<exists>u. calls s1 = calls s @ u"
    using facts(2) by (simp_all add: s1_def y_def ns_labels_def Let_def)
  have "settled rv S0 s1" using s s1 by (auto simp: settled_def)
  then have "works_on rv E S0 t s s1"
    using s good_namespaces_upd [OF C t good y(1)] facts(9)
    unfolding works_on_def Let_def nm(2) by (simp add: s1 holds_def)
  moreover have "prov_left E name (at rv S0 s1) t < prov_left E name (at rv S0 s) t"
    unfolding left s1(1) by (simp add: prov_left_def y(2))
  moreover have "role_left E rs (at rv S0 s1) t = role_left E rs (at rv S0 s) t"
    unfolding s1(1) by (auto simp: role_left_def y(3) split: option.split)
  moreover have "ne_exec E (calls s) (ApplyObject ?o ?l) = None" by (rule write_taken(1) [OF space_libs(7) [OF C]]) simp
  ultimately show ?thesis
    using facts(1-3)
    by (simp add: ensureNamespaceResource_def wp_simps nm space_params_def apply_all_def ApplyToolchainObjects_def ns_labels_def s1_def
        wrapErrorWithStatusUpdate_def)
qed


section \<open>The objects of a namespace\<close>

text \<open>From \<open>s\<close> to \<open>s'\<close> nothing is lost outside the namespace \<open>n\<close>.\<close>

definition drops :: "(ntrace \<Rightarrow> string) \<Rightarrow> nenv \<Rightarrow> space_store \<Rightarrow> string \<Rightarrow> (nstt, ncall) st \<Rightarrow> (nstt, ncall) st \<Rightarrow> bool" where
  "drops rv E S0 n s s' \<longleftrightarrow> (let name = m_name (nt_meta (sn S0)) in
     settled rv S0 s' \<and> parts_of (mem s') = parts_of (mem s) \<and> sns (at rv S0 s') = sns (at rv S0 s) \<and>
     holds name {k \<in> all_needed E name (sn S0). fst (snd k) \<noteq> n} (at rv S0 s) (at rv S0 s') \<and> (\<exists>u. calls s' = calls s @ u))"

lemma moves_drops: "moves rv E S0 s s' \<Longrightarrow> drops rv E S0 n s s'"
  by (simp add: moves_def stays_def drops_def holds_def Let_def)

lemma drops_trans: "drops rv E S0 n s s1 \<Longrightarrow> drops rv E S0 n s1 s2 \<Longrightarrow> drops rv E S0 n s s2"
  by (auto simp: drops_def holds_def Let_def)

lemma clears_drops:
  assumes "clears rv S0 X s s'" and "settled rv S0 s" and "\<forall>x \<in> X. m_ns (o_meta x) = n"
  shows "drops rv E S0 n s s'"
proof -
  have "k \<notin> obj_place ` X" if "fst (snd k) \<noteq> n" for k using assms(3) that by (auto simp: obj_place_def)
  then have "holds (m_name (nt_meta (sn S0))) {k \<in> all_needed E (m_name (nt_meta (sn S0))) (sn S0). fst (snd k) \<noteq> n} (at rv S0 s) (at rv S0 s')"
    using assms(1) unfolding clears_def holds_def by (metis (mono_tags, lifting) mem_Collect_eq)
  moreover have "settled rv S0 s'" using assms(1,2) by (auto simp: clears_def objects_only_def settled_def)
  ultimately show ?thesis using assms(1) by (simp add: drops_def Let_def clears_def objects_only_def)
qed

lemma redundant_drops:
  assumes C: "space_cluster rv E S0 ns name N lag" and s: "settled rv S0 s" and x: "good_namespace E name K t x"
  shows "wp (delete_redundant E t x new) (\<lambda>e s'. e = None \<and> drops rv E S0 (ns_name E name t) s s') s"
proof -
  have nm: "m_name (nt_meta (mem s)) = name" using settledD(1) [OF s] space_libs(9) [OF C] by simp
  have refl: "drops rv E S0 (ns_name E name t) s s" by (rule moves_drops [OF moves_refl [OF s]])
  show ?thesis
  proof (cases "lookup (m_labels (ns_meta x)) TemplateRefLabelKey")
    case None
    then show ?thesis using refl by (simp add: delete_redundant_def wp_simps)
  next
    case (Some r)
    show ?thesis
    proof (cases "r \<noteq> [] \<and> r \<noteq> t_ref t")
      case False
      with Some show ?thesis using refl by (auto simp: delete_redundant_def wp_simps)
    next
      case True
      with x Some obtain c xs where c: "template E r = Some c" "process E c (space_params name) (Some RetainAllButNamespaces) = Inr xs"
          "\<forall>y \<in> set xs. m_ns (o_meta y) = ns_name E name t"
        by (auto simp: good_namespace_def good_ref_def lookup0_eq)
      show ?thesis
        unfolding delete_redundant_def wp_bind wp_get_mem Some option.case if_P [OF True] wp_unless_err nm
      proof (rule wp_mono [OF progress_moves(2) [OF C s]], clarsimp simp: wp_with_value, goal_cases)
        case (1 s1)
        show ?case
        proof (rule wp_mono [OF getTierTemplate_idle [OF space_libs(1,2) [OF C] c(1), where rv = rv and ?S0.0 = S0]],
            clarsimp simp: c(2) [unfolded space_params_def] wp_bind, goal_cases)
          case (1 s2)
          note m = moves_trans [OF \<open>moves rv E S0 s s1\<close> idle_moves [OF 1 moves_settled [OF \<open>moves rv E S0 s s1\<close>]]]
          show ?case
            by (rule wp_mono [OF deleteObsolete_clears [OF space_libs(7) [OF C], where rv = rv and ?S0.0 = S0]])
               (auto simp: wrapErrorWithStatusUpdate_def wp_return
                 intro: drops_trans [OF moves_drops [OF m] clears_drops [OF _ moves_settled [OF m] c(3)]])
        qed
      qed
    qed
  qed
qed

lemma mark_keeps:
  assumes "good_namespace E name K t x"
  shows "good_namespace E name K t (mark_provisioned t x)" and "last_applied E (mark_provisioned t x) = last_applied E x"
    and "lookup0 (m_labels (ns_meta (mark_provisioned t x))) TierLabelKey = t_tier t"
    and "lookup0 (m_labels (ns_meta (mark_provisioned t x))) TemplateRefLabelKey = t_ref t"
  using assms by (auto simp: good_namespace_def mark_provisioned_def type_of_def last_applied_def good_ref_def lookup0_eq)

lemma bump_keeps:
  "good_namespace E name K t (x\<lparr>ns_meta := bump rv tr (ns_meta x)\<rparr>) = good_namespace E name K t x"
  "last_applied E (x\<lparr>ns_meta := bump rv tr (ns_meta x)\<rparr>) = last_applied E x"
  "m_labels (bump rv tr m) = m_labels m" "type_of (x\<lparr>ns_meta := bump rv tr (ns_meta x)\<rparr>) = type_of x"
  by (simp_all add: good_namespace_def bump_def type_of_def last_applied_def)

lemma inner_works:
  assumes C: "space_cluster rv E S0 ns name N lag" and t: "t \<in> set (tier_of E (sn S0))" and s: "settled rv S0 s"
    and good: "good_namespaces E name (sn S0) (sns (at rv S0 s))" and x: "sns (at rv S0 s) (t_type t) = Some x"
  shows "wp (ensureInnerNamespaceResources E t x) (\<lambda>e s'. e = None \<and> works_on rv E S0 t s s' \<and>
    prov_left E name (at rv S0 s') t = 0 \<and> role_left E rs (at rv S0 s') t = role_left E rs (at rv S0 s) t) s"
proof -
  let ?n = "ns_name E name t" and ?xs = "inner_objects E name t" and ?x = "mark_provisioned t x"
  note facts = tier_facts [OF C t]
  have nm: "m_name (nt_meta (mem s)) = name" "m_name (nt_meta (sn S0)) = name"
    using settledD(1) [OF s] space_libs(9) [OF C] by simp_all
  have gx: "good_namespace E name (all_needed E name (sn S0)) t x" using good t x by (auto simp: good_namespaces_def)
  note mark = mark_keeps [OF gx]
  have no_ns: "\<forall>y \<in> set ?xs. kind y \<noteq> ''Namespace''" using facts(7) by blast
  show ?thesis
    unfolding ensureInnerNamespaceResources_def wp_bind wp_get_mem nm facts(6) [unfolded space_params_def] sum.case wp_unless_err
  proof (rule wp_mono [OF redundant_drops [OF C s gx]], clarsimp simp: wp_bind wp_get_mem, goal_cases)
    case (1 s1)
    then have s1: "settled rv S0 s1" by (simp add: drops_def Let_def)
    have nm1: "m_name (nt_meta (mem s1)) = name" using settledD(1) [OF s1] nm by simp
    show ?case
      unfolding nm1
    proof (rule wp_mono [OF apply_all_spreads [OF space_libs(7) [OF C] no_ns, where rv = rv and ?S0.0 = S0]], clarsimp simp: wp_bind wp_call_err, goal_cases)
      case (1 s2)
      have sp: "spreads rv S0 (Some name) {y \<in> set ?xs. wanted E y \<and> \<not> service_account y} s1 s2" using 1 by simp
      then have m: "moves rv E S0 s1 s2" by (intro spreads_moves [OF _ s1]) (simp add: nm)
      note d = drops_trans [OF \<open>drops rv E S0 ?n s s1\<close> moves_drops [OF m]]
      define s3 where "s3 = log_call (UpdateNamespace ?x) True s2"
      define y where "y = ?x\<lparr>ns_meta := bump rv (calls s2) (ns_meta ?x)\<rparr>"
      have ty: "type_of ?x = t_type t" using mark(1) by (simp add: good_namespace_def)
      have s3: "at rv S0 s3 = (at rv S0 s2)\<lparr>sns := (sns (at rv S0 s))(t_type t \<mapsto> y)\<rparr>" "mem s3 = mem s2" "\<exists>u. calls s3 = calls s @ u"
        using d by (auto simp: s3_def ty y_def drops_def Let_def)
      have gy: "good_namespace E name (all_needed E name (sn S0)) t y" "last_applied E y = last_applied E x"
        using mark by (simp_all add: y_def bump_keeps)
      have "settled rv S0 s3" using moves_settled [OF m] s3 by (auto simp: settled_def)
      moreover have "holds name (needed E name u) (at rv S0 s) (at rv S0 s3)" if u: "u \<in> set (tier_of E (sn S0))" "u \<noteq> t" for u
      proof -
        have "needed E name u \<subseteq> {k \<in> all_needed E name (sn S0). fst (snd k) \<noteq> ?n}"
          using needed_place [OF C u(1)] facts(9) [OF u] by auto
        with d show ?thesis unfolding drops_def Let_def nm holds_def s3(1) by auto
      qed
      ultimately have "works_on rv E S0 t s s3"
        using d good_namespaces_upd [OF C t good gy(1)] facts(9) s3
        unfolding works_on_def Let_def nm(2) by (simp add: drops_def Let_def)
      moreover have "provisioned E name (at rv S0 s3) t"
      proof -
        have "sobj (at rv S0 s2) k = Some name" if k: "k \<in> needed E name t" for k
        proof -
          obtain z where z: "z \<in> set ?xs" "is_rbac z" "k = obj_place z" using k by (auto simp: needed_def)
          then have "wanted E z" "\<not> service_account z" using facts(8) by (auto simp: service_account_def)
          with sp z show ?thesis unfolding spreads_def by blast
        qed
        then show ?thesis using mark by (simp add: provisioned_def s3(1) y_def bump_keeps)
      qed
      then have "prov_left E name (at rv S0 s3) t = 0" by (simp add: prov_left_def)
      moreover have "role_left E rs (at rv S0 s3) t = role_left E rs (at rv S0 s) t" by (simp add: role_left_def s3(1) x gy(2))
      moreover have "ne_exec E (calls s2) (UpdateNamespace ?x) = None" by (rule write_taken(1) [OF space_libs(7) [OF C]]) simp
      ultimately show ?case by (simp add: s3_def wrapErrorWithStatusUpdate_def wp_return)
    qed
  qed
qed


text \<open>A template that is not provisioned comes nearer to it.\<close>

definition nearer :: "(ntrace \<Rightarrow> string) \<Rightarrow> nenv \<Rightarrow> space_store \<Rightarrow> tierTemplate \<Rightarrow> (nstt, ncall) st \<Rightarrow> (nstt, ncall) st \<Rightarrow> bool" where
  "nearer rv E S0 t s s' \<longleftrightarrow> works_on rv E S0 t s s' \<and>
     (let name = m_name (nt_meta (sn S0)); left = (\<lambda>S. prov_left E name S t + role_left E (nt_roles (sn S0)) S t)
      in left (at rv S0 s') < left (at rv S0 s))"

lemma namespace_nearer:
  assumes C: "space_cluster rv E S0 ns name N lag" and t: "t \<in> set (tier_of E (sn S0))" and s: "settled rv S0 s"
    and good: "good_namespaces E name (sn S0) (sns (at rv S0 s))" and not: "\<not> provisioned E name (at rv S0 s) t"
  shows "wp (ensureNamespace E t (sns (at rv S0 s) (t_type t))) (\<lambda>e s'. e = None \<and> nearer rv E S0 t s s') s"
proof -
  have nm: "m_name (nt_meta (sn S0)) = name" by (rule space_libs(9) [OF C])
  have apply_it: "wp (ensureNamespaceResource E t) (\<lambda>e s'. e = None \<and> nearer rv E S0 t s s') s"
    if "prov_left E name (at rv S0 s) t = 2"
    by (rule wp_mono [OF resource_works [OF C t s good that, of "nt_roles (sn S0)"]]) (simp add: nearer_def Let_def nm)
  show ?thesis
  proof (cases "sns (at rv S0 s) (t_type t)")
    case None
    then show ?thesis using apply_it not by (simp add: ensureNamespace_def prov_left_def)
  next
    case (Some x)
    then have gx: "good_namespace E name (all_needed E name (sn S0)) t x" using good t by (auto simp: good_namespaces_def)
    have inner: "wp (ensureInnerNamespaceResources E t x) (\<lambda>e s'. e = None \<and> nearer rv E S0 t s s') s"
      by (rule wp_mono [OF inner_works [OF C t s good Some, of "nt_roles (sn S0)"]]) (use not in \<open>simp add: nearer_def Let_def nm prov_left_def split: option.split\<close>)
    show ?thesis
      using inner apply_it not by (simp add: ensureNamespace_def Some expected_labels [OF C t gx] prov_left_def)
  qed
qed


lemma held_left:
  assumes "sns S' = sns S" and "holds name (needed E name t) S S'"
  shows "prov_left E name S' t \<le> prov_left E name S t" and "role_left E rs S' t = role_left E rs S t"
  using assms by (auto simp: prov_left_def role_left_def provisioned_def holds_def split: option.split)

lemma stays_held:
  assumes "stays rv E S0 s s'" and "t \<in> set (tier_of E (sn S0))"
  shows "sns (at rv S0 s') = sns (at rv S0 s)"
    and "holds (m_name (nt_meta (sn S0))) (needed E (m_name (nt_meta (sn S0))) t) (at rv S0 s) (at rv S0 s')"
  using assms by (auto simp: stays_def holds_def all_needed_def)

lemma moves_left:
  assumes "moves rv E S0 s s'" and "t \<in> set (tier_of E (sn S0))"
  shows "prov_left E (m_name (nt_meta (sn S0))) (at rv S0 s') t \<le> prov_left E (m_name (nt_meta (sn S0))) (at rv S0 s) t"
    and "role_left E rs (at rv S0 s') t = role_left E rs (at rv S0 s) t"
  using held_left [OF stays_held [OF _ assms(2)]] assms(1) by (auto simp: moves_def)

lemma moves_works:
  assumes "moves rv E S0 s s1" and "works_on rv E S0 t s1 s'"
  shows "works_on rv E S0 t s s'"
proof -
  have "holds name (needed E name u) (at rv S0 s) (at rv S0 s')"
    if "holds name (needed E name u) (at rv S0 s1) (at rv S0 s')" "name = m_name (nt_meta (sn S0))" "u \<in> set (tier_of E (sn S0))" for u name
    using assms(1) that by (auto simp: moves_def stays_def holds_def all_needed_def)
  with assms show ?thesis by (auto simp: works_on_def Let_def moves_def stays_def)
qed

lemma moves_nearer:
  assumes "moves rv E S0 s s1" and "nearer rv E S0 t s1 s'" and "t \<in> set (tier_of E (sn S0))"
  shows "nearer rv E S0 t s s'"
  using assms(2) moves_works [OF assms(1)] moves_left [OF assms(1,3)] by (fastforce simp: nearer_def Let_def)

lemma status_objects:
  assumes "emits (\<lambda>(c, ok). is_status_write c) m"
  shows "wp m (\<lambda>r s'. sobj (at rv S0 s') = sobj (at rv S0 s)) s"
proof -
  have "sobj (space_at rv S0 (tr @ u)) = sobj (space_at rv S0 tr)" if "list_all (\<lambda>(c, ok). is_status_write c) u" for tr u
    using that
  proof (induction u rule: rev_induct)
    case (snoc x u)
    obtain c ok where x: "x = (c, ok)" by (cases x)
    with snoc have "is_status_write c" "sobj (space_at rv S0 (tr @ u)) = sobj (space_at rv S0 tr)" by simp_all
    with x show ?case by (cases c) (simp_all flip: append_assoc)
  qed simp
  then show ?thesis by (intro wp_mono [OF emits_wp [OF assms]]) auto
qed

lemma progress_objects:
  assumes "space_cluster rv E S0 ns name N lag" and "settled rv S0 s"
  shows "wp (if b then setStatusUpdatingIfNotProvisioning E else setStatusProvisioningIfNotUpdating E)
    (\<lambda>e s'. e = None \<and> moves rv E S0 s s' \<and> sobj (at rv S0 s') = sobj (at rv S0 s)) s"
proof (cases b)
  case True
  have "emits (\<lambda>(c, ok). is_status_write c) (setStatusUpdatingIfNotProvisioning E)" by (auto intro!: emits_rules)
  then show ?thesis
    unfolding if_P [OF True] by (rule wp_mono [OF wp_conj [OF progress_moves(2) [OF assms] status_objects]]) simp
next
  case False
  have "emits (\<lambda>(c, ok). is_status_write c) (setStatusProvisioningIfNotUpdating E)" by (auto intro!: emits_rules)
  then show ?thesis
    unfolding if_not_P [OF False] by (rule wp_mono [OF wp_conj [OF progress_moves(1) [OF assms] status_objects]]) simp
qed

lemma same_provisioned:
  "sns S' = sns S \<Longrightarrow> sobj S' = sobj S \<Longrightarrow> provisioned E name S' t = provisioned E name S t"
  by (simp add: provisioned_def)

section \<open>The namespaces of the space\<close>

abbreviation foreign_at :: "nenv \<Rightarrow> space_store \<Rightarrow> (nstt, ncall) st \<Rightarrow> namespace set" where
  "foreign_at E S0 s \<equiv> foreign E (types_of E (sn S0)) (m_name (nt_meta (sn S0))) (calls s)"

lemma provision_nearer:
  assumes C: "space_cluster rv E S0 ns name N lag" and s: "settled rv S0 s"
    and good: "good_namespaces E name (sn S0) (sns (at rv S0 s))"
    and find: "\<forall>t \<in> set (tier_of E (sn S0)). findNamespace xs (t_type t) = sns (at rv S0 s) (t_type t)"
  shows "wp (provision_next E (tier_of E (sn S0)) xs) (\<lambda>(b, e) s'. e = None \<and>
    (if b then \<exists>t \<in> set (tier_of E (sn S0)). \<not> provisioned E name (at rv S0 s) t \<and> nearer rv E S0 t s s'
     else idle rv S0 s s' \<and> (\<forall>t \<in> set (tier_of E (sn S0)). provisioned E name (at rv S0 s) t))) s"
  unfolding provision_next_def wp_bind
proof (rule wp_mono [OF next_idle [OF C good find subset_refl]], clarify, goal_cases)
  case (1 t x b e s1)
  show ?case
  proof (cases t)
    case None
    with 1 show ?thesis by (simp add: wp_return)
  next
    case (Some u)
    with 1 have u: "u \<in> set (tier_of E (sn S0))" "\<not> provisioned E name (at rv S0 s) u" "x = sns (at rv S0 s) (t_type u)" b by simp_all
    have m1: "moves rv E S0 s s1" by (rule idle_moves [OF 1(1) s])
    have at1: "at rv S0 s1 = at rv S0 s" using 1(1) by (simp add: idle_def)
    have b: "\<not> \<not> b" using u(4) by simp
    show ?thesis
      unfolding Some 1(2) option.case prod.case if_not_P [OF b] wp_unless_err
    proof (rule wp_mono [OF progress_objects [OF C moves_settled [OF m1]]], clarsimp simp: wp_bind wp_return, goal_cases)
      case (1 s2)
      note m2 = moves_trans [OF m1 1(1)]
      have same: "sns (at rv S0 s2) = sns (at rv S0 s)" "sobj (at rv S0 s2) = sobj (at rv S0 s)"
        using m2 1(2) at1 by (simp_all add: moves_def stays_def)
      have not: "\<not> provisioned E name (at rv S0 s2) u" using u(2) same_provisioned [OF same] by simp
      have good2: "good_namespaces E name (sn S0) (sns (at rv S0 s2))" using good same(1) by simp
      show ?case
        unfolding u(3) same(1) [symmetric]
        by (rule wp_mono [OF namespace_nearer [OF C u(1) moves_settled [OF m2] good2 not]])
           (use u(1,2) in \<open>auto simp: wp_return intro: moves_nearer [OF m2]\<close>)
    qed
  qed
qed

text \<open>All that is left: calls until the foreign namespaces are gone, and work on the templates.\<close>

definition left :: "(ntrace \<Rightarrow> string) \<Rightarrow> nenv \<Rightarrow> space_store \<Rightarrow> string set \<Rightarrow> nat \<Rightarrow> (nstt, ncall) st \<Rightarrow> nat" where
  "left rv E S0 N lag s = work_left N lag (calls s) +
     (\<Sum>t \<in> set (tier_of E (sn S0)). prov_left E (m_name (nt_meta (sn S0))) (at rv S0 s) t + role_left E (nt_roles (sn S0)) (at rv S0 s) t)"

text \<open>Nothing is left to do for the namespaces.\<close>

definition complete :: "(ntrace \<Rightarrow> string) \<Rightarrow> nenv \<Rightarrow> space_store \<Rightarrow> (nstt, ncall) st \<Rightarrow> bool" where
  "complete rv E S0 s \<longleftrightarrow> foreign_at E S0 s = {} \<and>
     (\<forall>t \<in> set (tier_of E (sn S0)). prov_left E (m_name (nt_meta (sn S0))) (at rv S0 s) t = 0 \<and> role_left E (nt_roles (sn S0)) (at rv S0 s) t = 0)"

definition advances :: "(ntrace \<Rightarrow> string) \<Rightarrow> nenv \<Rightarrow> space_store \<Rightarrow> string set \<Rightarrow> nat \<Rightarrow> (nstt, ncall) st \<Rightarrow> (nstt, ncall) st \<Rightarrow> bool" where
  "advances rv E S0 N lag s s' \<longleftrightarrow> settled rv S0 s' \<and> parts_of (mem s') = parts_of (mem s) \<and>
     good_namespaces E (m_name (nt_meta (sn S0))) (sn S0) (sns (at rv S0 s')) \<and> (\<exists>u. calls s' = calls s @ u) \<and>
     left rv E S0 N lag s' < left rv E S0 N lag s \<and> \<not> complete rv E S0 s"

lemma work_left_calls: "calls s' = calls s @ u \<Longrightarrow> work_left N lag (calls s') \<le> work_left N lag (calls s)"
  by (simp add: work_left_append)

lemma stays_left:
  assumes "stays rv E S0 s s'"
  shows "left rv E S0 N lag s' \<le> left rv E S0 N lag s"
proof -
  obtain u where "calls s' = calls s @ u" using assms by (auto simp: stays_def)
  then show ?thesis
    unfolding left_def
    by (intro add_mono work_left_calls sum_mono eq_refl [OF held_left(2) [OF stays_held [OF assms]]] held_left(1) [OF stays_held [OF assms]])
qed

lemma nearer_advances:
  assumes n: "nearer rv E S0 t s s'" and "t \<in> set (tier_of E (sn S0))"
  shows "advances rv E S0 N lag s s'"
proof -
  let ?f = "\<lambda>S t. prov_left E (m_name (nt_meta (sn S0))) S t + role_left E (nt_roles (sn S0)) S t"
  obtain u where u: "calls s' = calls s @ u" using n by (auto simp: nearer_def works_on_def Let_def)
  have less: "?f (at rv S0 s') t < ?f (at rv S0 s) t" using n by (simp add: nearer_def Let_def)
  have "?f (at rv S0 s') v \<le> ?f (at rv S0 s) v" if "v \<in> set (tier_of E (sn S0))" "v \<noteq> t" for v
    using n that by (auto simp: nearer_def works_on_def Let_def prov_left_def role_left_def provisioned_def holds_def split: option.split)
  with less assms(2) have "sum (?f (at rv S0 s')) (set (tier_of E (sn S0))) < sum (?f (at rv S0 s)) (set (tier_of E (sn S0)))"
    by (intro sum_strict_mono_ex1) (auto intro: less_imp_le)
  moreover have "\<not> complete rv E S0 s" using less assms(2) by (fastforce simp: complete_def)
  ultimately show ?thesis using work_left_calls [OF u, of N lag] n by (simp add: advances_def left_def nearer_def works_on_def Let_def)
qed

text \<open>A foreign namespace is deleted.\<close>

lemma deletion_advances:
  assumes C: "space_cluster rv E S0 ns name N lag" and m: "moves rv E S0 s s1" and x: "x \<in> foreign_at E S0 s"
    and good: "good_namespaces E name (sn S0) (sns (at rv S0 s))"
  shows "advances rv E S0 N lag s (log_call (DeleteNamespace (m_name (ns_meta x))) True s1)"
proof -
  let ?s = "log_call (DeleteNamespace (m_name (ns_meta x))) True s1"
  have nm: "m_name (nt_meta (sn S0)) = name" by (rule space_libs(9) [OF C])
  have xN: "m_name (ns_meta x) \<in> N" "0 < remaining lag (calls s) (m_name (ns_meta x))"
    using C x unfolding nm space_cluster_def lists_namespaces_def by blast+
  have m': "moves rv E S0 s ?s"
    by (rule moves_trans [OF m idle_moves [OF idle_call moves_settled [OF m]]]) simp
  obtain u where u: "calls ?s = calls s @ u @ [(DeleteNamespace (m_name (ns_meta x)), True)]" using m by (auto simp: moves_def stays_def)
  have less: "work_left N lag (calls ?s) < work_left N lag (calls s)"
    unfolding u by (rule work_left_less [OF space_libs(5) [OF C] xN]) simp_all
  have "left rv E S0 {} lag ?s \<le> left rv E S0 {} lag s" by (rule stays_left) (use m' in \<open>simp add: moves_def\<close>)
  with less have "left rv E S0 N lag ?s < left rv E S0 N lag s" by (simp add: left_def work_left_def)
  moreover have "\<not> complete rv E S0 s" using x by (auto simp: complete_def)
  ultimately show ?thesis using m' good unfolding advances_def nm by (auto simp: moves_def stays_def)
qed

lemma foreign_shrinks:
  assumes "space_cluster rv E S0 ns name N lag" and "\<exists>u. calls s' = calls s @ u"
  shows "foreign_at E S0 s' \<subseteq> foreign_at E S0 s"
  using assms(2)
proof
  fix u assume "calls s' = calls s @ u"
  with assms(1) show ?thesis unfolding space_cluster_def lists_namespaces_def by simp
qed

lemma namespaces_advance:
  assumes C: "space_cluster rv E S0 ns name N lag" and s: "settled rv S0 s"
    and good: "good_namespaces E name (sn S0) (sns (at rv S0 s))"
  shows "wp (ensure_namespaces E) (\<lambda>(b, e) s'. e = None \<and>
    (if b then advances rv E S0 N lag s s'
     else moves rv E S0 s s' \<and> foreign_at E S0 s' = {} \<and> (\<forall>t \<in> set (tier_of E (sn S0)). provisioned E name (at rv S0 s') t))) s"
proof -
  have nm: "m_name (nt_meta (sn S0)) = name" by (rule space_libs(9) [OF C])
  have nms: "m_name (nt_meta (mem s)) = name" using settledD(1) [OF s] nm by simp
  have refs: "\<forall>r \<in> set (nt_namespaces (sn S0)). template E r \<noteq> None" using space_libs(8) [OF C] by (simp add: good_tier_def)
  show ?thesis
    unfolding ensure_namespaces_def wp_bind wp_get_mem wp_with_value nms
  proof (rule wp_mono [OF fetch_listed [OF C]], clarsimp simp: wp_with_value, goal_cases)
    case (1 s1 xs)
    note m1 = idle_moves [OF 1(1) s]
    have refs1: "nt_namespaces (mem s1) = nt_namespaces (sn S0)" by (rule settledD(2) [OF moves_settled [OF m1]])
    show ?case
      unfolding getTierTemplatesForAllNamespaces_def wp_bind wp_get_mem refs1
    proof (rule wp_mono [OF getTierTemplates_idle [OF space_libs(1,2) [OF C] refs, where rv = rv and ?S0.0 = S0]], clarsimp, fold tier_of_def, goal_cases)
      case (1 s2)
      note i2 = idle_trans [OF \<open>idle rv S0 s s1\<close> 1]
      note m2 = idle_moves [OF i2 s]
      have at2: "at rv S0 s2 = at rv S0 s" and good2: "good_namespaces E name (sn S0) (sns (at rv S0 s2))" using i2 good by (simp_all add: idle_def)
      have shrink: "foreign_at E S0 s' \<subseteq> foreign_at E S0 s" if "\<exists>u. calls s' = calls s @ u" for s' by (rule foreign_shrinks [OF C that])
      show ?case
      proof (cases "nextNamespaceToDeprovision (tier_of E (sn S0)) xs")
        case (Some x)
        with listed_deprovision [OF \<open>listed rv E S0 s xs\<close>] have x: "x \<in> foreign_at E S0 s" by simp
        have ok: "ne_exec E tr (DeleteNamespace n) = None" for tr n by (rule write_taken(1) [OF space_libs(7) [OF C]]) simp
        show ?thesis
          unfolding Some option.case wp_unless_err
          by (rule wp_mono [OF progress_moves(2) [OF C moves_settled [OF m2]]])
             (auto simp: wp_simps ok intro: deletion_advances [OF C moves_trans [OF m2] x good])
      next
        case None
        with listed_deprovision [OF \<open>listed rv E S0 s xs\<close>] have gone: "foreign_at E S0 s = {}" by simp
        have find: "\<forall>t \<in> set (tier_of E (sn S0)). findNamespace xs (t_type t) = sns (at rv S0 s2) (t_type t)"
          using listed_find [OF \<open>listed rv E S0 s xs\<close> good] at2 by simp
        show ?thesis
          unfolding None option.case
        proof (rule wp_mono [OF provision_nearer [OF C moves_settled [OF m2] good2 find]], clarify, goal_cases)
          case (1 b e s3)
          show ?case
          proof (cases b)
            case True
            with 1 show ?thesis by (auto intro: nearer_advances moves_nearer [OF m2])
          next
            case False
            with 1 have i3: "idle rv S0 s s3" by (auto intro: idle_trans [OF i2])
            then have "at rv S0 s3 = at rv S0 s2" using at2 by (simp add: idle_def)
            moreover have "\<exists>u. calls s3 = calls s @ u" using i3 by (simp add: idle_def)
            ultimately show ?thesis using 1 False idle_moves [OF i3 s] shrink gone by auto
          qed
        qed
      qed
    qed
  qed
qed

section \<open>Space roles\<close>

lemma annotation_nearer:
  assumes C: "space_cluster rv E S0 ns name N lag" and t: "t \<in> set (tier_of E (sn S0))" and s: "settled rv S0 s"
    and good: "good_namespaces E name (sn S0) (sns (at rv S0 s))" and x: "sns (at rv S0 s) (t_type t) = Some x"
    and not: "last_applied E x \<noteq> Inr (nt_roles (sn S0))"
  shows "wp (store_applied E x) (\<lambda>(b, e) s'. b \<and> e = None \<and> nearer rv E S0 t s s') s"
proof -
  have nm: "m_name (nt_meta (sn S0)) = name" by (rule space_libs(9) [OF C])
  obtain a where a: "ne_marshal E (nt_roles (sn S0)) = Inr a" "a \<noteq> []" "ne_unmarshal E a = Inr (nt_roles (sn S0))"
    and gr: "good_roles E (all_needed E name (sn S0)) (ns_name E name t) (nt_roles (sn S0))"
    using space_libs(8) [OF C] t by (auto simp: good_tier_def)
  define y where "y = x\<lparr>ns_meta := (ns_meta x)\<lparr>m_annotations := put (m_annotations (ns_meta x)) LastAppliedSpaceRolesAnnotationKey a\<rparr>\<rparr>"
  define z where "z = y\<lparr>ns_meta := bump rv (calls s) (ns_meta y)\<rparr>"
  define s1 where "s1 = log_call (UpdateNamespace y) True s"
  have gx: "good_namespace E name (all_needed E name (sn S0)) t x" using good t x by (auto simp: good_namespaces_def)
  have la: "last_applied E y = Inr (nt_roles (sn S0))" using a by (simp add: y_def last_applied_def)
  have y: "good_namespace E name (all_needed E name (sn S0)) t y" "m_labels (ns_meta y) = m_labels (ns_meta x)"
    using gx la gr by (simp_all add: good_namespace_def) (simp_all add: y_def type_of_def)
  have ty: "type_of y = t_type t" using y(1) by (simp add: good_namespace_def)
  have z: "good_namespace E name (all_needed E name (sn S0)) t z" "last_applied E z = Inr (nt_roles (sn S0))"
      "m_labels (ns_meta z) = m_labels (ns_meta x)"
    using y la by (simp_all add: z_def bump_keeps)
  have s1: "at rv S0 s1 = (at rv S0 s)\<lparr>sns := (sns (at rv S0 s))(t_type t \<mapsto> z)\<rparr>" "mem s1 = mem s" "\<exists>u. calls s1 = calls s @ u"
    using ty by (simp_all add: s1_def z_def)
  have "settled rv S0 s1" using s s1(1,2) by (auto simp: settled_def)
  then have "works_on rv E S0 t s s1"
    using good_namespaces_upd [OF C t good z(1)] tier_facts(9) [OF C t] s1
    unfolding works_on_def Let_def nm by (simp add: holds_def)
  moreover have "prov_left E name (at rv S0 s1) t = prov_left E name (at rv S0 s) t"
    by (simp add: prov_left_def provisioned_def s1(1) x z(3))
  moreover have "role_left E (nt_roles (sn S0)) (at rv S0 s1) t < role_left E (nt_roles (sn S0)) (at rv S0 s) t"
    using not by (simp add: role_left_def s1(1) x z(2))
  ultimately have "nearer rv E S0 t s s1" by (simp add: nearer_def Let_def nm)
  moreover have "ne_exec E (calls s) (UpdateNamespace y) = None" by (rule write_taken(1) [OF space_libs(7) [OF C]]) simp
  ultimately show ?thesis
    using settledD(4) [OF s] a(1) by (simp add: store_applied_def wp_simps s1_def y_def)
qed

lemma roles_in_nearer:
  assumes C: "space_cluster rv E S0 ns name N lag" and t: "t \<in> set (tier_of E (sn S0))" and s: "settled rv S0 s"
    and good: "good_namespaces E name (sn S0) (sns (at rv S0 s))" and x: "sns (at rv S0 s) (t_type t) = Some x"
  shows "wp (ensure_roles_in E x) (\<lambda>(b, e) s'. e = None \<and>
    (if b then nearer rv E S0 t s s' else moves rv E S0 s s' \<and> last_applied E x = Inr (nt_roles (sn S0)))) s"
proof -
  let ?K = "all_needed E name (sn S0)" and ?n = "ns_name E name t" and ?rs = "nt_roles (sn S0)"
  have nm: "m_name (nt_meta (sn S0)) = name" by (rule space_libs(9) [OF C])
  have "good_namespace E name ?K t x" using good t x by (auto simp: good_namespaces_def)
  then obtain old os where old: "last_applied E x = Inr old" "role_objects E ?n old = Some os" "list_all (harmless ?K) os"
    and xn: "m_name (ns_meta x) = ?n"
    by (auto simp: good_namespace_def good_roles_def)
  obtain xs where xs: "role_objects E ?n ?rs = Some xs" "list_all (harmless ?K) xs"
    using space_libs(8) [OF C] t by (auto simp: good_tier_def good_roles_def)
  have first: "wp (if nt_roles (mem s) \<noteq> old then setStatusUpdatingIfNotProvisioning E else ret None)
      (\<lambda>e s'. e = None \<and> moves rv E S0 s s') s"
    using progress_moves(2) [OF C s] moves_refl [OF s] by (simp add: wp_return)
  note rs = settledD(4) [OF s]
  show ?thesis
    unfolding ensure_roles_in_def wp_bind wp_get_mem old(1) sum.case wp_unless_err xn
  proof (rule wp_mono [OF first], clarsimp simp: wp_with_value, goal_cases)
    case (1 s1)
    show ?case
    proof (rule wp_mono [OF role_objects_idle [OF space_libs(1,2) [OF C] old(2), where rv = rv and ?S0.0 = S0]], clarsimp simp: wp_bind wp_get_mem wp_with_value split del: if_split, goal_cases)
      case (1 s2)
      note m2 = moves_trans [OF \<open>moves rv E S0 s s1\<close> idle_moves [OF 1 moves_settled [OF \<open>moves rv E S0 s s1\<close>]]]
      note s2 = moves_settled [OF m2]
      show ?case
        unfolding settledD(4) [OF s2] settledD(1) [OF s2] nm
      proof (rule wp_mono [OF role_objects_idle [OF space_libs(1,2) [OF C] xs(1), where rv = rv and ?S0.0 = S0]], clarsimp simp: wp_bind split del: if_split, goal_cases)
        case (1 s3)
        note m3 = moves_trans [OF m2 idle_moves [OF 1 s2]]
        have no_ns: "\<forall>y \<in> set xs. kind y \<noteq> ''Namespace''" using xs(2) by (auto simp: harmless_def list_all_iff)
        show ?case
        proof (rule wp_mono [OF apply_all_spreads [OF space_libs(7) [OF C] no_ns, where rv = rv and ?S0.0 = S0]], clarsimp simp: wp_bind split del: if_split, goal_cases)
          case (1 s4)
          note m4 = moves_trans [OF m3 spreads_moves [OF 1 [folded nm] moves_settled [OF m3]]]
          show ?case
          proof (rule wp_mono [OF deleteObsolete_clears [OF space_libs(7) [OF C], where rv = rv and ?S0.0 = S0]], clarsimp split del: if_split, goal_cases)
            case (1 s5)
            have "\<forall>x \<in> set os. obj_place x \<notin> all_needed E (m_name (nt_meta (sn S0))) (sn S0)"
              using old(3) by (auto simp: harmless_def list_all_iff nm)
            note m5 = moves_trans [OF m4 clears_moves [OF 1 moves_settled [OF m4] this]]
            have same: "sns (at rv S0 s5) = sns (at rv S0 s)" using m5 by (simp add: moves_def stays_def)
            have st: "wp (store_applied E x) (\<lambda>(b, e) s'. b \<and> e = None \<and> nearer rv E S0 t s5 s') s5" if "?rs \<noteq> old"
              by (rule annotation_nearer [OF C t moves_settled [OF m5]]) (use good x same old(1) that in auto)
            show ?case
              using m5 old(1) by (auto simp: rs wp_return intro!: wp_mono [OF st] moves_nearer [OF m5 _ t])
          qed
        qed
      qed
    qed
  qed
qed

text \<open>
  The objects of space roles that are applied with the labels of the space; service accounts are created or updated instead, and objects of a
  group the cluster does not know are left out.
\<close>

definition role_set :: "nenv \<Rightarrow> string \<Rightarrow> space_role list \<Rightarrow> kobj set" where
  "role_set E n rs = (case role_objects E n rs of None \<Rightarrow> {} | Some xs \<Rightarrow> {x \<in> set xs. wanted E x \<and> \<not> service_account x})"

definition roles_placed :: "nenv \<Rightarrow> string \<Rightarrow> space_role list \<Rightarrow> space_store \<Rightarrow> string \<Rightarrow> bool" where
  "roles_placed E name rs S n \<longleftrightarrow> (\<forall>x \<in> role_set E n rs. sobj S (obj_place x) = Some name)"

lemma holds_placed: "holds name UNIV S S' \<Longrightarrow> roles_placed E name rs S n \<Longrightarrow> roles_placed E name rs S' n"
  unfolding holds_def roles_placed_def by blast

lemma holds_trans: "holds name K S S1 \<Longrightarrow> holds name K S1 S2 \<Longrightarrow> holds name K S S2"
  by (simp add: holds_def)

text \<open>Where the roles were applied already they are applied again, and nothing is deleted.\<close>

lemma roles_in_place:
  assumes C: "space_cluster rv E S0 ns name N lag" and t: "t \<in> set (tier_of E (sn S0))" and s: "settled rv S0 s"
    and good: "good_namespaces E name (sn S0) (sns (at rv S0 s))" and x: "sns (at rv S0 s) (t_type t) = Some x"
    and la: "last_applied E x = Inr (nt_roles (sn S0))"
  shows "wp (ensure_roles_in E x) (\<lambda>(b, e) s'. \<not> b \<and> holds name UNIV (at rv S0 s) (at rv S0 s') \<and>
    roles_placed E name (nt_roles (sn S0)) (at rv S0 s') (m_name (ns_meta x))) s"
proof -
  let ?n = "ns_name E name t" and ?rs = "nt_roles (sn S0)"
  have xn: "m_name (ns_meta x) = ?n" using good t x by (auto simp: good_namespaces_def good_namespace_def)
  obtain xs where xs: "role_objects E ?n ?rs = Some xs" "list_all (harmless (all_needed E name (sn S0))) xs"
    using space_libs(8) [OF C] t by (auto simp: good_tier_def good_roles_def)
  have no_ns: "\<forall>y \<in> set xs. kind y \<noteq> ''Namespace''" using xs(2) by (auto simp: harmless_def list_all_iff)
  have nm: "m_name (nt_meta (sn S0)) = name" by (rule space_libs(9) [OF C])
  note mem = settledD(1,4) [OF s]
  note objs = role_objects_idle [OF space_libs(1,2) [OF C] xs(1), where rv = rv and ?S0.0 = S0]
  show ?thesis
    unfolding ensure_roles_in_def wp_bind wp_get_mem la sum.case wp_unless_err xn mem
  proof (simp add: wp_return wp_with_value, rule wp_mono [OF objs], clarsimp simp: wp_bind wp_get_mem wp_with_value split del: if_split, goal_cases)
    case (1 s1)
    then have m1: "mem s1 = mem s" by (simp add: idle_def)
    show ?case
      unfolding m1 mem nm
    proof (rule wp_mono [OF objs], clarsimp simp: wp_bind split del: if_split, goal_cases)
      case (1 s2)
      note i = idle_trans [OF \<open>idle rv S0 s s1\<close> 1]
      show ?case
      proof (rule wp_mono [OF apply_all_spreads [OF space_libs(7) [OF C] no_ns, where rv = rv and ?S0.0 = S0]],
          clarsimp simp: wp_bind wp_return deleteObsolete_none [OF space_libs(13) [OF C]], goal_cases)
        case (1 s3)
        then have "spreads rv S0 (Some name) {x \<in> set xs. wanted E x \<and> \<not> service_account x} s s3" by (rule spreads_after_idle [OF i])
        then show ?case
          using xs(1) by (simp add: holds_def roles_placed_def role_set_def spreads_keeps) (simp add: spreads_def)
      qed
    qed
  qed
qed

lemma roles_in_ends:
  assumes C: "space_cluster rv E S0 ns name N lag" and t: "t \<in> set (tier_of E (sn S0))" and s: "settled rv S0 s"
    and good: "good_namespaces E name (sn S0) (sns (at rv S0 s))" and x: "sns (at rv S0 s) (t_type t) = Some x"
  shows "wp (ensure_roles_in E x) (\<lambda>(b, e) s'. e = None \<and>
    (if b then nearer rv E S0 t s s' else moves rv E S0 s s' \<and> last_applied E x = Inr (nt_roles (sn S0)) \<and>
       holds name UNIV (at rv S0 s) (at rv S0 s') \<and> roles_placed E name (nt_roles (sn S0)) (at rv S0 s') (m_name (ns_meta x)))) s"
proof (cases "last_applied E x = Inr (nt_roles (sn S0))")
  case True
  show ?thesis
    by (rule wp_mono [OF wp_conj [OF roles_in_nearer [OF assms] roles_in_place [OF assms True]]]) (auto split: prod.splits)
next
  case False
  then show ?thesis by (intro wp_mono [OF roles_in_nearer [OF assms]]) (auto split: prod.splits if_splits)
qed

lemma roles_each_nearer:
  assumes C: "space_cluster rv E S0 ns name N lag" and "settled rv S0 s"
    and good: "good_namespaces E name (sn S0) (sns (at rv S0 s))"
    and "\<forall>x \<in> set xs. \<exists>t \<in> set (tier_of E (sn S0)). sns (at rv S0 s) (t_type t) = Some x"
  shows "wp (ensure_roles_each E xs) (\<lambda>(b, e) s'. e = None \<and>
    (if b then \<exists>t \<in> set (tier_of E (sn S0)). nearer rv E S0 t s s'
     else moves rv E S0 s s' \<and> holds name UNIV (at rv S0 s) (at rv S0 s') \<and> (\<forall>x \<in> set xs. last_applied E x = Inr (nt_roles (sn S0)) \<and>
       roles_placed E name (nt_roles (sn S0)) (at rv S0 s') (m_name (ns_meta x))))) s"
  using assms(2-4)
proof (induction xs arbitrary: s)
  case Nil
  then show ?case by (simp add: wp_simps moves_refl holds_def)
next
  case (Cons x xs)
  then obtain t where t: "t \<in> set (tier_of E (sn S0))" "sns (at rv S0 s) (t_type t) = Some x" by auto
  show ?case
    unfolding ensure_roles_each.simps wp_bind
  proof (rule wp_mono [OF roles_in_ends [OF C t(1) Cons.prems(1,2) t(2)]], clarify, goal_cases)
    case (1 b e s1)
    show ?case
    proof (cases b)
      case True
      with 1 t(1) show ?thesis by (auto simp: wp_return)
    next
      case False
      with 1 have m: "moves rv E S0 s s1" and la: "last_applied E x = Inr (nt_roles (sn S0))"
        and h: "holds name UNIV (at rv S0 s) (at rv S0 s1)"
        and pl: "roles_placed E name (nt_roles (sn S0)) (at rv S0 s1) (m_name (ns_meta x))" by simp_all
      have same: "sns (at rv S0 s1) = sns (at rv S0 s)" using m by (simp add: moves_def stays_def)
      have "wp (ensure_roles_each E xs) (\<lambda>(b, e) s'. e = None \<and>
          (if b then \<exists>t \<in> set (tier_of E (sn S0)). nearer rv E S0 t s1 s'
           else moves rv E S0 s1 s' \<and> holds name UNIV (at rv S0 s1) (at rv S0 s') \<and> (\<forall>x \<in> set xs. last_applied E x = Inr (nt_roles (sn S0)) \<and>
             roles_placed E name (nt_roles (sn S0)) (at rv S0 s') (m_name (ns_meta x))))) s1"
        by (rule Cons.IH) (use moves_settled [OF m] Cons.prems same in auto)
      then show ?thesis
        using False 1 la
        by (simp, elim wp_mono)
           (auto intro: moves_trans [OF m] holds_trans [OF h] holds_placed [OF _ pl], meson moves_nearer [OF m])
    qed
  qed
qed

lemma roles_advance:
  assumes C: "space_cluster rv E S0 ns name N lag" and s: "settled rv S0 s"
    and good: "good_namespaces E name (sn S0) (sns (at rv S0 s))" and gone: "foreign_at E S0 s = {}"
    and prov: "\<forall>t \<in> set (tier_of E (sn S0)). provisioned E name (at rv S0 s) t"
  shows "wp (ensure_roles E) (\<lambda>(b, e) s'. e = None \<and>
    (if b then advances rv E S0 N lag s s'
     else moves rv E S0 s s' \<and> (\<forall>t \<in> set (tier_of E (sn S0)). role_left E (nt_roles (sn S0)) (at rv S0 s') t = 0 \<and>
       roles_placed E name (nt_roles (sn S0)) (at rv S0 s') (ns_name E name t)))) s"
proof -
  have nms: "m_name (nt_meta (mem s)) = name" using settledD(1) [OF s] space_libs(9) [OF C] by simp
  show ?thesis
    unfolding ensure_roles_def wp_bind wp_get_mem wp_with_value nms
  proof (rule wp_mono [OF fetch_listed [OF C]], clarsimp, goal_cases)
    case (1 s1 xs)
    note m1 = idle_moves [OF 1(1) s]
    have at1: "at rv S0 s1 = at rv S0 s" using 1(1) by (simp add: idle_def)
    have in_iff: "x \<in> set xs \<longleftrightarrow> (\<exists>t \<in> set (tier_of E (sn S0)). sns (at rv S0 s) (t_type t) = Some x)" for x
    proof -
      have "set xs = {x \<in> set xs. type_of x \<in> types_of E (sn S0)} \<union> {x \<in> set xs. type_of x \<notin> types_of E (sn S0)}" by blast
      also have "\<dots> = {x. \<exists>ty \<in> types_of E (sn S0). sns (at rv S0 s) ty = Some x}" using 1(2) gone by (auto simp: listed_def)
      finally show ?thesis by simp
    qed
    show ?case
    proof (rule wp_mono [OF roles_each_nearer [OF C moves_settled [OF m1]]], goal_cases)
      case (3 r s2)
      obtain b e where r: "r = (b, e)" by (cases r)
      show ?case
      proof (cases b)
        case True
        with 3 r show ?thesis by (auto intro: nearer_advances moves_nearer [OF m1])
      next
        case False
        with 3 r have m: "moves rv E S0 s s2" "e = None" and la: "\<forall>x \<in> set xs. last_applied E x = Inr (nt_roles (sn S0)) \<and>
            roles_placed E name (nt_roles (sn S0)) (at rv S0 s2) (m_name (ns_meta x))"
          by (auto intro: moves_trans [OF m1])
        have "role_left E (nt_roles (sn S0)) (at rv S0 s2) t = 0 \<and> roles_placed E name (nt_roles (sn S0)) (at rv S0 s2) (ns_name E name t)"
          if t: "t \<in> set (tier_of E (sn S0))" for t
        proof -
          obtain x where x: "sns (at rv S0 s) (t_type t) = Some x" using prov t by (auto simp: provisioned_def)
          with good t have "m_name (ns_meta x) = ns_name E name t" by (auto simp: good_namespaces_def good_namespace_def)
          moreover have "x \<in> set xs" using x t in_iff by auto
          ultimately show ?thesis using la x unfolding moves_left(2) [OF m(1) t] by (auto simp: role_left_def)
        qed
        with m r False show ?thesis by simp
      qed
    qed (use good at1 in_iff in auto)
  qed
qed

section \<open>The status at the end\<close>

text \<open>From \<open>s\<close> to \<open>s'\<close> the store changes in the status of the NSTemplateSet only.\<close>

definition records :: "(ntrace \<Rightarrow> string) \<Rightarrow> space_store \<Rightarrow> (nstt, ncall) st \<Rightarrow> (nstt, ncall) st \<Rightarrow> bool" where
  "records rv S0 s s' \<longleftrightarrow> spec_of (sn (at rv S0 s')) = spec_of (sn S0) \<and> sns (at rv S0 s') = sns (at rv S0 s) \<and>
     sobj (at rv S0 s') = sobj (at rv S0 s) \<and> (\<exists>u. calls s' = calls s @ u)"

lemma records_trans: "records rv S0 s s1 \<Longrightarrow> records rv S0 s1 s2 \<Longrightarrow> records rv S0 s s2"
  by (auto simp: records_def)

lemma write_notes:
  assumes C: "space_cluster rv E S0 ns name N lag" and "spec_of (sn (at rv S0 s)) = spec_of (sn S0)"
  shows "wp (write_status E) (\<lambda>e s'. e = None \<and> records rv S0 s s' \<and> mem s' = sn (at rv S0 s') \<and>
    parts_of (mem s') = (st_namespaces (mem s), st_cluster (mem s), m_finalizers (nt_meta (sn (at rv S0 s)))) \<and>
    st_conds (mem s') = st_conds (mem s)) s"
  using assms(2) space_reads(3) [OF C]
  by (simp add: write_status_def wp_simps records_def bump_def with_status_def)

text \<open>The roles in memory may be sorted and those stored not.\<close>

definition roles_apart :: "nstt \<Rightarrow> nstt \<Rightarrow> bool" where
  "roles_apart x y \<longleftrightarrow> (\<exists>a b. x = y\<lparr>nt_roles := a, st_roles := b\<rparr>)"

lemma roles_apart_refl [simp]: "roles_apart x x"
  unfolding roles_apart_def by (rule exI [of _ "nt_roles x"], rule exI [of _ "st_roles x"]) simp

lemma roles_revisions_note:
  assumes C: "space_cluster rv E S0 ns name N lag" and "settled rv S0 s"
  shows "wp (updateStatusSpaceRolesRevisions E) (\<lambda>e s'. e = None \<and> records rv S0 s s' \<and>
    parts_of (sn (at rv S0 s')) = parts_of (mem s) \<and> roles_apart (mem s') (sn (at rv S0 s'))) s"
proof -
  let ?s = "\<lambda>a b. s\<lparr>mem := mem s\<lparr>nt_roles := a, st_roles := b\<rparr>\<rparr>"
  have w: "wp (write_status E) (\<lambda>e s'. e = None \<and> records rv S0 s s' \<and>
      parts_of (sn (at rv S0 s')) = parts_of (mem s) \<and> roles_apart (mem s') (sn (at rv S0 s'))) (?s a b)" for a b
    by (rule wp_mono [OF write_notes [OF C]])
       (use assms(2) in \<open>auto simp: settled_def records_def\<close>)
  show ?thesis
    using assms(2) w by (auto simp: updateStatusSpaceRolesRevisions_def Let_def wp_simps settled_def records_def roles_apart_def)
qed

abbreviation ready_cond :: "nreason cond" where
  "ready_cond \<equiv> mk_cond ConditionReady ConditionTrue NSTemplateSetProvisionedReason []"

lemma status_ready_notes:
  assumes C: "space_cluster rv E S0 ns name N lag" and "spec_of (sn (at rv S0 s)) = spec_of (sn S0)"
    and "roles_apart (mem s) (sn (at rv S0 s))"
  shows "wp (setStatusReady E) (\<lambda>e s'. e = None \<and> records rv S0 s s' \<and>
    parts_of (sn (at rv S0 s')) = parts_of (sn (at rv S0 s)) \<and> has_cond (ne_lib E) (st_conds (sn (at rv S0 s'))) ready_cond) s"
proof -
  obtain cs u where cs: "AddOrUpdateStatusConditions (ne_lib E) (ne_now E (tick s)) (st_conds (mem s)) [ready_cond] = (cs, u)"
    by (cases "AddOrUpdateStatusConditions (ne_lib E) (ne_now E (tick s)) (st_conds (mem s)) [ready_cond]")
  note added = added_cond [OF space_libs(3) [OF C] cs]
  let ?s = "s\<lparr>tick := Suc (tick s), mem := mem s\<lparr>st_conds := cs\<rparr>\<rparr>"
  have "wp (write_status E) (\<lambda>e s'. e = None \<and> records rv S0 s s' \<and>
      parts_of (sn (at rv S0 s')) = parts_of (sn (at rv S0 s)) \<and> has_cond (ne_lib E) (st_conds (sn (at rv S0 s'))) ready_cond) ?s"
    by (rule wp_mono [OF write_notes [OF C]]) (use assms(2,3) added(1) in \<open>auto simp: records_def roles_apart_def\<close>)
  then show ?thesis
    using cs added assms(2,3) by (auto simp: setStatusReady_def setReady_def updateStatusConditions_def wp_simps records_def roles_apart_def)
qed

lemma provisioned_list_stays:
  assumes C: "space_cluster rv E S0 ns name N lag" and s: "settled rv S0 s"
  shows "wp (setProvisionedNamespaceList E) (\<lambda>e s'. e = None \<and> moves rv E S0 s s') s"
proof -
  have nms: "m_name (nt_meta (mem s)) = name" using settledD(1) [OF s] space_libs(9) [OF C] by simp
  show ?thesis
    unfolding setProvisionedNamespaceList_def wp_bind wp_get_mem wp_with_value nms
  proof (rule wp_mono [OF fetch_listed [OF C]], clarsimp, goal_cases)
    case (1 s1 xs)
    note m1 = idle_moves [OF 1(1) s]
    have "wp (write_status E) (\<lambda>e s'. e = None \<and> moves rv E S0 s1 s') (s1\<lparr>mem := mem s1\<lparr>st_provisioned := l\<rparr>\<rparr>)" for l
      by (rule wp_mono [OF writes_stay [OF C]]) (use moves_settled [OF m1] in \<open>auto simp: settled_def moves_def stays_def\<close>)
    then have "wp (write_status E) (\<lambda>e s'. e = None \<and> moves rv E S0 s s') (s1\<lparr>mem := mem s1\<lparr>st_provisioned := l\<rparr>\<rparr>)" for l
      by (rule wp_mono) (auto intro: moves_trans [OF m1])
    with m1 show ?case by (auto simp: updateStatusProvisionedNamespaces_def wp_simps split: list.split)
  qed
qed

lemma finalizer_stays:
  assumes C: "space_cluster rv E S0 ns name N lag" and s: "settled rv S0 s"
  shows "wp (addFinalizer E) (\<lambda>e s'. e = None \<and> stays rv E S0 s s' \<and>
    st_namespaces (mem s') = st_namespaces (mem s) \<and> st_cluster (mem s') = st_cluster (mem s) \<and>
    FinalizerName \<in> set (m_finalizers (nt_meta (mem s')))) s"
proof -
  have lib: "HasFinalizer (ne_lib E) m f = (f \<in> set (m_finalizers m))" "AddFinalizer (ne_lib E) m f = m\<lparr>m_finalizers := m_finalizers m @ [f]\<rparr>" for m f
    using space_libs(4) [OF C] by (simp_all add: finalizers_lib_def)
  show ?thesis
    using s space_reads(2) [OF C] stays_refl [OF s]
    by (auto simp: addFinalizer_def lib wp_simps Let_def stays_def settled_def holds_def bump_def with_status_def)
qed

section \<open>One reconcile\<close>

text \<open>What every reconcile keeps, and where the space ends up.\<close>

definition known :: "(ntrace \<Rightarrow> string) \<Rightarrow> nenv \<Rightarrow> space_store \<Rightarrow> (nstt, ncall) st \<Rightarrow> bool" where
  "known rv E S0 s \<longleftrightarrow> (let name = m_name (nt_meta (sn S0)) in
     spec_of (sn (at rv S0 s)) = spec_of (sn S0) \<and> good_namespaces E name (sn S0) (sns (at rv S0 s)) \<and>
     good_cluster_template E name (all_needed E name (sn S0)) (st_cluster (sn (at rv S0 s))))"

definition space_ready :: "(ntrace \<Rightarrow> string) \<Rightarrow> nenv \<Rightarrow> space_store \<Rightarrow> (nstt, ncall) st \<Rightarrow> bool" where
  "space_ready rv E S0 s \<longleftrightarrow> complete rv E S0 s \<and>
     has_cond (ne_lib E) (st_conds (sn (at rv S0 s))) ready_cond \<and> FinalizerName \<in> set (m_finalizers (nt_meta (sn (at rv S0 s)))) \<and>
     st_cluster (sn (at rv S0 s)) = nt_cluster (sn S0) \<and> sort (st_namespaces (sn (at rv S0 s))) = sort (nt_namespaces (sn S0)) \<and>
     (\<forall>t \<in> set (tier_of E (sn S0)). roles_placed E (m_name (nt_meta (sn S0))) (nt_roles (sn S0)) (at rv S0 s)
       (ns_name E (m_name (nt_meta (sn S0))) t))"

lemma held_complete:
  assumes C: "space_cluster rv E S0 ns name N lag" and "complete rv E S0 s" and u: "\<exists>u. calls s' = calls s @ u"
    and "\<And>t. t \<in> set (tier_of E (sn S0)) \<Longrightarrow> sns (at rv S0 s') = sns (at rv S0 s)"
    and "\<And>t. t \<in> set (tier_of E (sn S0)) \<Longrightarrow>
      holds (m_name (nt_meta (sn S0))) (needed E (m_name (nt_meta (sn S0))) t) (at rv S0 s) (at rv S0 s')"
  shows "complete rv E S0 s'"
  unfolding complete_def
proof (intro conjI ballI)
  show "foreign_at E S0 s' = {}" using foreign_shrinks [OF C u] assms(2) by (auto simp: complete_def)
  fix t assume t: "t \<in> set (tier_of E (sn S0))"
  note left = held_left [OF assms(4) [OF t] assms(5) [OF t]]
  with assms(2) t show "prov_left E (m_name (nt_meta (sn S0))) (at rv S0 s') t = 0" "role_left E (nt_roles (sn S0)) (at rv S0 s') t = 0"
    by (auto simp: complete_def dest: bspec)
qed

lemma stays_complete:
  assumes C: "space_cluster rv E S0 ns name N lag" and "stays rv E S0 s s'" and "complete rv E S0 s"
  shows "complete rv E S0 s'"
  by (rule held_complete [OF C assms(3)]) (use assms(2) stays_held [OF assms(2)] in \<open>auto simp: stays_def\<close>)

lemma stays_advances:
  assumes C: "space_cluster rv E S0 ns name N lag" and m: "stays rv E S0 s s1" and a: "advances rv E S0 N lag s1 s'"
    and c: "st_cluster (mem s1) = nt_cluster (sn S0)"
  shows "known rv E S0 s' \<and> left rv E S0 N lag s' < left rv E S0 N lag s \<and> \<not> complete rv E S0 s \<and> (\<exists>u. calls s' = calls s @ u)"
proof -
  have "good_cluster_template E name (all_needed E name (sn S0)) (nt_cluster (sn S0))"
    using space_libs(8) [OF C] by (simp add: good_tier_def)
  then show ?thesis
    using a c stays_left [OF m, of N lag] stays_complete [OF C m] m space_libs(9) [OF C]
    by (auto simp: advances_def settled_def known_def Let_def stays_def)
qed

lemma tail_ready:
  assumes C: "space_cluster rv E S0 ns name N lag" and s: "settled rv S0 s"
  shows "wp (unless_err (updateStatusSpaceRolesRevisions E) (\<lambda>e. (0, Some e)) (do { err \<leftarrow> setStatusReady E; ret (0, err) }))
    (\<lambda>r s'. r = (0, None) \<and> records rv S0 s s' \<and> parts_of (sn (at rv S0 s')) = parts_of (mem s) \<and>
      has_cond (ne_lib E) (st_conds (sn (at rv S0 s'))) ready_cond) s"
  unfolding wp_unless_err
proof (rule wp_mono [OF roles_revisions_note [OF C s]], clarify, goal_cases)
  case (1 e s1)
  then have "spec_of (sn (at rv S0 s1)) = spec_of (sn S0)" by (simp add: records_def)
  from status_ready_notes [OF C this \<open>roles_apart (mem s1) (sn (at rv S0 s1))\<close>] show ?case
    using 1 unfolding option.case wp_bind by (elim wp_mono) (auto simp: wp_return intro: records_trans)
qed

lemma records_complete:
  assumes C: "space_cluster rv E S0 ns name N lag" and "records rv S0 s s'" and "complete rv E S0 s"
  shows "complete rv E S0 s'"
  by (rule held_complete [OF C assms(3)]) (use assms(2) in \<open>auto simp: records_def holds_def\<close>)

text \<open>A reconcile ends with the space ready, or has come nearer to it.\<close>

definition onward :: "(ntrace \<Rightarrow> string) \<Rightarrow> nenv \<Rightarrow> space_store \<Rightarrow> string set \<Rightarrow> nat \<Rightarrow> (nstt, ncall) st \<Rightarrow> (nstt, ncall) st \<Rightarrow> bool" where
  "onward rv E S0 N lag s s' \<longleftrightarrow> known rv E S0 s' \<and> (\<exists>u. calls s' = calls s @ u) \<and>
     (space_ready rv E S0 s' \<or> left rv E S0 N lag s' < left rv E S0 N lag s \<and> \<not> complete rv E S0 s)"

lemma stays_onward:
  assumes C: "space_cluster rv E S0 ns name N lag" and m: "stays rv E S0 s s1" and "onward rv E S0 N lag s1 s'"
  shows "onward rv E S0 N lag s s'"
  using assms(3) m stays_left [OF m, of N lag] stays_complete [OF C m] by (auto simp: onward_def stays_def)

lemma advances_onward:
  assumes C: "space_cluster rv E S0 ns name N lag" and "advances rv E S0 N lag s s'" and c: "st_cluster (mem s) = nt_cluster (sn S0)"
  shows "onward rv E S0 N lag s s'"
proof -
  have "good_cluster_template E name (all_needed E name (sn S0)) (nt_cluster (sn S0))"
    using space_libs(8) [OF C] by (simp add: good_tier_def)
  then show ?thesis
    using assms(2) c space_libs(9) [OF C] by (auto simp: onward_def advances_def settled_def known_def Let_def)
qed

lemma wp_ensure_step:
  "wp (ensure_step m k) Q s = wp m (\<lambda>(b, e) s'. case e of Some e \<Rightarrow> Q (0, Some e) s' | None \<Rightarrow> if b then Q (0, None) s' else wp k Q s') s"
  unfolding ensure_step_def wp_bind by (rule arg_cong [where f = "\<lambda>Q. wp m Q s"]) (auto simp: wp_return fun_eq_iff split: option.split)

lemma roles_onward:
  assumes C: "space_cluster rv E S0 ns name N lag" and s: "settled rv S0 s"
    and good: "good_namespaces E name (sn S0) (sns (at rv S0 s))" and gone: "foreign_at E S0 s = {}"
    and prov: "\<forall>t \<in> set (tier_of E (sn S0)). provisioned E name (at rv S0 s) t"
    and parts: "st_cluster (mem s) = nt_cluster (sn S0)" "sort (st_namespaces (mem s)) = sort (nt_namespaces (sn S0))"
      "FinalizerName \<in> set (m_finalizers (nt_meta (mem s)))"
  shows "wp (ensure_step (ensure_roles E) (unless_err (updateStatusSpaceRolesRevisions E) (\<lambda>e. (0, Some e))
      (do { err \<leftarrow> setStatusReady E; ret (0, err) }))) (\<lambda>r s'. r = (0, None) \<and> onward rv E S0 N lag s s') s"
proof -
  have nm: "m_name (nt_meta (sn S0)) = name" by (rule space_libs(9) [OF C])
  show ?thesis
    unfolding wp_ensure_step
  proof (rule wp_mono [OF roles_advance [OF C s good gone prov]], clarify, goal_cases)
    case (1 b e s1)
    show ?case
    proof (cases b)
      case True
      with 1 advances_onward [OF C _ parts(1)] show ?thesis by simp
    next
      case False
      with 1 have m: "moves rv E S0 s s1" and roles: "\<forall>t \<in> set (tier_of E (sn S0)). role_left E (nt_roles (sn S0)) (at rv S0 s1) t = 0 \<and>
          roles_placed E name (nt_roles (sn S0)) (at rv S0 s1) (ns_name E name t)"
        by simp_all
      have st: "stays rv E S0 s s1" and p: "parts_of (mem s1) = parts_of (mem s)" using m by (simp_all add: moves_def)
      have "foreign_at E S0 s1 \<subseteq> foreign_at E S0 s" by (rule foreign_shrinks [OF C]) (use st in \<open>simp add: stays_def\<close>)
      moreover have "prov_left E name (at rv S0 s1) t = 0" if "t \<in> set (tier_of E (sn S0))" for t
        using moves_left(1) [OF m that] prov that by (simp add: prov_left_def nm)
      ultimately have c: "complete rv E S0 s1" using gone roles by (auto simp: complete_def nm)
      have good1: "good_namespaces E name (sn S0) (sns (at rv S0 s1))" using good st by (simp add: stays_def)
      have gc: "good_cluster_template E name (all_needed E name (sn S0)) (nt_cluster (sn S0))"
        using space_libs(8) [OF C] by (simp add: good_tier_def)
      have "wp (unless_err (updateStatusSpaceRolesRevisions E) (\<lambda>e. (0, Some e)) (do { err \<leftarrow> setStatusReady E; ret (0, err) }))
          (\<lambda>r s'. r = (0, None) \<and> onward rv E S0 N lag s s') s1"
      proof (rule wp_mono [OF tail_ready [OF C moves_settled [OF m]]], clarify, goal_cases)
        case (1 a e s2)
        then have "known rv E S0 s2" using good1 gc parts(1) p by (simp add: known_def Let_def nm records_def)
        moreover have "complete rv E S0 s2" by (rule records_complete [OF C 1(1) c])
        moreover have "roles_placed E name (nt_roles (sn S0)) (at rv S0 s2) (ns_name E name t)" if "t \<in> set (tier_of E (sn S0))" for t
          using 1(1) roles that by (simp add: records_def roles_placed_def)
        ultimately show ?case using 1 p parts st by (auto simp: onward_def space_ready_def records_def stays_def nm)
      qed
      with False 1 show ?thesis by simp
    qed
  qed
qed

lemma namespaces_onward:
  assumes C: "space_cluster rv E S0 ns name N lag" and s: "settled rv S0 s"
    and good: "good_namespaces E name (sn S0) (sns (at rv S0 s))"
    and parts: "st_cluster (mem s) = nt_cluster (sn S0)" "FinalizerName \<in> set (m_finalizers (nt_meta (mem s)))"
  shows "wp (ensure_step (ensure_namespaces E)
      (unless_err (updateStatusNamespacesRevisions E) (\<lambda>e. (0, Some e))
      (unless_err (setProvisionedNamespaceList E) (\<lambda>e. (0, Some e))
      (ensure_step (ensure_roles E)
      (unless_err (updateStatusSpaceRolesRevisions E) (\<lambda>e. (0, Some e))
      (do { err \<leftarrow> setStatusReady E; ret (0, err) })))))) (\<lambda>r s'. r = (0, None) \<and> onward rv E S0 N lag s s') s"
proof -
  have nm: "m_name (nt_meta (sn S0)) = name" by (rule space_libs(9) [OF C])
  show ?thesis
    unfolding wp_ensure_step [of "ensure_namespaces E"]
  proof (rule wp_mono [OF namespaces_advance [OF C s good]], clarify, goal_cases)
    case (1 b e s1)
    show ?case
    proof (cases b)
      case True
      with 1 advances_onward [OF C _ parts(1)] show ?thesis by simp
    next
      case False
      with 1 have m: "moves rv E S0 s s1" and gone: "foreign_at E S0 s1 = {}" and prov: "\<forall>t \<in> set (tier_of E (sn S0)). provisioned E name (at rv S0 s1) t"
        by simp_all
      have "wp (unless_err (updateStatusNamespacesRevisions E) (\<lambda>e. (0, Some e))
          (unless_err (setProvisionedNamespaceList E) (\<lambda>e. (0, Some e))
          (ensure_step (ensure_roles E)
          (unless_err (updateStatusSpaceRolesRevisions E) (\<lambda>e. (0, Some e))
          (do { err \<leftarrow> setStatusReady E; ret (0, err) }))))) (\<lambda>r s'. r = (0, None) \<and> onward rv E S0 N lag s s') s1"
        unfolding wp_unless_err [of "updateStatusNamespacesRevisions E"]
      proof (rule wp_mono [OF namespace_revisions_stay [OF C moves_settled [OF m]]], clarsimp simp: wp_unless_err [of "setProvisionedNamespaceList E"], goal_cases)
        case (1 s2)
        then have s2: "settled rv S0 s2" by (simp add: stays_def)
        show ?case
        proof (rule wp_mono [OF provisioned_list_stays [OF C s2]], clarsimp, goal_cases)
          case (1 s3)
          have st1: "stays rv E S0 s1 s3" using stays_trans [OF \<open>stays rv E S0 s1 s2\<close>] 1 by (simp add: moves_def)
          have st: "stays rv E S0 s s3" using m stays_trans [OF _ st1] by (simp add: moves_def)
          have "foreign_at E S0 s3 \<subseteq> foreign_at E S0 s1" by (rule foreign_shrinks [OF C]) (use st1 in \<open>simp add: stays_def\<close>)
          then have gone3: "foreign_at E S0 s3 = {}" using gone by simp
          have prov3: "\<forall>t \<in> set (tier_of E (sn S0)). provisioned E name (at rv S0 s3) t"
            using prov stays_held [OF st1] by (fastforce simp: provisioned_def holds_def nm)
          have good3: "good_namespaces E name (sn S0) (sns (at rv S0 s3))" using st good by (simp add: stays_def)
          show ?case
            by (rule wp_mono [OF roles_onward [OF C moves_settled [OF 1] good3 gone3 prov3]])
               (use 1 \<open>sort (st_namespaces (mem s2)) = _\<close> \<open>st_cluster (mem s2) = _\<close> \<open>m_finalizers (nt_meta (mem s2)) = _\<close> m parts in
                 \<open>auto simp: moves_def intro: stays_onward [OF C st]\<close>)
        qed
      qed
      with False 1 show ?thesis by simp
    qed
  qed
qed

lemma provisioning_step:
  assumes C: "space_cluster rv E S0 ns name N lag" and k: "known rv E S0 s"
  shows "wp (Reconcile E ns name) (\<lambda>r s'. r = (0, None) \<and> onward rv E S0 N lag s s') s"
proof -
  have nm: "m_name (nt_meta (sn S0)) = name" by (rule space_libs(9) [OF C])
  let ?nt = "sn (at rv S0 s)"
  define s1 where "s1 = log_call (GetNSTemplateSet ns name) True s\<lparr>mem := ?nt\<rparr>"
  have at1: "at rv S0 s1 = at rv S0 s" "mem s1 = ?nt" "calls s1 = calls s @ [(GetNSTemplateSet ns name, True)]" by (simp_all add: s1_def)
  have s1: "settled rv S0 s1" using k at1 by (simp add: settled_def known_def Let_def)
  have good: "good_namespaces E name (sn S0) (sns (at rv S0 s))" "good_cluster_template E name (all_needed E name (sn S0)) (st_cluster ?nt)"
    using k by (simp_all add: known_def Let_def nm)
  have alive: "\<not> IsBeingDeleted (ne_lib E) (nt_meta ?nt)"
    using space_libs(4,10) [OF C] k by (simp add: finalizers_lib_def known_def Let_def)
  have all: "wp (unless_err (addFinalizer E) (\<lambda>e. (0, Some e)) (ensure_all E)) (\<lambda>r s'. r = (0, None) \<and> onward rv E S0 N lag s1 s') s1"
    unfolding wp_unless_err [of "addFinalizer E"] ensure_all_def wp_unless_err [of "ensure_cluster E"]
      wp_unless_err [of "updateStatusClusterResourcesRevisions E"]
  proof (rule wp_mono [OF finalizer_stays [OF C s1]], clarsimp, goal_cases)
    case (1 s2)
    then have s2: "settled rv S0 s2" by (simp add: stays_def)
    have gc: "good_cluster_template E name (all_needed E name (sn S0)) (st_cluster (mem s2))" using 1 at1 good by simp
    show ?case
    proof (rule wp_mono [OF ensure_cluster_moves [OF C s2 gc]], clarsimp, goal_cases)
      case (1 s3)
      show ?case
      proof (rule wp_mono [OF cluster_revisions_stay [OF C moves_settled [OF 1]]], clarsimp, goal_cases)
        case (1 s4)
        have st: "stays rv E S0 s1 s4"
          using \<open>stays rv E S0 s1 s2\<close> \<open>moves rv E S0 s2 s3\<close> 1 stays_trans unfolding moves_def by metis
        have "settled rv S0 s4" "good_namespaces E name (sn S0) (sns (at rv S0 s4))" using st good at1 by (simp_all add: stays_def)
        then show ?case
          by (rule wp_mono [OF namespaces_onward [OF C]])
             (use 1 \<open>moves rv E S0 s2 s3\<close> \<open>FinalizerName \<in> _\<close> in \<open>auto simp: moves_def intro: stays_onward [OF C st]\<close>)
      qed
    qed
  qed
  have "onward rv E S0 N lag s s'" if o: "onward rv E S0 N lag s1 s'" for s'
  proof -
    have "left rv E S0 N lag s1 \<le> left rv E S0 N lag s" using at1 by (simp add: left_def work_left_append)
    moreover have "complete rv E S0 s1" if "complete rv E S0 s"
      by (rule held_complete [OF C that]) (use at1 in \<open>auto simp: holds_def\<close>)
    ultimately show ?thesis using o at1(3) by (auto simp: onward_def)
  qed
  with all have "wp (unless_err (addFinalizer E) (\<lambda>e. (0, Some e)) (ensure_all E)) (\<lambda>r s'. r = (0, None) \<and> onward rv E S0 N lag s s') s1"
    by (auto elim: wp_mono)
  then show ?thesis
    using space_libs(6) [OF C] space_reads(1) [OF C] alive
    by (simp add: Reconcile_def getNamespaceName_def wp_simps s1_def)
qed

end
