(* ===== verification/NSReady.thy ===== *)
theory NSReady
  imports NSProvisioning
begin

text \<open>
  A space becomes ready after a number of reconciles known in advance, and stays ready: the reconciles of \<open>NSProvisioning\<close> in sequence,
  and a cluster on which that can be seen.
\<close>

section \<open>Convergence\<close>

lemma reconciles_stay_ready:
  assumes C: "space_cluster rv E S0 ns name N lag"
  shows "known rv E S0 s \<Longrightarrow> space_ready rv E S0 s \<Longrightarrow> space_ready rv E S0 (reconciles E ns name k s)"
proof (induction k arbitrary: s)
  case (Suc k)
  obtain r s' where run: "run_state (Reconcile E ns name) s = (r, s')" by (cases "run_state (Reconcile E ns name) s")
  from wpD [OF provisioning_step [OF C Suc.prems(1)] run] have "onward rv E S0 N lag s s'" by simp
  with Suc.prems(2) have "known rv E S0 s'" "space_ready rv E S0 s'" by (auto simp: onward_def space_ready_def)
  with run show ?case by (simp add: Suc.IH)
qed simp

lemma reconciles_get_ready:
  assumes C: "space_cluster rv E S0 ns name N lag"
  shows "known rv E S0 s \<Longrightarrow> left rv E S0 N lag s < k \<Longrightarrow> space_ready rv E S0 (reconciles E ns name k s)"
proof (induction k arbitrary: s)
  case (Suc k)
  obtain r s' where run: "run_state (Reconcile E ns name) s = (r, s')" by (cases "run_state (Reconcile E ns name) s")
  from wpD [OF provisioning_step [OF C Suc.prems(1)] run] have o: "onward rv E S0 N lag s s'" by simp
  then consider "space_ready rv E S0 s'" | "left rv E S0 N lag s' < left rv E S0 N lag s" by (auto simp: onward_def)
  then show ?case
  proof cases
    case 1
    with o run show ?thesis by (simp add: onward_def reconciles_stay_ready [OF C])
  next
    case 2
    with Suc.prems(2) have "left rv E S0 N lag s' < k" by simp
    with o run show ?thesis by (simp add: onward_def Suc.IH)
  qed
qed simp

lemma left_at_start: "left rv E S0 N lag (fresh z) \<le> card N * Suc lag + 3 * length (nt_namespaces (sn S0))"
proof -
  let ?f = "\<lambda>t. prov_left E (m_name (nt_meta (sn S0))) S0 t + role_left E (nt_roles (sn S0)) S0 t"
  have "sum ?f (set (tier_of E (sn S0))) \<le> of_nat (card (set (tier_of E (sn S0)))) * 3"
    by (rule sum_bounded_above) (auto simp: prov_left_def role_left_def split: option.split)
  also have "\<dots> \<le> length (tier_of E (sn S0)) * 3" by (simp add: card_length)
  finally show ?thesis by (simp add: left_def work_left_Nil tier_of_def)
qed

lemma ready_space_facts:
  assumes "space_ready rv E S0 s" and "t \<in> set (tier_of E (sn S0))"
  shows "provisioned E (m_name (nt_meta (sn S0))) (at rv S0 s) t"
    and "\<exists>x. sns (at rv S0 s) (t_type t) = Some x \<and> last_applied E x = Inr (nt_roles (sn S0))"
proof -
  have left: "prov_left E (m_name (nt_meta (sn S0))) (at rv S0 s) t = 0" "role_left E (nt_roles (sn S0)) (at rv S0 s) t = 0"
    using assms by (simp_all add: space_ready_def complete_def)
  from left(1) show prov: "provisioned E (m_name (nt_meta (sn S0))) (at rv S0 s) t"
    by (simp add: prov_left_def split: if_splits option.splits)
  then obtain x where "sns (at rv S0 s) (t_type t) = Some x" by (auto simp: provisioned_def)
  with left(2) show "\<exists>x. sns (at rv S0 s) (t_type t) = Some x \<and> last_applied E x = Inr (nt_roles (sn S0))"
    by (simp add: role_left_def split: if_splits)
qed

text \<open>
  C2: a space becomes ready, and stays ready: on a cluster that keeps what it is told, where only the controller changes the NSTemplateSet, its
  namespaces and their objects, and that deletes a namespace within \<open>lag\<close> calls after it is asked to, the controller has, after more
  reconciles than \<open>lag + 1\<close> for each namespace of the space that its tier does not have and three for each template of the tier, deleted the
  former, brought every template of the tier to its namespace with the roles and role bindings it needs, applied there every object of the space
  roles that the cluster knows (\<open>roles_placed\<close>: it is stored with the label of the space; service accounts, which are created or updated, are
  not counted) and noted the roles on the namespace, and recorded the templates in the status, with the condition that the space is ready.
\<close>

theorem space_becomes_ready:
  assumes "space_cluster rv E S0 ns name N lag" and "card N * Suc lag + 3 * length (nt_namespaces (sn S0)) < k"
  shows "let tr = calls (reconciles E ns name k (fresh z)); S = space_at rv S0 tr in
    has_cond (ne_lib E) (st_conds (sn S)) (mk_cond ConditionReady ConditionTrue NSTemplateSetProvisionedReason []) \<and>
    FinalizerName \<in> set (m_finalizers (nt_meta (sn S))) \<and> st_cluster (sn S) = nt_cluster (sn S0) \<and>
    sort (st_namespaces (sn S)) = sort (nt_namespaces (sn S0)) \<and> foreign E (types_of E (sn S0)) name tr = {} \<and>
    (\<forall>t \<in> set (tier_of E (sn S0)). provisioned E name S t \<and>
       roles_placed E name (nt_roles (sn S0)) S (ns_name E name t) \<and>
       (\<exists>x. sns S (t_type t) = Some x \<and> last_applied E x = Inr (nt_roles (sn S0))))"
proof -
  have nm: "m_name (nt_meta (sn S0)) = name" by (rule space_libs(9) [OF assms(1)])
  have "known rv E S0 (fresh z)" using space_libs(11,12) [OF assms(1)] by (simp add: known_def Let_def nm)
  moreover have "left rv E S0 N lag (fresh z) < k" using left_at_start [of rv E S0 N lag z] assms(2) by linarith
  ultimately have ready: "space_ready rv E S0 (reconciles E ns name k (fresh z))" by (rule reconciles_get_ready [OF assms(1)])
  with ready_space_facts [OF ready] show ?thesis by (simp add: Let_def nm space_ready_def complete_def)
qed

section \<open>A cluster\<close>

text \<open>
  The tier has one template, with a namespace and a role in it; there are cluster resources and a space role, and a namespace of a type the tier
  does not have, which vanishes as soon as it is deleted.
\<close>

definition home_obj :: "string \<Rightarrow> string \<Rightarrow> string \<Rightarrow> kobj" where
  "home_obj kd n m = \<lparr>o_gvk = \<lparr>k_group = ''g'', k_version = ''v1'', k_kind = kd\<rparr>, o_meta = new_meta n m, o_body = []\<rparr>"

definition home_objects :: "string \<Rightarrow> ns_filter option \<Rightarrow> kobj list" where
  "home_objects r f =
     (if r = ''dev'' then (if f = Some RetainNamespaces then [home_obj ''Namespace'' [] ''john-dev''] else [home_obj ''Role'' ''john-dev'' ''edit''])
      else if r = ''new'' then [home_obj ''Quota'' [] ''for-john''] else [home_obj ''RoleBinding'' ''john-dev'' ''john-admin''])"

definition home_nstt :: nstt where
  "home_nstt = demo_nstt\<lparr>nt_meta := new_meta ''member'' ''john'', nt_roles := [\<lparr>sr_ref = ''admin'', sr_users = [''john'']\<rparr>], st_cluster := None\<rparr>"

definition home_store :: space_store where
  "home_store = \<lparr>sn = home_nstt, sns = Map.empty, sobj = Map.empty\<rparr>"

definition home_rv :: "ntrace \<Rightarrow> string" where
  "home_rv tr = replicate (length tr) CHR 0x78"

abbreviation home_at :: "ntrace \<Rightarrow> space_store" where
  "home_at tr \<equiv> space_at home_rv home_store tr"

text \<open>The objects that were ever applied, and those that are there.\<close>

fun applied_objs :: "ntrace \<Rightarrow> kobj list" where
  "applied_objs [] = []"
| "applied_objs ((ApplyObject x l, True) # tr) = x # applied_objs tr"
| "applied_objs (c # tr) = applied_objs tr"

definition home_list :: "string \<Rightarrow> ntrace \<Rightarrow> string \<Rightarrow> meta list" where
  "home_list kd tr n = map (\<lambda>x. (o_meta x)\<lparr>m_labels := Some [(SpaceLabelKey, ''john'')]\<rparr>)
     (filter (\<lambda>x. kind x = kd \<and> m_ns (o_meta x) = n \<and> sobj (home_at tr) (obj_place x) = Some ''john'') (applied_objs tr))"

definition home_env :: nenv where
  "home_env = (demo_nenv (\<lambda>r. []) [])\<lparr>
     ne_get_nstt := (\<lambda>tr ns n. Inr (sn (home_at tr))),
     ne_update_nstt := (\<lambda>tr x. Inr (sn (recorded home_rv tr (UpdateNSTemplateSet x) (home_at tr)))),
     ne_update_status := (\<lambda>tr x. Inr (sn (recorded home_rv tr (UpdateStatus x) (home_at tr)))),
     ne_list_namespaces := (\<lambda>tr n. Inr ((case sns (home_at tr) ''dev'' of None \<Rightarrow> [] | Some x \<Rightarrow> [x]) @
       (if (DeleteNamespace ''john-old'', True) \<in> set tr then [] else [demo_ns ''john-old'' ''old'']))),
     ne_list_roles := (\<lambda>tr n. Inr (home_list ''Role'' tr n)), ne_list_rolebindings := (\<lambda>tr n. Inr (home_list ''RoleBinding'' tr n)),
     ne_get_object := (\<lambda>tr x. Inl (StatusErr ''NotFound'' [])),
     ne_process := (\<lambda>t p f. Inr (home_objects t f)),
     ne_marshal := (\<lambda>rs. Inr ''roles''), ne_unmarshal := (\<lambda>a. Inr [\<lparr>sr_ref = ''admin'', sr_users = [''john'']\<rparr>])\<rparr>"

lemma applied_objs_append [simp]: "applied_objs (tr @ tr') = applied_objs tr @ applied_objs tr'"
  by (induction tr rule: applied_objs.induct) simp_all

lemma home_place: "sobj (home_at tr) k = Some v \<Longrightarrow> \<exists>x \<in> set (applied_objs tr). obj_place x = k"
proof (induction tr rule: rev_induct)
  case (snoc c tr)
  obtain d ok where c: "c = (d, ok)" by (cases c)
  show ?case
  proof (cases d)
    case (ApplyObject x l)
    with snoc c show ?thesis by (cases ok) (auto simp: Let_def split: if_splits)
  qed (use snoc c in \<open>auto split: if_splits\<close>)
qed (simp add: home_store_def)

lemma contains_labelled:
  "\<forall>m \<in> set ms. lookup (m_labels m) SpaceLabelKey = Some name \<Longrightarrow> contains_named ms x name = (\<exists>m \<in> set ms. m_name m = m_name (o_meta x))"
  by (induction ms) (auto simp: contains_named_def)

lemma home_listed: "contains_named (home_list kd tr n) x ''john'' = (sobj (home_at tr) (kd, n, m_name (o_meta x)) = Some ''john'')"
proof -
  have "contains_named (home_list kd tr n) x ''john'' = (\<exists>m \<in> set (home_list kd tr n). m_name m = m_name (o_meta x))"
    by (rule contains_labelled) (auto simp: home_list_def)
  also have "\<dots> = (\<exists>y \<in> set (applied_objs tr). obj_place y = (kd, n, m_name (o_meta x)) \<and> sobj (home_at tr) (obj_place y) = Some ''john'')"
    by (auto simp: home_list_def obj_place_def)
  also have "\<dots> = (sobj (home_at tr) (kd, n, m_name (o_meta x)) = Some ''john'')"
    using home_place by fastforce
  finally show ?thesis .
qed

lemma home_type: "sns (home_at tr) ty = Some x \<Longrightarrow> ty \<noteq> [] \<Longrightarrow> type_of x = ty"
proof (induction tr arbitrary: x rule: rev_induct)
  case (snoc c tr)
  obtain d ok where c: "c = (d, ok)" by (cases c)
  show ?case
  proof (cases d)
    case (ApplyObject y l)
    have "type_of (applied_ns old y l) = ty" if "lookup0 (Some l) TypeLabelKey = ty" for old
      using that snoc.prems(2) by (cases old) (auto simp: type_of_def lookup0_eq split: option.splits)
    with ApplyObject snoc c show ?thesis by (auto simp: Let_def split: if_splits)
  qed (use snoc c bump_keeps(4) in \<open>auto split: if_splits\<close>)
qed (simp add: home_store_def)

lemma home_env_simps [simp]:
  "ne_lib home_env = ref_lib NoReason" "ne_host home_env = (\<lambda>tr. Inr ''host'')" "ne_groups home_env = [(''g'', [''v1''])]"
  "ne_get_ttr home_env = (\<lambda>tr ns n. Inl (StatusErr ''NotFound'' n))" "ne_watch_ns home_env = Inr ''member''"
  "ne_get_tt home_env = (\<lambda>tr ns n. Inr \<lparr>tt_tier_name = ''base'', tt_type = n, tt_template = n\<rparr>)" "ne_exec home_env = (\<lambda>tr c. None)"
  "ne_process home_env = (\<lambda>t p f. Inr (home_objects t f))" "ne_get_object home_env = (\<lambda>tr x. Inl (StatusErr ''NotFound'' []))"
  "ne_marshal home_env = (\<lambda>rs. Inr ''roles'')" "ne_unmarshal home_env = (\<lambda>a. Inr [\<lparr>sr_ref = ''admin'', sr_users = [''john'']\<rparr>])"
  by (simp_all add: home_env_def demo_nenv_def)

lemma home_same: "same_lib home_env"
  by (simp add: same_lib_def home_env_def demo_nenv_def)

lemma home_template [simp]:
  "template home_env r = (if r = [] then None else Some \<lparr>t_ref = r, t_tier = ''base'', t_type = r, t_template = r, t_ttr = None\<rparr>)"
  by (simp add: template_def found_def ref_lib_def)

abbreviation home_dev :: tierTemplate where
  "home_dev \<equiv> \<lparr>t_ref = ''dev'', t_tier = ''base'', t_type = ''dev'', t_template = ''dev'', t_ttr = None\<rparr>"

lemma home_process [simp]: "t_ttr t = None \<Longrightarrow> process home_env t p f = Inr (home_objects (t_template t) f)"
  by (simp add: process_def)

lemma home_nstt_simps [simp]:
  "nt_namespaces home_nstt = [''dev'']" "nt_cluster home_nstt = Some ''new''" "nt_roles home_nstt = [\<lparr>sr_ref = ''admin'', sr_users = [''john'']\<rparr>]"
  "st_cluster home_nstt = None" "m_name (nt_meta home_nstt) = ''john''" "m_deletion (nt_meta home_nstt) = None"
  by (simp_all add: home_nstt_def demo_nstt_def new_meta_def)

lemma home_tier [simp]: "tier_of home_env home_nstt = [home_dev]"
  by (simp add: tier_of_def)

lemma home_parts:
  "ns_object home_env ''john'' home_dev = home_obj ''Namespace'' [] ''john-dev''"
  "inner_objects home_env ''john'' home_dev = [home_obj ''Role'' ''john-dev'' ''edit'']"
  "all_needed home_env ''john'' home_nstt = {(''Role'', ''john-dev'', ''edit'')}"
  by (auto simp: ns_object_def inner_objects_def all_needed_def needed_def home_objects_def home_obj_def obj_place_def new_meta_def)

lemma home_roles: "home_obj ''RoleBinding'' ''john-dev'' ''john-admin'' \<in> role_set home_env (ns_name home_env ''john'' home_dev) (nt_roles home_nstt)"
  unfolding home_parts
  by (simp add: role_set_def home_objects_def wanted_def service_account_def) (simp add: home_obj_def new_meta_def)

lemma home_good: "good_tier home_env ''john'' home_nstt"
proof -
  have "good_template home_env ''john'' home_dev"
    unfolding good_template_def Let_def home_parts by (simp add: home_objects_def home_obj_def new_meta_def)
  moreover have "good_cluster_template home_env ''john'' {(''Role'', ''john-dev'', ''edit'')} (Some ''new'')"
    by (simp add: good_cluster_template_def home_objects_def harmless_def home_obj_def obj_place_def)
  moreover have "good_roles home_env {(''Role'', ''john-dev'', ''edit'')} ''john-dev'' [\<lparr>sr_ref = ''admin'', sr_users = [''john'']\<rparr>]"
    by (simp add: good_roles_def home_objects_def harmless_def home_obj_def obj_place_def)
  ultimately show ?thesis
    unfolding good_tier_def home_parts home_tier by (simp add: home_parts) (simp add: home_obj_def new_meta_def)
qed

lemma home_cluster: "space_cluster home_rv home_env home_store ''member'' ''john'' {''john-old''} 0"
proof -
  have sn: "sn home_store = home_nstt" by (simp add: home_store_def)
  have tys: "types_of home_env home_nstt = {''dev''}" by simp
  have "answers home_rv home_env home_store ''member'' ''john''"
    unfolding answers_def Let_def using home_listed
    by (simp add: home_env_def)
  moreover have "takes_writes home_env" by (simp add: takes_writes_def ref_lib_def)
  moreover have "lists_namespaces home_rv home_env home_store ''john'' {''john-old''} 0"
  proof -
    have old: "type_of (demo_ns ''john-old'' ''old'') = ''old''" "m_name (ns_meta (demo_ns ''john-old'' ''old'')) = ''john-old''"
      by (simp_all add: type_of_def demo_ns_def new_meta_def lookup0_eq)
    have "foreign home_env {''dev''} ''john'' tr = (if (DeleteNamespace ''john-old'', True) \<in> set tr then {} else {demo_ns ''john-old'' ''old''})" for tr
      using home_type [of tr "''dev''"] old by (auto simp: foreign_def home_env_def split: option.splits)
    moreover have "remaining 0 tr ''john-old'' = 1" if "(DeleteNamespace ''john-old'', True) \<notin> set tr" for tr
      using that by (simp add: remaining_def after_deletion_none)
    moreover have "\<exists>xs. ne_list_namespaces home_env tr ''john'' = Inr xs \<and>
        {x \<in> set xs. type_of x \<in> {''dev''}} = {x. \<exists>ty \<in> {''dev''}. sns (home_at tr) ty = Some x}" for tr
      using home_type [of tr "''dev''"] old by (auto simp: home_env_def split: option.split)
    ultimately show ?thesis unfolding lists_namespaces_def sn tys by (simp add: old)
  qed
  moreover have "fixed_host home_env" by (simp add: fixed_host_def)
  ultimately show ?thesis
    unfolding space_cluster_def sn using home_good home_same ref_lib_conditions ref_lib_not_found ref_lib_finalizers
    by (auto simp: good_cluster_template_def good_namespaces_def home_store_def)
qed

theorem space_becomes_ready_witness:
  "let tr = calls (reconciles home_env ''member'' ''john'' 5 (fresh home_nstt)); S = home_at tr in
    has_cond (ne_lib home_env) (st_conds (sn S)) (mk_cond ConditionReady ConditionTrue NSTemplateSetProvisionedReason []) \<and>
    foreign home_env {''dev''} ''john'' tr = {} \<and> provisioned home_env ''john'' S home_dev \<and>
    sobj S (''RoleBinding'', ''john-dev'', ''john-admin'') = Some ''john''"
proof -
  have place: "obj_place (home_obj ''RoleBinding'' ''john-dev'' ''john-admin'') = (''RoleBinding'', ''john-dev'', ''john-admin'')"
    by (simp add: obj_place_def home_obj_def new_meta_def)
  have store: "sn home_store = home_nstt" by (simp add: home_store_def)
  have tier: "set (tier_of home_env home_nstt) = {home_dev}" "types_of home_env home_nstt = {''dev''}" by simp_all
  have "card {''john-old''} * Suc 0 + 3 * length (nt_namespaces (sn home_store)) < 5" by (simp add: store)
  note ready = space_becomes_ready [OF home_cluster this, of home_nstt, unfolded store tier Let_def]
  from ready have "roles_placed home_env ''john'' (nt_roles home_nstt) (home_at (calls (reconciles home_env ''member'' ''john'' 5 (fresh home_nstt))))
      (ns_name home_env ''john'' home_dev)" by simp
  from bspec [OF this [unfolded roles_placed_def] home_roles]
  have "sobj (home_at (calls (reconciles home_env ''member'' ''john'' 5 (fresh home_nstt)))) (''RoleBinding'', ''john-dev'', ''john-admin'') = Some ''john''"
    unfolding place .
  with ready show ?thesis by (simp add: Let_def)
qed

end
