(* ===== verification/Webhook.thy ===== *)
theory Webhook
  imports Go_Prelude Kube
begin

text \<open>
  The admission webhooks (\<open>pkg/webhook\<close>), first part: admission reviews, JSON values, the environment,
  the HTTP handlers and the responses both kinds of webhook give.
\<close>

section \<open>Reviews\<close>

record request =
  rq_uid :: string
  rq_operation :: string
  rq_username :: string
  rq_raw :: string

text \<open>\<open>Result\<close> is nil or a status with a message, \<open>PatchType\<close> nil or \<open>JSONPatch\<close>.\<close>

record response =
  rs_allowed :: bool
  rs_uid :: string
  rs_message :: "string option"
  rs_json_patch :: bool
  rs_patch :: "string option"
  rs_audit :: "(string \<times> string) list"

record review =
  rv_kind :: string
  rv_request :: "request option"
  rv_response :: "response option"

section \<open>JSON values\<close>

text \<open>
  \<open>interface{}\<close> as the JSON and YAML decoders fill it; a number is an \<open>int64\<close> or, as its text, anything
  else.  A map is an association list.
\<close>

datatype json =
    JNull
  | JBool bool
  | JInt int
  | JNumber string
  | JStr string
  | JList "json list"
  | JMap "(string \<times> json) list"

type_synonym jmap = "(string \<times> json) list"

definition str_map :: "(string \<times> string) list \<Rightarrow> json" where
  "str_map m = JMap (map (\<lambda>(k, v). (k, JStr v)) m)"

record patch =
  p_op :: string
  p_path :: string
  p_value :: json

section \<open>Environment\<close>

record subject =
  sb_kind :: string
  sb_api_group :: string
  sb_name :: string
  sb_namespace :: string

record rolebinding =
  rb_kind :: string
  rb_subjects :: "subject list"

record sbr =
  sbr_kind :: string
  sbr_meta :: meta
  sbr_mur :: string

datatype wcall = GetUser string | GetSpaceBindingRequest string string

type_synonym 'a wprog = "(unit, wcall, 'a) prog"

text \<open>
  Functions of other packages: the deserializer (which may fill the review before it fails), \<open>json.Marshal\<close>
  on reviews and patches, \<open>json.Unmarshal\<close> into the three types (a JSON null leaves the pod pointer nil),
  \<open>UnmarshalJSON\<close> of an unstructured object, the accessors of \<open>unstructured\<close> (an error, or the value and
  whether it was found), YAML (the map decoded may come back nil), the API server, and the SSH keys of
  the cached configuration.
\<close>

record wenv =
  w_decode :: "string \<Rightarrow> review \<times> err option"
  w_marshal :: "review \<Rightarrow> err + string"
  w_marshal_patch :: "patch list \<Rightarrow> err + string"
  w_unmarshal_pod :: "string \<Rightarrow> err + (string \<times> string) option"
  w_unmarshal_rolebinding :: "string \<Rightarrow> err + rolebinding"
  w_unmarshal_sbr :: "string \<Rightarrow> err + sbr"
  w_unmarshal_object :: "string \<Rightarrow> err + jmap"
  w_nested_string :: "jmap \<Rightarrow> string list \<Rightarrow> err + string option"
  w_nested_slice :: "jmap \<Rightarrow> string list \<Rightarrow> err + json list option"
  w_nested_map :: "jmap \<Rightarrow> string list \<Rightarrow> err + jmap option"
  w_nested_string_map :: "jmap \<Rightarrow> string list \<Rightarrow> err + (string \<times> string) list option"
  w_nested_field :: "jmap \<Rightarrow> string list \<Rightarrow> err + json option"
  w_yaml_unmarshal :: "string \<Rightarrow> err + jmap option"
  w_yaml_marshal :: "jmap \<Rightarrow> err + string"
  w_ssh_key :: string
  w_not_found :: "err \<Rightarrow> bool"
  w_get_user :: "wcall history \<Rightarrow> string \<Rightarrow> err + meta"
  w_get_sbr :: "wcall history \<Rightarrow> string \<Rightarrow> string \<Rightarrow> err + sbr"

section \<open>Mutating webhooks: the common handler\<close>

text \<open>
  A handler yields the status code and the body it writes.  \<open>None\<close> is a panic, which the HTTP server
  answers by closing the connection.
\<close>

definition responseWithError :: "string \<Rightarrow> err \<Rightarrow> response" where
  "responseWithError uid e = \<lparr>rs_allowed = False, rs_uid = uid, rs_message = Some (err_text e),
     rs_json_patch = False, rs_patch = None, rs_audit = []\<rparr>"

definition handleMutate :: "wenv \<Rightarrow> (review \<Rightarrow> response option) \<Rightarrow> err + string \<Rightarrow> (int \<times> string) option" where
  "handleMutate E mutator body =
     (case body of
        Inl e \<Rightarrow> Some (500, ''unable to read the body of the request'')
      | Inr b \<Rightarrow>
          (case w_decode E b of (admReview, err) \<Rightarrow>
             let resp =
               (case err of
                  Some e \<Rightarrow> Some (responseWithError [] e)
                | None \<Rightarrow>
                    (case rv_request admReview of
                       None \<Rightarrow> Some (responseWithError [] (Msg ''admission review request is nil''))
                     | Some _ \<Rightarrow> mutator admReview))
             in (case resp of
                   None \<Rightarrow> None
                 | Some r \<Rightarrow>
                     (case w_marshal E (admReview\<lparr>rv_response := Some r\<rparr>) of
                        Inl e \<Rightarrow> Some (500, ''failed to marshal the adm review resposne'')
                      | Inr respBody \<Rightarrow> Some (200, respBody)))))"

section \<open>Validating webhooks: responses and the common handler\<close>

definition marshal_review :: "wenv \<Rightarrow> review \<Rightarrow> string" where
  "marshal_review E rv =
     (case w_marshal E rv of Inl e \<Rightarrow> ''unable to marshal the admission review with response'' | Inr b \<Rightarrow> b)"

definition denial :: "review \<Rightarrow> err \<Rightarrow> review" where
  "denial rv e = rv\<lparr>rv_response := Some \<lparr>rs_allowed = False,
     rs_uid = (case rv_request rv of Some rq \<Rightarrow> rq_uid rq | None \<Rightarrow> []), rs_message = Some (err_text e),
     rs_json_patch = False, rs_patch = None, rs_audit = []\<rparr>\<rparr>"

definition approval :: "review \<Rightarrow> request \<Rightarrow> review" where
  "approval rv rq = rv\<lparr>rv_response := Some \<lparr>rs_allowed = True, rs_uid = rq_uid rq, rs_message = None,
     rs_json_patch = False, rs_patch = None, rs_audit = []\<rparr>\<rparr>"

definition denyAdmissionRequest :: "wenv \<Rightarrow> review \<Rightarrow> err \<Rightarrow> string" where
  "denyAdmissionRequest E rv e = marshal_review E (denial rv e)"

text \<open>\<open>admReview.Request\<close> is dereferenced.\<close>

definition allowAdmissionRequest :: "wenv \<Rightarrow> review \<Rightarrow> string option" where
  "allowAdmissionRequest E rv = map_option (\<lambda>rq. marshal_review E (approval rv rq)) (rv_request rv)"

text \<open>\<open>html.EscapeString\<close>.\<close>

definition escape_char :: "char \<Rightarrow> string" where
  "escape_char c =
     (if c = CHR ''<'' then ''&lt;'' else if c = CHR ''>'' then ''&gt;''
      else if c = CHR ''&'' then ''&amp;'' else if c = CHR 0x27 then ''&#39;''
      else if c = CHR 0x22 then ''&#34;'' else [c])"

definition undecodable :: "string \<Rightarrow> err \<Rightarrow> err" where
  "undecodable body e = Wrapped (''unable to deserialize the admission review object - body: '' @ concat (map escape_char body)) e"

text \<open>
  The first two steps every validator takes: decoding the review, and looking at its request, which is
  dereferenced without a check.
\<close>

definition with_request :: "wenv \<Rightarrow> string \<Rightarrow> (review \<Rightarrow> request \<Rightarrow> string option wprog) \<Rightarrow> string option wprog" where
  "with_request E body k =
     (case w_decode E body of (admReview, err) \<Rightarrow>
        (case err of
           Some e \<Rightarrow> ret (Some (denyAdmissionRequest E admReview (undecodable body e)))
         | None \<Rightarrow> (case rv_request admReview of None \<Rightarrow> ret None | Some rq \<Rightarrow> k admReview rq)))"

definition HandleValidate :: "(string \<Rightarrow> string option wprog) \<Rightarrow> err + string \<Rightarrow> (int \<times> string) option wprog" where
  "HandleValidate validate body =
     (case body of
        Inl e \<Rightarrow> ret (Some (500, ''unable to read the body of the request''))
      | Inr b \<Rightarrow> do { respBody \<leftarrow> validate b; ret (map_option (\<lambda>r. (200, r)) respBody) })"

section \<open>The contract of a validator\<close>

text \<open>
  What the HTTP handler and the API server rely on: a validator panics or answers with the review it
  decoded, denied with some message or allowed with the request's UID; a review that cannot be decoded is denied
  without asking the API server.
\<close>

locale validator =
  fixes validate :: "wenv \<Rightarrow> string \<Rightarrow> string option wprog"
  assumes answers: "wp (validate E body) (\<lambda>r s'. case r of None \<Rightarrow> True
      | Some b \<Rightarrow> (\<exists>e. b = denyAdmissionRequest E (fst (w_decode E body)) e) \<or>
                  Some b = allowAdmissionRequest E (fst (w_decode E body))) s"
    and denies_undecodable: "w_decode E body = (rv, Some e) \<Longrightarrow>
      run_state (validate E body) s = (Some (denyAdmissionRequest E rv (undecodable body e)), s)"
    and needs_request: "w_decode E body = (rv, None) \<Longrightarrow> rv_request rv = None \<Longrightarrow> run_state (validate E body) s = (None, s)"
begin

lemma handled:
  assumes "run_state (HandleValidate (validate E) body) s = (Some (code, b), s')"
  shows "code = 500 \<and> (\<exists>e. body = Inl e) \<or>
    code = 200 \<and> (\<exists>x. body = Inr x \<and> ((\<exists>e. b = denyAdmissionRequest E (fst (w_decode E x)) e) \<or>
       Some b = allowAdmissionRequest E (fst (w_decode E x))))"
proof (cases body)
  case (Inl e)
  with assms show ?thesis by (simp add: HandleValidate_def)
next
  case (Inr x)
  obtain r s1 where run: "run_state (validate E x) s = (r, s1)" by (cases "run_state (validate E x) s")
  with wpD [OF answers run] assms Inr show ?thesis
    by (auto simp: HandleValidate_def split: option.splits)
qed

lemma undecodable_handled:
  assumes "w_decode E x = (rv, Some e)"
  shows "run_state (HandleValidate (validate E) (Inr x)) s = (Some (200, denyAdmissionRequest E rv (undecodable x e)), s)"
  by (simp add: HandleValidate_def denies_undecodable [OF assms])

lemma nil_request_panics:
  assumes "w_decode E x = (rv, None)" and "rv_request rv = None"
  shows "run_state (HandleValidate (validate E) (Inr x)) s = (None, s)"
  by (simp add: HandleValidate_def needs_request [OF assms])

end

lemma with_request_undecodable:
  "w_decode E body = (rv, Some e) \<Longrightarrow>
   run_state (with_request E body k) s = (Some (denyAdmissionRequest E rv (undecodable body e)), s)"
  by (simp add: with_request_def)

lemma with_request_nil:
  "w_decode E body = (rv, None) \<Longrightarrow> rv_request rv = None \<Longrightarrow> run_state (with_request E body k) s = (None, s)"
  by (simp add: with_request_def)

lemma with_request_answers:
  assumes "\<And>rv rq s. w_decode E body = (rv, None) \<Longrightarrow> rv_request rv = Some rq \<Longrightarrow>
    wp (k rv rq) (\<lambda>r s'. case r of None \<Rightarrow> True
      | Some b \<Rightarrow> (\<exists>e. b = denyAdmissionRequest E rv e) \<or> Some b = allowAdmissionRequest E rv) s"
  shows "wp (with_request E body k) (\<lambda>r s'. case r of None \<Rightarrow> True
      | Some b \<Rightarrow> (\<exists>e. b = denyAdmissionRequest E (fst (w_decode E body)) e) \<or>
                  Some b = allowAdmissionRequest E (fst (w_decode E body))) s"
proof -
  obtain rv err where d: "w_decode E body = (rv, err)" by (cases "w_decode E body")
  then have f: "fst (w_decode E body) = rv" by simp
  show ?thesis
  proof (cases err)
    case None
    with d show ?thesis
      unfolding f using assms [of rv] by (cases "rv_request rv") (simp_all add: with_request_def wp_return)
  next
    case (Some e)
    with d show ?thesis unfolding f by (auto simp: with_request_def wp_return)
  qed
qed

end
