(* ===== verification/WebhookValidating.thy ===== *)
theory WebhookValidating
  imports Webhook
begin

text \<open>
  The admission webhooks, second part: the four validators (\<open>pkg/webhook/validatingwebhook\<close>).  Messages
  leave out what the code prints of raw objects and label maps.
\<close>

section \<open>RoleBindings\<close>

definition block_subject :: "string \<Rightarrow> subject" where
  "block_subject n = \<lparr>sb_kind = ''Group'', sb_api_group = ''rbac.authorization.k8s.io'', sb_name = n, sb_namespace = []\<rparr>"

definition getBlockSubjectList :: "subject list" where
  "getBlockSubjectList = [block_subject ''system:serviceaccounts'', block_subject ''system:authenticated'',
     block_subject ''system:serviceaccounts:'', block_subject ''system:authenticated:'']"

definition containsSubject :: "subject list \<Rightarrow> subject \<Rightarrow> bool" where
  "containsSubject subjectList s = list_ex (\<lambda>sub. sub = s) subjectList"

definition sandbox_user :: "meta \<Rightarrow> bool" where
  "sandbox_user u \<longleftrightarrow> lookup0 (m_labels u) ProviderLabelKey = ProviderLabelValue"

definition wider_access :: "subject \<Rightarrow> err" where
  "wider_access sub = Wrapped (''this is a Dev Sandbox enforced restriction. you are trying to create a rolebinding giving access to a larger audience, i.e : '' @ sb_name sub)
     (Msg ''please create a rolebinding for a specific user or service account to avoid this error'')"

text \<open>The loop over the subjects: a failed look up of the user goes on with the next subject.\<close>

fun check_subjects :: "wenv \<Rightarrow> review \<Rightarrow> request \<Rightarrow> subject list \<Rightarrow> string option wprog" where
  "check_subjects E rv rq [] = ret (allowAdmissionRequest E rv)"
| "check_subjects E rv rq (sub # subs) =
     (if containsSubject getBlockSubjectList sub
      then with_value (call (\<lambda>tr. w_get_user E tr (rq_username rq)) (GetUser (rq_username rq)))
        (\<lambda>e. check_subjects E rv rq subs)
        (\<lambda>u. ret (if sandbox_user u then Some (denyAdmissionRequest E rv (wider_access sub))
                  else allowAdmissionRequest E rv))
      else check_subjects E rv rq subs)"

definition rolebinding_validate :: "wenv \<Rightarrow> string \<Rightarrow> string option wprog" where
  "rolebinding_validate E body = with_request E body (\<lambda>rv rq.
     let bad = (\<lambda>e. ret (Some (denyAdmissionRequest E rv
           (Wrapped ''unable to unmarshal object or object is not a rolebinding - raw request object'' e))))
     in (case w_unmarshal_rolebinding E (rq_raw rq) of
           Inl e \<Rightarrow> bad e
         | Inr rb \<Rightarrow>
             if rb_kind rb \<noteq> ''RoleBinding'' then bad (Msg ''request Object is not a rolebinding'')
             else if prefix ''system:'' (rq_username rq) then ret (allowAdmissionRequest E rv)
             else check_subjects E rv rq (rb_subjects rb)))"

section \<open>SpaceBindingRequests\<close>

definition sbr_validate :: "wenv \<Rightarrow> string \<Rightarrow> string option wprog" where
  "sbr_validate E body = with_request E body (\<lambda>rv rq.
     let bad = (\<lambda>e. ret (Some (denyAdmissionRequest E rv
           (Wrapped ''unable to unmarshal object or object is not a spacebindingrequest - raw request object'' e))))
     in (case w_unmarshal_sbr E (rq_raw rq) of
           Inl e \<Rightarrow> bad e
         | Inr new \<Rightarrow>
             if sbr_kind new \<noteq> ''SpaceBindingRequest'' then bad (Msg ''request Object is not a SpaceBindingRequest'')
             else with_value (call (\<lambda>tr. w_get_sbr E tr (m_ns (sbr_meta new)) (m_name (sbr_meta new)))
                    (GetSpaceBindingRequest (m_ns (sbr_meta new)) (m_name (sbr_meta new))))
               (\<lambda>e. if w_not_found E e then ret (allowAdmissionRequest E rv)
                    else ret (Some (denyAdmissionRequest E rv
                      (Wrapped (''unable to validate the SpaceBindingRequest. SpaceBindingRequest.Name: '' @ m_name (sbr_meta new)) e))))
               (\<lambda>existing.
                  if sbr_mur existing \<noteq> sbr_mur new
                  then ret (Some (denyAdmissionRequest E rv (Msg (''SpaceBindingRequest.MasterUserRecord field cannot be changed. '' @
                    ''Consider deleting and creating a new SpaceBindingRequest resource''))))
                  else ret (allowAdmissionRequest E rv))))"

section \<open>SSP resources\<close>

definition ssp_validate :: "wenv \<Rightarrow> string \<Rightarrow> string option wprog" where
  "ssp_validate E body = with_request E body (\<lambda>rv rq.
     with_value (call (\<lambda>tr. w_get_user E tr (rq_username rq)) (GetUser (rq_username rq)))
       (\<lambda>e. ret (Some (denyAdmissionRequest E rv (Msg ''unable to find the user requesting the creation of the SSP resource''))))
       (\<lambda>u. ret (if sandbox_user u
          then Some (denyAdmissionRequest E rv (Msg (''this is a Dev Sandbox enforced restriction. '' @
            ''you are trying to create a SSP resource, which is not allowed'')))
          else allowAdmissionRequest E rv)))"

section \<open>VirtualMachines\<close>

definition manualRunStrategy :: string where
  "manualRunStrategy = ''Manual''"

definition maxTerminationGracePeriodSeconds :: int where
  "maxTerminationGracePeriodSeconds = 180"

definition cloudConfigHeader :: string where
  "cloudConfigHeader = ''#cloud-config'' @ [CHR 0x0A]"

text \<open>\<open>strings.TrimSpace\<close>, for the white space of ASCII.\<close>

definition is_space :: "char \<Rightarrow> bool" where
  "is_space c \<longleftrightarrow> List.member [CHR 0x09, CHR 0x0A, CHR 0x0B, CHR 0x0C, CHR 0x0D, CHR '' ''] c"

definition trim_space :: "string \<Rightarrow> string" where
  "trim_space s = rev (dropWhile is_space (rev (dropWhile is_space s)))"

definition hasUsername :: "wenv \<Rightarrow> string \<Rightarrow> bool" where
  "hasUsername E userData =
     (if \<not> prefix cloudConfigHeader userData then False
      else (case w_yaml_unmarshal E (trim_space (drop (length cloudConfigHeader) userData)) of
              Inl e \<Rightarrow> False
            | Inr m \<Rightarrow>
                (case m of
                   None \<Rightarrow> False
                 | Some m \<Rightarrow> (case map_of m ''user'' of Some (JStr user) \<Rightarrow> user \<noteq> [] | _ \<Rightarrow> False))))"

definition supportedCloudInitConfigTypes :: "string list" where
  "supportedCloudInitConfigTypes = [''cloudInitNoCloud'', ''cloudInitConfigDrive'']"

text \<open>One volume: it is the cloud-init disk and one of its configurations has a user name.\<close>

definition volume_has_username :: "wenv \<Rightarrow> json \<Rightarrow> bool" where
  "volume_has_username E volume =
     (case volume of
        JMap m \<Rightarrow> map_of m ''name'' = Some (JStr ''cloudinitdisk'') \<and>
          list_ex (\<lambda>t. case map_of m t of
              Some (JMap c) \<Rightarrow> (case map_of c ''userData'' of Some (JStr d) \<Rightarrow> hasUsername E d | _ \<Rightarrow> False)
            | _ \<Rightarrow> False) supportedCloudInitConfigTypes
      | _ \<Rightarrow> False)"

definition validateCloudInitUsername :: "wenv \<Rightarrow> jmap \<Rightarrow> err option" where
  "validateCloudInitUsername E obj =
     (case w_nested_slice E obj [''spec'', ''template'', ''spec'', ''volumes''] of
        Inl e \<Rightarrow> Some (Wrapped ''failed to get volumes from VirtualMachine'' e)
      | Inr None \<Rightarrow> Some (Msg ''no volumes found in VirtualMachine'')
      | Inr (Some volumes) \<Rightarrow>
          if list_ex (volume_has_username E) volumes then None
          else Some (Msg ''no username configured in cloudInit volume''))"

definition validateTerminationGracePeriodSeconds :: "wenv \<Rightarrow> jmap \<Rightarrow> err option" where
  "validateTerminationGracePeriodSeconds E obj =
     (case w_nested_field E obj [''spec'', ''template'', ''spec'', ''terminationGracePeriodSeconds''] of
        Inl e \<Rightarrow> Some (Wrapped ''failed to get terminationGracePeriodSeconds from VirtualMachine'' e)
      | Inr None \<Rightarrow> None
      | Inr (Some (JInt gracePeriod)) \<Rightarrow>
          if gracePeriod > maxTerminationGracePeriodSeconds
          then Some (Msg ''terminationGracePeriodSeconds cannot be greater than 180'') else None
      | Inr (Some _) \<Rightarrow> Some (Msg ''terminationGracePeriodSeconds has an invalid type''))"

text \<open>The checks in their order; the first message that applies is the answer.\<close>

definition vm_error :: "wenv \<Rightarrow> request \<Rightarrow> err option" where
  "vm_error E rq =
     (case w_unmarshal_object E (rq_raw rq) of
        Inl e \<Rightarrow> Some (Msg ''failed to validate VirtualMachine request'')
      | Inr obj \<Rightarrow>
          let run_strategy =
                (if rq_operation rq = ''UPDATE''
                 then (case w_nested_string E obj [''spec'', ''runStrategy''] of
                         Inl e \<Rightarrow> Some (Msg ''failed to validate VirtualMachine request'')
                       | Inr (Some s) \<Rightarrow> if s \<noteq> manualRunStrategy
                           then Some (Msg (''this is a Dev Sandbox enforced restriction. Only '' @ quoted ''Manual'' @ '' RunStrategy is permitted''))
                           else None
                       | Inr None \<Rightarrow> None)
                 else None);
              username =
                (if rq_operation rq = ''CREATE'' \<and> validateCloudInitUsername E obj \<noteq> None
                 then Some (Msg (''this is a Dev Sandbox enforced restriction. A user must be configured in either the '' @
                   ''cloudInitNoCloud or cloudInitConfigDrive volume.''))
                 else None);
              grace = map_option (\<lambda>e. Msg (''this is a Dev Sandbox enforced restriction. '' @ err_text e))
                (validateTerminationGracePeriodSeconds E obj)
          in (case run_strategy of Some e \<Rightarrow> Some e
              | None \<Rightarrow> (case username of Some e \<Rightarrow> Some e | None \<Rightarrow> grace)))"

definition vm_validate :: "wenv \<Rightarrow> string \<Rightarrow> string option wprog" where
  "vm_validate E body = with_request E body (\<lambda>rv rq. ret
     (case vm_error E rq of Some e \<Rightarrow> Some (denyAdmissionRequest E rv e) | None \<Rightarrow> allowAdmissionRequest E rv))"

section \<open>The validators fulfil the contract\<close>

lemmas validator_rules = with_request_answers with_request_undecodable with_request_nil

lemma check_subjects_answers:
  "wp (check_subjects E rv rq subs) (\<lambda>r s'. case r of None \<Rightarrow> True
      | Some b \<Rightarrow> (\<exists>e. b = denyAdmissionRequest E rv e) \<or> Some b = allowAdmissionRequest E rv) s"
  by (induction subs arbitrary: s) (auto simp: wp_simps split: option.split sum.split)

interpretation rolebindings: validator rolebinding_validate
  by unfold_locales
     (auto simp: rolebinding_validate_def Let_def wp_simps split: option.split sum.split
        intro!: validator_rules check_subjects_answers)

interpretation spacebindingrequests: validator sbr_validate
  by unfold_locales
     (auto simp: sbr_validate_def Let_def wp_simps split: option.split sum.split intro!: validator_rules)

interpretation ssps: validator ssp_validate
  by unfold_locales
     (auto simp: ssp_validate_def Let_def wp_simps split: option.split sum.split intro!: validator_rules)

interpretation vms: validator vm_validate
  by unfold_locales
     (auto simp: vm_validate_def Let_def wp_simps split: option.split sum.split intro!: validator_rules)

end
