(* ===== verification/WebhookMutating.thy ===== *)
theory WebhookMutating
  imports WebhookValidating
begin

text \<open>
  The admission webhooks, third part: the two mutating webhooks (\<open>pkg/webhook/mutatingwebhook\<close>).  A mutator
  yields its response, or \<open>None\<close> when it panics: a nil pod, or a failed type assertion on a volume, on
  the user data or on its list of keys.
\<close>

section \<open>Pods\<close>

definition priority :: int where
  "priority = -3"

definition PriorityClassName :: string where
  "PriorityClassName = ''sandbox-users-pods''"

definition podPatchItems :: "patch list" where
  "podPatchItems =
     [\<lparr>p_op = ''replace'', p_path = ''/spec/priorityClassName'', p_value = JStr PriorityClassName\<rparr>,
      \<lparr>p_op = ''replace'', p_path = ''/spec/priority'', p_value = JInt priority\<rparr>]"

definition patched :: "request \<Rightarrow> string \<Rightarrow> string \<Rightarrow> string \<Rightarrow> response" where
  "patched rq content webhook note = \<lparr>rs_allowed = True, rs_uid = rq_uid rq, rs_message = None, rs_json_patch = True,
     rs_patch = Some content, rs_audit = [(webhook, note)]\<rparr>"

text \<open>\<open>content\<close> is the marshalled patch, made once at start; the pod's name is logged, so a null pod panics.\<close>

definition podMutator :: "wenv \<Rightarrow> string \<Rightarrow> review \<Rightarrow> response option" where
  "podMutator E content admReview =
     (case rv_request admReview of
        None \<Rightarrow> None
      | Some rq \<Rightarrow>
          (case w_unmarshal_pod E (rq_raw rq) of
             Inl e \<Rightarrow> Some (responseWithError (rq_uid rq) (Wrapped ''failed to unmarshal pod json object'' e))
           | Inr None \<Rightarrow> None
           | Inr (Some pod) \<Rightarrow> Some (patched rq content ''users_pods_mutating_webhook''
               ''the sandbox-users-pods PriorityClass was set'')))"

definition HandleMutateUserPods :: "wenv \<Rightarrow> err + string \<Rightarrow> (int \<times> string) option" where
  "HandleMutateUserPods E body =
     (case w_marshal_patch E podPatchItems of
        Inl e \<Rightarrow> None
      | Inr content \<Rightarrow> handleMutate E (podMutator E content) body)"

section \<open>VirtualMachines: run strategy\<close>

definition add_patch :: "string \<Rightarrow> json \<Rightarrow> patch" where
  "add_patch path v = \<lparr>p_op = ''add'', p_path = path, p_value = v\<rparr>"

definition addManualRunStrategy :: patch where
  "addManualRunStrategy = add_patch ''/spec/runStrategy'' (JStr manualRunStrategy)"

definition ensureManualRunStrategy :: "wenv \<Rightarrow> jmap \<Rightarrow> patch list \<Rightarrow> patch list" where
  "ensureManualRunStrategy E obj patchItems =
     (case w_nested_string E obj [''spec'', ''runStrategy''] of
        Inl e \<Rightarrow> patchItems
      | Inr s \<Rightarrow>
          if (case s of None \<Rightarrow> [] | Some s \<Rightarrow> s) \<noteq> manualRunStrategy then patchItems @ [addManualRunStrategy]
          else patchItems)"

section \<open>VirtualMachines: limits\<close>

type_synonym limits = "(string \<times> string) list"

definition get0 :: "limits \<Rightarrow> string \<Rightarrow> string" where
  "get0 m k = (case map_of m k of None \<Rightarrow> [] | Some v \<Rightarrow> v)"

text \<open>The loop over memory and cpu, then the memory of the guest.\<close>

fun copy_requests :: "limits \<Rightarrow> string list \<Rightarrow> limits \<times> bool \<Rightarrow> limits \<times> bool" where
  "copy_requests req [] acc = acc"
| "copy_requests req (r # rs) (lims, anyChanges) =
     (if map_of lims r = None \<and> map_of req r \<noteq> None
      then copy_requests req rs (AList.update r (get0 req r) lims, True)
      else copy_requests req rs (lims, anyChanges))"

definition guest_memory :: "limits option \<Rightarrow> limits \<times> bool \<Rightarrow> limits \<times> bool" where
  "guest_memory memory acc =
     (case acc of (lims, anyChanges) \<Rightarrow>
        (case memory of
           None \<Rightarrow> acc
         | Some m \<Rightarrow>
             if get0 lims ''memory'' = [] then
               if get0 m ''maxGuest'' \<noteq> [] then (AList.update ''memory'' (get0 m ''maxGuest'') lims, True)
               else if get0 m ''guest'' \<noteq> [] then (AList.update ''memory'' (get0 m ''guest'') lims, True)
               else acc
             else acc))"

definition addLimitsToResources :: "limits \<Rightarrow> patch" where
  "addLimitsToResources lims = add_patch ''/spec/template/spec/domain/resources/limits'' (str_map lims)"

definition addResourcesToDomain :: "limits \<Rightarrow> patch" where
  "addResourcesToDomain lims = add_patch ''/spec/template/spec/domain/resources'' (JMap [(''limits'', str_map lims)])"

definition new_limits :: "limits option \<Rightarrow> limits option \<Rightarrow> limits option \<Rightarrow> limits \<times> bool" where
  "new_limits req memory lims =
     guest_memory memory (copy_requests (case req of None \<Rightarrow> [] | Some r \<Rightarrow> r) [''memory'', ''cpu'']
       (case lims of None \<Rightarrow> [] | Some l \<Rightarrow> l, False))"

definition ensureLimits :: "wenv \<Rightarrow> jmap \<Rightarrow> patch list \<Rightarrow> patch list" where
  "ensureLimits E obj patchItems =
     (let domain = [''spec'', ''template'', ''spec'', ''domain''] in
      case w_nested_map E obj (domain @ [''resources'']) of Inl e \<Rightarrow> patchItems | Inr resources \<Rightarrow>
     (case w_nested_string_map E obj (domain @ [''resources'', ''requests'']) of Inl e \<Rightarrow> patchItems | Inr req \<Rightarrow>
     (case w_nested_string_map E obj (domain @ [''memory'']) of Inl e \<Rightarrow> patchItems | Inr memory \<Rightarrow>
        if req = None \<and> memory = None then patchItems
        else
     (case w_nested_string_map E obj (domain @ [''resources'', ''limits'']) of Inl e \<Rightarrow> patchItems | Inr lims \<Rightarrow>
        (case new_limits req memory lims of (lims, anyChanges) \<Rightarrow>
           if anyChanges
           then patchItems @ [if resources \<noteq> None then addLimitsToResources lims else addResourcesToDomain lims]
           else patchItems)))))"

section \<open>VirtualMachines: tolerations\<close>

definition sandboxToleration :: json where
  "sandboxToleration = JMap [(''effect'', JStr ''NoSchedule''), (''key'', JStr ''sandbox-cnv''), (''operator'', JStr ''Exists'')]"

definition tolerates_sandbox :: "json \<Rightarrow> bool" where
  "tolerates_sandbox t = (case t of JMap m \<Rightarrow> map_of m ''key'' = Some (JStr ''sandbox-cnv'') | _ \<Rightarrow> False)"

definition addTolerations :: "json list \<Rightarrow> patch" where
  "addTolerations ts = add_patch ''/spec/template/spec/tolerations'' (JList ts)"

definition ensureTolerations :: "wenv \<Rightarrow> jmap \<Rightarrow> patch list \<Rightarrow> patch list" where
  "ensureTolerations E obj patchItems =
     (case w_nested_slice E obj [''spec'', ''template'', ''spec'', ''tolerations''] of
        Inl e \<Rightarrow> patchItems
      | Inr tolerations \<Rightarrow>
          let ts = (case tolerations of None \<Rightarrow> [] | Some ts \<Rightarrow> ts)
          in if list_ex tolerates_sandbox ts then patchItems else patchItems @ [addTolerations (ts @ [sandboxToleration])])"

section \<open>VirtualMachines: cloud-init\<close>

text \<open>\<open>strings.Split(s, ",")\<close>.\<close>

fun split_comma :: "string \<Rightarrow> string list" where
  "split_comma [] = [[]]"
| "split_comma (c # cs) =
     (if c = CHR '','' then [] # split_comma cs
      else (case split_comma cs of s # ss \<Rightarrow> (c # s) # ss | [] \<Rightarrow> [[c]]))"

definition newline :: string where
  "newline = [CHR 0x0A]"

definition defaultUserData :: "string list \<Rightarrow> string" where
  "defaultUserData sshKeys =
     join newline [cloudConfigHeader, ''ssh_authorized_keys: ['' @ print_list sshKeys @ '']'' @ newline]"

definition authorized :: string where
  "authorized = ''ssh_authorized_keys''"

definition key_line :: "string \<Rightarrow> json" where
  "key_line k = JStr (if \<not> suffix newline k then k @ newline else k)"

fun add_keys :: "jmap \<Rightarrow> string list \<Rightarrow> jmap option" where
  "add_keys userData [] = Some userData"
| "add_keys userData (k # ks) =
     (case map_of userData authorized of
        None \<Rightarrow> add_keys (AList.update authorized (JList [key_line k]) userData) ks
      | Some (JList authKeys) \<Rightarrow> add_keys (AList.update authorized (JList (authKeys @ [key_line k])) userData) ks
      | Some _ \<Rightarrow> None)"

text \<open>A nil map cannot be assigned to.\<close>

definition addSSHKeysToUserData :: "wenv \<Rightarrow> string \<Rightarrow> string list \<Rightarrow> (err + string) option" where
  "addSSHKeysToUserData E userData sshKeys =
     (case w_yaml_unmarshal E userData of
        Inl e \<Rightarrow> Some (Inl e)
      | Inr m \<Rightarrow>
          (case (case m of None \<Rightarrow> if sshKeys = [] then Some [] else None | Some m \<Rightarrow> add_keys m sshKeys) of
             None \<Rightarrow> None
           | Some m \<Rightarrow>
               (case w_yaml_marshal E m of
                  Inl e \<Rightarrow> Some (Inl e)
                | Inr y \<Rightarrow> Some (Inr (cloudConfigHeader @ y)))))"

text \<open>
  One cloud-init configuration with its user data set (\<open>None\<close> a panic), and the first supported type for
  which the volume has one: its name and configuration.
\<close>

definition with_user_data :: "wenv \<Rightarrow> string list \<Rightarrow> jmap \<Rightarrow> (err + jmap) option" where
  "with_user_data E sshKeys config =
     (case map_of config ''userData'' of
        None \<Rightarrow> Some (Inr (AList.update ''userData'' (JStr (defaultUserData sshKeys)) config))
      | Some (JStr d) \<Rightarrow>
          (case addSSHKeysToUserData E d sshKeys of
             None \<Rightarrow> None
           | Some (Inl e) \<Rightarrow> Some (Inl (Wrapped ''failed to add ssh key to userData'' e))
           | Some (Inr d') \<Rightarrow> Some (Inr (AList.update ''userData'' (JStr d') config)))
      | Some _ \<Rightarrow> None)"

fun cloud_init_config :: "jmap \<Rightarrow> string list \<Rightarrow> (string \<times> jmap) option" where
  "cloud_init_config volumeDef [] = None"
| "cloud_init_config volumeDef (t # ts) =
     (case map_of volumeDef t of Some (JMap c) \<Rightarrow> Some (t, c) | _ \<Rightarrow> cloud_init_config volumeDef ts)"

text \<open>
  The loop over the volumes, \<open>done\<close> those looked at already: whether a volume named cloudinitdisk was seen, and
  the new volumes when one was changed.
\<close>

fun config_volumes :: "wenv \<Rightarrow> string list \<Rightarrow> json list \<Rightarrow> json list \<Rightarrow> bool \<Rightarrow> (err + json list option \<times> bool) option" where
  "config_volumes E sshKeys before [] found = Some (Inr (None, found))"
| "config_volumes E sshKeys before (volume # vs) found =
     (case volume of
        JMap volumeDef \<Rightarrow>
          if map_of volumeDef ''name'' = Some (JStr ''cloudinitdisk'')
          then (case cloud_init_config volumeDef supportedCloudInitConfigTypes of
                  None \<Rightarrow> config_volumes E sshKeys (before @ [volume]) vs True
                | Some (t, config) \<Rightarrow>
                    (case with_user_data E sshKeys config of
                       None \<Rightarrow> None
                     | Some (Inl e) \<Rightarrow> Some (Inl e)
                     | Some (Inr c) \<Rightarrow> Some (Inr (Some (before @ [JMap (AList.update t (JMap c) volumeDef)] @ vs), True))))
          else config_volumes E sshKeys (before @ [volume]) vs found
      | _ \<Rightarrow> None)"

definition ensureVolumeConfig :: "wenv \<Rightarrow> jmap \<Rightarrow> patch list \<Rightarrow> (patch list \<times> err option) option" where
  "ensureVolumeConfig E obj patchItems =
     (case w_nested_slice E obj [''spec'', ''template'', ''spec'', ''volumes''] of
        Inl e \<Rightarrow> Some (patchItems, Some (Wrapped ''failed to decode VirtualMachine'' e))
      | Inr None \<Rightarrow> Some (patchItems, Some (Msg ''no volumes found''))
      | Inr (Some volumes) \<Rightarrow>
          let sshKeys = split_comma (w_ssh_key E) in
          if sshKeys = [] \<or> sshKeys = [[]] then Some (patchItems, Some (Msg ''invalid VM webhook configuration''))
          else (case config_volumes E sshKeys [] volumes False of
                  None \<Rightarrow> None
                | Some (Inl e) \<Rightarrow> Some (patchItems, Some e)
                | Some (Inr (Some vs, _)) \<Rightarrow>
                    Some (patchItems @ [\<lparr>p_op = ''replace'', p_path = ''/spec/template/spec/volumes'', p_value = JList vs\<rparr>], None)
                | Some (Inr (None, found)) \<Rightarrow>
                    Some (patchItems, if found then None else Some (Msg ''no cloudInit volume found''))))"

definition vm_patch :: "wenv \<Rightarrow> jmap \<Rightarrow> (patch list \<times> err option) option" where
  "vm_patch E obj =
     ensureVolumeConfig E obj (ensureTolerations E obj (ensureLimits E obj (ensureManualRunStrategy E obj [])))"

definition vmMutator :: "wenv \<Rightarrow> review \<Rightarrow> response option" where
  "vmMutator E admReview =
     (case rv_request admReview of
        None \<Rightarrow> None
      | Some rq \<Rightarrow>
          (case w_unmarshal_object E (rq_raw rq) of
             Inl e \<Rightarrow> Some (responseWithError (rq_uid rq) (Wrapped ''failed to unmarshal VirtualMachine json object'' e))
           | Inr obj \<Rightarrow>
               (case vm_patch E obj of
                  None \<Rightarrow> None
                | Some (items, Some e) \<Rightarrow> Some (responseWithError (rq_uid rq)
                    (Wrapped ''failed to update volume configuration for VirtualMachine'' e))
                | Some (items, None) \<Rightarrow>
                    (case w_marshal_patch E items of
                       Inl e \<Rightarrow> Some (responseWithError (rq_uid rq) (Wrapped ''failed to marshal patch items for VirtualMachine'' e))
                     | Inr content \<Rightarrow> Some (patched rq content ''virtual_machines_mutating_webhook''
                         ''the resource limits and ssh key were set'')))))"

definition HandleMutateVirtualMachines :: "wenv \<Rightarrow> err + string \<Rightarrow> (int \<times> string) option" where
  "HandleMutateVirtualMachines E body = handleMutate E (vmMutator E) body"

section \<open>The server\<close>

text \<open>The paths the webhook server handles (\<open>cmd/webhook/main.go\<close>); any other one is not found.\<close>

definition webhook_server :: "wenv \<Rightarrow> string \<Rightarrow> err + string \<Rightarrow> (int \<times> string) option wprog" where
  "webhook_server E path body =
     (if path = ''/mutate-users-pods'' then ret (HandleMutateUserPods E body)
      else if path = ''/mutate-virtual-machines'' then ret (HandleMutateVirtualMachines E body)
      else if path = ''/validate-users-rolebindings'' then HandleValidate (rolebinding_validate E) body
      else if path = ''/validate-spacebindingrequests'' then HandleValidate (sbr_validate E) body
      else if path = ''/validate-ssprequests'' then HandleValidate (ssp_validate E) body
      else if path = ''/validate-vmrequests'' then HandleValidate (vm_validate E) body
      else ret (Some (404, ''404 page not found'' @ newline)))"

end
