(* ===== verification/WebhookProofs.thy ===== *)
theory WebhookProofs
  imports WebhookMutating
begin

text \<open>
  Lemmas on the mutating webhook for VirtualMachines: the limits, resource by resource, the list of
  authorized keys, and volumes without a cloud-init configuration.
\<close>

section \<open>Limits\<close>

lemma copy_map:
  "map_of (fst (copy_requests req rs (lims, c))) k =
     (if k \<in> set rs \<and> map_of lims k = None then map_of req k else map_of lims k)"
proof (induction rs arbitrary: lims c)
  case Nil
  then show ?case by simp
next
  case (Cons r rs)
  then show ?case by (auto simp: update_conv' get0_def)
qed

lemma copy_changed:
  "snd (copy_requests req rs (lims, c)) = (c \<or> (\<exists>r \<in> set rs. map_of lims r = None \<and> map_of req r \<noteq> None))"
  by (induction rs arbitrary: lims c) (auto simp: update_conv')

definition guest_size :: "limits option \<Rightarrow> string" where
  "guest_size memory = (case memory of None \<Rightarrow> [] | Some m \<Rightarrow> if get0 m ''maxGuest'' \<noteq> [] then get0 m ''maxGuest'' else get0 m ''guest'')"

lemma get0_empty: "get0 m k = [] \<longleftrightarrow> map_of m k \<in> {None, Some []}"
  by (auto simp: get0_def split: option.splits)

lemma guest_map:
  "map_of (fst (guest_memory memory (lims, anyChanges))) k =
     (if k = ''memory'' \<and> map_of lims k \<in> {None, Some []} \<and> guest_size memory \<noteq> [] then Some (guest_size memory)
      else map_of lims k)"
  unfolding guest_memory_def guest_size_def prod.case get0_empty [of lims "''memory''"]
  by (cases memory; cases "k = ''memory''") (simp_all add: update_conv')

lemma guest_changed:
  "snd (guest_memory memory (lims, anyChanges)) =
     (anyChanges \<or> map_of lims ''memory'' \<in> {None, Some []} \<and> guest_size memory \<noteq> [])"
  unfolding guest_memory_def guest_size_def prod.case get0_empty [of lims "''memory''"]
  by (cases memory; cases anyChanges) simp_all

definition limit_map :: "limits option \<Rightarrow> string \<Rightarrow> string option" where
  "limit_map m = (case m of None \<Rightarrow> (\<lambda>k. None) | Some l \<Rightarrow> map_of l)"

definition limit_of :: "limits option \<Rightarrow> limits option \<Rightarrow> string \<Rightarrow> string option" where
  "limit_of req lims k = (case limit_map lims k of Some v \<Rightarrow> Some v | None \<Rightarrow> limit_map req k)"

definition copied :: "limits option \<Rightarrow> limits option \<Rightarrow> limits \<times> bool" where
  "copied req lims = copy_requests (case req of None \<Rightarrow> [] | Some r \<Rightarrow> r) [''memory'', ''cpu'']
     (case lims of None \<Rightarrow> [] | Some l \<Rightarrow> l, False)"

lemma copied_map:
  "map_of (fst (copied req lims)) k =
     (if k = ''memory'' \<or> k = ''cpu'' then limit_of req lims k else limit_map lims k)"
  unfolding copied_def copy_map limit_of_def limit_map_def by (cases lims; cases req) (simp_all split: option.split)

lemma copied_changed:
  "snd (copied req lims) =
     ((limit_map lims ''memory'' = None \<and> limit_map req ''memory'' \<noteq> None) \<or>
      (limit_map lims ''cpu'' = None \<and> limit_map req ''cpu'' \<noteq> None))"
  unfolding copied_def copy_changed limit_map_def by (cases lims; cases req) simp_all

lemma new_limits_map:
  "map_of (fst (new_limits req memory lims)) k =
     (if k = ''memory'' then
        if limit_of req lims k \<in> {None, Some []} \<and> guest_size memory \<noteq> [] then Some (guest_size memory) else limit_of req lims k
      else if k = ''cpu'' then limit_of req lims k else limit_map lims k)"
proof -
  obtain l c where l: "copied req lims = (l, c)" by (cases "copied req lims")
  have k: "map_of l k = (if k = ''memory'' \<or> k = ''cpu'' then limit_of req lims k else limit_map lims k)"
    using copied_map [of req lims k] by (simp add: l)
  show ?thesis
    unfolding new_limits_def copied_def [symmetric] l guest_map k by simp
qed

lemma new_limits_changed:
  "snd (new_limits req memory lims) =
     ((limit_map lims ''memory'' = None \<and> limit_map req ''memory'' \<noteq> None) \<or>
      (limit_map lims ''cpu'' = None \<and> limit_map req ''cpu'' \<noteq> None) \<or>
      limit_of req lims ''memory'' \<in> {None, Some []} \<and> guest_size memory \<noteq> [])"
proof -
  obtain l c where l: "copied req lims = (l, c)" by (cases "copied req lims")
  show ?thesis
    using copied_map [of req lims "''memory''"] copied_changed [of req lims]
    unfolding new_limits_def copied_def [symmetric] l guest_changed by simp
qed

section \<open>Keys\<close>

lemma add_keys_appends:
  assumes "map_of m authorized = (if l = [] then None else Some (JList l)) \<or> map_of m authorized = Some (JList l)" and "ks \<noteq> []"
  shows "\<exists>m'. add_keys m ks = Some m' \<and> map_of m' = (map_of m)(authorized \<mapsto> JList (l @ map key_line ks))"
  using assms
proof (induction ks arbitrary: m l)
  case Nil
  then show ?case by simp
next
  case (Cons k ks)
  let ?m = "AList.update authorized (JList (l @ [key_line k])) m"
  have one: "add_keys m (k # ks) = add_keys ?m ks"
    using Cons.prems(1) by (auto split: if_splits)
  have m: "map_of ?m = (map_of m)(authorized \<mapsto> JList (l @ [key_line k]))" by (simp add: update_conv')
  show ?case
  proof (cases "ks = []")
    case True
    then show ?thesis unfolding one by (simp add: m fun_upd_def)
  next
    case False
    have "map_of ?m authorized = Some (JList (l @ [key_line k]))" by (simp add: m)
    with Cons.IH [of ?m "l @ [key_line k]"] False obtain m' where "add_keys ?m ks = Some m'"
      "map_of m' = (map_of ?m)(authorized \<mapsto> JList ((l @ [key_line k]) @ map key_line ks))" by blast
    then show ?thesis
      unfolding one by (intro exI [of _ m']) (auto simp: fun_eq_iff m)
  qed
qed

section \<open>Volumes\<close>

lemma split_comma_nonempty: "split_comma s \<noteq> []"
  by (induction s) (auto split: list.split)

text \<open>A volume named cloudinitdisk, and one with a configuration of a supported type.\<close>

definition cloud_init_disk :: "jmap \<Rightarrow> bool" where
  "cloud_init_disk v \<longleftrightarrow> map_of v ''name'' = Some (JStr ''cloudinitdisk'')"

definition configured :: "jmap \<Rightarrow> bool" where
  "configured v \<longleftrightarrow> cloud_init_config v supportedCloudInitConfigTypes \<noteq> None"

lemma config_volumes_none:
  "list_all (\<lambda>v. \<not> (cloud_init_disk v \<and> configured v)) vs \<Longrightarrow>
   config_volumes E keys before (map JMap vs) found = Some (Inr (None, found \<or> list_ex cloud_init_disk vs))"
  by (induction vs arbitrary: before found) (auto simp: cloud_init_disk_def configured_def split: option.split)

lemma config_volumes_some:
  assumes "list_all (\<lambda>v. \<not> (cloud_init_disk v \<and> configured v)) us" and "cloud_init_disk v"
    and "cloud_init_config v supportedCloudInitConfigTypes = Some (t, config)"
    and "with_user_data E keys config = Some (Inr c)"
  shows "config_volumes E keys before (map JMap (us @ v # vs)) found =
    Some (Inr (Some (before @ map JMap (us @ AList.update t (JMap c) v # vs)), True))"
  using assms by (induction us arbitrary: before found) (auto simp: cloud_init_disk_def configured_def split: option.split)

lemma other_patches:
  "\<exists>ps. ensureTolerations E obj (ensureLimits E obj (ensureManualRunStrategy E obj [])) = ps \<and>
     list_all (\<lambda>p. p_path p \<noteq> ''/spec/template/spec/volumes'') ps"
  by (auto simp: ensureTolerations_def ensureLimits_def ensureManualRunStrategy_def addTolerations_def addLimitsToResources_def
      addResourcesToDomain_def addManualRunStrategy_def add_patch_def Let_def split: sum.split prod.split)

end
