(* ===== verification/WebhookSpec.thy ===== *)
theory WebhookSpec
  imports WebhookProofs
begin

text \<open>
  The properties of the admission webhooks, with instances at concrete requests.
\<close>

section \<open>A concrete environment\<close>

definition demo_request :: request where
  "demo_request = \<lparr>rq_uid = ''u1'', rq_operation = ''CREATE'', rq_username = ''john'', rq_raw = ''{}''\<rparr>"

definition demo_review :: review where
  "demo_review = \<lparr>rv_kind = ''AdmissionReview'', rv_request = Some demo_request, rv_response = None\<rparr>"

text \<open>The body ''ok'' is the review above, ''nil'' one without a request; the accessors look one path up.\<close>

definition demo_wenv :: "subject list \<Rightarrow> err + meta \<Rightarrow> json list option \<Rightarrow> wenv" where
  "demo_wenv subs user volumes = \<lparr>
     w_decode = (\<lambda>b. if b = ''ok'' then (demo_review, None) else if b = ''nil'' then (demo_review\<lparr>rv_request := None\<rparr>, None)
       else (demo_review\<lparr>rv_request := None\<rparr>, Some (Msg ''bad''))),
     w_marshal = (\<lambda>rv. case rv_response rv of None \<Rightarrow> Inl (Msg ''no response'')
       | Some r \<Rightarrow> Inr (if rs_allowed r then ''allowed'' else ''denied'')),
     w_marshal_patch = (\<lambda>ps. Inr ''patch''), w_unmarshal_pod = (\<lambda>r. Inr (Some ([], []))),
     w_unmarshal_rolebinding = (\<lambda>r. Inr \<lparr>rb_kind = ''RoleBinding'', rb_subjects = subs\<rparr>),
     w_unmarshal_sbr = (\<lambda>r. Inl (Msg ''bad'')), w_unmarshal_object = (\<lambda>r. Inr []),
     w_nested_string = (\<lambda>m p. Inr None), w_nested_slice = (\<lambda>m p. Inr (if last p = ''volumes'' then volumes else None)),
     w_nested_map = (\<lambda>m p. Inr None), w_nested_string_map = (\<lambda>m p. Inr None), w_nested_field = (\<lambda>m p. Inr (Some (JInt 181))),
     w_yaml_unmarshal = (\<lambda>y. Inr (Some [(''user'', JStr ''cloud-user'')])), w_yaml_marshal = (\<lambda>m. Inr ''yaml''),
     w_ssh_key = ''key1,key2'', w_not_found = (\<lambda>e. True),
     w_get_user = (\<lambda>tr n. user), w_get_sbr = (\<lambda>tr ns n. Inl (Msg ''bad''))\<rparr>"

section \<open>Reviews that cannot be decoded or have no request\<close>

text \<open>
  Every validator answers a review that cannot be decoded with status 200 and a denial, without asking
  the API server.  A review that decodes but has no request makes every validator panic, while the
  mutating handlers check for it and answer with a denial.
\<close>

theorem incomplete_reviews:
  assumes "validate \<in> {rolebinding_validate, sbr_validate, ssp_validate, vm_validate}"
    and "mutator \<in> {podMutator E content, vmMutator E}"
    and "w_decode E bad = (rv, Some e)" and "w_decode E none = (rv', None)" and "rv_request rv' = None"
  shows "run_state (HandleValidate (validate E) (Inr bad)) s = (Some (200, denyAdmissionRequest E rv (undecodable bad e)), s) \<and>
    run_state (HandleValidate (validate E) (Inr none)) s = (None, s) \<and>
    handleMutate E mutator (Inr none) =
      (case w_marshal E (rv'\<lparr>rv_response := Some (responseWithError [] (Msg ''admission review request is nil''))\<rparr>) of
         Inl e \<Rightarrow> Some (500, ''failed to marshal the adm review resposne'') | Inr b \<Rightarrow> Some (200, b))"
  using assms
  by (auto simp: handleMutate_def rolebindings.undecodable_handled rolebindings.nil_request_panics
      spacebindingrequests.undecodable_handled spacebindingrequests.nil_request_panics
      ssps.undecodable_handled ssps.nil_request_panics vms.undecodable_handled vms.nil_request_panics)

theorem incomplete_reviews_witness:
  "let E = demo_wenv [] (Inl (Msg ''bad'')) None in
   fst (run_state (HandleValidate (vm_validate E) (Inr ''?'')) (fresh ())) = Some (200, ''denied'') \<and>
   fst (run_state (HandleValidate (vm_validate E) (Inr ''nil'')) (fresh ())) = None \<and>
   handleMutate E (vmMutator E) (Inr ''nil'') = Some (200, ''denied'')"
  using incomplete_reviews [of vm_validate "vmMutator (demo_wenv [] (Inl (Msg ''bad'')) None)" "demo_wenv [] (Inl (Msg ''bad'')) None" "[]"
      "''?''" "demo_review\<lparr>rv_request := None\<rparr>" "Msg ''bad''" "''nil''" "demo_review\<lparr>rv_request := None\<rparr>" "fresh ()"]
  by (simp add: demo_wenv_def demo_review_def Let_def denyAdmissionRequest_def marshal_review_def denial_def responseWithError_def)

section \<open>RoleBindings\<close>

text \<open>
  C27: as long as the API server gives the same answer, the validator denies a RoleBinding exactly when it has a
  subject of the block list, the requesting user is no system user and the User looked up has the provider label;
  the message names the first such subject.  An unknown user is allowed.
\<close>

theorem rolebinding_decision:
  assumes "w_decode E body = (rv, None)" and "rv_request rv = Some rq"
    and "w_unmarshal_rolebinding E (rq_raw rq) = Inr rb" and "rb_kind rb = ''RoleBinding''"
    and "\<forall>tr. w_get_user E tr (rq_username rq) = answer"
  shows "fst (run_state (rolebinding_validate E body) s) = Some
    (case find (\<lambda>sub. sub \<in> set getBlockSubjectList) (rb_subjects rb) of
       Some sub \<Rightarrow>
         if \<not> prefix ''system:'' (rq_username rq) \<and> (\<exists>u. answer = Inr u \<and> sandbox_user u)
         then denyAdmissionRequest E rv (wider_access sub) else marshal_review E (approval rv rq)
     | None \<Rightarrow> marshal_review E (approval rv rq))"
proof -
  have contains: "containsSubject getBlockSubjectList sub = (sub \<in> set getBlockSubjectList)" for sub
    by (auto simp: containsSubject_def list_ex_iff)
  have loop: "fst (run_state (check_subjects E rv rq subs) s) = Some
      (case find (\<lambda>sub. sub \<in> set getBlockSubjectList) subs of
         Some sub \<Rightarrow> if \<exists>u. answer = Inr u \<and> sandbox_user u then denyAdmissionRequest E rv (wider_access sub)
           else marshal_review E (approval rv rq)
       | None \<Rightarrow> marshal_review E (approval rv rq))" for subs s
    using assms(2,5)
    by (induction subs arbitrary: s)
       (auto simp: contains with_value_def allowAdmissionRequest_def split: option.split sum.split)
  show ?thesis
    using assms(1-4)
    by (simp add: rolebinding_validate_def with_request_def loop allowAdmissionRequest_def split: option.split)
qed

theorem rolebinding_decision_witness:
  "fst (run_state (rolebinding_validate (demo_wenv [block_subject ''system:authenticated'']
     (Inr ((new_meta [] ''john'')\<lparr>m_labels := Some [(ProviderLabelKey, ProviderLabelValue)]\<rparr>)) None) ''ok'') (fresh ())) = Some ''denied''"
  using rolebinding_decision [of "demo_wenv [block_subject ''system:authenticated'']
     (Inr ((new_meta [] ''john'')\<lparr>m_labels := Some [(ProviderLabelKey, ProviderLabelValue)]\<rparr>)) None" "''ok''" demo_review demo_request
     "\<lparr>rb_kind = ''RoleBinding'', rb_subjects = [block_subject ''system:authenticated'']\<rparr>"
     "Inr ((new_meta [] ''john'')\<lparr>m_labels := Some [(ProviderLabelKey, ProviderLabelValue)]\<rparr>)" "fresh ()"]
  by (simp add: demo_wenv_def demo_review_def demo_request_def getBlockSubjectList_def sandbox_user_def
      denyAdmissionRequest_def marshal_review_def denial_def)

section \<open>The patch of a VirtualMachine\<close>

text \<open>
  C29: the limits a VirtualMachine gets, resource by resource (\<open>limit_of\<close> is the limit set or else the request,
  \<open>guest_size\<close> the guest's maximum or else size): a limit that is set stays, unless it is an empty limit of
  memory; memory falls back to the guest's size; nothing but memory and cpu is added.  A patch is due exactly when
  that differs from the limits set, and with the new limits set nothing is left to change.
\<close>

theorem limits_of_requests:
  "let new = fst (new_limits req memory lims); limit = limit_of req lims
   in map_of new k =
        (if k = ''memory'' then if limit k \<in> {None, Some []} \<and> guest_size memory \<noteq> [] then Some (guest_size memory) else limit k
         else if k = ''cpu'' then limit k else limit_map lims k) \<and>
      snd (new_limits req memory lims) = (map_of new \<noteq> limit_map lims) \<and> \<not> snd (new_limits req memory (Some new))"
proof -
  let ?new = "fst (new_limits req memory lims)"
  define m where "m = ''memory''"
  define c where "c = ''cpu''"
  have mc: "m \<noteq> c" by (simp add: m_def c_def)
  note map = new_limits_map [of req memory lims, folded m_def c_def]
  note chg = new_limits_changed [folded m_def c_def, unfolded limit_of_def]
  have "(map_of ?new \<noteq> limit_map lims) = (map_of ?new m \<noteq> limit_map lims m \<or> map_of ?new c \<noteq> limit_map lims c)"
  proof -
    have "map_of ?new k = limit_map lims k" if "k \<noteq> m" "k \<noteq> c" for k
      using that by (simp add: map)
    then show ?thesis by (metis ext)
  qed
  also have "\<dots> = snd (new_limits req memory lims)"
    using mc by (auto simp: map chg limit_of_def split: option.splits if_splits)
  finally have changed: "snd (new_limits req memory lims) = (map_of ?new \<noteq> limit_map lims)" by simp
  have new: "limit_map (Some ?new) = map_of ?new" by (simp add: limit_map_def)
  have nm: "limit_map (Some ?new) m = (if limit_of req lims m \<in> {None, Some []} \<and> guest_size memory \<noteq> []
      then Some (guest_size memory) else limit_of req lims m)"
    unfolding new map by simp
  have nc: "limit_map (Some ?new) c = limit_of req lims c"
    unfolding new map using mc by simp
  have L: "limit_of req lims k = None \<Longrightarrow> limit_map req k = None" for k
    by (simp add: limit_of_def split: option.splits)
  have "\<not> snd (new_limits req memory (Some ?new))"
    unfolding chg nm nc
    by (cases "limit_of req lims m"; cases "limit_of req lims c"; cases "guest_size memory") (simp_all add: L)
  with changed show ?thesis by (simp add: Let_def new_limits_map)
qed


text \<open>
  C30: the keys of the configuration go to the end of the user data's list of authorized keys, in their order
  and each with a final newline, after all keys that are there; every other field of the user data stays, and the
  cloud-config header is put back.
\<close>

theorem ssh_keys_are_appended:
  assumes "w_yaml_unmarshal E userData = Inr (Some m)" and "sshKeys \<noteq> []"
    and "map_of m authorized = (if l = [] then None else Some (JList l))"
    and "\<forall>m'. \<exists>y. w_yaml_marshal E m' = Inr y"
  shows "\<exists>m' y. addSSHKeysToUserData E userData sshKeys = Some (Inr (cloudConfigHeader @ y)) \<and> w_yaml_marshal E m' = Inr y \<and>
    map_of m' = (map_of m)(authorized \<mapsto> JList (l @ map key_line sshKeys))"
proof -
  obtain m' where "add_keys m sshKeys = Some m'" "map_of m' = (map_of m)(authorized \<mapsto> JList (l @ map key_line sshKeys))"
    using add_keys_appends [OF _ assms(2)] assms(3) by blast
  moreover obtain y where "w_yaml_marshal E m' = Inr y" using assms(4) by blast
  ultimately show ?thesis using assms(1) by (auto simp: addSSHKeysToUserData_def)
qed

theorem ssh_keys_are_appended_witness:
  "\<exists>m'. addSSHKeysToUserData (demo_wenv [] (Inl (Msg ''bad'')) None) ''user: cloud-user'' [''key1''] = Some (Inr (cloudConfigHeader @ ''yaml'')) \<and>
     map_of m' authorized = Some (JList [key_line ''key1''])"
proof -
  let ?E = "demo_wenv [] (Inl (Msg ''bad'')) None"
  have E: "w_yaml_unmarshal ?E ''user: cloud-user'' = Inr (Some [(''user'', JStr ''cloud-user'')])"
    "w_yaml_marshal ?E m = Inr ''yaml''" for m
    by (simp_all add: demo_wenv_def)
  obtain m' where "addSSHKeysToUserData ?E ''user: cloud-user'' [''key1''] = Some (Inr (cloudConfigHeader @ ''yaml''))"
    "map_of m' = (map_of [(''user'', JStr ''cloud-user'')])(authorized \<mapsto> JList ([] @ map key_line [''key1'']))"
    using ssh_keys_are_appended [OF E(1), of "[''key1'']" "[]"] by (auto simp: E authorized_def)
  then show ?thesis
    by (intro exI [of _ m']) simp
qed

text \<open>
  A VirtualMachine whose cloudinitdisk volume has none of the two supported configurations is let through
  without any change to its volumes, hence without the keys, although the mutator's comment says that a request
  whose cloud-init configuration cannot be set is blocked.
\<close>

theorem unsupported_cloud_init_is_let_through:
  assumes "w_nested_slice E obj [''spec'', ''template'', ''spec'', ''volumes''] = Inr (Some (map JMap vs))"
    and "list_ex cloud_init_disk vs" and "list_all (\<lambda>v. \<not> (cloud_init_disk v \<and> configured v)) vs" and "w_ssh_key E \<noteq> []"
  shows "\<exists>items. vm_patch E obj = Some (items, None) \<and> list_all (\<lambda>p. p_path p \<noteq> ''/spec/template/spec/volumes'') items"
proof -
  have "split_comma (w_ssh_key E) \<noteq> [[]]"
    using assms(4) by (cases "w_ssh_key E") (auto simp: split_comma_nonempty split: list.splits)
  then show ?thesis
    using assms(1-3) other_patches [of E obj]
    by (auto simp: vm_patch_def ensureVolumeConfig_def Let_def config_volumes_none split_comma_nonempty)
qed

theorem unsupported_cloud_init_is_let_through_witness:
  "\<exists>items. vm_patch (demo_wenv [] (Inl (Msg ''bad'')) (Some [JMap [(''name'', JStr ''cloudinitdisk''), (''cloudInitOther'', JMap [])]])) []
     = Some (items, None)"
  using unsupported_cloud_init_is_let_through [of
      "demo_wenv [] (Inl (Msg ''bad'')) (Some [JMap [(''name'', JStr ''cloudinitdisk''), (''cloudInitOther'', JMap [])]])" "[]"
      "[[(''name'', JStr ''cloudinitdisk''), (''cloudInitOther'', JMap [])]]"]
  by (auto simp: demo_wenv_def cloud_init_disk_def configured_def supportedCloudInitConfigTypes_def)

section \<open>Validating VirtualMachines\<close>

text \<open>
  C28: a VirtualMachine that can be decoded is accepted exactly when, on an update, it has no run strategy or
  Manual, on a creation some cloudinitdisk volume has a supported configuration with a user name, and in
  either case it has no termination grace period or an integer one of at most 180 seconds.
\<close>

theorem vm_decision:
  assumes "w_decode E body = (rv, None)" and "rv_request rv = Some rq" and "w_unmarshal_object E (rq_raw rq) = Inr obj"
  shows "\<exists>err. run_state (vm_validate E body) s =
      (Some (case err of None \<Rightarrow> marshal_review E (approval rv rq) | Some e \<Rightarrow> denyAdmissionRequest E rv e), s) \<and>
    err = None = ((rq_operation rq = ''UPDATE'' \<longrightarrow> w_nested_string E obj [''spec'', ''runStrategy''] \<in> {Inr None, Inr (Some ''Manual'')}) \<and>
      (rq_operation rq = ''CREATE'' \<longrightarrow> (\<exists>vs v. w_nested_slice E obj [''spec'', ''template'', ''spec'', ''volumes''] = Inr (Some vs) \<and>
         v \<in> set vs \<and> volume_has_username E v)) \<and>
      w_nested_field E obj [''spec'', ''template'', ''spec'', ''terminationGracePeriodSeconds''] \<in>
        insert (Inr None) ((\<lambda>n. Inr (Some (JInt n))) ` {..180}))"
proof -
  have strategy: "(rq_operation rq = ''UPDATE'' \<longrightarrow> w_nested_string E obj [''spec'', ''runStrategy''] \<in> {Inr None, Inr (Some ''Manual'')}) \<longleftrightarrow>
      (rq_operation rq = ''UPDATE'' \<longrightarrow> (case w_nested_string E obj [''spec'', ''runStrategy''] of
         Inl e \<Rightarrow> False | Inr None \<Rightarrow> True | Inr (Some s) \<Rightarrow> s = manualRunStrategy))"
    by (auto simp: manualRunStrategy_def split: sum.split option.split)
  have username: "(\<exists>vs v. w_nested_slice E obj [''spec'', ''template'', ''spec'', ''volumes''] = Inr (Some vs) \<and>
         v \<in> set vs \<and> volume_has_username E v) \<longleftrightarrow> validateCloudInitUsername E obj = None"
    by (auto simp: validateCloudInitUsername_def list_ex_iff split: sum.split option.split)
  have grace: "w_nested_field E obj [''spec'', ''template'', ''spec'', ''terminationGracePeriodSeconds''] \<in>
        insert (Inr None) ((\<lambda>n. Inr (Some (JInt n))) ` {..180}) \<longleftrightarrow> validateTerminationGracePeriodSeconds E obj = None"
    by (auto simp: validateTerminationGracePeriodSeconds_def maxTerminationGracePeriodSeconds_def image_iff
        split: sum.split option.split json.split)
  have "vm_error E rq = None \<longleftrightarrow>
      (rq_operation rq = ''UPDATE'' \<longrightarrow> (case w_nested_string E obj [''spec'', ''runStrategy''] of
         Inl e \<Rightarrow> False | Inr None \<Rightarrow> True | Inr (Some s) \<Rightarrow> s = manualRunStrategy)) \<and>
      (rq_operation rq = ''CREATE'' \<longrightarrow> validateCloudInitUsername E obj = None) \<and>
      validateTerminationGracePeriodSeconds E obj = None"
    using assms(3) by (auto simp: vm_error_def Let_def split: sum.split option.split)
  then show ?thesis
    unfolding strategy username grace
    using assms(1,2)
    by (intro exI [of _ "vm_error E rq"])
       (auto simp: vm_validate_def with_request_def allowAdmissionRequest_def split: option.split)
qed

theorem vm_decision_witness:
  "let E = demo_wenv [] (Inl (Msg ''bad'')) None in
   \<exists>e. run_state (vm_validate E ''ok'') (fresh ()) = (Some (denyAdmissionRequest E demo_review e), fresh ())"
  using vm_decision [of "demo_wenv [] (Inl (Msg ''bad'')) None" "''ok''" demo_review demo_request "[]" "fresh ()"]
  by (auto simp: demo_wenv_def demo_review_def demo_request_def Let_def image_iff split: option.splits)

end
