(* ===== verification/MemberStatus.thy ===== *)
theory MemberStatus
  imports Kube Go_Arith
begin

text \<open>
  The MemberStatus controller (\<open>controllers/memberstatus\<close>): four handlers, each of which looks at one part
  of the member cluster and stores what it finds in the MemberStatus object, and the reconcile loop that runs
  all of them, whatever fails, and writes the object once.
\<close>

section \<open>Data\<close>

datatype status_reason =
    DeploymentNotFound | ConsoleRouteUnavailable | RoutesAvailable | AllComponentsReady | ComponentsNotReady
  | OtherStatusReason string

type_synonym scond = "status_reason cond"

record operator_status =
  os_version :: string
  os_revision :: string
  os_build_time :: string
  os_deployment :: string
  os_conds :: "scond list"
  os_revision_check :: "scond list"

record routes_status =
  rt_console :: string
  rt_conds :: "scond list"

text \<open>A nil pointer or map is \<open>None\<close>; the host status consists of its conditions.\<close>

record member_status =
  ms_name :: string
  ms_ns :: string
  ms_operator :: "operator_status option"
  ms_host :: "scond list option"
  ms_routes :: "routes_status option"
  ms_usage :: "(string \<times> int) list option"
  ms_conds :: "scond list"

record mconfig =
  cf_refresh :: int
  cf_health_period :: int
  cf_health_timeout :: int
  cf_environment :: string
  cf_github_token :: string
  cf_console_ns :: string
  cf_console_route :: string

text \<open>
  A node with its labels and its allocatable memory, the metrics of a node with its memory usage, both in
  bytes; a quantity of memory is not negative.
\<close>

record node =
  nd_name :: string
  nd_labels :: "(string \<times> string) list"
  nd_allocatable :: "nat option"

record node_metrics =
  nm_name :: string
  nm_usage :: "nat option"

record route =
  ro_host :: string
  ro_path :: string

record nodeInfo =
  roles :: "string list"
  allocatable :: nat

datatype mscall =
    GetConfiguration | GetMemberStatus string string | ListNodes | ListNodeMetrics | GetRoute string string
  | UpdateMemberStatus member_status

type_synonym 'a msprog = "(member_status, mscall, 'a) prog"

text \<open>
  The servers, the build's version, and what is called of other packages: of \<open>toolchain-common/pkg/status\<close>
  the two constructors of conditions (which read the clock), the check that all conditions are ready,
  the conditions of the host connection and of the deployment, and the check of the deployed version;
  the operator's name; and the result of converting a quotient that is no \<open>int64\<close>, which Go leaves open.
\<close>

record msenv =
  me_now :: "nat \<Rightarrow> int"
  me_get_config :: "mscall history \<Rightarrow> err + mconfig"
  me_get_status :: "mscall history \<Rightarrow> string \<Rightarrow> string \<Rightarrow> err + member_status"
  me_list_nodes :: "mscall history \<Rightarrow> err + node list"
  me_list_metrics :: "mscall history \<Rightarrow> err + node_metrics list"
  me_get_route :: "mscall history \<Rightarrow> string \<Rightarrow> string \<Rightarrow> err + route"
  me_update :: "mscall history \<Rightarrow> member_status \<Rightarrow> err option"
  me_not_found :: "err \<Rightarrow> bool"
  me_version :: string
  me_commit :: string
  me_build_time :: string
  me_operator_name :: "err + string"
  me_cannot_get_deployment :: string
  me_error_condition :: "int \<Rightarrow> status_reason \<Rightarrow> string \<Rightarrow> scond"
  me_ready_condition :: "int \<Rightarrow> status_reason \<Rightarrow> scond"
  me_validate :: "scond list \<Rightarrow> err option"
  me_host_conditions :: "mscall history \<Rightarrow> int \<Rightarrow> int \<Rightarrow> scond list"
  me_deployment_conditions :: "mscall history \<Rightarrow> string \<Rightarrow> string \<Rightarrow> scond list"
  me_check_version :: "mscall history \<Rightarrow> bool \<Rightarrow> string \<Rightarrow> scond list \<Rightarrow> string list \<Rightarrow> scond"
  me_no_int64 :: "nat \<Rightarrow> nat \<Rightarrow> int"

section \<open>The status of the operator and of the host connection\<close>

definition memberOperatorRepoName :: string where
  "memberOperatorRepoName = ''member-operator''"

definition memberOperatorRepoBranchName :: string where
  "memberOperatorRepoBranchName = ''master''"

definition isProdEnvironment :: "mconfig \<Rightarrow> bool" where
  "isProdEnvironment cfg \<longleftrightarrow> cf_environment cfg = ''prod''"

definition no_operator_status :: operator_status where
  "no_operator_status = \<lparr>os_version = [], os_revision = [], os_build_time = [], os_deployment = [], os_conds = [],
     os_revision_check = []\<rparr>"

definition memberOperatorHandleStatus :: "msenv \<Rightarrow> mconfig \<Rightarrow> err option msprog" where
  "memberOperatorHandleStatus E cfg = do {
     ms \<leftarrow> get_mem;
     let revisionCheck = (case ms_operator ms of None \<Rightarrow> [] | Some os \<Rightarrow> os_revision_check os);
     let operatorStatus = no_operator_status\<lparr>os_version := me_version E, os_revision := me_commit E,
       os_build_time := me_build_time E, os_revision_check := revisionCheck\<rparr>;
     (case me_operator_name E of
        Inl e \<Rightarrow> do {
          let errDeploy = Wrapped (me_cannot_get_deployment E) e;
          t \<leftarrow> clock (me_now E);
          let c = me_error_condition E t DeploymentNotFound (err_text errDeploy);
          _ \<leftarrow> set_mem (ms\<lparr>ms_operator := Some (operatorStatus\<lparr>os_conds := [c]\<rparr>)\<rparr>);
          ret (Some errDeploy)
        }
      | Inr name \<Rightarrow> do {
          let deployment = name @ ''-controller-manager'';
          conds \<leftarrow> peek (\<lambda>h. me_deployment_conditions E h deployment (ms_ns ms));
          let errDeploy = me_validate E conds;
          let operatorStatus = operatorStatus\<lparr>os_deployment := deployment, os_conds := conds\<rparr>;
          c \<leftarrow> peek (\<lambda>h. me_check_version E h (isProdEnvironment cfg) (cf_github_token cfg) revisionCheck
            [ProviderLabelValue, memberOperatorRepoName, memberOperatorRepoBranchName, me_commit E]);
          let errVersionCheck = me_validate E [c];
          _ \<leftarrow> set_mem (ms\<lparr>ms_operator := Some (operatorStatus\<lparr>os_revision_check := [c]\<rparr>)\<rparr>);
          ret (if errVersionCheck \<noteq> None then errVersionCheck else errDeploy)
        })
   }"

definition hostConnectionHandleStatus :: "msenv \<Rightarrow> mconfig \<Rightarrow> err option msprog" where
  "hostConnectionHandleStatus E cfg = do {
     ms \<leftarrow> get_mem;
     conds \<leftarrow> peek (\<lambda>h. me_host_conditions E h (cf_health_period cfg) (cf_health_timeout cfg));
     let err = me_validate E conds;
     _ \<leftarrow> set_mem (ms\<lparr>ms_host := Some conds\<rparr>);
     ret err
   }"

section \<open>Resource usage\<close>

definition labelNodeRole :: "string \<Rightarrow> string" where
  "labelNodeRole r = ''node-role.kubernetes.io/'' @ r"

definition has_label :: "node \<Rightarrow> string \<Rightarrow> bool" where
  "has_label n k \<longleftrightarrow> map_of (nd_labels n) k \<noteq> None"

definition getNodeRoles :: "node \<Rightarrow> string list" where
  "getNodeRoles n =
     (if has_label n (labelNodeRole ''infra'') then []
      else (if has_label n (labelNodeRole ''worker'') then [''worker''] else []) @
           (if has_label n (labelNodeRole ''master'') then [''master''] else []))"

type_synonym node_map = "(string \<times> nodeInfo) list"

definition add_node :: "node \<Rightarrow> node_map \<Rightarrow> node_map" where
  "add_node n m =
     (if getNodeRoles n = [] then m
      else (case nd_allocatable n of
              None \<Rightarrow> m
            | Some q \<Rightarrow> AList.update (nd_name n) \<lparr>roles = getNodeRoles n, allocatable = q\<rparr> m))"

definition getAllocatableValues :: "msenv \<Rightarrow> (err + node_map) msprog" where
  "getAllocatableValues E = with_value (call (me_list_nodes E) ListNodes)
     (\<lambda>e. ret (Inl (Wrapped ''unable to list Nodes'' e)))
     (\<lambda>nodes. ret (Inr (fold add_node nodes [])))"

text \<open>The sums per role, a map from roles to \<open>float32\<close>; a role that is not there counts as zero.\<close>

type_synonym role_map = "(string \<times> nat) list"

definition sum_of :: "role_map \<Rightarrow> string \<Rightarrow> nat" where
  "sum_of m r = (case map_of m r of None \<Rightarrow> 0 | Some x \<Rightarrow> x)"

definition add_to :: "nat \<Rightarrow> string \<Rightarrow> role_map \<Rightarrow> role_map" where
  "add_to x r m = AList.update r (add32 (sum_of m r) (float32 x)) m"

text \<open>The loop over the metrics: the nodes not used yet, and the usage and capacity per role.\<close>

fun add_metrics :: "node_metrics list \<Rightarrow> node_map \<times> role_map \<times> role_map \<Rightarrow> err + node_map \<times> role_map \<times> role_map" where
  "add_metrics [] acc = Inr acc"
| "add_metrics (nm # nms) (nodes, usage, alloc) =
     (case nm_usage nm of
        None \<Rightarrow> Inl (Msg ''memory item not found in NodeMetrics'')
      | Some u \<Rightarrow>
          (case map_of nodes (nm_name nm) of
             None \<Rightarrow> add_metrics nms (nodes, usage, alloc)
           | Some info \<Rightarrow> add_metrics nms (AList.delete (nm_name nm) nodes, fold (add_to u) (roles info) usage,
               fold (add_to (allocatable info)) (roles info) alloc)))"

definition percentage :: "msenv \<Rightarrow> nat \<Rightarrow> nat \<Rightarrow> int" where
  "percentage E u a =
     (if a = 0 \<or> 2 ^ 63 \<le> percent32 u a then me_no_int64 E u a else int (percent32 u a))"

definition loadCurrentResourceUsage :: "msenv \<Rightarrow> mconfig \<Rightarrow> err option msprog" where
  "loadCurrentResourceUsage E cfg = do {
     ms \<leftarrow> get_mem;
     _ \<leftarrow> set_mem (ms\<lparr>ms_usage := Some []\<rparr>);
     with_value (getAllocatableValues E) (\<lambda>e. ret (Some e)) (\<lambda>nodes.
     with_value (call (me_list_metrics E) ListNodeMetrics) (\<lambda>e. ret (Some e)) (\<lambda>metrics.
       case add_metrics metrics (nodes, [], []) of
         Inl e \<Rightarrow> ret (Some e)
       | Inr (rest, usagePerRole, allocatablePerRole) \<Rightarrow>
           if length rest > 1
           then ret (Some (Msg (''missing NodeMetrics resource for Nodes: '' @ print_list (map fst rest))))
           else do {
             _ \<leftarrow> set_mem (ms\<lparr>ms_usage :=
               Some (map (\<lambda>(r, u). (r, percentage E u (sum_of allocatablePerRole r))) usagePerRole)\<rparr>);
             ret None
           }))
   }"

section \<open>Routes\<close>

definition trim_suffix :: "string \<Rightarrow> string \<Rightarrow> string" where
  "trim_suffix x s = (if suffix x s then take (length s - length x) s else s)"

function sanitizeURL :: "string \<Rightarrow> string" where
  "sanitizeURL url = (if suffix ''//'' url then sanitizeURL (trim_suffix ''/'' url) else url)"
  by auto

termination sanitizeURL
  by (relation "measure length") (auto simp: trim_suffix_def suffix_def)

declare sanitizeURL.simps [simp del]

definition console_address :: "route \<Rightarrow> string" where
  "console_address ro = sanitizeURL (''https://'' @ ro_host ro @ ''/'' @ ro_path ro)"

definition consoleURL :: "msenv \<Rightarrow> mconfig \<Rightarrow> (err + string) msprog" where
  "consoleURL E cfg =
     with_value (call (\<lambda>h. me_get_route E h (cf_console_ns cfg) (cf_console_route cfg))
         (GetRoute (cf_console_ns cfg) (cf_console_route cfg)))
       (\<lambda>e. ret (Inl e)) (\<lambda>ro. ret (Inr (console_address ro)))"

definition no_routes :: routes_status where
  "no_routes = \<lparr>rt_console = [], rt_conds = []\<rparr>"

definition routesHandleStatus :: "msenv \<Rightarrow> mconfig \<Rightarrow> err option msprog" where
  "routesHandleStatus E cfg = do {
     ms \<leftarrow> get_mem;
     let rt = (case ms_routes ms of None \<Rightarrow> no_routes | Some rt \<Rightarrow> rt);
     with_value (consoleURL E cfg)
       (\<lambda>e. do {
          t \<leftarrow> clock (me_now E);
          _ \<leftarrow> set_mem (ms\<lparr>ms_routes := Some (rt\<lparr>rt_conds := [me_error_condition E t ConsoleRouteUnavailable (err_text e)]\<rparr>)\<rparr>);
          ret (Some e)
        })
       (\<lambda>url. do {
          t \<leftarrow> clock (me_now E);
          _ \<leftarrow> set_mem (ms\<lparr>ms_routes := Some (rt\<lparr>rt_console := url, rt_conds := [me_ready_condition E t RoutesAvailable]\<rparr>)\<rparr>);
          ret None
        })
   }"

section \<open>The reconcile loop\<close>

definition stamped :: "msenv \<Rightarrow> scond \<Rightarrow> scond msprog" where
  "stamped E c = do { t \<leftarrow> clock (me_now E); ret (c\<lparr>c_transition := t, c_updated := Some t\<rparr>) }"

fun stamp_all :: "msenv \<Rightarrow> scond list \<Rightarrow> scond list msprog" where
  "stamp_all E [] = ret []"
| "stamp_all E (c # cs) = do { c' \<leftarrow> stamped E c; cs' \<leftarrow> stamp_all E cs; ret (c' # cs') }"

definition updateStatusConditions :: "msenv \<Rightarrow> scond list \<Rightarrow> err option msprog" where
  "updateStatusConditions E newConditions = do {
     conds \<leftarrow> stamp_all E newConditions;
     ms \<leftarrow> get_mem;
     let ms' = ms\<lparr>ms_conds := conds\<rparr>;
     _ \<leftarrow> set_mem ms';
     call_err (\<lambda>h. me_update E h ms') (UpdateMemberStatus ms')
   }"

definition setStatusReady :: "msenv \<Rightarrow> err option msprog" where
  "setStatusReady E = updateStatusConditions E [mk_cond ConditionReady ConditionTrue AllComponentsReady []]"

definition setStatusNotReady :: "msenv \<Rightarrow> string \<Rightarrow> err option msprog" where
  "setStatusNotReady E message = updateStatusConditions E [mk_cond ConditionReady ConditionFalse ComponentsNotReady message]"

text \<open>The handlers with the tags of their components, and the loop that collects the tags of those that fail.\<close>

definition statusHandlers :: "msenv \<Rightarrow> mconfig \<Rightarrow> (string \<times> err option msprog) list" where
  "statusHandlers E cfg =
     [(''memberOperator'', memberOperatorHandleStatus E cfg), (''hostConnection'', hostConnectionHandleStatus E cfg),
      (''resourceUsage'', loadCurrentResourceUsage E cfg), (''routes'', routesHandleStatus E cfg)]"

fun run_handlers :: "(string \<times> err option msprog) list \<Rightarrow> string list \<Rightarrow> string list msprog" where
  "run_handlers [] unready = ret unready"
| "run_handlers ((name, h) # hs) unready = do {
     err \<leftarrow> h;
     run_handlers hs (if err \<noteq> None then unready @ [name] else unready)
   }"

definition aggregateAndUpdateStatus :: "msenv \<Rightarrow> mconfig \<Rightarrow> err option msprog" where
  "aggregateAndUpdateStatus E cfg = do {
     unready \<leftarrow> run_handlers (statusHandlers E cfg) [];
     if length unready > 0 then setStatusNotReady E (''components not ready: '' @ print_list unready)
     else setStatusReady E
   }"

text \<open>The result is the time after which to requeue and the error.\<close>

definition Reconcile :: "msenv \<Rightarrow> string \<Rightarrow> string \<Rightarrow> (int \<times> err option) msprog" where
  "Reconcile E ns name =
     with_value (call (me_get_config E) GetConfiguration)
       (\<lambda>e. ret (0, Some (Wrapped ''unable to get MemberOperatorConfig'' e)))
       (\<lambda>cfg.
         with_value (call (\<lambda>h. me_get_status E h ns name) (GetMemberStatus ns name))
           (\<lambda>e. ret (0, if me_not_found E e then None else Some e))
           (\<lambda>ms. do {
              _ \<leftarrow> set_mem ms;
              err \<leftarrow> aggregateAndUpdateStatus E cfg;
              ret (cf_refresh cfg, err)
            }))"

section \<open>Creation\<close>

text \<open>
  \<open>CreateOrUpdateResources\<close> applies an empty MemberStatus with the operator's field manager; \<open>apply\<close> is the
  library's server-side apply of a client with the given field manager.
\<close>

definition MemberOperatorFieldManager :: string where
  "MemberOperatorFieldManager = ''kubesaw-member-operator''"

definition CreateOrUpdateResources :: "(string \<Rightarrow> member_status \<Rightarrow> err option) \<Rightarrow> string \<Rightarrow> string \<Rightarrow> err option" where
  "CreateOrUpdateResources apply_object namespace memberStatusName =
     apply_object MemberOperatorFieldManager \<lparr>ms_name = memberStatusName, ms_ns = namespace, ms_operator = None, ms_host = None,
       ms_routes = None, ms_usage = None, ms_conds = []\<rparr>"

end
