(* ===== verification/MemberStatusProofs.thy ===== *)
theory MemberStatusProofs
  imports MemberStatus
begin

text \<open>
  Lemmas on the MemberStatus controller: the nodes that count, the sums per role, URLs without slashes at the
  end, and what each handler does to the object.
\<close>

section \<open>Nodes\<close>

lemma getNodeRoles_range: "set (getNodeRoles n) \<subseteq> {''worker'', ''master''}"
  by (auto simp: getNodeRoles_def)

text \<open>The names of the nodes with a role and a known size.\<close>

definition sized :: "node list \<Rightarrow> string set" where
  "sized ns = nd_name ` {n \<in> set ns. getNodeRoles n \<noteq> [] \<and> nd_allocatable n \<noteq> None}"

lemma sized_simps [simp]:
  "sized [] = {}"
  "sized (n # ns) = (if getNodeRoles n \<noteq> [] \<and> nd_allocatable n \<noteq> None then insert (nd_name n) (sized ns) else sized ns)"
  by (auto simp: sized_def)

lemma add_node_dom:
  "dom (map_of (fold add_node ns m)) = dom (map_of m) \<union> sized ns"
  by (induction ns arbitrary: m)
     (auto simp: add_node_def update_conv' split: option.splits if_splits)

lemma add_node_distinct: "distinct (map fst m) \<Longrightarrow> distinct (map fst (fold add_node ns m))"
  by (induction ns arbitrary: m) (auto simp: add_node_def distinct_update split: option.splits)

lemma add_node_roles:
  assumes "\<And>k i. map_of m k = Some i \<Longrightarrow> set (roles i) \<subseteq> {''worker'', ''master''}"
    and "map_of (fold add_node ns m) k = Some i"
  shows "set (roles i) \<subseteq> {''worker'', ''master''}"
  using assms
proof (induction ns arbitrary: m)
  case (Cons n ns)
  show ?case
  proof (rule Cons.IH)
    show "map_of (fold add_node ns (add_node n m)) k = Some i" using Cons.prems(2) by simp
    show "set (roles j) \<subseteq> {''worker'', ''master''}" if "map_of (add_node n m) k' = Some j" for k' j
      using that Cons.prems(1) getNodeRoles_range [of n]
      by (auto simp: add_node_def update_conv' split: if_splits option.splits)
  qed
qed simp

section \<open>Sums\<close>

lemma float32_pos: "0 < x \<Longrightarrow> 0 < float32 x"
  using round_sig_mono [of 1 x 24] round_sig_exact [of 1 24] by (simp add: float32_def)

lemma float32_mono: "x \<le> y \<Longrightarrow> float32 x \<le> float32 y"
  by (simp add: float32_def round_sig_mono)

lemma sum_of_add_to: "sum_of (add_to x r m) r' = (if r = r' then add32 (sum_of m r) (float32 x) else sum_of m r')"
  by (simp add: sum_of_def add_to_def update_conv')

lemma add_to_dom: "dom (map_of (add_to x r m)) = insert r (dom (map_of m))"
  by (auto simp: add_to_def update_conv')

lemma adds_dom: "dom (map_of (fold (add_to x) rs m)) = set rs \<union> dom (map_of m)"
  by (induction rs arbitrary: m) (auto simp: add_to_dom)

lemma add_to_distinct: "distinct (map fst m) \<Longrightarrow> distinct (map fst (fold (add_to x) rs m))"
  by (induction rs arbitrary: m) (auto simp: add_to_def distinct_update)

text \<open>The usage of no role is over its capacity, and every role has some capacity.\<close>

definition within :: "role_map \<Rightarrow> role_map \<Rightarrow> bool" where
  "within u a \<longleftrightarrow> (\<forall>r. sum_of u r \<le> sum_of a r \<and> (r \<in> dom (map_of u) \<longrightarrow> 0 < sum_of a r))"

lemma within_add_to:
  assumes "within u a" and "x \<le> y" and "0 < y"
  shows "within (add_to x r u) (add_to y r a)"
  unfolding within_def
proof
  fix r'
  have m: "add32 (sum_of u r) (float32 x) \<le> add32 (sum_of a r) (float32 y)"
    using assms by (auto simp: within_def intro!: add32_mono float32_mono)
  have "0 < add32 (sum_of a r) (float32 y)"
    using float32_pos [OF assms(3)] by (simp add: add32_def float32_pos)
  with m assms(1) show "sum_of (add_to x r u) r' \<le> sum_of (add_to y r a) r' \<and>
      (r' \<in> dom (map_of (add_to x r u)) \<longrightarrow> 0 < sum_of (add_to y r a) r')"
    by (auto simp: within_def sum_of_add_to add_to_dom)
qed

lemma within_adds:
  "within u a \<Longrightarrow> x \<le> y \<Longrightarrow> 0 < y \<Longrightarrow> within (fold (add_to x) rs u) (fold (add_to y) rs a)"
  by (induction rs arbitrary: u a) (simp_all add: within_add_to)

section \<open>The loop over the metrics\<close>

text \<open>The nodes left are those without metrics; the loop fails exactly when some metrics have no memory.\<close>

lemma add_metrics_fails:
  "isl (add_metrics nms acc) \<longleftrightarrow> (\<exists>nm \<in> set nms. nm_usage nm = None)"
  by (induction nms acc rule: add_metrics.induct) (auto split: option.splits)

lemma add_metrics_rest:
  assumes "add_metrics nms (nodes, u, a) = Inr (rest, u', a')"
  shows "dom (map_of rest) = dom (map_of nodes) - nm_name ` set nms"
    and "distinct (map fst nodes) \<Longrightarrow> distinct (map fst rest)"
  using assms
proof (induction nms "(nodes, u, a)" arbitrary: nodes u a rule: add_metrics.induct)
  case (2 nm nms nodes u a)
  case 1
  with 2 show ?case by (auto simp: delete_conv' split: option.splits)
next
  case (2 nm nms nodes u a)
  case 2
  with "2.hyps" show ?case by (auto simp: distinct_delete split: option.splits)
qed auto

text \<open>
  The roles found are those of the nodes that have metrics, and where each node stays within its capacity, so
  does each role.
\<close>

definition counted :: "node_map \<Rightarrow> node_metrics list \<Rightarrow> string set" where
  "counted nodes nms = \<Union> {set (roles i) |i nm. nm \<in> set nms \<and> map_of nodes (nm_name nm) = Some i}"

lemma counted_Nil [simp]: "counted nodes [] = {}"
  by (simp add: counted_def)

lemma counted_unknown: "map_of nodes (nm_name nm) = None \<Longrightarrow> counted nodes (nm # nms) = counted nodes nms"
  by (auto simp: counted_def)

lemma counted_known:
  "map_of nodes (nm_name nm) = Some i \<Longrightarrow>
   counted nodes (nm # nms) = set (roles i) \<union> counted (AList.delete (nm_name nm) nodes) nms"
  by (auto simp: counted_def delete_conv' split: if_splits) force+

definition node_within :: "node_map \<Rightarrow> node_metrics \<Rightarrow> bool" where
  "node_within nodes nm \<longleftrightarrow>
     (\<forall>i u. map_of nodes (nm_name nm) = Some i \<longrightarrow> nm_usage nm = Some u \<longrightarrow> u \<le> allocatable i \<and> 0 < allocatable i)"

lemma add_metrics_sums:
  assumes "add_metrics nms (nodes, u, a) = Inr (rest, u', a')"
  shows "dom (map_of u') = counted nodes nms \<union> dom (map_of u)"
    and "distinct (map fst u) \<Longrightarrow> distinct (map fst u')"
    and "within u a \<Longrightarrow> list_all (node_within nodes) nms \<Longrightarrow> within u' a'"
  using assms
proof (induction nms "(nodes, u, a)" arbitrary: nodes u a rule: add_metrics.induct)
  case (2 nm nms nodes u a)
  case 1
  with 2 show ?case by (auto simp: adds_dom counted_known counted_unknown split: option.splits)
next
  case (2 nm nms nodes u a)
  case 2
  with "2.hyps" show ?case by (auto simp: add_to_distinct split: option.splits)
next
  case (2 nm nms nodes u a)
  case 3
  have "node_within (AList.delete k nodes) x" if "node_within nodes x" for k x
    using that by (auto simp: node_within_def delete_conv' split: if_splits)
  then have "list_all (node_within (AList.delete k nodes)) nms" if "list_all (node_within nodes) nms" for k
    using that by (auto simp: list_all_iff)
  with 3 "2.hyps" show ?case
    by (auto simp: within_adds node_within_def split: option.splits)
qed auto

section \<open>URLs\<close>

lemma sanitize_slashes: "\<not> suffix ''/'' s \<Longrightarrow>
    sanitizeURL (s @ replicate n (CHR ''/'')) = s @ (if n = 0 then [] else ''/'')"
proof (induction n)
  case 0
  then have "\<not> suffix ''//'' s" by (auto simp: suffix_def)
  then show ?case by (simp add: sanitizeURL.simps [of s])
next
  case (Suc n)
  show ?case
  proof (cases n)
    case 0
    have "\<not> suffix ''//'' (s @ ''/'')" using Suc.prems by (auto simp: suffix_def)
    with 0 show ?thesis by (simp add: sanitizeURL.simps [of "s @ ''/''"])
  next
    case (Suc m)
    have rep: "replicate (Suc k) (CHR ''/'') = replicate k (CHR ''/'') @ ''/''" for k
      by (simp add: replicate_append_same)
    have "suffix ''//'' (s @ replicate (Suc n) (CHR ''/''))"
      unfolding suffix_def using Suc by (intro exI [of _ "s @ replicate m (CHR ''/'')"]) (simp add: rep del: replicate.simps)
    then have "sanitizeURL (s @ replicate (Suc n) (CHR ''/'')) = sanitizeURL (trim_suffix ''/'' (s @ replicate (Suc n) (CHR ''/'')))"
      by (subst sanitizeURL.simps) (simp only: if_True)
    also have "trim_suffix ''/'' (s @ replicate (Suc n) (CHR ''/'')) = s @ replicate n (CHR ''/'')"
      unfolding rep append_assoc [symmetric] by (simp add: trim_suffix_def suffix_def)
    finally have "sanitizeURL (s @ replicate (Suc n) (CHR ''/'')) = sanitizeURL (s @ replicate n (CHR ''/''))" .
    with Suc.IH [OF Suc.prems] Suc show ?thesis by simp
  qed
qed

section \<open>Handlers\<close>

text \<open>The parts of the object a handler fills; the roles of the usage are known ones, each there once.\<close>

definition known_roles :: "(string \<times> 'a) list \<Rightarrow> bool" where
  "known_roles m \<longleftrightarrow> set (map fst m) \<subseteq> {''worker'', ''master''} \<and> distinct (map fst m)"

definition status_parts :: "(member_status \<Rightarrow> bool) list" where
  "status_parts = [\<lambda>ms. ms_operator ms \<noteq> None, \<lambda>ms. ms_host ms \<noteq> None,
     \<lambda>ms. \<exists>m. ms_usage ms = Some m \<and> known_roles m, \<lambda>ms. ms_routes ms \<noteq> None]"

fun is_ms_update :: "mscall \<Rightarrow> bool" where
  "is_ms_update (UpdateMemberStatus ms) = True"
| "is_ms_update _ = False"

abbreviation reading :: "mscall \<times> bool \<Rightarrow> bool" where
  "reading \<equiv> \<lambda>(c, ok). \<not> is_ms_update c"

text \<open>
  The contract of a handler: it only reads from the servers, whether it fails or not it fills its part of
  the object, and it keeps every part that was filled.
\<close>

locale status_component =
  fixes handle :: "err option msprog" and part :: "member_status \<Rightarrow> bool"
  assumes reads: "emits reading handle"
    and fills: "wp handle (\<lambda>e s'. part (mem s')) s"
    and keeps: "p \<in> set status_parts \<Longrightarrow> p (mem s) \<Longrightarrow> wp handle (\<lambda>e s'. p (mem s')) s"
begin

lemma fills_more:
  assumes "\<forall>p \<in> set ps. p \<in> set status_parts \<and> p (mem s)"
    and "\<And>e s'. \<forall>p \<in> set (part # ps). p (mem s') \<Longrightarrow> wp (f e) Q s'"
  shows "wp (State_Monad.bind handle f) Q s"
proof -
  have "wp handle (\<lambda>e s'. \<forall>p \<in> set ps. p (mem s')) s"
    by (rule wp_ball) (use assms(1) in \<open>blast intro: keeps\<close>)
  then have "wp handle (\<lambda>e s'. part (mem s') \<and> (\<forall>p \<in> set ps. p (mem s'))) s"
    by (rule wp_conj [OF fills])
  then show ?thesis unfolding wp_bind by (rule wp_mono) (rule assms(2), auto)
qed

end

lemmas ms_handler_defs = memberOperatorHandleStatus_def hostConnectionHandleStatus_def routesHandleStatus_def
  loadCurrentResourceUsage_def consoleURL_def getAllocatableValues_def Let_def

lemma usage_known:
  assumes "add_metrics nms (fold add_node ns [], [], []) = Inr (rest, u, a)"
  shows "known_roles (map (\<lambda>(r, x). (r, f r x)) u)"
proof -
  have "dom (map_of u) = counted (fold add_node ns []) nms" "distinct (map fst u)"
    using add_metrics_sums(1,2) [OF assms] by simp_all
  moreover have "counted (fold add_node ns []) nms \<subseteq> {''worker'', ''master''}"
    using add_node_roles [of "[]" ns] by (fastforce simp: counted_def)
  ultimately show ?thesis
    by (simp add: known_roles_def dom_map_of_conv_image_fst comp_def split_def)
qed

interpretation operator_component: status_component "memberOperatorHandleStatus E cfg" "\<lambda>ms. ms_operator ms \<noteq> None" for E cfg
  by unfold_locales
     (auto simp: ms_handler_defs status_parts_def wp_simps split: sum.splits intro!: emits_rules)

interpretation host_component: status_component "hostConnectionHandleStatus E cfg" "\<lambda>ms. ms_host ms \<noteq> None" for E cfg
  by unfold_locales (auto simp: ms_handler_defs status_parts_def wp_simps intro!: emits_rules)

interpretation usage_component: status_component "loadCurrentResourceUsage E cfg" "\<lambda>ms. \<exists>m. ms_usage ms = Some m \<and> known_roles m" for E cfg
  by unfold_locales
     (auto simp: ms_handler_defs status_parts_def wp_simps usage_known known_roles_def [of "[]"] split: sum.splits prod.splits intro!: emits_rules)

interpretation routes_component: status_component "routesHandleStatus E cfg" "\<lambda>ms. ms_routes ms \<noteq> None" for E cfg
  by unfold_locales
     (auto simp: ms_handler_defs status_parts_def wp_simps split: sum.splits intro!: emits_rules)

end
