(* ===== verification/MemberStatusSpec.thy ===== *)
theory MemberStatusSpec
  imports MemberStatusProofs
begin

text \<open>
  The properties of the MemberStatus controller, each with an instance at a concrete cluster.
\<close>

section \<open>What is reported\<close>

text \<open>
  What the servers answer throughout a reconcile, and which components count as ready by that.
\<close>

record snapshot =
  sn_nodes :: "err + node list"
  sn_metrics :: "err + node_metrics list"
  sn_route :: "err + route"
  sn_host :: "scond list"
  sn_deployment :: "scond list"
  sn_version :: scond

definition steady :: "msenv \<Rightarrow> snapshot \<Rightarrow> bool" where
  "steady E S \<longleftrightarrow>
     (\<forall>h. me_list_nodes E h = sn_nodes S) \<and> (\<forall>h. me_list_metrics E h = sn_metrics S) \<and>
     (\<forall>h ns n. me_get_route E h ns n = sn_route S) \<and> (\<forall>h p t. me_host_conditions E h p t = sn_host S) \<and>
     (\<forall>h n ns. me_deployment_conditions E h n ns = sn_deployment S) \<and>
     (\<forall>h p t cs r. me_check_version E h p t cs r = sn_version S)"

definition operator_ready :: "msenv \<Rightarrow> snapshot \<Rightarrow> bool" where
  "operator_ready E S \<longleftrightarrow> \<not> isl (me_operator_name E) \<and> me_validate E (sn_deployment S) = None \<and> me_validate E [sn_version S] = None"

definition usage_ready :: "snapshot \<Rightarrow> bool" where
  "usage_ready S \<longleftrightarrow>
     (case (sn_nodes S, sn_metrics S) of
        (Inr ns, Inr nms) \<Rightarrow> (\<forall>nm \<in> set nms. nm_usage nm \<noteq> None) \<and> card (sized ns - nm_name ` set nms) \<le> 1
      | _ \<Rightarrow> False)"

definition unready :: "msenv \<Rightarrow> snapshot \<Rightarrow> string list" where
  "unready E S =
     (if operator_ready E S then [] else [''memberOperator'']) @
     (if me_validate E (sn_host S) = None then [] else [''hostConnection'']) @
     (if usage_ready S then [] else [''resourceUsage'']) @ (if isl (sn_route S) then [''routes''] else [])"

lemma operator_outcome:
  "steady E S \<Longrightarrow> wp (memberOperatorHandleStatus E cfg) (\<lambda>e s'. e = None \<longleftrightarrow> operator_ready E S) s"
  by (auto simp: memberOperatorHandleStatus_def Let_def wp_simps steady_def operator_ready_def split: sum.splits)

lemma host_outcome:
  "steady E S \<Longrightarrow> wp (hostConnectionHandleStatus E cfg) (\<lambda>e s'. e = None \<longleftrightarrow> me_validate E (sn_host S) = None) s"
  by (auto simp: hostConnectionHandleStatus_def Let_def wp_simps steady_def)

lemma routes_outcome:
  "steady E S \<Longrightarrow> wp (routesHandleStatus E cfg) (\<lambda>e s'. e = None \<longleftrightarrow> \<not> isl (sn_route S)) s"
  by (auto simp: routesHandleStatus_def consoleURL_def Let_def wp_simps steady_def split: sum.splits)

lemma usage_count:
  assumes "add_metrics nms (fold add_node ns [], [], []) = Inr (rest, u, a)"
  shows "(length rest \<le> 1) = usage_ready \<lparr>sn_nodes = Inr ns, sn_metrics = Inr nms, sn_route = r, sn_host = h, sn_deployment = d, sn_version = v\<rparr>"
proof -
  have "dom (map_of rest) = sized ns - nm_name ` set nms" "distinct (map fst rest)"
    using add_metrics_rest [OF assms] by (simp_all add: add_node_dom add_node_distinct)
  then have "length rest = card (sized ns - nm_name ` set nms)"
    by (metis distinct_card dom_map_of_conv_image_fst length_map list.set_map)
  moreover have "\<forall>nm \<in> set nms. nm_usage nm \<noteq> None"
    using add_metrics_fails [of nms "(fold add_node ns [], [], [])"] assms by auto
  ultimately show ?thesis by (simp add: usage_ready_def)
qed

lemma usage_outcome:
  assumes "steady E S"
  shows "wp (loadCurrentResourceUsage E cfg) (\<lambda>e s'. e = None \<longleftrightarrow> usage_ready S) s"
proof (cases "sn_nodes S"; cases "sn_metrics S")
  fix ns nms assume S: "sn_nodes S = Inr ns" "sn_metrics S = Inr nms"
  show ?thesis
  proof (cases "add_metrics nms (fold add_node ns [], [], [])")
    case (Inl e)
    with add_metrics_fails [of nms "(fold add_node ns [], [], [])"] S have "\<not> usage_ready S"
      by (auto simp: usage_ready_def)
    with Inl S assms show ?thesis
      by (simp add: loadCurrentResourceUsage_def getAllocatableValues_def Let_def wp_simps steady_def)
  next
    case (Inr acc)
    obtain rest u a where acc: "acc = (rest, u, a)" by (cases acc)
    from usage_count [OF Inr [unfolded acc]] S have "(length rest \<le> 1) = usage_ready S"
      by (simp add: usage_ready_def)
    with Inr acc S assms show ?thesis
      by (auto simp: loadCurrentResourceUsage_def getAllocatableValues_def Let_def wp_simps steady_def)
  qed
qed (use assms in \<open>simp_all add: loadCurrentResourceUsage_def getAllocatableValues_def Let_def wp_simps steady_def usage_ready_def\<close>)

lemma handlers_read: "emits reading (run_handlers (statusHandlers E cfg) u)"
  by (auto simp: statusHandlers_def intro!: emits_bind emits_return operator_component.reads host_component.reads
      usage_component.reads routes_component.reads)

lemma handlers_outcome:
  assumes "steady E S"
  shows "wp (run_handlers (statusHandlers E cfg) []) (\<lambda>u s'. u = unready E S \<and> (\<exists>t. calls s' = calls s @ t \<and> list_all reading t)) s"
proof (rule wp_conj)
  show "wp (run_handlers (statusHandlers E cfg) []) (\<lambda>u s'. u = unready E S) s"
    unfolding statusHandlers_def run_handlers.simps wp_bind
    by (rule wp_mono [OF operator_outcome [OF assms]], rule wp_mono [OF host_outcome [OF assms]],
        rule wp_mono [OF usage_outcome [OF assms]], rule wp_mono [OF routes_outcome [OF assms]])
       (simp add: wp_return unready_def)
  show "wp (run_handlers (statusHandlers E cfg) []) (\<lambda>u s'. \<exists>t. calls s' = calls s @ t \<and> list_all reading t) s"
    by (rule emits_wp [OF handlers_read])
qed

text \<open>The type, status, reason and message of a condition.\<close>

definition shown :: "scond \<Rightarrow> ctype \<times> cstatus \<times> status_reason \<times> string" where
  "shown c = (c_type c, c_status c, c_reason c, c_message c)"

definition verdict :: "string list \<Rightarrow> ctype \<times> cstatus \<times> status_reason \<times> string" where
  "verdict u =
     (if u = [] then (ConditionReady, ConditionTrue, AllComponentsReady, [])
      else (ConditionReady, ConditionFalse, ComponentsNotReady, ''components not ready: '' @ print_list u))"

text \<open>
  C12: as long as the servers give the same answers, a reconcile makes, after calls that only read, exactly
  one update of the MemberStatus, whose only condition says whether all components are ready, and if not names
  those that are not, in the fixed order; it is requeued after the configured period, with an error exactly
  when the update failed.
\<close>

theorem member_status_is_reported:
  assumes "steady E S" and "me_get_config E [] = Inr cfg" and "me_get_status E [(GetConfiguration, True)] ns name = Inr ms"
  shows "\<exists>t ms' e s'. run_state (Reconcile E ns name) (fresh z) = ((cf_refresh cfg, e), s') \<and>
    calls s' = t @ [(UpdateMemberStatus ms', e = None)] \<and> list_all reading t \<and>
    map shown (ms_conds ms') = [verdict (unready E S)]"
proof -
  have "wp (aggregateAndUpdateStatus E cfg) (\<lambda>e s'. \<exists>t ms'. calls s' = calls s @ t @ [(UpdateMemberStatus ms', e = None)] \<and>
      list_all reading t \<and> map shown (ms_conds ms') = [verdict (unready E S)]) s" for s
    unfolding aggregateAndUpdateStatus_def wp_bind
    by (rule wp_mono [OF handlers_outcome [OF assms(1)]])
       (auto simp: setStatusReady_def setStatusNotReady_def updateStatusConditions_def stamped_def wp_simps shown_def verdict_def Let_def)
  then have "wp (Reconcile E ns name) (\<lambda>(d, e) s'. d = cf_refresh cfg \<and> (\<exists>t ms'. calls s' = t @ [(UpdateMemberStatus ms', e = None)] \<and>
      list_all reading t \<and> map shown (ms_conds ms') = [verdict (unready E S)])) (fresh z)"
    unfolding Reconcile_def using assms(2,3)
    by (simp add: wp_simps) (rule wp_mono, assumption, fastforce simp: wp_simps)
  then show ?thesis by (auto simp: wp_def split: prod.splits)
qed

section \<open>A concrete cluster\<close>

definition demo_node :: "string \<Rightarrow> string list \<Rightarrow> nat \<Rightarrow> node" where
  "demo_node n rs q = \<lparr>nd_name = n, nd_labels = map (\<lambda>r. (labelNodeRole r, [])) rs, nd_allocatable = Some q\<rparr>"

definition demo_metrics :: "string \<Rightarrow> nat \<Rightarrow> node_metrics" where
  "demo_metrics n u = \<lparr>nm_name = n, nm_usage = Some u\<rparr>"

definition ready_cond :: scond where
  "ready_cond = mk_cond ConditionReady ConditionTrue (OtherStatusReason []) []"

definition demo_snapshot :: "node list \<Rightarrow> node_metrics list \<Rightarrow> scond list \<Rightarrow> snapshot" where
  "demo_snapshot ns nms host = \<lparr>sn_nodes = Inr ns, sn_metrics = Inr nms, sn_route = Inr \<lparr>ro_host = ''console.com'', ro_path = ''k8s//''\<rparr>,
     sn_host = host, sn_deployment = [ready_cond], sn_version = ready_cond\<rparr>"

definition demo_config :: mconfig where
  "demo_config = \<lparr>cf_refresh = 5 * second, cf_health_period = 10 * second, cf_health_timeout = 3 * second, cf_environment = ''prod'',
     cf_github_token = [], cf_console_ns = ''openshift-console'', cf_console_route = ''console''\<rparr>"

definition demo_status :: member_status where
  "demo_status = \<lparr>ms_name = ''toolchain-member-status'', ms_ns = ''member'', ms_operator = None, ms_host = None, ms_routes = None,
     ms_usage = None, ms_conds = []\<rparr>"

text \<open>Conditions are ready when there are some and all of them are true.\<close>

definition demo_msenv :: "snapshot \<Rightarrow> msenv" where
  "demo_msenv S = \<lparr>me_now = int, me_get_config = (\<lambda>h. Inr demo_config), me_get_status = (\<lambda>h ns n. Inr demo_status),
     me_list_nodes = (\<lambda>h. sn_nodes S), me_list_metrics = (\<lambda>h. sn_metrics S), me_get_route = (\<lambda>h ns n. sn_route S),
     me_update = (\<lambda>h ms. None), me_not_found = (\<lambda>e. False), me_version = ''0.0.1'', me_commit = ''abc'', me_build_time = ''now'',
     me_operator_name = Inr ''member-operator'', me_cannot_get_deployment = ''unable to get the deployment'',
     me_error_condition = (\<lambda>t r m. mk_cond ConditionReady ConditionFalse r m),
     me_ready_condition = (\<lambda>t r. mk_cond ConditionReady ConditionTrue r []),
     me_validate = (\<lambda>cs. if cs \<noteq> [] \<and> list_all (\<lambda>c. c_status c = ConditionTrue) cs then None else Some (Msg ''not ready'')),
     me_host_conditions = (\<lambda>h p t. sn_host S), me_deployment_conditions = (\<lambda>h n ns. sn_deployment S),
     me_check_version = (\<lambda>h p t cs r. sn_version S), me_no_int64 = (\<lambda>u a. 0)\<rparr>"

lemma demo_steady: "steady (demo_msenv S) S"
  by (simp add: steady_def demo_msenv_def)

text \<open>One node without metrics is tolerated, a host connection without conditions is not.\<close>

theorem member_status_is_reported_witness:
  "let S = demo_snapshot [demo_node ''n1'' [''worker''] 8, demo_node ''n2'' [''master''] 8] [demo_metrics ''n1'' 4] []
   in \<exists>ms' e s'. run_state (Reconcile (demo_msenv S) ''member'' ''toolchain-member-status'') (fresh demo_status) = ((5 * second, e), s') \<and>
     (UpdateMemberStatus ms', e = None) \<in> set (calls s') \<and>
     map shown (ms_conds ms') = [(ConditionReady, ConditionFalse, ComponentsNotReady, ''components not ready: [hostConnection]'')]"
proof -
  define S where "S = demo_snapshot [demo_node ''n1'' [''worker''] 8, demo_node ''n2'' [''master''] 8] [demo_metrics ''n1'' 4] []"
  have "sized [demo_node ''n1'' [''worker''] 8, demo_node ''n2'' [''master''] 8] - {''n1''} = {''n2''}"
    by (simp add: demo_node_def getNodeRoles_def has_label_def labelNodeRole_def)
  then have "unready (demo_msenv S) S = [''hostConnection'']"
    by (simp add: S_def unready_def operator_ready_def usage_ready_def demo_msenv_def demo_snapshot_def demo_metrics_def ready_cond_def)
  moreover have "me_get_config (demo_msenv S) h = Inr demo_config" "me_get_status (demo_msenv S) h ns n = Inr demo_status"
    "me_update (demo_msenv S) h ms = None" for h ns n ms
    by (simp_all add: demo_msenv_def)
  moreover obtain t ms' e s' where run: "run_state (Reconcile (demo_msenv S) ''member'' ''toolchain-member-status'') (fresh demo_status) =
      ((cf_refresh demo_config, e), s')" and "calls s' = t @ [(UpdateMemberStatus ms', e = None)]"
      "map shown (ms_conds ms') = [verdict (unready (demo_msenv S) S)]"
    using member_status_is_reported [where S = S, OF demo_steady calculation(2,3),
      of "''member''" "''toolchain-member-status''" demo_status] by auto
  ultimately show ?thesis
    unfolding S_def [symmetric] Let_def
    by (intro exI [of _ ms'] exI [of _ e] exI [of _ s']) (simp add: demo_config_def verdict_def print_list_def)
qed

section \<open>What an update contains\<close>

text \<open>
  A complete status: all parts are there, the usage has known roles only, each once, and there is one condition,
  with the time of the update.
\<close>

definition complete_status :: "member_status \<Rightarrow> bool" where
  "complete_status ms \<longleftrightarrow> list_all (\<lambda>p. p ms) status_parts \<and>
     (\<exists>c. ms_conds ms = [c] \<and> c_type c = ConditionReady \<and> c_updated c = Some (c_transition c))"

fun completes :: "mscall \<times> bool \<Rightarrow> bool" where
  "completes (UpdateMemberStatus ms, ok) = complete_status ms"
| "completes _ = True"

lemma reading_completes: "reading x \<Longrightarrow> completes x"
  by (cases x rule: completes.cases) auto

lemma run_handlers_fill:
  assumes "list_all2 (\<lambda>h p. status_component (snd h) p) hs ps" and "set ps \<subseteq> set status_parts"
    and "\<forall>p \<in> set qs. p \<in> set status_parts \<and> p (mem s)"
  shows "wp (run_handlers hs u) (\<lambda>r s'. \<forall>p \<in> set ps \<union> set qs. p (mem s')) s"
  using assms
proof (induction hs arbitrary: ps qs s u)
  case Nil
  then show ?case by (auto simp: wp_return)
next
  case (Cons nh hs)
  obtain n h where nh: "nh = (n, h)" by (cases nh)
  obtain p ps' where ps: "ps = p # ps'" and c: "status_component h p"
    and rest: "list_all2 (\<lambda>h p. status_component (snd h) p) hs ps'"
    using Cons.prems(1) nh by (auto simp: list_all2_Cons1)
  have "wp (run_handlers hs u') (\<lambda>r s'. \<forall>q \<in> set ps \<union> set qs. q (mem s')) s'"
    if "\<forall>q \<in> set (p # qs). q (mem s')" for u' s'
    by (rule wp_mono [OF Cons.IH [OF rest, of "p # qs"]]) (use that Cons.prems ps in auto)
  then show ?case
    unfolding nh run_handlers.simps
    by (intro status_component.fills_more [OF c]) (use Cons.prems(3) in auto)
qed

text \<open>
  C31: whatever the servers answer and whichever components fail, every status a reconcile writes is complete: the
  operator, the host connection, the usage and the routes are all there, the roles of the usage are worker and
  master, each at most once, and the one condition carries its times.
\<close>

theorem written_status_is_complete: "emits completes (Reconcile E ns name)"
proof -
  have update: "wp (updateStatusConditions E [mk_cond ConditionReady st r msg]) (\<lambda>e s'. \<exists>t. calls s' = calls s @ t \<and> list_all completes t) s"
    if "\<forall>p \<in> set status_parts. p (mem s)" for s st r msg
    using that by (auto simp: updateStatusConditions_def stamped_def wp_simps Let_def complete_status_def status_parts_def)
  have "emits completes (aggregateAndUpdateStatus E cfg)" for cfg
  proof (rule emitsI)
    fix s
    have "wp (aggregateAndUpdateStatus E cfg) (\<lambda>e s'. \<exists>t. calls s' = calls s @ t \<and> list_all completes t) s"
      unfolding aggregateAndUpdateStatus_def wp_bind
    proof (rule wp_mono [OF wp_conj [OF emits_wp [OF handlers_read] run_handlers_fill [where qs = "[]"]]])
      show "list_all2 (\<lambda>h p. status_component (snd h) p) (statusHandlers E cfg) status_parts"
        by (simp add: statusHandlers_def status_parts_def del: not_None_eq add: operator_component.status_component_axioms
            host_component.status_component_axioms usage_component.status_component_axioms
            routes_component.status_component_axioms)
    next
      fix u and s' :: "(member_status, mscall) st"
      assume *: "(\<exists>t. calls s' = calls s @ t \<and> list_all reading t) \<and> (\<forall>p \<in> set status_parts \<union> set []. p (mem s'))"
      then obtain t where t: "calls s' = calls s @ t" "list_all reading t" by blast
      from t(2) have c: "list_all completes t" by (rule list.pred_mono_strong) (rule reading_completes)
      have "wp (if length u > 0 then setStatusNotReady E (''components not ready: '' @ print_list u) else setStatusReady E)
        (\<lambda>e s''. \<exists>t. calls s'' = calls s' @ t \<and> list_all completes t) s'"
      proof -
        have parts: "\<forall>p \<in> set status_parts. p (mem s')" using * by blast
        show ?thesis
          by (cases "u = []") (simp_all only: setStatusReady_def setStatusNotReady_def update [OF parts]
            length_greater_0_conv if_True if_False simp_thms)
      qed
      then show "wp (if length u > 0 then setStatusNotReady E (''components not ready: '' @ print_list u) else setStatusReady E)
        (\<lambda>e s''. \<exists>t. calls s'' = calls s @ t \<and> list_all completes t) s'"
        by (rule wp_mono) (use t(1) c in auto)
    qed simp_all
    then show "\<exists>t. calls (snd (run_state (aggregateAndUpdateStatus E cfg) s)) = calls s @ t \<and> list_all completes t"
      by (auto simp: wp_def split: prod.splits)
  qed
  then show ?thesis unfolding Reconcile_def by (auto intro!: emits_rules)
qed

section \<open>Resource usage\<close>

text \<open>
  C32: a successful look at the resource usage stores a percentage for exactly the roles of the nodes that have
  metrics, and no other role than worker and master; when no such node uses more than it has, every
  percentage lies between 0 and 100, for all the rounding of the sums and quotients to \<open>float32\<close>.
\<close>

theorem usage_percentages:
  assumes "me_list_nodes E h = Inr ns" and "me_list_metrics E (h @ [(ListNodes, True)]) = Inr nms" and "calls s = h"
    and "list_all (node_within (fold add_node ns [])) nms"
    and "run_state (loadCurrentResourceUsage E cfg) s = (None, s')"
  shows "\<exists>m. ms_usage (mem s') = Some m \<and> set (map fst m) = counted (fold add_node ns []) nms \<and> known_roles m \<and>
    list_all (\<lambda>(r, p). 0 \<le> p \<and> p \<le> 100) m"
proof -
  let ?N = "fold add_node ns []"
  obtain rest u a where run: "add_metrics nms (?N, [], []) = Inr (rest, u, a)"
    and m: "ms_usage (mem s') = Some (map (\<lambda>(r, x). (r, percentage E x (sum_of a r))) u)"
    using assms(5,1,2,3) by (auto simp: ms_handler_defs with_value_def split: sum.splits prod.splits if_splits)
  have w: "within u a"
    using add_metrics_sums(3) [OF run] assms(4) by (simp add: within_def sum_of_def)
  have "0 \<le> percentage E x (sum_of a r) \<and> percentage E x (sum_of a r) \<le> 100" if "(r, x) \<in> set u" for r x
  proof -
    have "map_of u r = Some x" using add_metrics_sums(2) [OF run] that by simp
    then have "x \<le> sum_of a r" "0 < sum_of a r"
      using w by (auto simp: within_def sum_of_def dest!: spec [of _ r] split: option.splits)
    then have "percent32 x (sum_of a r) \<le> 100" by (rule percent32_le_100)
    with \<open>0 < sum_of a r\<close> show ?thesis by (simp add: percentage_def)
  qed
  then have "list_all (\<lambda>(r, p). 0 \<le> p \<and> p \<le> 100) (map (\<lambda>(r, x). (r, percentage E x (sum_of a r))) u)"
    by (auto simp: list_all_iff)
  moreover have "set (map fst u) = counted ?N nms"
    using add_metrics_sums(1) [OF run] by (simp add: dom_map_of_conv_image_fst)
  then have "set (map fst (map (\<lambda>(r, x). (r, percentage E x (sum_of a r))) u)) = counted ?N nms"
    by (simp add: comp_def split_def)
  ultimately show ?thesis
    using m usage_known [OF run, of "\<lambda>r x. percentage E x (sum_of a r)"] by blast
qed

theorem usage_percentages_witness:
  "let S = demo_snapshot [demo_node ''n1'' [''worker''] 8, demo_node ''n2'' [''master''] 8] [demo_metrics ''n1'' 3] [];
       (e, s') = run_state (loadCurrentResourceUsage (demo_msenv S) demo_config) (fresh demo_status)
   in e = None \<and> (\<exists>p. ms_usage (mem s') = Some [(''worker'', p)] \<and> 0 \<le> p \<and> p \<le> 100)"
proof -
  define ns where "ns = [demo_node ''n1'' [''worker''] 8, demo_node ''n2'' [''master''] 8]"
  define nms where "nms = [demo_metrics ''n1'' 3]"
  define E where "E = demo_msenv (demo_snapshot ns nms [])"
  have N: "fold add_node ns [] = [(''n1'', \<lparr>roles = [''worker''], allocatable = 8\<rparr>), (''n2'', \<lparr>roles = [''master''], allocatable = 8\<rparr>)]"
    by (simp add: ns_def add_node_def demo_node_def getNodeRoles_def has_label_def labelNodeRole_def)
  have E: "me_list_nodes E h = Inr ns" "me_list_metrics E h = Inr nms" for h
    by (simp_all add: E_def demo_msenv_def demo_snapshot_def)
  obtain x y where M: "add_metrics nms (fold add_node ns [], [], []) =
      Inr ([(''n2'', \<lparr>roles = [''master''], allocatable = 8\<rparr>)], [(''worker'', x)], [(''worker'', y)])"
    by (simp add: N nms_def demo_metrics_def add_to_def)
  obtain s' where run: "run_state (loadCurrentResourceUsage E demo_config) (fresh demo_status) = (None, s')"
    and m: "ms_usage (mem s') = Some [(''worker'', percentage E x y)]"
    by (simp add: ms_handler_defs with_value_def E M sum_of_def)
  have "\<exists>m. ms_usage (mem s') = Some m \<and> set (map fst m) = counted (fold add_node ns []) nms \<and> known_roles m \<and>
      list_all (\<lambda>(r, p). 0 \<le> p \<and> p \<le> 100) m"
    by (rule usage_percentages [OF E(1) E(2) _ _ run]) (simp_all add: N nms_def node_within_def demo_metrics_def)
  with run m show ?thesis by (simp add: Let_def flip: ns_def nms_def E_def)
qed

text \<open>
  C33: the computation of the console URL ends for every host and path: all slashes at the end of the address
  but one are taken away, and nothing else; so a path that starts with a slash, as the paths of routes do, leaves
  two slashes after the host.
\<close>

theorem console_url:
  "console_address \<lparr>ro_host = h, ro_path = p\<rparr> =
     (let url = ''https://'' @ h @ ''/'' @ p; base = rev (dropWhile (\<lambda>c. c = CHR ''/'') (rev url))
      in if base = url then url else base @ ''/'') \<and>
   console_address \<lparr>ro_host = h, ro_path = ''/k8s''\<rparr> = ''https://'' @ h @ ''//k8s''"
proof -
  define url where "url = ''https://'' @ h @ ''/'' @ p"
  define base where "base = rev (dropWhile (\<lambda>c. c = CHR ''/'') (rev url))"
  define n where "n = length (takeWhile (\<lambda>c. c = CHR ''/'') (rev url))"
  have "takeWhile (\<lambda>c. c = CHR ''/'') (rev url) = replicate n (CHR ''/'')"
    unfolding n_def by (rule replicate_length_same [symmetric]) (auto dest: set_takeWhileD)
  then have "rev url = replicate n (CHR ''/'') @ rev base"
    unfolding base_def by (metis rev_rev_ident takeWhile_dropWhile_id)
  then have url: "url = base @ replicate n (CHR ''/'')"
    by (metis rev_append rev_replicate rev_rev_ident)
  have "\<not> suffix ''/'' base"
  proof
    assume "suffix ''/'' base"
    then obtain b where "base = b @ ''/''" by (auto simp: suffix_def)
    then have d: "dropWhile (\<lambda>c. c = CHR ''/'') (rev url) = CHR ''/'' # rev b"
      unfolding base_def by (metis append.simps(1) rev.simps(2) rev_append rev_rev_ident rev_singleton_conv append_Cons)
    have "dropWhile (\<lambda>c. c = CHR ''/'') (rev url) \<noteq> []" unfolding d by simp
    from hd_dropWhile [OF this] show False unfolding d by simp
  qed
  then have san: "sanitizeURL url = (if n = 0 then base else base @ ''/'')"
    unfolding url by (simp add: sanitize_slashes)
  have "length url = length base + n" by (subst url) simp
  then have eq: "(base = url) = (n = 0)" using url by (cases "n = 0") auto
  have "sanitizeURL url = (if base = url then url else base @ ''/'')"
  proof (cases "n = 0")
    case True
    with san eq show ?thesis by (simp only: if_True simp_thms)
  next
    case False
    with san eq show ?thesis by (simp only: if_False simp_thms)
  qed
  moreover have "\<not> suffix ''//'' (''https://'' @ h @ ''//k8s'')"
    by (auto simp: suffix_def append_eq_append_conv2 append_eq_Cons_conv)
  then have "sanitizeURL (''https://'' @ h @ ''//k8s'') = ''https://'' @ h @ ''//k8s''"
    by (subst sanitizeURL.simps) (simp only: if_False)
  ultimately show ?thesis
    unfolding base_def url_def by (simp add: console_address_def Let_def)
qed

end
