(* ===== verification/Cert.thy ===== *)
theory Cert
  imports Kube Go_Arith
begin

text \<open>
  The certificates of the webhook (\<open>pkg/cert\<close>): a certificate authority and a server certificate signed by it,
  kept in a secret that is created when it is missing and renewed when half of its validity is over.
\<close>

section \<open>Data\<close>

datatype key_usage = KeyUsageCertSign | KeyUsageDigitalSignature

datatype ext_key_usage = ExtKeyUsageServerAuth | ExtKeyUsageClientAuth

record certificate =
  x_serial :: nat
  x_organization :: "string list"
  x_common_name :: string
  x_not_before :: int
  x_not_after :: int
  x_dns_names :: "string list"
  x_is_ca :: bool
  x_key_usage :: "key_usage list"
  x_ext_key_usage :: "ext_key_usage list"

text \<open>A secret with its data, a map from keys to bytes.\<close>

record secret =
  se_meta :: meta
  se_data :: "(string \<times> string) list"

definition secret_data :: "secret \<Rightarrow> string \<Rightarrow> string" where
  "secret_data s k = (case map_of (se_data s) k of None \<Rightarrow> [] | Some v \<Rightarrow> v)"

definition ServerKey :: string where
  "ServerKey = ''server-key.pem''"

definition ServerCert :: string where
  "ServerCert = ''server-cert.pem''"

definition CACert :: string where
  "CACert = ''ca-cert.pem''"

text \<open>\<open>365 * 24 * time.Hour\<close> in nanoseconds.\<close>

definition Expiration :: int where
  "Expiration = 365 * 24 * 3600 * 1000000000"

text \<open>
  An object of a template, with its annotations.  The calls are those of the controller that installs the
  webhook and the autoscaling buffer: to the secrets here, to the configuration and to the objects of
  the templates in the theory \<open>OperatorConfig\<close>.
\<close>

record template_object =
  ob_gvk :: string
  ob_ns :: string
  ob_name :: string
  ob_annotations :: "(string \<times> string) list"

datatype ccall =
    GetSecret string string | CreateSecret secret | UpdateSecret secret
  | LoadConfiguration | ApplyObject string template_object
  | GetObject string string string | DeleteObject string string string

text \<open>
  The package variable \<open>domainName\<close> is \<open>None\<close> until \<open>once\<close> has run.  A private key is a number.
\<close>

type_synonym 'a cprog = "(string option, ccall, 'a) prog"

text \<open>
  The API server, the clock, and the functions of the standard library: random numbers and keys, which differ
  from draw to draw, \<open>x509.CreateCertificate\<close> (of a template, a parent, a public key and the parent's private
  key, to the DER encoding), \<open>x509.ParseCertificate\<close>, the PEM encoding of certificates and of private keys,
  \<open>tls.X509KeyPair\<close> (to the DER certificates, of which there is one at least), and the
  contents of the resolver file.
\<close>

record cenv =
  ce_now :: "nat \<Rightarrow> int"
  ce_serial :: "nat \<Rightarrow> err + nat"
  ce_genkey :: "nat \<Rightarrow> err + nat"
  ce_public :: "nat \<Rightarrow> string"
  ce_create :: "nat \<Rightarrow> certificate \<Rightarrow> certificate \<Rightarrow> string \<Rightarrow> nat \<Rightarrow> err + string"
  ce_parse :: "string \<Rightarrow> err + certificate"
  ce_pem :: "string \<Rightarrow> string"
  ce_key_pem :: "nat \<Rightarrow> string"
  ce_key_pair :: "string \<Rightarrow> string \<Rightarrow> err + string \<times> string list"
  ce_resolv_conf :: "err + string"
  ce_not_found :: "err \<Rightarrow> bool"
  ce_get_secret :: "ccall history \<Rightarrow> string \<Rightarrow> string \<Rightarrow> err + secret"
  ce_create_secret :: "ccall history \<Rightarrow> secret \<Rightarrow> err option"
  ce_update_secret :: "ccall history \<Rightarrow> secret \<Rightarrow> err option"

section \<open>The domain name of the cluster\<close>

definition organization :: string where
  "organization = ''redhat.com''"

definition defaultDomainName :: string where
  "defaultDomainName = ''cluster.local''"

text \<open>
  \<open>bufio.ScanLines\<close>: the lines without their end, a carriage return before it included; a line of 64
  KiB or more ends the scan.  What follows the last newline is a line unless it is empty.
\<close>

definition drop_cr :: "string \<Rightarrow> string" where
  "drop_cr l = (if l \<noteq> [] \<and> last l = CHR 0x0D then butlast l else l)"

fun raw_lines :: "string \<Rightarrow> string \<Rightarrow> string list" where
  "raw_lines [] l = (if l = [] then [] else [l])"
| "raw_lines (c # cs) l = (if c = CHR 0x0A then l # raw_lines cs [] else raw_lines cs (l @ [c]))"

definition scan_lines :: "string \<Rightarrow> string list" where
  "scan_lines s = map drop_cr (takeWhile (\<lambda>l. length l < 65536) (raw_lines s []))"

text \<open>\<open>strings.Split(l, " ")\<close>.\<close>

fun split_space :: "string \<Rightarrow> string list" where
  "split_space [] = [[]]"
| "split_space (c # cs) =
     (if c = CHR '' '' then [] # split_space cs
      else (case split_space cs of w # ws \<Rightarrow> (c # w) # ws | [] \<Rightarrow> [[c]]))"

definition trim_dot :: "string \<Rightarrow> string" where
  "trim_dot s = (if s \<noteq> [] \<and> last s = CHR ''.'' then butlast s else s)"

fun domain_of_lines :: "string list \<Rightarrow> string" where
  "domain_of_lines [] = defaultDomainName"
| "domain_of_lines (l # ls) =
     (let elements = split_space l in
      if hd elements \<noteq> ''search'' then domain_of_lines ls
      else (case find (prefix ''svc.'') (tl elements) of
              Some e \<Rightarrow> trim_dot (drop 4 e)
            | None \<Rightarrow> domain_of_lines ls))"

definition getDomainName :: "string \<Rightarrow> string" where
  "getDomainName s = domain_of_lines (scan_lines s)"

definition getClusterDomainName :: "cenv \<Rightarrow> string cprog" where
  "getClusterDomainName E = do {
     d \<leftarrow> get_mem;
     case d of
       Some n \<Rightarrow> ret n
     | None \<Rightarrow> do {
         let n = (case ce_resolv_conf E of Inl e \<Rightarrow> defaultDomainName | Inr s \<Rightarrow> getDomainName s);
         _ \<leftarrow> set_mem (Some n);
         ret n
       }
   }"

section \<open>Certificates\<close>

definition createCertTemplate :: "cenv \<Rightarrow> string \<Rightarrow> string \<Rightarrow> int \<Rightarrow> (err + certificate) cprog" where
  "createCertTemplate E name namespace notAfter =
     with_value (draw (ce_serial E)) (\<lambda>e. ret (Inl (Msg (''failed to generate serial number: '' @ err_text e))))
     (\<lambda>serialNumber. do {
        let serviceName = name @ ''.'' @ namespace;
        let commonName = serviceName @ ''.svc'';
        domain \<leftarrow> getClusterDomainName E;
        let serviceHostname = name @ ''.'' @ namespace @ ''.svc.'' @ domain;
        t \<leftarrow> clock (ce_now E);
        ret (Inr \<lparr>x_serial = serialNumber, x_organization = [organization], x_common_name = commonName,
          x_not_before = t, x_not_after = notAfter, x_dns_names = [name, serviceName, commonName, serviceHostname],
          x_is_ca = False, x_key_usage = [], x_ext_key_usage = []\<rparr>)
      })"

definition createCACertTemplate :: "cenv \<Rightarrow> string \<Rightarrow> string \<Rightarrow> int \<Rightarrow> (err + certificate) cprog" where
  "createCACertTemplate E name namespace notAfter =
     with_value (createCertTemplate E name namespace notAfter) (\<lambda>e. ret (Inl e))
     (\<lambda>rootCert. ret (Inr (rootCert\<lparr>x_is_ca := True, x_key_usage := [KeyUsageCertSign, KeyUsageDigitalSignature],
        x_ext_key_usage := [ExtKeyUsageServerAuth, ExtKeyUsageClientAuth]\<rparr>)))"

definition createServerCertTemplate :: "cenv \<Rightarrow> string \<Rightarrow> string \<Rightarrow> int \<Rightarrow> (err + certificate) cprog" where
  "createServerCertTemplate E name namespace notAfter =
     with_value (createCertTemplate E name namespace notAfter) (\<lambda>e. ret (Inl e))
     (\<lambda>serverCert. ret (Inr (serverCert\<lparr>x_key_usage := [KeyUsageDigitalSignature],
        x_ext_key_usage := [ExtKeyUsageServerAuth]\<rparr>)))"

definition createCert :: "cenv \<Rightarrow> certificate \<Rightarrow> certificate \<Rightarrow> string \<Rightarrow> nat \<Rightarrow> (err + certificate \<times> string) cprog" where
  "createCert E tmpl parent pub parentPriv =
     with_value (draw (\<lambda>i. ce_create E i tmpl parent pub parentPriv)) (\<lambda>e. ret (Inl e))
     (\<lambda>certDER. case ce_parse E certDER of Inl e \<Rightarrow> ret (Inl e) | Inr cert \<Rightarrow> ret (Inr (cert, ce_pem E certDER)))"

definition createCA :: "cenv \<Rightarrow> string \<Rightarrow> string \<Rightarrow> int \<Rightarrow> (err + nat \<times> certificate \<times> string) cprog" where
  "createCA E name namespace notAfter =
     with_value (draw (ce_genkey E)) (\<lambda>e. ret (Inl e)) (\<lambda>rootKey.
     with_value (createCACertTemplate E name namespace notAfter) (\<lambda>e. ret (Inl e)) (\<lambda>rootCertTmpl.
     with_value (createCert E rootCertTmpl rootCertTmpl (ce_public E rootKey) rootKey) (\<lambda>e. ret (Inl e))
       (\<lambda>(rootCert, rootCertPEM). ret (Inr (rootKey, rootCert, rootCertPEM)))))"

definition CreateCerts :: "cenv \<Rightarrow> string \<Rightarrow> string \<Rightarrow> int \<Rightarrow> (err + string \<times> string \<times> string) cprog" where
  "CreateCerts E name namespace notAfter =
     with_value (createCA E name namespace notAfter) (\<lambda>e. ret (Inl e)) (\<lambda>(caKey, caCertificate, caCertificatePEM).
     with_value (draw (ce_genkey E)) (\<lambda>e. ret (Inl e)) (\<lambda>servKey.
     with_value (createServerCertTemplate E name namespace notAfter) (\<lambda>e. ret (Inl e)) (\<lambda>servCertTemplate.
     with_value (createCert E servCertTemplate caCertificate (ce_public E servKey) caKey) (\<lambda>e. ret (Inl e))
       (\<lambda>(c, servCertPEM). ret (Inr (ce_key_pem E servKey, servCertPEM, caCertificatePEM))))))"

section \<open>The secret\<close>

definition newSecret :: "cenv \<Rightarrow> string \<Rightarrow> string \<Rightarrow> string \<Rightarrow> int \<Rightarrow> (err + secret) cprog" where
  "newSecret E name namespace serviceName expiration = do {
     t \<leftarrow> clock (ce_now E);
     with_value (CreateCerts E serviceName namespace (t + expiration)) (\<lambda>e. ret (Inl e))
     (\<lambda>(serverKey, serverCert, caCert). ret (Inr \<lparr>se_meta = new_meta namespace name,
        se_data = [(ServerKey, serverKey), (ServerCert, serverCert), (CACert, caCert)]\<rparr>))
   }"

text \<open>Is the certificate of a secret usable and valid for more than half of the expiration time?\<close>

definition still_valid :: "cenv \<Rightarrow> secret \<Rightarrow> int \<Rightarrow> bool cprog" where
  "still_valid E s expiration =
     (case ce_key_pair E (secret_data s ServerCert) (secret_data s ServerKey) of
        Inl e \<Rightarrow> ret False
      | Inr (leaf, chain) \<Rightarrow>
          (case ce_parse E leaf of
             Inl e \<Rightarrow> ret False
           | Inr certData \<Rightarrow> do { t \<leftarrow> clock (ce_now E); ret (t + expiration sdiv 2 < x_not_after certData) }))"

definition EnsureSecret :: "cenv \<Rightarrow> string \<Rightarrow> string \<Rightarrow> string \<Rightarrow> int \<Rightarrow> (err + string) cprog" where
  "EnsureSecret E namespace certSecretName serviceName expiration =
     with_value (call (\<lambda>h. ce_get_secret E h namespace certSecretName) (GetSecret namespace certSecretName))
       (\<lambda>e. if \<not> ce_not_found E e then ret (Inl e)
            else with_value (newSecret E certSecretName namespace serviceName expiration) (\<lambda>e. ret (Inl e))
              (\<lambda>s. unless_err (call_err (\<lambda>h. ce_create_secret E h s) (CreateSecret s)) Inl
                 (ret (Inr (secret_data s CACert)))))
       (\<lambda>certSecret. do {
          valid \<leftarrow> still_valid E certSecret expiration;
          if valid then ret (Inr (secret_data certSecret CACert))
          else with_value (newSecret E certSecretName namespace serviceName expiration) (\<lambda>e. ret (Inl e))
            (\<lambda>new. do {
               let new = new\<lparr>se_meta := (se_meta new)\<lparr>m_rv := m_rv (se_meta certSecret)\<rparr>\<rparr>;
               unless_err (call_err (\<lambda>h. ce_update_secret E h new) (UpdateSecret new)) Inl
                 (ret (Inr (secret_data new CACert)))
             })
        })"

end
