(* ===== verification/CertSpec.thy ===== *)
theory CertSpec
  imports Cert
begin

text \<open>
  The properties of the webhook's certificates: what an issued pair of certificates is, when the secret is written
  and that a fresh secret is kept.
\<close>

section \<open>Issued certificates\<close>

text \<open>
  The data of a secret is issued for a service until a time: its CA certificate is signed by its own
  key and is a CA, the server certificate is issued for the service's host name in the cluster
  and signed by that CA with the CA's key, the server key is the one the server certificate is made for,
  and both end at that time.
\<close>

definition issued :: "cenv \<Rightarrow> string \<Rightarrow> string \<Rightarrow> int \<Rightarrow> secret \<Rightarrow> bool" where
  "issued E name ns until s \<longleftrightarrow>
     (\<exists>i ca_tmpl ca_der caKey ca j tmpl der key.
        ce_create E i ca_tmpl ca_tmpl (ce_public E caKey) caKey = Inr ca_der \<and> ce_parse E ca_der = Inr ca \<and>
        x_is_ca ca_tmpl \<and> x_not_after ca_tmpl = until \<and>
        ce_create E j tmpl ca (ce_public E key) caKey = Inr der \<and>
        \<not> x_is_ca tmpl \<and> x_not_after tmpl = until \<and> name @ ''.'' @ ns @ ''.svc'' \<in> set (x_dns_names tmpl) \<and>
        se_data s = [(ServerKey, ce_key_pem E key), (ServerCert, ce_pem E der), (CACert, ce_pem E ca_der)])"

lemma wp_result_mono:
  "wp m (\<lambda>r s'. calls s' = calls s \<and> (case r of Inl e \<Rightarrow> True | Inr x \<Rightarrow> P x)) s \<Longrightarrow>
   (\<And>x s'. calls s' = calls s \<Longrightarrow> P x \<Longrightarrow> wp (k x) Q s') \<Longrightarrow> (\<And>e s'. calls s' = calls s \<Longrightarrow> wp (f e) Q s') \<Longrightarrow>
   wp (with_value m f k) Q s"
  unfolding wp_with_value by (erule wp_mono) (auto split: sum.splits)

lemma domain_name_wp: "wp (getClusterDomainName E) (\<lambda>r s'. calls s' = calls s) s"
  by (auto simp: getClusterDomainName_def Let_def wp_simps split: option.splits)

lemma template_wp:
  "wp (createCertTemplate E name ns until) (\<lambda>r s'. calls s' = calls s \<and>
     (case r of Inl e \<Rightarrow> True | Inr c \<Rightarrow> \<not> x_is_ca c \<and> x_not_after c = until \<and> name @ ''.'' @ ns @ ''.svc'' \<in> set (x_dns_names c))) s"
  unfolding createCertTemplate_def Let_def
  by (auto simp: wp_simps split: sum.splits intro!: wp_mono [OF domain_name_wp])

lemma ca_template_wp:
  "wp (createCACertTemplate E name ns until) (\<lambda>r s'. calls s' = calls s \<and>
     (case r of Inl e \<Rightarrow> True | Inr c \<Rightarrow> x_is_ca c \<and> x_not_after c = until)) s"
  unfolding createCACertTemplate_def by (rule wp_result_mono [OF template_wp]) (auto simp: wp_return)

lemma server_template_wp:
  "wp (createServerCertTemplate E name ns until) (\<lambda>r s'. calls s' = calls s \<and>
     (case r of Inl e \<Rightarrow> True | Inr c \<Rightarrow> \<not> x_is_ca c \<and> x_not_after c = until \<and> name @ ''.'' @ ns @ ''.svc'' \<in> set (x_dns_names c))) s"
  unfolding createServerCertTemplate_def by (rule wp_result_mono [OF template_wp]) (auto simp: wp_return)

lemma create_wp:
  "wp (createCert E tmpl parent pub k) (\<lambda>r s'. calls s' = calls s \<and> (case r of Inl e \<Rightarrow> True
     | Inr (c, p) \<Rightarrow> \<exists>i der. ce_create E i tmpl parent pub k = Inr der \<and> ce_parse E der = Inr c \<and> p = ce_pem E der)) s"
  by (auto simp: createCert_def wp_simps split: sum.splits)

lemma draw_wp: "wp (draw f) (\<lambda>r s'. calls s' = calls s \<and> (case r of Inl e \<Rightarrow> True | Inr x \<Rightarrow> True)) s"
  by (simp add: wp_draw split: sum.splits)

lemma createCA_wp:
  "wp (createCA E name ns until) (\<lambda>r s'. calls s' = calls s \<and> (case r of Inl e \<Rightarrow> True
     | Inr (k, c, p) \<Rightarrow> \<exists>i tmpl der. ce_create E i tmpl tmpl (ce_public E k) k = Inr der \<and> ce_parse E der = Inr c \<and>
         p = ce_pem E der \<and> x_is_ca tmpl \<and> x_not_after tmpl = until)) s"
  unfolding createCA_def
  by (rule wp_result_mono [OF draw_wp], rule wp_result_mono [OF ca_template_wp], rule wp_result_mono [OF create_wp])
     (fastforce simp: wp_return split: prod.splits)+

lemma CreateCerts_wp:
  "wp (CreateCerts E name ns until) (\<lambda>r s'. calls s' = calls s \<and> (case r of Inl e \<Rightarrow> True
     | Inr (serverKey, serverCert, ca) \<Rightarrow>
         issued E name ns until \<lparr>se_meta = m, se_data = [(ServerKey, serverKey), (ServerCert, serverCert), (CACert, ca)]\<rparr>)) s"
  unfolding CreateCerts_def
proof (rule wp_result_mono [OF createCA_wp])
  fix x and s1 :: "(string option, ccall) st"
  assume s1: "calls s1 = calls s" and "case x of (k, c, p) \<Rightarrow> \<exists>i tmpl der. ce_create E i tmpl tmpl (ce_public E k) k = Inr der \<and>
    ce_parse E der = Inr c \<and> p = ce_pem E der \<and> x_is_ca tmpl \<and> x_not_after tmpl = until"
  then obtain caKey ca i ca_tmpl ca_der where x: "x = (caKey, ca, ce_pem E ca_der)"
    and ca: "ce_create E i ca_tmpl ca_tmpl (ce_public E caKey) caKey = Inr ca_der" "ce_parse E ca_der = Inr ca"
      "x_is_ca ca_tmpl" "x_not_after ca_tmpl = until"
    by (cases x) auto
  show "wp (case x of (caKey, caCertificate, caCertificatePEM) \<Rightarrow>
      with_value (draw (ce_genkey E)) (\<lambda>e. ret (Inl e)) (\<lambda>servKey.
      with_value (createServerCertTemplate E name ns until) (\<lambda>e. ret (Inl e)) (\<lambda>servCertTemplate.
      with_value (createCert E servCertTemplate caCertificate (ce_public E servKey) caKey) (\<lambda>e. ret (Inl e))
        (\<lambda>(c, servCertPEM). ret (Inr (ce_key_pem E servKey, servCertPEM, caCertificatePEM))))))
     (\<lambda>r s'. calls s' = calls s \<and> (case r of Inl e \<Rightarrow> True | Inr (serverKey, serverCert, ca) \<Rightarrow>
        issued E name ns until \<lparr>se_meta = m, se_data = [(ServerKey, serverKey), (ServerCert, serverCert), (CACert, ca)]\<rparr>)) s1"
    unfolding x prod.case
  proof (rule wp_result_mono [OF draw_wp], rule wp_result_mono [OF server_template_wp], rule wp_result_mono [OF create_wp])
    fix servKey tmpl y and s2 s3 s4 :: "(string option, ccall) st"
    assume s4: "calls s2 = calls s1" "calls s3 = calls s2" "calls s4 = calls s3"
      and tmpl: "\<not> x_is_ca tmpl \<and> x_not_after tmpl = until \<and> name @ ''.'' @ ns @ ''.svc'' \<in> set (x_dns_names tmpl)"
      and "case y of (c, p) \<Rightarrow> \<exists>i der. ce_create E i tmpl ca (ce_public E servKey) caKey = Inr der \<and> ce_parse E der = Inr c \<and> p = ce_pem E der"
    then obtain c j der where y: "y = (c, ce_pem E der)" "ce_create E j tmpl ca (ce_public E servKey) caKey = Inr der"
      by (cases y) auto
    have "issued E name ns until \<lparr>se_meta = m, se_data =
        [(ServerKey, ce_key_pem E servKey), (ServerCert, ce_pem E der), (CACert, ce_pem E ca_der)]\<rparr>"
      unfolding issued_def using ca tmpl y(2) by fastforce
    then show "wp (case y of (c, servCertPEM) \<Rightarrow> ret (Inr (ce_key_pem E servKey, servCertPEM, ce_pem E ca_der)))
      (\<lambda>r s'. calls s' = calls s \<and> (case r of Inl e \<Rightarrow> True | Inr (serverKey, serverCert, ca) \<Rightarrow>
        issued E name ns until \<lparr>se_meta = m, se_data = [(ServerKey, serverKey), (ServerCert, serverCert), (CACert, ca)]\<rparr>)) s4"
      using s1 s4 by (simp add: y(1) wp_return)
  qed (simp_all add: wp_return s1)
qed (simp add: wp_return)

lemma newSecret_wp:
  "wp (newSecret E n ns service expiration) (\<lambda>r s'. calls s' = calls s \<and> (case r of Inl e \<Rightarrow> True
     | Inr x \<Rightarrow> se_meta x = new_meta ns n \<and> issued E service ns (ce_now E (tick s) + expiration) x)) s"
  unfolding newSecret_def wp_bind wp_clock wp_with_value
  by (rule wp_mono [OF CreateCerts_wp [where m = "new_meta ns n"]]) (auto simp: wp_return split: sum.splits prod.splits)

section \<open>The secret\<close>

fun is_secret_write :: "ccall \<Rightarrow> bool" where
  "is_secret_write (CreateSecret s) = True"
| "is_secret_write (UpdateSecret s) = True"
| "is_secret_write _ = False"

text \<open>The certificate of a secret can be used and is valid for more than half of the expiration time at \<open>t\<close>.\<close>

definition valid_secret :: "cenv \<Rightarrow> secret \<Rightarrow> int \<Rightarrow> int \<Rightarrow> bool" where
  "valid_secret E s expiration t \<longleftrightarrow>
     (\<exists>leaf chain c. ce_key_pair E (secret_data s ServerCert) (secret_data s ServerKey) = Inr (leaf, chain) \<and>
        ce_parse E leaf = Inr c \<and> t + expiration sdiv 2 < x_not_after c)"

lemma still_valid_wp:
  "wp (still_valid E s expiration) (\<lambda>r s'. calls s' = calls z \<and> tick z \<le> tick s' \<and> r = valid_secret E s expiration (ce_now E (tick z))) z"
  by (auto simp: still_valid_def valid_secret_def wp_simps split: sum.splits prod.splits)

definition kept_secret :: "cenv \<Rightarrow> string \<Rightarrow> string \<Rightarrow> int \<Rightarrow> string \<Rightarrow> (string option, ccall) st \<Rightarrow> (string option, ccall) st \<Rightarrow> bool" where
  "kept_secret E ns n expiration ca s s' \<longleftrightarrow>
     (\<exists>sec. ce_get_secret E (calls s) ns n = Inr sec \<and> valid_secret E sec expiration (ce_now E (Suc (tick s))) \<and>
        ca = secret_data sec CACert \<and> calls s' = calls s @ [(GetSecret ns n, True)])"

definition written_secret :: "cenv \<Rightarrow> string \<Rightarrow> string \<Rightarrow> string \<Rightarrow> int \<Rightarrow> string \<Rightarrow> (string option, ccall) st \<Rightarrow> (string option, ccall) st \<Rightarrow> bool" where
  "written_secret E ns n service expiration ca s s' \<longleftrightarrow>
     (\<exists>new ok i. calls s' = calls s @ [(GetSecret ns n, ok), (if ok then UpdateSecret new else CreateSecret new, True)] \<and>
        m_ns (se_meta new) = ns \<and> m_name (se_meta new) = n \<and> tick s \<le> i \<and>
        issued E service ns (ce_now E i + expiration) new \<and> ca = secret_data new CACert)"

lemma issued_meta [simp]: "issued E name ns until (s\<lparr>se_meta := m\<rparr>) = issued E name ns until s"
  by (simp add: issued_def)

lemma secret_data_meta [simp]: "secret_data (s\<lparr>se_meta := m\<rparr>) k = secret_data s k"
  by (simp add: secret_data_def)

lemma written_created:
  assumes "calls s' = calls s @ [(GetSecret ns n, False)]"
    and "se_meta new = new_meta ns n" and "tick s \<le> i" and "issued E service ns (ce_now E i + expiration) new"
  shows "written_secret E ns n service expiration (secret_data new CACert) s (log_call (CreateSecret new) True s')"
  unfolding written_secret_def
  by (intro exI [of _ new] exI [of _ False] exI [of _ i]) (use assms in \<open>simp add: new_meta_def\<close>)

lemma written_updated:
  assumes "calls s' = calls s @ [(GetSecret ns n, True)]"
    and "se_meta new = new_meta ns n" and "tick s \<le> i" and "issued E service ns (ce_now E i + expiration) new"
  shows "written_secret E ns n service expiration (secret_data new CACert) s
    (log_call (UpdateSecret (new\<lparr>se_meta := (se_meta new)\<lparr>m_rv := rv\<rparr>\<rparr>)) True s')"
  unfolding written_secret_def
  by (intro exI [of _ "new\<lparr>se_meta := (se_meta new)\<lparr>m_rv := rv\<rparr>\<rparr>"] exI [of _ True] exI [of _ i])
     (use assms in \<open>simp add: new_meta_def\<close>)

lemma ensure_wp:
  "wp (EnsureSecret E ns n service expiration) (\<lambda>r s'. case r of
       Inl e \<Rightarrow> \<exists>t. calls s' = calls s @ t \<and> filter (\<lambda>(c, ok). ok \<and> is_secret_write c) t = []
     | Inr ca \<Rightarrow> kept_secret E ns n expiration ca s s' \<or> written_secret E ns n service expiration ca s s') s"
  (is "wp _ ?Q s")
proof -
  have new: "wp (newSecret E n ns service expiration) (\<lambda>r s'. calls s' = calls s2 \<and> (case r of Inl e \<Rightarrow> True
      | Inr x \<Rightarrow> se_meta x = new_meta ns n \<and> (\<exists>i \<ge> tick s. issued E service ns (ce_now E i + expiration) x))) s2"
    if "tick s \<le> tick s2" for s2
    by (rule wp_mono [OF newSecret_wp]) (use that in \<open>auto split: sum.splits\<close>)
  show ?thesis
  proof (cases "ce_get_secret E (calls s) ns n")
    case (Inl e)
    then show ?thesis
      unfolding EnsureSecret_def
      by (auto simp: wp_simps split: sum.splits option.splits intro!: wp_mono [OF new] intro: written_created)
  next
    case (Inr sec)
    define s1 where "s1 = log_call (GetSecret ns n) True s"
    have writes: "wp (with_value (newSecret E n ns service expiration) (\<lambda>e. ret (Inl e)) (\<lambda>new. do {
        let new = new\<lparr>se_meta := (se_meta new)\<lparr>m_rv := m_rv (se_meta sec)\<rparr>\<rparr>;
        unless_err (call_err (\<lambda>h. ce_update_secret E h new) (UpdateSecret new)) Inl (ret (Inr (secret_data new CACert)))
      })) ?Q s2"
      if "calls s2 = calls s1" "tick s1 \<le> tick s2" for s2
      unfolding wp_with_value
      by (rule wp_mono [OF new])
         (use that in \<open>auto simp: wp_simps Let_def s1_def split: sum.splits option.splits
            dest: written_updated [where rv = "m_rv (se_meta sec)"]\<close>)
    have keep: "wp (ret (Inr (secret_data sec CACert))) ?Q s2"
      if "calls s2 = calls s1" "valid_secret E sec expiration (ce_now E (tick s1))" for s2
      using that Inr by (simp add: kept_secret_def s1_def wp_return)
    have "wp (do { valid \<leftarrow> still_valid E sec expiration; if valid then ret (Inr (secret_data sec CACert)) else
        with_value (newSecret E n ns service expiration) (\<lambda>e. ret (Inl e)) (\<lambda>new. do {
          let new = new\<lparr>se_meta := (se_meta new)\<lparr>m_rv := m_rv (se_meta sec)\<rparr>\<rparr>;
          unless_err (call_err (\<lambda>h. ce_update_secret E h new) (UpdateSecret new)) Inl (ret (Inr (secret_data new CACert)))
        }) }) ?Q s1"
      unfolding wp_bind by (rule wp_mono [OF still_valid_wp]) (use writes keep in \<open>simp del: secret_data_meta\<close>)
    then show ?thesis
      unfolding EnsureSecret_def wp_with_value [of "call _ _"] wp_call using Inr by (simp add: s1_def)
  qed
qed

text \<open>
  C34: whatever the API server answers, a CA certificate that \<open>EnsureSecret\<close> returns is the one of the secret the
  cluster has: either the secret that was read, when its server certificate is valid for more than half of
  the expiration time, and nothing is written; or the secret just created (when there was none) or
  updated, which has certificates issued for the service that end after the expiration time.  When it
  fails, nothing was written.
\<close>

theorem ensured_secret_is_installed:
  "wp (EnsureSecret E ns n service expiration) (\<lambda>r s'. case r of
       Inl e \<Rightarrow> \<exists>t. calls s' = calls s @ t \<and> filter (\<lambda>(c, ok). ok \<and> is_secret_write c) t = []
     | Inr ca \<Rightarrow> kept_secret E ns n expiration ca s s' \<or> written_secret E ns n service expiration ca s s') s"
  by (rule ensure_wp)

text \<open>
  What is relied on in the library: a certificate that was created can be parsed and ends at the time of
  its template, rounded down to a second as the encoding does; and it forms a pair with the private key
  of the public key it was made for.
\<close>

definition tls_lib :: "cenv \<Rightarrow> bool" where
  "tls_lib E \<longleftrightarrow>
     (\<forall>i t p pub k der. ce_create E i t p pub k = Inr der \<longrightarrow>
        (\<exists>c. ce_parse E der = Inr c \<and> x_not_after c = x_not_after t - x_not_after t mod 1000000000)) \<and>
     (\<forall>i t p key k der. ce_create E i t p (ce_public E key) k = Inr der \<longrightarrow>
        (\<exists>chain. ce_key_pair E (ce_pem E der) (ce_key_pem E key) = Inr (der, chain)))"

lemma issued_valid:
  assumes "tls_lib E" and "issued E service ns until new" and "t + expiration sdiv 2 + 1000000000 \<le> until"
  shows "valid_secret E new expiration t"
proof -
  from assms(2) obtain j tmpl ca der key caKey ca_der where der: "ce_create E j tmpl ca (ce_public E key) caKey = Inr der"
    "x_not_after tmpl = until" and "se_data new = [(ServerKey, ce_key_pem E key), (ServerCert, ce_pem E der), (CACert, ce_pem E ca_der)]"
    by (auto simp: issued_def)
  then have data: "secret_data new ServerCert = ce_pem E der" "secret_data new ServerKey = ce_key_pem E key"
    by (simp_all add: secret_data_def ServerKey_def ServerCert_def)
  from assms(1) der(1) obtain chain where pair: "ce_key_pair E (ce_pem E der) (ce_key_pem E key) = Inr (der, chain)"
    unfolding tls_lib_def by blast
  from assms(1) der obtain c where c: "ce_parse E der = Inr c" "x_not_after c = until - until mod 1000000000"
    unfolding tls_lib_def by blast
  have "until mod 1000000000 < 1000000000" by simp
  with assms(3) c(2) have "t + expiration sdiv 2 < x_not_after c" by linarith
  with pair c(1) data show ?thesis by (auto simp: valid_secret_def)
qed

lemma valid_secret_kept:
  assumes "ce_get_secret E (calls s) ns n = Inr sec" and "valid_secret E sec expiration (ce_now E (Suc (tick s)))"
  shows "\<exists>s'. run_state (EnsureSecret E ns n service expiration) s = (Inr (secret_data sec CACert), s') \<and>
    calls s' = calls s @ [(GetSecret ns n, True)]"
proof -
  have "wp (EnsureSecret E ns n service expiration) (\<lambda>r s'. r = Inr (secret_data sec CACert) \<and> calls s' = calls s @ [(GetSecret ns n, True)]) s"
    unfolding EnsureSecret_def using assms
    by (simp add: wp_simps) (rule wp_mono [OF still_valid_wp], simp add: wp_simps)
  then show ?thesis by (auto simp: wp_def split: prod.splits)
qed

text \<open>
  C35: a secret that \<open>EnsureSecret\<close> has just created or updated is kept by the next call, which only reads it and
  returns the same CA certificate, as long as the API server returns what was written, the clock does not go
  back and a second less than half of the expiration time has not passed.
\<close>

theorem fresh_secret_is_kept:
  assumes "tls_lib E" and "mono (ce_now E)"
    and "run_state (EnsureSecret E ns n service expiration) s = (Inr ca, s1)"
    and "calls s1 = h @ [(w, True)]" and "w \<in> {CreateSecret new, UpdateSecret new}"
    and "ce_get_secret E (calls s1) ns n = Inr new"
    and "ce_now E (Suc (tick s1)) + expiration sdiv 2 + 1000000000 \<le> ce_now E (tick s) + expiration"
  shows "\<exists>s2. run_state (EnsureSecret E ns n service expiration) s1 = (Inr ca, s2) \<and>
    calls s2 = calls s1 @ [(GetSecret ns n, True)]"
proof -
  have "\<not> kept_secret E ns n expiration ca s s1"
    using assms(4,5) by (auto simp: kept_secret_def)
  with wpD [OF ensure_wp assms(3)] have "written_secret E ns n service expiration ca s s1" by simp
  then obtain i where i: "tick s \<le> i" "issued E service ns (ce_now E i + expiration) new" "ca = secret_data new CACert"
    using assms(4,5) by (auto simp: written_secret_def split: if_splits)
  have "ce_now E (tick s) \<le> ce_now E i" using assms(2) i(1) by (rule monoD)
  with assms(7) have "ce_now E (Suc (tick s1)) + expiration sdiv 2 + 1000000000 \<le> ce_now E i + expiration" by linarith
  with issued_valid [OF assms(1) i(2)] have "valid_secret E new expiration (ce_now E (Suc (tick s1)))" by blast
  from valid_secret_kept [OF assms(6) this] i(3) show ?thesis by simp
qed

section \<open>A concrete run\<close>

definition demo_certificate :: certificate where
  "demo_certificate = \<lparr>x_serial = 1, x_organization = [], x_common_name = [], x_not_before = 0, x_not_after = Expiration,
     x_dns_names = [], x_is_ca = False, x_key_usage = [], x_ext_key_usage = []\<rparr>"

definition demo_secret :: secret where
  "demo_secret = \<lparr>se_meta = new_meta ''member'' ''webhook-certs'',
     se_data = [(ServerKey, ''key''), (ServerCert, ''server''), (CACert, ''ca'')]\<rparr>"

definition demo_cenv :: cenv where
  "demo_cenv = \<lparr>ce_now = (\<lambda>t. 0), ce_serial = Inr, ce_genkey = Inr, ce_public = (\<lambda>k. ''public''),
     ce_create = (\<lambda>i t p pub k. if x_not_after t = Expiration then Inr (if x_is_ca t then ''ca'' else ''server'') else Inl (Msg ''bad'')),
     ce_parse = (\<lambda>d. Inr demo_certificate), ce_pem = (\<lambda>d. d), ce_key_pem = (\<lambda>k. ''key''),
     ce_key_pair = (\<lambda>c k. Inr (c, [])), ce_resolv_conf = Inr ''search svc.example.com'', ce_not_found = (\<lambda>e. True),
     ce_get_secret = (\<lambda>h ns n. if h = [] then Inl (StatusErr ''NotFound'' []) else Inr demo_secret),
     ce_create_secret = (\<lambda>h s. None), ce_update_secret = (\<lambda>h s. None)\<rparr>"

lemma demo_tls: "tls_lib demo_cenv"
  by (auto simp: tls_lib_def demo_cenv_def demo_certificate_def Expiration_def split: if_splits)

lemma demo_created:
  "\<exists>s1. run_state (EnsureSecret demo_cenv ''member'' ''webhook-certs'' ''member-operator-webhook'' Expiration) (fresh None) =
     (Inr ''ca'', s1) \<and> calls s1 = [(GetSecret ''member'' ''webhook-certs'', False), (CreateSecret demo_secret, True)]"
  by (simp add: EnsureSecret_def newSecret_def CreateCerts_def createCA_def createCACertTemplate_def createServerCertTemplate_def
      createCertTemplate_def createCert_def getClusterDomainName_def with_value_def unless_err_def demo_cenv_def demo_secret_def
      secret_data_def ServerKey_def ServerCert_def CACert_def Let_def)

theorem fresh_secret_is_kept_witness:
  "\<exists>s1 s2. run_state (EnsureSecret demo_cenv ''member'' ''webhook-certs'' ''member-operator-webhook'' Expiration) (fresh None) = (Inr ''ca'', s1) \<and>
     run_state (EnsureSecret demo_cenv ''member'' ''webhook-certs'' ''member-operator-webhook'' Expiration) s1 = (Inr ''ca'', s2) \<and>
     calls s2 = calls s1 @ [(GetSecret ''member'' ''webhook-certs'', True)]"
proof -
  obtain s1 where s1: "run_state (EnsureSecret demo_cenv ''member'' ''webhook-certs'' ''member-operator-webhook'' Expiration) (fresh None) =
      (Inr ''ca'', s1)" "calls s1 = [(GetSecret ''member'' ''webhook-certs'', False)] @ [(CreateSecret demo_secret, True)]"
    using demo_created by auto
  have "\<exists>s2. run_state (EnsureSecret demo_cenv ''member'' ''webhook-certs'' ''member-operator-webhook'' Expiration) s1 = (Inr ''ca'', s2) \<and>
      calls s2 = calls s1 @ [(GetSecret ''member'' ''webhook-certs'', True)]"
    by (rule fresh_secret_is_kept [OF demo_tls _ s1, of demo_secret])
       (simp_all add: demo_cenv_def s1(2) mono_def Expiration_def)
  with s1(1) show ?thesis by blast
qed

end
