(* ===== verification/OperatorConfig.thy ===== *)
theory OperatorConfig
  imports Cert
begin

text \<open>
  The MemberOperatorConfig controller (\<open>controllers/memberoperatorconfig\<close>) and what it installs or removes: the
  autoscaling buffer (\<open>pkg/autoscaler\<close>) and the webhook with its certificates (\<open>pkg/webhook/deploy\<close>).
\<close>

section \<open>Data\<close>

record oconfig =
  oc_autoscaler_deploy :: bool
  oc_memory :: string
  oc_cpu :: string
  oc_replicas :: int
  oc_webhook_deploy :: bool

type_synonym template_params = "(string \<times> string) list"

text \<open>
  The environment: that of the certificates, the configuration, the embedded template files, decoding and processing
  of templates, server-side apply of one object with a field manager (the client applies the objects it is given in turn, up to the first error), reading and
  deleting an object by kind, namespace and name, Base64 and the image of the webhook.
\<close>

record oenv =
  oe_cert :: cenv
  oe_load_config :: "ccall history \<Rightarrow> err + oconfig"
  oe_autoscaler_file :: "err + string"
  oe_webhook_file :: "err + string"
  oe_decode :: "string \<Rightarrow> err + string"
  oe_process :: "string \<Rightarrow> template_params \<Rightarrow> err + template_object list"
  oe_apply :: "ccall history \<Rightarrow> template_object \<Rightarrow> err option"
  oe_get :: "ccall history \<Rightarrow> string \<Rightarrow> string \<Rightarrow> string \<Rightarrow> err + unit"
  oe_delete :: "ccall history \<Rightarrow> string \<Rightarrow> string \<Rightarrow> string \<Rightarrow> err option"
  oe_base64 :: "string \<Rightarrow> string"
  oe_image :: string

definition MemberOperatorFieldManager :: string where
  "MemberOperatorFieldManager = ''kubesaw-member-operator''"

text \<open>\<open>%d\<close> of an integer.\<close>

fun digits :: "nat \<Rightarrow> string" where
  "digits n = (if n < 10 then [char_of (48 + n)] else digits (n div 10) @ [char_of (48 + n mod 10)])"

declare digits.simps [simp del]

definition print_int :: "int \<Rightarrow> string" where
  "print_int i = (if i < 0 then ''-'' @ digits (nat (- i)) else digits (nat i))"

section \<open>The autoscaling buffer\<close>

text \<open>The configuration of the buffer is nil when it is deleted.\<close>

definition autoscaler_getTemplateObjects :: "oenv \<Rightarrow> string \<Rightarrow> oconfig option \<Rightarrow> err + template_object list" where
  "autoscaler_getTemplateObjects E namespace config =
     (case oe_autoscaler_file E of Inl e \<Rightarrow> Inl e | Inr deployment \<Rightarrow>
     (case oe_decode E deployment of Inl e \<Rightarrow> Inl e | Inr deploymentTemplate \<Rightarrow>
        let (memory, cpu, replicas) =
          (case config of None \<Rightarrow> (''0'', ''0'', 0) | Some c \<Rightarrow> (oc_memory c, oc_cpu c, oc_replicas c))
        in oe_process E deploymentTemplate
             [(''NAMESPACE'', namespace), (''MEMORY'', memory), (''CPU'', cpu), (''REPLICAS'', print_int replicas)]))"

fun apply_buffer_objects :: "oenv \<Rightarrow> template_object list \<Rightarrow> err option cprog" where
  "apply_buffer_objects E [] = ret None"
| "apply_buffer_objects E (obj # objs) =
     unless_err (call_err (\<lambda>h. oe_apply E h obj) (ApplyObject MemberOperatorFieldManager obj))
       (\<lambda>e. Some (Wrapped ''cannot deploy autoscaling buffer template'' e))
       (apply_buffer_objects E objs)"

definition autoscaler_Deploy :: "oenv \<Rightarrow> string \<Rightarrow> oconfig \<Rightarrow> err option cprog" where
  "autoscaler_Deploy E namespace config =
     (case autoscaler_getTemplateObjects E namespace (Some config) of
        Inl e \<Rightarrow> ret (Some e)
      | Inr objs \<Rightarrow> apply_buffer_objects E objs)"

definition get_object :: "oenv \<Rightarrow> template_object \<Rightarrow> (err + unit) cprog" where
  "get_object E obj = call (\<lambda>h. oe_get E h (ob_gvk obj) (ob_ns obj) (ob_name obj)) (GetObject (ob_gvk obj) (ob_ns obj) (ob_name obj))"

definition delete_object :: "oenv \<Rightarrow> template_object \<Rightarrow> err option cprog" where
  "delete_object E obj = call_err (\<lambda>h. oe_delete E h (ob_gvk obj) (ob_ns obj) (ob_name obj)) (DeleteObject (ob_gvk obj) (ob_ns obj) (ob_name obj))"

fun delete_buffer_objects :: "oenv \<Rightarrow> template_object list \<Rightarrow> bool \<Rightarrow> (bool \<times> err option) cprog" where
  "delete_buffer_objects E [] deleted = ret (deleted, None)"
| "delete_buffer_objects E (obj # objs) deleted =
     with_value (get_object E obj)
       (\<lambda>e. if \<not> ce_not_found (oe_cert E) e then ret (False, Some (Wrapped ''cannot get autoscaling buffer object'' e))
            else delete_buffer_objects E objs deleted)
       (\<lambda>_. unless_err (delete_object E obj)
          (\<lambda>e. (False, Some (Wrapped ''cannot delete autoscaling buffer object'' e)))
          (delete_buffer_objects E objs True))"

definition autoscaler_Delete :: "oenv \<Rightarrow> string \<Rightarrow> (bool \<times> err option) cprog" where
  "autoscaler_Delete E namespace =
     (case autoscaler_getTemplateObjects E namespace None of
        Inl e \<Rightarrow> ret (False, Some e)
      | Inr objs \<Rightarrow> delete_buffer_objects E objs False)"

section \<open>The webhook\<close>

definition certSecretName :: string where
  "certSecretName = ''webhook-certs''"

definition serviceName :: string where
  "serviceName = ''member-operator-webhook''"

definition WebhookDeploymentNoDeletionAnnotation :: string where
  "WebhookDeploymentNoDeletionAnnotation = ''toolchain.dev.openshift.com/no-deletion''"

definition GetTemplateObjects :: "oenv \<Rightarrow> string \<Rightarrow> string \<Rightarrow> string \<Rightarrow> err + template_object list" where
  "GetTemplateObjects E namespace img caBundle =
     (case oe_webhook_file E of Inl e \<Rightarrow> Inl e | Inr deployment \<Rightarrow>
     (case oe_decode E deployment of Inl e \<Rightarrow> Inl e | Inr deploymentTemplate \<Rightarrow>
        oe_process E deploymentTemplate
          [(''NAMESPACE'', namespace), (''CA_BUNDLE'', oe_base64 E caBundle), (''IMAGE'', img)]))"

text \<open>The apply client applies a list of objects one after the other, up to the first that fails.\<close>

fun apply_in_turn :: "oenv \<Rightarrow> template_object list \<Rightarrow> err option cprog" where
  "apply_in_turn E [] = ret None"
| "apply_in_turn E (obj # objs) =
     unless_err (call_err (\<lambda>h. oe_apply E h obj) (ApplyObject MemberOperatorFieldManager obj)) Some (apply_in_turn E objs)"

definition webhook_Deploy :: "oenv \<Rightarrow> string \<Rightarrow> string \<Rightarrow> err option cprog" where
  "webhook_Deploy E namespace img =
     with_value (EnsureSecret (oe_cert E) namespace certSecretName serviceName Expiration)
       (\<lambda>e. ret (Some (Wrapped ''cannot deploy webhook template'' e)))
       (\<lambda>caBundle.
          case GetTemplateObjects E namespace img caBundle of
            Inl e \<Rightarrow> ret (Some (Wrapped ''cannot deploy webhook template'' e))
          | Inr objs \<Rightarrow>
              unless_err (apply_in_turn E objs)
                (\<lambda>e. Some (Wrapped ''cannot deploy webhook template'' e)) (ret None))"

definition do_not_delete :: "template_object \<Rightarrow> bool" where
  "do_not_delete obj \<longleftrightarrow> map_of (ob_annotations obj) WebhookDeploymentNoDeletionAnnotation \<noteq> None"

fun delete_webhook_objects :: "oenv \<Rightarrow> template_object list \<Rightarrow> bool \<Rightarrow> (bool \<times> err option) cprog" where
  "delete_webhook_objects E [] deleted = ret (deleted, None)"
| "delete_webhook_objects E (obj # objs) deleted =
     (if do_not_delete obj then delete_webhook_objects E objs deleted
      else with_value (get_object E obj)
        (\<lambda>e. if \<not> ce_not_found (oe_cert E) e then ret (False, Some (Wrapped ''cannot get webhook object'' e))
             else delete_webhook_objects E objs deleted)
        (\<lambda>_. unless_err (delete_object E obj)
           (\<lambda>e. (False, Some (Wrapped ''cannot delete webhook object'' e)))
           (delete_webhook_objects E objs True)))"

definition webhook_Delete :: "oenv \<Rightarrow> string \<Rightarrow> (bool \<times> err option) cprog" where
  "webhook_Delete E namespace =
     (case GetTemplateObjects E namespace ''dummy-image'' [CHR 0x01] of
        Inl e \<Rightarrow> ret (False, Some e)
      | Inr objs \<Rightarrow> delete_webhook_objects E objs False)"

section \<open>The controller\<close>

definition handleAutoscalerDeploy :: "oenv \<Rightarrow> oconfig \<Rightarrow> string \<Rightarrow> err option cprog" where
  "handleAutoscalerDeploy E cfg namespace =
     (if oc_autoscaler_deploy cfg then autoscaler_Deploy E namespace cfg
      else do { (deleted, err) \<leftarrow> autoscaler_Delete E namespace; ret err })"

definition handleWebhookDeploy :: "oenv \<Rightarrow> oconfig \<Rightarrow> string \<Rightarrow> err option cprog" where
  "handleWebhookDeploy E cfg namespace =
     (if oc_webhook_deploy cfg then webhook_Deploy E namespace (oe_image E)
      else do { (deleted, err) \<leftarrow> webhook_Delete E namespace; ret err })"

definition Reconcile :: "oenv \<Rightarrow> string \<Rightarrow> err option cprog" where
  "Reconcile E namespace =
     with_value (call (oe_load_config E) LoadConfiguration) (\<lambda>e. ret (Some e)) (\<lambda>crtConfig.
       unless_err (handleAutoscalerDeploy E crtConfig namespace) Some
       (unless_err (handleWebhookDeploy E crtConfig namespace) Some (ret None)))"

text \<open>Secrets are mapped to the configuration of their namespace, other objects to nothing.\<close>

datatype watched = SecretObject string string | OtherObject

definition MapSecretToMemberOperatorConfig :: "watched \<Rightarrow> (string \<times> string) list" where
  "MapSecretToMemberOperatorConfig obj =
     (case obj of SecretObject namespace name \<Rightarrow> [(namespace, ''config'')] | OtherObject \<Rightarrow> [])"

end
