(* ===== verification/OperatorConfigSpec.thy ===== *)
theory OperatorConfigSpec
  imports OperatorConfig CertSpec
begin

text \<open>
  The properties of the MemberOperatorConfig controller: features that are switched off are removed, and the
  webhook is installed with the certificate of the secret.
\<close>

section \<open>Removing the objects of a template\<close>

type_synonym object_key = "string \<times> string \<times> string"

definition key_of :: "template_object \<Rightarrow> object_key" where
  "key_of obj = (ob_gvk obj, ob_ns obj, ob_name obj)"

text \<open>
  The objects the cluster has after a history of calls, when it started with those in \<open>C\<close>, and a server that answers
  by them and deletes what it is told to.
\<close>

definition left :: "object_key set \<Rightarrow> ccall history \<Rightarrow> object_key set" where
  "left C h = C - {(g, ns, n). (DeleteObject g ns n, True) \<in> set h}"

lemma left_simps [simp]:
  "left C (h @ [(GetObject g ns n, ok)]) = left C h"
  "left C (h @ [(LoadConfiguration, ok)]) = left C h"
  "left C (h @ [(DeleteObject g ns n, True)]) = left C h - {(g, ns, n)}"
  by (auto simp: left_def)

definition serves :: "oenv \<Rightarrow> object_key set \<Rightarrow> bool" where
  "serves E C \<longleftrightarrow> (\<exists>nf. ce_not_found (oe_cert E) nf \<and>
     (\<forall>h g ns n. oe_get E h g ns n = (if (g, ns, n) \<in> left C h then Inr () else Inl nf))) \<and>
     (\<forall>h g ns n. oe_delete E h g ns n = None)"

text \<open>
  The two loops that delete objects share a contract: they skip what may not be removed, look the others up,
  and delete those that are there.
\<close>

locale object_remover =
  fixes remove :: "oenv \<Rightarrow> template_object list \<Rightarrow> bool \<Rightarrow> (bool \<times> err option) cprog"
    and removable :: "template_object \<Rightarrow> bool"
  assumes none: "remove E [] d = ret (d, None)"
    and skip: "\<not> removable obj \<Longrightarrow> remove E (obj # objs) d = remove E objs d"
    and missing: "removable obj \<Longrightarrow> oe_get E (calls s) (ob_gvk obj) (ob_ns obj) (ob_name obj) = Inl e \<Longrightarrow> ce_not_found (oe_cert E) e \<Longrightarrow>
      wp (remove E (obj # objs) d) Q s =
      wp (remove E objs d) Q (log_call (GetObject (ob_gvk obj) (ob_ns obj) (ob_name obj)) False s)"
    and found: "removable obj \<Longrightarrow> oe_get E (calls s) (ob_gvk obj) (ob_ns obj) (ob_name obj) = Inr () \<Longrightarrow>
      oe_delete E (calls s @ [(GetObject (ob_gvk obj) (ob_ns obj) (ob_name obj), True)]) (ob_gvk obj) (ob_ns obj) (ob_name obj) = None \<Longrightarrow>
      wp (remove E (obj # objs) d) Q s =
      wp (remove E objs True) Q (log_call (DeleteObject (ob_gvk obj) (ob_ns obj) (ob_name obj)) True
        (log_call (GetObject (ob_gvk obj) (ob_ns obj) (ob_name obj)) True s))"
begin

lemma removes:
  assumes "serves E C"
  shows "wp (remove E objs d) (\<lambda>(deleted, err) s'. err = None \<and>
    left C (calls s') = left C (calls s) - key_of ` {obj \<in> set objs. removable obj} \<and>
    deleted = (d \<or> key_of ` {obj \<in> set objs. removable obj} \<inter> left C (calls s) \<noteq> {})) s"
proof (induction objs arbitrary: d s)
  case Nil
  show ?case by (simp add: none wp_return)
next
  case (Cons obj objs)
  let ?g = "ob_gvk obj" and ?ns = "ob_ns obj" and ?n = "ob_name obj"
  from assms obtain nf where nf: "ce_not_found (oe_cert E) nf"
    and get: "oe_get E h g ns n = (if (g, ns, n) \<in> left C h then Inr () else Inl nf)" and del: "oe_delete E h g ns n = None" for h g ns n
    by (auto simp: serves_def)
  have key: "key_of obj = (?g, ?ns, ?n)" by (simp add: key_of_def)
  show ?case
  proof (cases "removable obj")
    case False
    have "{x \<in> set (obj # objs). removable x} = {x \<in> set objs. removable x}" using False by auto
    then show ?thesis using Cons.IH [of d s] by (simp only: skip [OF False])
  next
    case True
    have "{x \<in> set (obj # objs). removable x} = insert obj {x \<in> set objs. removable x}" using True by auto
    then have keys: "key_of ` {x \<in> set (obj # objs). removable x} = insert (?g, ?ns, ?n) (key_of ` {x \<in> set objs. removable x})"
      by (simp only: image_insert key)
    show ?thesis
    proof (cases "(?g, ?ns, ?n) \<in> left C (calls s)")
      case False
      then have "oe_get E (calls s) ?g ?ns ?n = Inl nf" by (simp add: get)
      from missing [OF True this nf] show ?thesis
        unfolding keys using False
        by (auto intro!: wp_mono [OF Cons.IH [of d "log_call (GetObject ?g ?ns ?n) False s"]])
    next
      case there: True
      then have "oe_get E (calls s) ?g ?ns ?n = Inr ()" by (simp add: get)
      from found [OF True this del] show ?thesis
        unfolding keys using there
        by (auto intro!: wp_mono [OF Cons.IH [of True "log_call (DeleteObject ?g ?ns ?n) True (log_call (GetObject ?g ?ns ?n) True s)"]]
            simp flip: append_assoc)
    qed
  qed
qed

end

interpretation buffer: object_remover delete_buffer_objects "\<lambda>obj. True"
  by unfold_locales (simp_all add: get_object_def delete_object_def wp_simps)

interpretation webhook: object_remover delete_webhook_objects "\<lambda>obj. \<not> do_not_delete obj"
  by unfold_locales (simp_all add: get_object_def delete_object_def wp_simps)

text \<open>
  C36: with both features switched off, on a server that answers by the objects it has and deletes what it is told
  to, a reconcile succeeds and takes exactly the objects of the buffer's template and the objects of the
  webhook's template without the no-deletion annotation out of the cluster; everything else stays.
\<close>

theorem disabled_features_are_removed:
  assumes "serves E C" and "oe_load_config E (calls s) = Inr cfg" and "\<not> oc_autoscaler_deploy cfg" and "\<not> oc_webhook_deploy cfg"
    and "autoscaler_getTemplateObjects E ns None = Inr buffer_objs"
    and "GetTemplateObjects E ns ''dummy-image'' [CHR 0x01] = Inr webhook_objs"
  shows "\<exists>s'. run_state (Reconcile E ns) s = (None, s') \<and>
    left C (calls s') = left C (calls s) - key_of ` set buffer_objs - key_of ` {obj \<in> set webhook_objs. \<not> do_not_delete obj}"
proof -
  have "wp (Reconcile E ns) (\<lambda>e s'. e = None \<and>
      left C (calls s') = left C (calls s) - key_of ` set buffer_objs - key_of ` {obj \<in> set webhook_objs. \<not> do_not_delete obj}) s"
    unfolding Reconcile_def handleAutoscalerDeploy_def handleWebhookDeploy_def autoscaler_Delete_def webhook_Delete_def
    using assms(2-6)
    by (auto simp: wp_simps intro!: wp_mono [OF buffer.removes [OF assms(1)]] wp_mono [OF webhook.removes [OF assms(1)]])
  then show ?thesis by (auto simp: wp_def split: prod.splits)
qed

definition demo_object :: "string \<Rightarrow> string \<Rightarrow> bool \<Rightarrow> template_object" where
  "demo_object g n keep = \<lparr>ob_gvk = g, ob_ns = ''member'', ob_name = n,
     ob_annotations = (if keep then [(WebhookDeploymentNoDeletionAnnotation, ''true'')] else [])\<rparr>"

definition demo_oenv :: "object_key set \<Rightarrow> oenv" where
  "demo_oenv C = \<lparr>oe_cert = demo_cenv, oe_load_config = (\<lambda>h. Inr \<lparr>oc_autoscaler_deploy = False, oc_memory = [], oc_cpu = [], oc_replicas = 0,
       oc_webhook_deploy = False\<rparr>),
     oe_autoscaler_file = Inr ''buffer'', oe_webhook_file = Inr ''webhook'', oe_decode = Inr,
     oe_process = (\<lambda>f ps. Inr (if f = ''buffer'' then [demo_object ''Deployment'' ''buffer'' False]
       else [demo_object ''Deployment'' ''webhook'' False, demo_object ''MutatingWebhookConfiguration'' ''webhook'' True])),
     oe_apply = (\<lambda>h o1. None),
     oe_get = (\<lambda>h g ns n. if (g, ns, n) \<in> left C h then Inr () else Inl (StatusErr ''NotFound'' [])),
     oe_delete = (\<lambda>h g ns n. None), oe_base64 = (\<lambda>b. b), oe_image = ''image''\<rparr>"

theorem disabled_features_are_removed_witness:
  "let C = {(''Deployment'', ''member'', ''webhook''), (''MutatingWebhookConfiguration'', ''member'', ''webhook''), (''Pod'', ''member'', ''p'')}
   in \<exists>s'. run_state (Reconcile (demo_oenv C) ''member'') (fresh None) = (None, s') \<and>
     left C (calls s') = {(''MutatingWebhookConfiguration'', ''member'', ''webhook''), (''Pod'', ''member'', ''p'')}"
proof -
  define C :: "object_key set" where "C = {(''Deployment'', ''member'', ''webhook''), (''MutatingWebhookConfiguration'', ''member'', ''webhook''), (''Pod'', ''member'', ''p'')}"
  have E: "serves (demo_oenv C) C"
    "autoscaler_getTemplateObjects (demo_oenv C) ''member'' None = Inr [demo_object ''Deployment'' ''buffer'' False]"
    "GetTemplateObjects (demo_oenv C) ''member'' ''dummy-image'' [CHR 0x01] =
      Inr [demo_object ''Deployment'' ''webhook'' False, demo_object ''MutatingWebhookConfiguration'' ''webhook'' True]"
    by (auto simp: serves_def demo_oenv_def demo_cenv_def autoscaler_getTemplateObjects_def GetTemplateObjects_def)
  have keys: "{obj \<in> set [demo_object ''Deployment'' ''webhook'' False, demo_object ''MutatingWebhookConfiguration'' ''webhook'' True]. \<not> do_not_delete obj} =
      {demo_object ''Deployment'' ''webhook'' False}"
    by (auto simp: do_not_delete_def demo_object_def)
  obtain s' where "run_state (Reconcile (demo_oenv C) ''member'') (fresh None) = (None, s')"
    and "left C (calls s') = left C (calls (fresh None)) - key_of ` set [demo_object ''Deployment'' ''buffer'' False] -
      key_of ` {obj \<in> set [demo_object ''Deployment'' ''webhook'' False, demo_object ''MutatingWebhookConfiguration'' ''webhook'' True]. \<not> do_not_delete obj}"
    using disabled_features_are_removed [OF E(1) _ _ _ E(2,3), of "fresh None"] by (auto simp: demo_oenv_def)
  moreover have "left C [] = C" by (auto simp: left_def)
  ultimately have "run_state (Reconcile (demo_oenv C) ''member'') (fresh None) = (None, s') \<and>
      left C (calls s') = {(''MutatingWebhookConfiguration'', ''member'', ''webhook''), (''Pod'', ''member'', ''p'')}"
    unfolding keys by (auto simp: C_def key_of_def demo_object_def)
  then show ?thesis unfolding Let_def C_def [symmetric] by blast
qed

section \<open>Installing the webhook\<close>

fun is_apply :: "ccall \<Rightarrow> bool" where
  "is_apply (ApplyObject m obj) = True"
| "is_apply _ = False"

lemma newSecret_applies_nothing: "emits (\<lambda>(c, ok). \<not> is_apply c) (newSecret E n ns service expiration)"
  unfolding newSecret_def CreateCerts_def createCA_def createCACertTemplate_def createServerCertTemplate_def
    createCertTemplate_def createCert_def getClusterDomainName_def Let_def
  by (auto intro!: emits_rules)

lemma ensure_applies_nothing: "emits (\<lambda>(c, ok). \<not> is_apply c) (EnsureSecret E ns n service expiration)"
  unfolding EnsureSecret_def still_valid_def Let_def
  by (auto intro!: emits_rules newSecret_applies_nothing)

lemma applies_nothing: "list_all (\<lambda>(c, ok). \<not> is_apply c) t \<Longrightarrow> filter (\<lambda>(c, ok). is_apply c) t = []"
  by (induction t) auto

lemma apply_in_turn_result:
  "wp (apply_in_turn E objs) (\<lambda>r s'. case r of
      None \<Rightarrow> calls s' = calls s @ map (\<lambda>obj. (ApplyObject MemberOperatorFieldManager obj, True)) objs
    | Some e \<Rightarrow> \<exists>done obj rest. objs = done @ obj # rest \<and> calls s' = calls s @
        map (\<lambda>obj. (ApplyObject MemberOperatorFieldManager obj, True)) done @ [(ApplyObject MemberOperatorFieldManager obj, False)]) s"
proof (induction objs arbitrary: s)
  case (Cons x objs)
  let ?Q = "\<lambda>r s'. case r of
      None \<Rightarrow> calls s' = calls s @ map (\<lambda>obj. (ApplyObject MemberOperatorFieldManager obj, True)) (x # objs)
    | Some e \<Rightarrow> \<exists>done obj rest. x # objs = done @ obj # rest \<and> calls s' = calls s @
        map (\<lambda>obj. (ApplyObject MemberOperatorFieldManager obj, True)) done @ [(ApplyObject MemberOperatorFieldManager obj, False)]"
  show ?case
  proof (cases "oe_apply E (calls s) x")
    case None
    have "wp (apply_in_turn E objs) ?Q (log_call (ApplyObject MemberOperatorFieldManager x) True s)"
    proof (rule wp_mono [OF Cons.IH], goal_cases)
      case (1 r s')
      show ?case
      proof (cases r)
        case (Some e)
        with 1 obtain ys obj rest where "objs = ys @ obj # rest" "calls s' = calls (log_call (ApplyObject MemberOperatorFieldManager x) True s) @
            map (\<lambda>obj. (ApplyObject MemberOperatorFieldManager obj, True)) ys @ [(ApplyObject MemberOperatorFieldManager obj, False)]"
          by auto
        then show ?thesis
          unfolding Some option.case by (intro exI [of _ "x # ys"] exI [of _ obj] exI [of _ rest]) simp
      qed (use 1 in simp)
    qed
    with None show ?thesis by (simp add: wp_simps)
  next
    case (Some e)
    then show ?thesis by (auto simp: wp_simps intro!: exI [of _ "[]"])
  qed
qed (simp add: wp_return)

text \<open>
  C37: the webhook is installed only with the certificate authority of the secret the cluster has: either \<open>EnsureSecret\<close> or the
  template failed and nothing was applied, or objects are applied that are those of the template processed with the CA certificate that
  \<open>EnsureSecret\<close> kept or has just written: all of them, in their order, when the deployment succeeds, and those before the first that
  could not be applied when it fails.
\<close>

theorem webhook_uses_installed_ca:
  "wp (webhook_Deploy E ns img) (\<lambda>r s'.
     r \<noteq> None \<and> (\<exists>t. calls s' = calls s @ t \<and> filter (\<lambda>(c, ok). is_apply c) t = []) \<or>
     (\<exists>ca objs s1. GetTemplateObjects E ns img ca = Inr objs \<and>
        (kept_secret (oe_cert E) ns certSecretName Expiration ca s s1 \<or>
         written_secret (oe_cert E) ns certSecretName serviceName Expiration ca s s1) \<and>
        (case r of
           None \<Rightarrow> calls s' = calls s1 @ map (\<lambda>obj. (ApplyObject MemberOperatorFieldManager obj, True)) objs
         | Some e \<Rightarrow> \<exists>done obj rest. objs = done @ obj # rest \<and> calls s' = calls s1 @
             map (\<lambda>obj. (ApplyObject MemberOperatorFieldManager obj, True)) done @ [(ApplyObject MemberOperatorFieldManager obj, False)]))) s"
  (is "wp _ ?Q s")
  unfolding webhook_Deploy_def wp_with_value
proof (rule wp_mono [OF wp_conj [OF ensure_wp emits_wp [OF ensure_applies_nothing]]], elim conjE exE)
  fix r :: "err + string" and s1 :: "(string option, ccall) st" and t
  assume r: "case r of Inl e \<Rightarrow> \<exists>t. calls s1 = calls s @ t \<and> filter (\<lambda>(c, ok). ok \<and> is_secret_write c) t = []
      | Inr ca \<Rightarrow> kept_secret (oe_cert E) ns certSecretName Expiration ca s s1 \<or>
          written_secret (oe_cert E) ns certSecretName serviceName Expiration ca s s1"
    and t: "calls s1 = calls s @ t" "list_all (\<lambda>(c, ok). \<not> is_apply c) t"
  have none: "?Q (Some e) s1" for e
    using t(1) applies_nothing [OF t(2)] by auto
  show "case r of
      Inl e \<Rightarrow> wp (ret (Some (Wrapped ''cannot deploy webhook template'' e))) ?Q s1
    | Inr ca \<Rightarrow> wp (case GetTemplateObjects E ns img ca of
          Inl e \<Rightarrow> ret (Some (Wrapped ''cannot deploy webhook template'' e))
        | Inr objs \<Rightarrow> unless_err (apply_in_turn E objs)
            (\<lambda>e. Some (Wrapped ''cannot deploy webhook template'' e)) (ret None)) ?Q s1"
  proof (cases r)
    case (Inl e)
    with none show ?thesis by (simp add: wp_return)
  next
    case ca: (Inr ca)
    show ?thesis
    proof (cases "GetTemplateObjects E ns img ca")
      case (Inl e)
      with ca none show ?thesis by (simp add: wp_return)
    next
      case (Inr objs)
      show ?thesis
        unfolding ca Inr sum.case wp_unless_err
        by (rule wp_mono [OF apply_in_turn_result])
           (use Inr r ca in \<open>fastforce simp: wp_return split: option.splits intro: exI [of _ ca] exI [of _ objs] exI [of _ s1]\<close>)
    qed
  qed
qed

end
