(* ===== verification/Support.thy ===== *)
theory Support
  imports Kube
begin

text \<open>
  Smaller parts: the calls of one goroutine to the cached client of the host cluster (\<open>pkg/host\<close>; \<open>HostClient\<close> has the locks), URLs of routes
  (\<open>pkg/utils/route\<close>), bodies of responses (\<open>pkg/utils/rest\<close>), the redirection of old log lines (\<open>pkg/klog\<close>) and the commit the
  metrics show (\<open>pkg/metrics\<close>).
\<close>

section \<open>The client of the host cluster\<close>

datatype hcall = InitCachedClient string | ListResource nat string string

text \<open>A client is a number; the cached client with its namespace is \<open>None\<close> until it is initialised.\<close>

type_synonym host_client = "nat \<times> string"
type_synonym 'a hprog = "(host_client option, hcall, 'a) prog"

text \<open>
  The namespace of the host cluster if there is one, the initialisation of a cached client (\<open>initCachedClient\<close>:
  starting a cluster and waiting for its cache is the library's), a list with the client, and the order in which
  Go goes through the map of the two resources.
\<close>

record henv =
  he_host_cluster :: "hcall history \<Rightarrow> string option"
  he_init :: "hcall history \<Rightarrow> string \<Rightarrow> err + nat"
  he_list :: "hcall history \<Rightarrow> nat \<Rightarrow> string \<Rightarrow> string \<Rightarrow> err option"
  he_order :: "hcall history \<Rightarrow> string list"

definition objectsToList :: "string set" where
  "objectsToList = {''TierTemplate'', ''TierTemplateRevision''}"

fun sync_resources :: "henv \<Rightarrow> nat \<Rightarrow> string \<Rightarrow> string list \<Rightarrow> err option hprog" where
  "sync_resources E cl hostNamespace [] = ret None"
| "sync_resources E cl hostNamespace (resourceName # rs) =
     unless_err (call_err (\<lambda>h. he_list E h cl resourceName hostNamespace) (ListResource cl resourceName hostNamespace))
       (\<lambda>e. Some (Wrapped (''informer cache sync failed for resource '' @ resourceName) e))
       (sync_resources E cl hostNamespace rs)"

definition init :: "henv \<Rightarrow> (err + host_client) hprog" where
  "init E = do {
     cachedHostCluster \<leftarrow> peek (he_host_cluster E);
     (case cachedHostCluster of
        None \<Rightarrow> ret (Inl (Msg ''host cluster not found''))
      | Some hostNamespace \<Rightarrow>
          with_value (call (\<lambda>h. he_init E h hostNamespace) (InitCachedClient hostNamespace)) (\<lambda>e. ret (Inl e))
            (\<lambda>cachedClient. do {
               rs \<leftarrow> peek (he_order E);
               unless_err (sync_resources E cachedClient hostNamespace rs) Inl
                 (do { _ \<leftarrow> set_mem (Some (cachedClient, hostNamespace)); ret (Inr (cachedClient, hostNamespace)) })
             }))
   }"

definition GetHostClient :: "henv \<Rightarrow> (err + host_client) hprog" where
  "GetHostClient E = do { c \<leftarrow> get_mem; case c of None \<Rightarrow> init E | Some c \<Rightarrow> ret (Inr c) }"

section \<open>Routes\<close>

text \<open>The TLS configuration of a route is nil or a value, which is empty or not.\<close>

definition route_url :: "string \<Rightarrow> string \<Rightarrow> bool option \<Rightarrow> string" where
  "route_url host path tls_empty =
     (let scheme = (if tls_empty = None \<or> tls_empty = Some True then ''http'' else ''https'');
          path = (if \<not> prefix ''/'' path then ''/'' @ path else path)
      in scheme @ ''://'' @ host @ path)"

definition GetRouteURL :: "(string \<Rightarrow> string \<Rightarrow> err + string \<times> string \<times> bool option) \<Rightarrow> string \<Rightarrow> string \<Rightarrow> err + string" where
  "GetRouteURL get_route namespace name =
     (case get_route namespace name of Inl e \<Rightarrow> Inl e | Inr (host, path, tls) \<Rightarrow> Inr (route_url host path tls))"

section \<open>Log lines\<close>

datatype severity = InfoDepth | WarningDepth | ErrorDepth | FatalDepth

definition DefaultPrefixLength :: nat where
  "DefaultPrefixLength = 53"

text \<open>How a line of klog v1 is logged again, and the number of bytes written.\<close>

definition klog_write :: "string \<Rightarrow> (severity \<times> string) \<times> nat" where
  "klog_write p =
     (if length p < DefaultPrefixLength then ((InfoDepth, p), length p)
      else ((if p ! 0 = CHR ''I'' then InfoDepth else if p ! 0 = CHR ''W'' then WarningDepth
             else if p ! 0 = CHR ''E'' then ErrorDepth else if p ! 0 = CHR ''F'' then FatalDepth
             else InfoDepth, drop DefaultPrefixLength p), length p))"

section \<open>Metrics\<close>

definition shortCommit :: "string \<Rightarrow> string" where
  "shortCommit commit = (if length commit > 7 then take 7 commit else commit)"

section \<open>Bodies of responses\<close>

text \<open>
  \<open>pkg/utils/rest\<close>: a body yields texts until the end or an error, which \<open>ReadFrom\<close> and \<open>io.Copy\<close> read up to and including it; an absent
  response is left alone.
\<close>

datatype read_result = Chunk string | EndOfBody | ReadError err

record body =
  bd_rest :: "read_result list"
  bd_closed :: bool

fun read_all :: "read_result list \<Rightarrow> string \<times> err option \<times> read_result list" where
  "read_all [] = ([], None, [])"
| "read_all (EndOfBody # rs) = ([], None, rs)"
| "read_all (ReadError e # rs) = ([], Some e, rs)"
| "read_all (Chunk s # rs) = (let (t, e, rest) = read_all rs in (s @ t, e, rest))"

definition ReadBody :: "body \<Rightarrow> (string \<times> err option) \<times> body" where
  "ReadBody b = (let (t, e, rest) = read_all (bd_rest b) in ((t, e), b\<lparr>bd_rest := rest\<rparr>))"

definition CloseResponse :: "body option \<Rightarrow> body option" where
  "CloseResponse res =
     (case res of None \<Rightarrow> None | Some b \<Rightarrow> Some ((snd (ReadBody b))\<lparr>bd_closed := True\<rparr>))"

lemma read_chunks: "read_all (map Chunk ts @ rs) = (let (t, e, rest) = read_all rs in (concat ts @ t, e, rest))"
  by (induction ts) (auto split: prod.splits)

text \<open>What came before an error is returned with it; closing reads all that a body without errors has.\<close>

lemma ReadBody_failed:
  "ReadBody \<lparr>bd_rest = map Chunk ts @ ReadError e # rs, bd_closed = c\<rparr> = ((concat ts, Some e), \<lparr>bd_rest = rs, bd_closed = c\<rparr>)"
  by (simp add: ReadBody_def read_chunks)

lemma CloseResponse_drains:
  "CloseResponse (Some \<lparr>bd_rest = map Chunk ts @ [EndOfBody], bd_closed = False\<rparr>) = Some \<lparr>bd_rest = [], bd_closed = True\<rparr>"
  by (simp add: CloseResponse_def ReadBody_def read_chunks)

section \<open>What is cached\<close>

lemma sync_resources_wp:
  "wp (sync_resources E cl ns rs) (\<lambda>e s'. mem s' = mem s \<and> (\<exists>t. calls s' = calls s @ t) \<and>
     (e = None \<longrightarrow> (\<forall>r \<in> set rs. (ListResource cl r ns, True) \<in> set (calls s')))) s"
proof (induction rs arbitrary: s)
  case (Cons r rs)
  show ?case
    unfolding sync_resources.simps wp_unless_err wp_call_err
    by (cases "he_list E (calls s) cl r ns") (auto intro!: wp_mono [OF Cons.IH])
qed (simp add: wp_return)

text \<open>
  Only a client whose cache holds both resources is kept: when it is handed out for the first time, both lists
  have succeeded; a failure leaves nothing behind, so the next call tries again; and once kept, the client is handed
  out without any call.
\<close>

theorem host_client_is_synced:
  assumes "\<forall>h. set (he_order E h) = objectsToList" and "run_state (GetHostClient E) s = (r, s')"
  shows "case (mem s, r) of
      (Some c, _) \<Rightarrow> r = Inr c \<and> s' = s
    | (None, Inl e) \<Rightarrow> mem s' = None
    | (None, Inr (cl, ns)) \<Rightarrow> mem s' = Some (cl, ns) \<and> (\<forall>x \<in> objectsToList. (ListResource cl x ns, True) \<in> set (calls s')) \<and>
        run_state (GetHostClient E) s' = (Inr (cl, ns), s')"
proof (cases "mem s")
  case None
  have "wp (init E) (\<lambda>r s'. case r of Inl e \<Rightarrow> mem s' = None
      | Inr (cl, ns) \<Rightarrow> mem s' = Some (cl, ns) \<and> (\<forall>x \<in> objectsToList. (ListResource cl x ns, True) \<in> set (calls s'))) s"
    unfolding init_def using None assms(1)
    by (auto simp: wp_simps split: option.split sum.split intro!: wp_mono [OF sync_resources_wp])
  with assms(2) None show ?thesis
    by (auto simp: GetHostClient_def wp_def split: sum.splits prod.splits)
next
  case (Some c)
  with assms(2) show ?thesis by (simp add: GetHostClient_def)
qed

end
