(* ===== verification/Processes.thy ===== *)
theory Processes
  imports Go_Prelude
begin

text \<open>
  Go processes: goroutines that call libraries which may block, fail and answer in any way, start further goroutines and
  end the process.  A goroutine is a tree of calls, each continued with the answer; a process is a list of goroutines,
  the first of them \<open>main\<close>, that take steps in any order.  The theory has the step relation, the reachable
  states and the two invariants by which the start-up code is verified: what was called before what, and that a failed
  call is the last one of its goroutine.
\<close>

section \<open>Goroutines and processes\<close>

text \<open>\<open>Go t k\<close> starts \<open>t\<close> and goes on with \<open>k\<close>; \<open>Exit\<close> is \<open>os.Exit\<close> or a panic.\<close>

datatype ('c, 'v) goroutine =
    Return
  | Exit nat
  | Do 'c "err + 'v \<Rightarrow> ('c, 'v) goroutine"
  | Go "('c, 'v) goroutine" "('c, 'v) goroutine"

text \<open>A call whose error ends the process with status 1, and a call that panics on an error.\<close>

definition or_exit :: "'c \<Rightarrow> ('v \<Rightarrow> ('c, 'v) goroutine) \<Rightarrow> ('c, 'v) goroutine" where
  "or_exit c k = Do c (\<lambda>r. case r of Inl e \<Rightarrow> Exit 1 | Inr v \<Rightarrow> k v)"

definition or_panic :: "'c \<Rightarrow> ('v \<Rightarrow> ('c, 'v) goroutine) \<Rightarrow> ('c, 'v) goroutine" where
  "or_panic c k = Do c (\<lambda>r. case r of Inl e \<Rightarrow> Exit 2 | Inr v \<Rightarrow> k v)"

datatype ('c, 'v) event = Called 'c | Returned 'c "err + 'v"

text \<open>Each goroutine with whether the call it is at is under way.\<close>

record ('c, 'v) process =
  threads :: "(('c, 'v) goroutine \<times> bool) list"
  hist :: "(nat \<times> ('c, 'v) event) list"
  exit_status :: "nat option"

type_synonym ('c, 'v) events = "(nat \<times> ('c, 'v) event) list"

text \<open>
  \<open>W h c r\<close>: after the events \<open>h\<close> the call \<open>c\<close> may return \<open>r\<close>; a call that may not return anything yet blocks.  When
  \<open>main\<close> returns, the process ends, whatever the other goroutines are doing.
\<close>

inductive pstep :: "(('c, 'v) events \<Rightarrow> 'c \<Rightarrow> err + 'v \<Rightarrow> bool) \<Rightarrow> ('c, 'v) process \<Rightarrow> ('c, 'v) process \<Rightarrow> bool" for W where
  call_begins: "exit_status s = None \<Longrightarrow> i < length (threads s) \<Longrightarrow> threads s ! i = (Do c k, False) \<Longrightarrow>
     pstep W s (s\<lparr>threads := (threads s)[i := (Do c k, True)], hist := hist s @ [(i, Called c)]\<rparr>)"
| call_returns: "exit_status s = None \<Longrightarrow> i < length (threads s) \<Longrightarrow> threads s ! i = (Do c k, True) \<Longrightarrow> W (hist s) c r \<Longrightarrow>
     pstep W s (s\<lparr>threads := (threads s)[i := (k r, False)], hist := hist s @ [(i, Returned c r)]\<rparr>)"
| spawn: "exit_status s = None \<Longrightarrow> i < length (threads s) \<Longrightarrow> threads s ! i = (Go t k, False) \<Longrightarrow>
     pstep W s (s\<lparr>threads := (threads s)[i := (k, False)] @ [(t, False)]\<rparr>)"
| exits: "exit_status s = None \<Longrightarrow> i < length (threads s) \<Longrightarrow> threads s ! i = (Exit n, False) \<Longrightarrow> pstep W s (s\<lparr>exit_status := Some n\<rparr>)"
| main_returns: "exit_status s = None \<Longrightarrow> threads s \<noteq> [] \<Longrightarrow> threads s ! 0 = (Return, False) \<Longrightarrow> pstep W s (s\<lparr>exit_status := Some 0\<rparr>)"

inductive_cases pstepE: "pstep W s t"

definition started :: "('c, 'v) goroutine \<Rightarrow> ('c, 'v) process" where
  "started main = \<lparr>threads = [(main, False)], hist = [], exit_status = None\<rparr>"

inductive reachable :: "(('c, 'v) events \<Rightarrow> 'c \<Rightarrow> err + 'v \<Rightarrow> bool) \<Rightarrow> ('c, 'v) goroutine \<Rightarrow> ('c, 'v) process \<Rightarrow> bool" for W main where
  start: "reachable W main (started main)"
| step: "reachable W main s \<Longrightarrow> pstep W s t \<Longrightarrow> reachable W main t"

text \<open>An ended process stays as it is, and an answer is one the environment gives.\<close>

lemma ended: "pstep W s t \<Longrightarrow> exit_status s = None"
  by (auto elim: pstepE)

section \<open>What was called before what\<close>

type_synonym ('c, 'v) answers = "('c \<times> 'v) set"

definition answered :: "nat \<Rightarrow> ('c, 'v) events \<Rightarrow> ('c, 'v) answers" where
  "answered i h = {(c, v). (i, Returned c (Inr v)) \<in> set h}"

lemma answered_simps [simp]:
  "answered i [] = {}"
  "answered i (h @ [(j, Called c)]) = answered i h"
  "answered i (h @ [(j, Returned c (Inl e))]) = answered i h"
  "answered i (h @ [(j, Returned c (Inr v))]) = (if i = j then insert (c, v) (answered i h) else answered i h)"
  by (auto simp: answered_def)

text \<open>
  \<open>orderly req fin b D t\<close>: whatever the calls answer, \<open>t\<close> makes a call \<open>c\<close> only when \<open>req c\<close> holds of the answers it has had by
  then, \<open>D\<close> those so far; and \<open>main\<close> (\<open>b\<close>) returns, or ends the process with status 0, only when \<open>fin\<close> does.
\<close>

primrec orderly :: "('c \<Rightarrow> ('c, 'v) answers \<Rightarrow> bool) \<Rightarrow> (('c, 'v) answers \<Rightarrow> bool) \<Rightarrow> bool \<Rightarrow> ('c, 'v) answers \<Rightarrow>
    ('c, 'v) goroutine \<Rightarrow> bool" where
  "orderly req fin b D Return \<longleftrightarrow> (b \<longrightarrow> fin D)"
| "orderly req fin b D (Exit n) \<longleftrightarrow> (n = 0 \<longrightarrow> b \<and> fin D)"
| "orderly req fin b D (Do c k) \<longleftrightarrow> req c D \<and> (\<forall>r. orderly req fin b (case r of Inl e \<Rightarrow> D | Inr v \<Rightarrow> insert (c, v) D) (k r))"
| "orderly req fin b D (Go t k) \<longleftrightarrow> orderly req fin False {} t \<and> orderly req fin b D k"

lemma orderly_or_exit [simp]:
  "orderly req fin b D (or_exit c k) \<longleftrightarrow> req c D \<and> (\<forall>v. orderly req fin b (insert (c, v) D) (k v))"
  by (auto simp: or_exit_def split: sum.split)

lemma orderly_or_panic [simp]:
  "orderly req fin b D (or_panic c k) \<longleftrightarrow> req c D \<and> (\<forall>v. orderly req fin b (insert (c, v) D) (k v))"
  by (auto simp: or_panic_def split: sum.split)

definition in_order :: "(('c, 'v) events \<Rightarrow> 'c \<Rightarrow> err + 'v \<Rightarrow> bool) \<Rightarrow> ('c \<Rightarrow> ('c, 'v) answers \<Rightarrow> bool) \<Rightarrow> ('c, 'v) events \<Rightarrow> bool" where
  "in_order W req h \<longleftrightarrow> (\<forall>h1 i e h2. h = h1 @ (i, e) # h2 \<longrightarrow>
     (case e of Called c \<Rightarrow> req c (answered i h1) | Returned c r \<Rightarrow> (i, Called c) \<in> set h1 \<and> W h1 c r))"

lemma in_order_Nil: "in_order W req []"
  by (simp add: in_order_def)

lemma in_order_snoc:
  assumes "in_order W req h" and "case e of Called c \<Rightarrow> req c (answered i h) | Returned c r \<Rightarrow> (i, Called c) \<in> set h \<and> W h c r"
  shows "in_order W req (h @ [(i, e)])"
  unfolding in_order_def
proof (intro allI impI)
  fix h1 j e' h2
  assume eq: "h @ [(i, e)] = h1 @ (j, e') # h2"
  show "case e' of Called c \<Rightarrow> req c (answered j h1) | Returned c r \<Rightarrow> (j, Called c) \<in> set h1 \<and> W h1 c r"
  proof (cases h2 rule: rev_cases)
    case Nil
    with eq have "h = h1" "i = j" "e = e'" by simp_all
    with assms(2) show ?thesis by auto
  next
    case (snoc ys y)
    with eq have "h = h1 @ (j, e') # ys" by simp
    with assms(1) show ?thesis unfolding in_order_def by blast
  qed
qed

text \<open>The invariant: the history is in order, every goroutine is from here on, and a call under way was begun.\<close>

definition orderly_state :: "(('c, 'v) events \<Rightarrow> 'c \<Rightarrow> err + 'v \<Rightarrow> bool) \<Rightarrow> ('c \<Rightarrow> ('c, 'v) answers \<Rightarrow> bool) \<Rightarrow>
    (('c, 'v) answers \<Rightarrow> bool) \<Rightarrow> ('c, 'v) process \<Rightarrow> bool" where
  "orderly_state W req fin s \<longleftrightarrow> in_order W req (hist s) \<and> threads s \<noteq> [] \<and>
     (\<forall>i < length (threads s). orderly req fin (i = 0) (answered i (hist s)) (fst (threads s ! i)) \<and>
        (\<forall>c k. threads s ! i = (Do c k, True) \<longrightarrow> (i, Called c) \<in> set (hist s))) \<and>
     (\<forall>(i, e) \<in> set (hist s). i < length (threads s)) \<and>
     (exit_status s = Some 0 \<longrightarrow> fin (answered 0 (hist s)))"

lemma orderly_stateD:
  assumes "orderly_state W req fin s"
  shows "in_order W req (hist s)" and "i < length (threads s) \<Longrightarrow> orderly req fin (i = 0) (answered i (hist s)) (fst (threads s ! i))"
    and "i < length (threads s) \<Longrightarrow> threads s ! i = (Do c k, True) \<Longrightarrow> (i, Called c) \<in> set (hist s)"
    and "(i, e) \<in> set (hist s) \<Longrightarrow> i < length (threads s)"
  using assms by (auto simp: orderly_state_def)

lemma answered_other: "i \<noteq> j \<Longrightarrow> answered j (h @ [(i, e)]) = answered j h"
  by (auto simp: answered_def)

lemma answered_next: "answered i (h @ [(i, Returned c r)]) = (case r of Inl e \<Rightarrow> answered i h | Inr v \<Rightarrow> insert (c, v) (answered i h))"
  by (cases r) simp_all

text \<open>One goroutine moves, the others stay.\<close>

lemma orderly_move:
  assumes "orderly_state W req fin s" and "exit_status s = None" and "i < length (threads s)"
    and "in_order W req (hist s @ [(i, e)])" and "orderly req fin (i = 0) (answered i (hist s @ [(i, e)])) t"
    and "\<And>c k. b \<Longrightarrow> t = Do c k \<Longrightarrow> e = Called c"
  shows "orderly_state W req fin (s\<lparr>threads := (threads s)[i := (t, b)], hist := hist s @ [(i, e)]\<rparr>)"
proof -
  have "orderly req fin (j = 0) (answered j (hist s @ [(i, e)])) (fst ((threads s)[i := (t, b)] ! j)) \<and>
      (\<forall>c k. (threads s)[i := (t, b)] ! j = (Do c k, True) \<longrightarrow> (j, Called c) \<in> set (hist s @ [(i, e)]))"
    if "j < length (threads s)" for j
    using orderly_stateD(2,3) [OF assms(1) that] assms(3,5,6) by (cases "i = j") (auto simp: answered_other)
  with assms show ?thesis by (auto simp: orderly_state_def)
qed

lemma pstep_orderly:
  assumes "pstep W s t" and s: "orderly_state W req fin s"
  shows "orderly_state W req fin t"
  using assms(1)
proof cases
  case (call_begins i c k)
  with orderly_stateD(2) [OF s, of i] have "orderly req fin (i = 0) (answered i (hist s)) (Do c k)" by simp
  with call_begins show ?thesis
    by (auto intro!: orderly_move [OF s] in_order_snoc [OF orderly_stateD(1) [OF s]])
next
  case (call_returns i c k r)
  with orderly_stateD(2) [OF s, of i] have "orderly req fin (i = 0) (answered i (hist s)) (Do c k)" by simp
  moreover have "(i, Called c) \<in> set (hist s)" using call_returns orderly_stateD(3) [OF s, of i c k] by simp
  ultimately show ?thesis
    using call_returns
    by (auto simp: answered_next intro!: orderly_move [OF s] in_order_snoc [OF orderly_stateD(1) [OF s]])
next
  case (spawn i g k)
  with orderly_stateD(2) [OF s, of i] have "orderly req fin False {} g" "orderly req fin (i = 0) (answered i (hist s)) k" by simp_all
  moreover have "answered (length (threads s)) (hist s) = {}"
    using orderly_stateD(4) [OF s] by (auto simp: answered_def)
  moreover have "threads s \<noteq> []" using spawn(3) by auto
  ultimately show ?thesis
    using spawn s by (auto simp: orderly_state_def nth_append nth_list_update less_Suc_eq)
next
  case (exits i n)
  have "orderly req fin (i = 0) (answered i (hist s)) (Exit n)" using orderly_stateD(2) [OF s exits(3)] unfolding exits(4) fst_conv .
  then have "n = 0 \<longrightarrow> fin (answered 0 (hist s))" by (cases "i = 0") simp_all
  with exits s show ?thesis by (simp add: orderly_state_def)
next
  case main_returns
  with orderly_stateD(2) [OF s, of 0] s show ?thesis by (simp add: orderly_state_def)
qed

theorem reachable_orderly:
  assumes "reachable W main s" and "orderly req fin True {} main"
  shows "orderly_state W req fin s"
  using assms(1)
proof induction
  case start
  show ?case using assms(2) by (simp add: orderly_state_def started_def in_order_Nil)
next
  case (step s t)
  then show ?case by (blast intro: pstep_orderly)
qed

text \<open>What the invariant says of the history.\<close>

lemma called_after:
  assumes "reachable W main s" and "orderly req fin True {} main" and "hist s = h1 @ (i, Called c) # h2"
  shows "req c (answered i h1)"
proof -
  from orderly_stateD(1) [OF reachable_orderly [OF assms(1,2)]] assms(3)
  have "case Called c of Called c \<Rightarrow> req c (answered i h1) | Returned c r \<Rightarrow> (i, Called c) \<in> set h1 \<and> W h1 c r"
    unfolding in_order_def by blast
  then show ?thesis by simp
qed

lemma returned_after:
  assumes "reachable W main s" and "orderly req fin True {} main" and "hist s = h1 @ (i, Returned c r) # h2"
  shows "(i, Called c) \<in> set h1" and "W h1 c r"
proof -
  from orderly_stateD(1) [OF reachable_orderly [OF assms(1,2)]] assms(3)
  have "case Returned c r of Called c \<Rightarrow> req c (answered i h1) | Returned c r \<Rightarrow> (i, Called c) \<in> set h1 \<and> W h1 c r"
    unfolding in_order_def by blast
  then show "(i, Called c) \<in> set h1" "W h1 c r" by simp_all
qed

lemma success_after:
  assumes "reachable W main s" and "orderly req fin True {} main" and "exit_status s = Some 0"
  shows "fin (answered 0 (hist s))"
  using reachable_orderly [OF assms(1,2)] assms(3) by (simp add: orderly_state_def)

section \<open>Failures end the process\<close>

text \<open>An error of a fatal call leaves its goroutine nothing but to end the process with a status other than zero.\<close>

primrec fails_fast :: "('c \<Rightarrow> bool) \<Rightarrow> ('c, 'v) goroutine \<Rightarrow> bool" where
  "fails_fast fatal Return \<longleftrightarrow> True"
| "fails_fast fatal (Exit n) \<longleftrightarrow> True"
| "fails_fast fatal (Do c k) \<longleftrightarrow> (fatal c \<longrightarrow> (\<forall>e. \<exists>n. n \<noteq> 0 \<and> k (Inl e) = Exit n)) \<and> (\<forall>r. fails_fast fatal (k r))"
| "fails_fast fatal (Go t k) \<longleftrightarrow> fails_fast fatal t \<and> fails_fast fatal k"

lemma fails_fast_or_exit [simp]: "fails_fast fatal (or_exit c k) \<longleftrightarrow> (\<forall>v. fails_fast fatal (k v))"
  by (auto simp: or_exit_def split: sum.split)

lemma fails_fast_or_panic [simp]: "fails_fast fatal (or_panic c k) \<longleftrightarrow> (\<forall>v. fails_fast fatal (k v))"
  by (auto simp: or_panic_def split: sum.split)

definition failed_end :: "('c \<Rightarrow> bool) \<Rightarrow> ('c, 'v) process \<Rightarrow> bool" where
  "failed_end fatal s \<longleftrightarrow> (\<forall>i < length (threads s). fails_fast fatal (fst (threads s ! i))) \<and>
     (\<forall>i c e. (i, Returned c (Inl e)) \<in> set (hist s) \<and> fatal c \<longrightarrow>
        i < length (threads s) \<and> (\<exists>n. n \<noteq> 0 \<and> threads s ! i = (Exit n, False)))"

lemma pstep_failed: "pstep W s t \<Longrightarrow> failed_end fatal s \<Longrightarrow> failed_end fatal t"
proof (induction rule: pstep.induct)
  case (call_begins s i c k)
  then show ?case by (fastforce simp: failed_end_def nth_list_update)
next
  case (call_returns s i c k r)
  then have ff: "fails_fast fatal (Do c k)" unfolding failed_end_def by (metis fst_conv)
  have "fails_fast fatal (fst ((threads s)[i := (k r, False)] ! j))" if "j < length (threads s)" for j
    using call_returns ff that by (simp add: failed_end_def nth_list_update)
  moreover have "j < length (threads s) \<and> (\<exists>n. n \<noteq> 0 \<and> (threads s)[i := (k r, False)] ! j = (Exit n, False))"
    if "(j, Returned d (Inl e)) \<in> set (hist s @ [(i, Returned c r)])" "fatal d" for j d e
  proof (cases "(j, Returned d (Inl e)) \<in> set (hist s)")
    case True
    with call_returns that have j: "j < length (threads s)" "\<exists>n. n \<noteq> 0 \<and> threads s ! j = (Exit n, False)"
      unfolding failed_end_def by blast+
    with call_returns(3) have "j \<noteq> i" by auto
    with j show ?thesis by simp
  next
    case False
    with that have "j = i" "d = c" "r = Inl e" by auto
    with ff that call_returns(2) show ?thesis by auto
  qed
  moreover have "threads (s\<lparr>threads := ts, hist := h\<rparr>) = ts" "hist (s\<lparr>threads := ts, hist := h\<rparr>) = h" for ts h by simp_all
  ultimately show ?case unfolding failed_end_def by (simp only: length_list_update) blast
next
  case (spawn s i g k)
  then show ?case by (fastforce simp: failed_end_def nth_append nth_list_update less_Suc_eq)
next
  case (exits s i n)
  then show ?case by (simp add: failed_end_def)
next
  case (main_returns s)
  then show ?case by (simp add: failed_end_def)
qed

theorem failed_call_ends:
  assumes "reachable W main s" and "fails_fast fatal main" and "(i, Returned c (Inl e)) \<in> set (hist s)" and "fatal c"
  shows "\<exists>n. n \<noteq> 0 \<and> threads s ! i = (Exit n, False)"
proof -
  from assms(1) have "failed_end fatal s"
  proof induction
    case start
    show ?case using assms(2) by (simp add: failed_end_def started_def)
  next
    case (step s t)
    then show ?case by (blast intro: pstep_failed)
  qed
  with assms(3,4) show ?thesis unfolding failed_end_def by blast
qed


text \<open>
  Nothing but certain answers do: \<open>cause c r\<close> tells whether the answer \<open>r\<close> of the call \<open>c\<close> is a reason to end the process with a status other than
  zero, \<open>f\<close> whether the goroutine has had such an answer.
\<close>

primrec justified :: "('c \<Rightarrow> err + 'v \<Rightarrow> bool) \<Rightarrow> bool \<Rightarrow> ('c, 'v) goroutine \<Rightarrow> bool" where
  "justified cause f Return \<longleftrightarrow> True"
| "justified cause f (Exit n) \<longleftrightarrow> (n \<noteq> 0 \<longrightarrow> f)"
| "justified cause f (Do c k) \<longleftrightarrow> (\<forall>r. justified cause (f \<or> cause c r) (k r))"
| "justified cause f (Go t k) \<longleftrightarrow> justified cause False t \<and> justified cause f k"

lemma justified_or_exit [simp]:
  "(\<And>e. cause c (Inl e)) \<Longrightarrow> justified cause f (or_exit c k) \<longleftrightarrow> (\<forall>v. justified cause (f \<or> cause c (Inr v)) (k v))"
  by (auto simp: or_exit_def split: sum.split)

lemma justified_or_panic [simp]:
  "(\<And>e. cause c (Inl e)) \<Longrightarrow> justified cause f (or_panic c k) \<longleftrightarrow> (\<forall>v. justified cause (f \<or> cause c (Inr v)) (k v))"
  by (auto simp: or_panic_def split: sum.split)

definition cause_seen :: "('c \<Rightarrow> err + 'v \<Rightarrow> bool) \<Rightarrow> ('c, 'v) events \<Rightarrow> bool" where
  "cause_seen cause h \<longleftrightarrow> (\<exists>i c r. (i, Returned c r) \<in> set h \<and> cause c r)"

lemma justified_mono: "justified cause f t \<Longrightarrow> (f \<Longrightarrow> f') \<Longrightarrow> justified cause f' t"
proof (induction t arbitrary: f f')
  case (Do c k)
  then show ?case by (auto intro: Do.IH [OF rangeI])
qed auto

lemma nth_upd: "j < length xs \<Longrightarrow> xs[i := x] ! j = (if i = j then x else xs ! j)"
  by auto

definition justified_end :: "('c \<Rightarrow> err + 'v \<Rightarrow> bool) \<Rightarrow> ('c, 'v) process \<Rightarrow> bool" where
  "justified_end cause s \<longleftrightarrow> (\<forall>i < length (threads s). justified cause (cause_seen cause (hist s)) (fst (threads s ! i))) \<and>
     (\<forall>n. exit_status s = Some n \<and> n \<noteq> 0 \<longrightarrow> cause_seen cause (hist s))"

lemma justified_move:
  assumes "justified_end cause s" and "exit_status s = None" and "justified cause (cause_seen cause (hist s @ h)) t"
  shows "justified_end cause (s\<lparr>threads := (threads s)[i := (t, b)], hist := hist s @ h\<rparr>)"
proof -
  have "justified cause (cause_seen cause (hist s @ h)) (fst (threads s ! j))" if "j < length (threads s)" for j
  proof (rule justified_mono)
    show "justified cause (cause_seen cause (hist s)) (fst (threads s ! j))" using assms(1) that by (simp add: justified_end_def)
    show "cause_seen cause (hist s @ h)" if "cause_seen cause (hist s)" using that by (auto simp: cause_seen_def)
  qed
  with assms(2,3) show ?thesis by (simp add: justified_end_def nth_upd)
qed

lemma pstep_justified:
  assumes "pstep W s t" and s: "justified_end cause s"
  shows "justified_end cause t"
  using assms(1)
proof cases
  case (call_begins i c k)
  with s have "justified cause (cause_seen cause (hist s)) (Do c k)" unfolding justified_end_def by (metis fst_conv)
  then have "justified cause (cause_seen cause (hist s @ [(i, Called c)])) (Do c k)"
    by (rule justified_mono) (auto simp: cause_seen_def)
  with call_begins show ?thesis by (auto intro: justified_move [OF s])
next
  case (call_returns i c k r)
  with s have "justified cause (cause_seen cause (hist s)) (Do c k)" unfolding justified_end_def by (metis fst_conv)
  then have "justified cause (cause_seen cause (hist s) \<or> cause c r) (k r)" by simp
  then have "justified cause (cause_seen cause (hist s @ [(i, Returned c r)])) (k r)"
    by (rule justified_mono) (cases r; auto simp: cause_seen_def)
  with call_returns show ?thesis by (auto intro: justified_move [OF s])
next
  case (spawn i g k)
  with s have go: "justified cause (cause_seen cause (hist s)) (Go g k)" unfolding justified_end_def by (metis fst_conv)
  then have g: "justified cause (cause_seen cause (hist s)) g" by (metis justified.simps(4) justified_mono)
  have "justified cause (cause_seen cause (hist s)) (fst (((threads s)[i := (k, False)] @ [(g, False)]) ! j))"
    if "j < Suc (length (threads s))" for j
  proof (cases "j < length (threads s)")
    case True
    then have "justified cause (cause_seen cause (hist s)) (fst (threads s ! j))" using s by (simp add: justified_end_def)
    with True go show ?thesis by (simp add: nth_append nth_upd)
  next
    case False
    with that g show ?thesis by (simp add: nth_append less_Suc_eq)
  qed
  with spawn s show ?thesis by (simp add: justified_end_def)
next
  case (exits i n)
  with s have "n \<noteq> 0 \<longrightarrow> cause_seen cause (hist s)" unfolding justified_end_def by (metis fst_conv justified.simps(2))
  with exits s show ?thesis by (simp add: justified_end_def)
next
  case main_returns
  with s show ?thesis by (simp add: justified_end_def)
qed

theorem ends_by_cause:
  assumes "reachable W main s" and "justified cause False main" and "exit_status s = Some n" and "n \<noteq> 0"
  shows "\<exists>i c r. (i, Returned c r) \<in> set (hist s) \<and> cause c r"
proof -
  from assms(1) have "justified_end cause s"
  proof induction
    case start
    show ?case using assms(2) by (simp add: justified_end_def started_def cause_seen_def)
  next
    case (step s t)
    then show ?case by (blast intro: pstep_justified)
  qed
  with assms(3,4) show ?thesis by (auto simp: justified_end_def cause_seen_def)
qed

section \<open>Running a process\<close>

text \<open>
  A scheduler for evaluating: it moves the goroutines in the given order, with the answers of a function (\<open>None\<close> for a
  call that blocks); a goroutine that cannot move is skipped.  What it reaches is reachable.
\<close>

definition advance :: "(('c, 'v) events \<Rightarrow> 'c \<Rightarrow> (err + 'v) option) \<Rightarrow> nat \<Rightarrow> ('c, 'v) process \<Rightarrow> ('c, 'v) process" where
  "advance srv i s =
     (if exit_status s \<noteq> None \<or> i \<ge> length (threads s) then s
      else case threads s ! i of
          (Do c k, False) \<Rightarrow> s\<lparr>threads := (threads s)[i := (Do c k, True)], hist := hist s @ [(i, Called c)]\<rparr>
        | (Do c k, True) \<Rightarrow> (case srv (hist s) c of None \<Rightarrow> s
             | Some r \<Rightarrow> s\<lparr>threads := (threads s)[i := (k r, False)], hist := hist s @ [(i, Returned c r)]\<rparr>)
        | (Go t k, False) \<Rightarrow> s\<lparr>threads := (threads s)[i := (k, False)] @ [(t, False)]\<rparr>
        | (Exit n, False) \<Rightarrow> s\<lparr>exit_status := Some n\<rparr>
        | (Return, False) \<Rightarrow> (if i = 0 then s\<lparr>exit_status := Some 0\<rparr> else s)
        | _ \<Rightarrow> s)"

fun schedule :: "(('c, 'v) events \<Rightarrow> 'c \<Rightarrow> (err + 'v) option) \<Rightarrow> nat list \<Rightarrow> ('c, 'v) process \<Rightarrow> ('c, 'v) process" where
  "schedule srv [] s = s"
| "schedule srv (i # is) s = schedule srv is (advance srv i s)"

lemma advance_step:
  assumes "\<And>h c r. srv h c = Some r \<Longrightarrow> W h c r"
  shows "advance srv i s = s \<or> pstep W s (advance srv i s)"
proof -
  obtain g b where g: "threads s ! i = (g, b)" by (cases "threads s ! i")
  show ?thesis
  proof (cases "exit_status s \<noteq> None \<or> i \<ge> length (threads s)")
    case False
    then have i: "exit_status s = None" "i < length (threads s)" by simp_all
    show ?thesis
    proof (cases g)
      case Return
      with i g show ?thesis by (cases b) (auto simp: advance_def intro!: pstep.main_returns)
    next
      case (Do c k)
      with i g assms show ?thesis
        by (cases b) (auto simp: advance_def split: option.split intro!: pstep.call_begins pstep.call_returns)
    next
      case (Exit n)
      with i g show ?thesis by (cases b) (auto simp: advance_def intro!: pstep.exits)
    next
      case (Go t k)
      with i g show ?thesis by (cases b) (auto simp: advance_def intro!: pstep.spawn)
    qed
  qed (simp add: advance_def)
qed

lemma schedule_reachable:
  assumes "\<And>h c r. srv h c = Some r \<Longrightarrow> W h c r" and "reachable W main s"
  shows "reachable W main (schedule srv is s)"
  using assms(2)
proof (induction "is" arbitrary: s)
  case (Cons i "is")
  from advance_step [of srv W i s, OF assms(1)] Cons.prems have "reachable W main (advance srv i s)"
    by (metis reachable.step)
  then show ?case by (simp add: Cons.IH)
qed simp

end
