(* ===== verification/Startup.thy ===== *)
theory Startup
  imports Processes
begin

text \<open>
  What the start-up code of the operator and of the webhook server share: the registration of the API types (\<open>pkg/apis\<close>) and the
  redirection of klog v1.
\<close>

text \<open>
  \<open>AddToScheme\<close> of a scheme builder calls its functions in order and stops at the first error (\<open>pkg/apis\<close>); the continuation is told.
\<close>

fun add_all :: "(string \<Rightarrow> 'c) \<Rightarrow> string list \<Rightarrow> (err option \<Rightarrow> ('c, 'v) goroutine) \<Rightarrow> ('c, 'v) goroutine" where
  "add_all mk [] k = k None"
| "add_all mk (f # fs) k = Do (mk f) (\<lambda>r. case r of Inl e \<Rightarrow> k (Some e) | Inr v \<Rightarrow> add_all mk fs k)"

definition addToSchemes :: "string list" where
  "addToSchemes = [''toolchainv1alpha1'', ''userv1'', ''templatev1'', ''projectv1'', ''authv1'', ''quotav1'', ''extensionsv1'',
     ''rbacv1'', ''corev1'', ''appsv1'', ''openshiftappsv1'', ''batchv1'', ''metrics'', ''routev1'', ''admissionregistrationv1'',
     ''schedulingv1'']"

definition apis_AddToScheme :: "(string \<Rightarrow> 'c) \<Rightarrow> (err option \<Rightarrow> ('c, 'v) goroutine) \<Rightarrow> ('c, 'v) goroutine" where
  "apis_AddToScheme mk k = add_all mk addToSchemes k"

text \<open>The redirection of klog v1, which the webhook server shares.\<close>

definition klog_redirect :: "(string \<Rightarrow> string \<Rightarrow> 'c) \<Rightarrow> ('c, 'v) goroutine \<Rightarrow> ('c, 'v) goroutine" where
  "klog_redirect setf k =
     or_exit (setf ''logtostderr'' ''false'') (\<lambda>_. or_exit (setf ''stderrthreshold'' ''FATAL'') (\<lambda>_. k))"

lemma orderly_add_all:
  assumes "\<And>f D. req (mk f) D" and "\<And>D' e. D \<subseteq> D' \<Longrightarrow> orderly req fin b D' (k e)"
  shows "orderly req fin b D (add_all mk fs k)"
  using assms(2)
proof (induction fs arbitrary: D)
  case (Cons f fs)
  show ?case
    by (auto split: sum.split intro!: assms(1) Cons.IH Cons.prems)
qed simp

lemma fails_fast_add_all:
  "\<lbrakk>\<And>e. \<exists>n. n \<noteq> 0 \<and> k (Some e) = Exit n; fails_fast fatal (k None)\<rbrakk> \<Longrightarrow> fails_fast fatal (add_all mk fs k)"
proof (induction fs)
  case (Cons f fs)
  then show ?case by (auto split: sum.split) (metis fails_fast.simps(2))
qed simp

lemma justified_add_all:
  assumes "\<And>e f. (\<exists>x. e = Some x) \<longrightarrow> f \<Longrightarrow> justified cause f (k e)" and "\<And>f e. cause (mk f) (Inl e)"
  shows "justified cause f (add_all mk fs k)"
proof (induction fs arbitrary: f)
  case (Cons g fs)
  then show ?case by (auto simp: assms split: sum.split)
qed (simp add: assms)

end
