(* ===== verification/OperatorMain.thy ===== *)
theory OperatorMain
  imports Startup MemberStatus
begin

text \<open>
  The operator process (\<open>cmd/main.go\<close>): what is registered when the package is loaded, and \<open>main\<close>, call by call, with the goroutine
  that creates the MemberStatus.  Handles (the configuration of the API server, clients, the manager) are numbers the
  libraries answer with.
\<close>

section \<open>Values and calls\<close>

record flags =
  metricsAddr :: string
  probeAddr :: string
  enableLeaderElection :: bool

datatype oval = Done | Ref nat | Str string | Flags flags | Config int

text \<open>The handle, text, configuration or flags of an answer; flags that are not given have their defaults.\<close>

fun ref :: "oval \<Rightarrow> nat" where
  "ref (Ref n) = n"
| "ref _ = 0"

fun str :: "oval \<Rightarrow> string" where
  "str (Str s) = s"
| "str _ = []"

fun health_check_timeout :: "oval \<Rightarrow> int" where
  "health_check_timeout (Config t) = t"
| "health_check_timeout _ = 0"

definition default_flags :: flags where
  "default_flags = \<lparr>metricsAddr = '':8080'', probeAddr = '':8081'', enableLeaderElection = False\<rparr>"

fun cmd :: "oval \<Rightarrow> flags" where
  "cmd (Flags f) = f"
| "cmd _ = default_flags"

text \<open>The options of the manager: the only cached namespace and the kinds that are not cached among them.\<close>

record manager_options =
  mo_metrics_addr :: string
  mo_namespaces :: "string list"
  mo_probe_addr :: string
  mo_leader_election :: bool
  mo_leader_election_id :: string
  mo_uncached :: "string list"

text \<open>
  The reconcilers with the fields \<open>main\<close> gives them: the manager whose client they use, the cluster whose client reads all
  namespaces, further clients, a namespace, a period.
\<close>

datatype controller =
    ToolchainClusterResources nat string string string
  | ToolchainClusterCache nat string int
  | ToolchainCluster nat int
  | IdlerReconciler nat nat nat nat nat nat string
  | MemberStatusReconciler nat nat
  | NSTemplateSetReconciler nat nat nat
  | UserAccountReconciler nat
  | MemberOperatorConfigReconciler nat

datatype ocall =
    AddToScheme string
  | MustRegister string
  | ParseFlags
  | KlogSet string string
  | GetConfig
  | GetWatchNamespace
  | NewClient nat
  | GetConfiguration nat
  | NewDiscoveryClient nat
  | NewManager nat manager_options
  | NewCluster nat
  | AddRunnable nat nat
  | NewKubernetesClient nat
  | GetAPIGroupResources nat
  | NewScalesClient nat nat
  | HTTPClientFor nat
  | RESTClientFor nat nat
  | NewDynamicClient nat
  | SetupWithManager nat controller
  | SetupSignalHandler
  | WaitForCacheSync nat nat
  | CreateMemberStatus nat string string
  | AddHealthzCheck nat string
  | AddReadyzCheck nat string
  | StartManager nat nat

type_synonym oproc = "(ocall, oval) goroutine"

section \<open>Loading the package\<close>

text \<open>\<open>utilruntime.Must\<close> panics on an error; so does the registration of a gauge.\<close>

definition must :: "('c, 'v) goroutine \<Rightarrow> err option \<Rightarrow> ('c, 'v) goroutine" where
  "must k e = (case e of Some e \<Rightarrow> Exit 2 | None \<Rightarrow> k)"

fun register_all :: "string list \<Rightarrow> oproc \<Rightarrow> oproc" where
  "register_all [] k = k"
| "register_all (v # vs) k = or_panic (MustRegister v) (\<lambda>_. register_all vs k)"

definition load_package :: "string list \<Rightarrow> oproc \<Rightarrow> oproc" where
  "load_package gauges k =
     or_panic (AddToScheme ''clientgoscheme'') (\<lambda>_. apis_AddToScheme AddToScheme (must (register_all gauges k)))"

section \<open>Main\<close>

text \<open>Functions that return a value or an error, continued with it.\<close>

definition then_call :: "ocall \<Rightarrow> (oval \<Rightarrow> (err + oval \<Rightarrow> oproc) \<Rightarrow> oproc) \<Rightarrow> (err + oval \<Rightarrow> oproc) \<Rightarrow> oproc" where
  "then_call c next k = Do c (\<lambda>r. case r of Inl e \<Rightarrow> k (Inl e) | Inr v \<Rightarrow> next v k)"

definition getCRTConfiguration :: "nat \<Rightarrow> (err + oval \<Rightarrow> oproc) \<Rightarrow> oproc" where
  "getCRTConfiguration config = then_call (NewClient config) (\<lambda>cl. Do (GetConfiguration (ref cl)))"

definition newRestClient :: "nat \<Rightarrow> (err + oval \<Rightarrow> oproc) \<Rightarrow> oproc" where
  "newRestClient config = then_call (HTTPClientFor config) (\<lambda>httpClient. Do (RESTClientFor config (ref httpClient)))"

definition newScalesClient :: "nat \<Rightarrow> (err + oval \<Rightarrow> oproc) \<Rightarrow> oproc" where
  "newScalesClient config = then_call (NewKubernetesClient config) (\<lambda>c.
     then_call (GetAPIGroupResources (ref c)) (\<lambda>groupResources. Do (NewScalesClient config (ref groupResources))))"

text \<open>\<open>if err != nil { os.Exit(1) }\<close>\<close>

definition check :: "(oval \<Rightarrow> oproc) \<Rightarrow> err + oval \<Rightarrow> oproc" where
  "check k r = (case r of Inl e \<Rightarrow> Exit 1 | Inr v \<Rightarrow> k v)"

definition MemberStatusName :: string where
  "MemberStatusName = ''toolchain-member-status''"

text \<open>The goroutine; a wait that returns false counts as failed.\<close>

definition create_member_status :: "nat \<Rightarrow> string \<Rightarrow> nat \<Rightarrow> oproc" where
  "create_member_status mgr namespace stopChannel =
     or_exit (WaitForCacheSync mgr stopChannel) (\<lambda>_.
     or_exit (CreateMemberStatus mgr namespace MemberStatusName) (\<lambda>_. Return))"

definition start_operator :: "nat \<Rightarrow> string \<Rightarrow> oproc" where
  "start_operator mgr namespace =
     or_exit SetupSignalHandler (\<lambda>stop. Go (create_member_status mgr namespace (ref stop))
       (or_exit (AddHealthzCheck mgr ''healthz'') (\<lambda>_.
        or_exit (AddReadyzCheck mgr ''readyz'') (\<lambda>_.
        or_exit (StartManager mgr (ref stop)) (\<lambda>_. Return)))))"

fun setup_all :: "nat \<Rightarrow> controller list \<Rightarrow> oproc \<Rightarrow> oproc" where
  "setup_all mgr [] k = k"
| "setup_all mgr (c # cs) k = or_exit (SetupWithManager mgr c) (\<lambda>_. setup_all mgr cs k)"

definition controllers :: "nat \<Rightarrow> nat \<Rightarrow> nat \<Rightarrow> nat \<Rightarrow> nat \<Rightarrow> nat \<Rightarrow> string \<Rightarrow> int \<Rightarrow> controller list" where
  "controllers mgr allNamespaces scales dyn discovery rest namespace timeout =
     [ToolchainClusterResources mgr ''toolchaincluster'' MemberOperatorFieldManager namespace,
      ToolchainClusterCache mgr namespace timeout,
      ToolchainCluster mgr (10 * 1000000000),
      IdlerReconciler mgr allNamespaces scales dyn discovery rest namespace,
      MemberStatusReconciler mgr allNamespaces,
      NSTemplateSetReconciler mgr allNamespaces discovery,
      UserAccountReconciler mgr,
      MemberOperatorConfigReconciler mgr]"

definition manager_of :: "flags \<Rightarrow> string \<Rightarrow> manager_options" where
  "manager_of f namespace =
     \<lparr>mo_metrics_addr = metricsAddr f, mo_namespaces = [namespace], mo_probe_addr = probeAddr f,
      mo_leader_election = enableLeaderElection f, mo_leader_election_id = ''2fc71baf.toolchain.member.operator'',
      mo_uncached = [''NodeMetrics'']\<rparr>"

definition main :: oproc where
  "main =
     or_panic ParseFlags (\<lambda>flags. klog_redirect KlogSet (
     or_exit GetConfig (\<lambda>cfg.
     or_exit GetWatchNamespace (\<lambda>namespace.
     getCRTConfiguration (ref cfg) (check (\<lambda>crtConfig.
     or_exit (NewDiscoveryClient (ref cfg)) (\<lambda>discoveryClient.
     or_exit (NewManager (ref cfg) (manager_of (cmd flags) (str namespace))) (\<lambda>mgr.
     or_exit (NewCluster (ref cfg)) (\<lambda>allNamespacesCluster.
     or_exit (AddRunnable (ref mgr) (ref allNamespacesCluster)) (\<lambda>_.
     newScalesClient (ref cfg) (check (\<lambda>scalesClient.
     newRestClient (ref cfg) (check (\<lambda>restClient.
     or_exit (NewDynamicClient (ref cfg)) (\<lambda>dynamicClient.
     setup_all (ref mgr) (controllers (ref mgr) (ref allNamespacesCluster) (ref scalesClient) (ref dynamicClient)
         (ref discoveryClient) (ref restClient) (str namespace) (health_check_timeout crtConfig))
       (start_operator (ref mgr) (str namespace)))))))))))))))))"

definition operator_process :: "string list \<Rightarrow> oproc" where
  "operator_process gauges = load_package gauges main"


section \<open>What comes before what\<close>

text \<open>
  The manager may be started: it was made for the configuration and the watched namespace that were read, the cluster of all namespaces
  was added to it, every controller was set up with them, and both checks were added.
\<close>

definition ready_to_start :: "nat \<Rightarrow> (ocall, oval) answers \<Rightarrow> bool" where
  "ready_to_start mgr D \<longleftrightarrow> (\<exists>cfg namespace opts allNamespaces scales dyn discovery rest crtConfig.
     (GetConfig, cfg) \<in> D \<and> (GetWatchNamespace, namespace) \<in> D \<and>
     (\<exists>v. (NewManager (ref cfg) opts, v) \<in> D \<and> ref v = mgr) \<and> mo_namespaces opts = [str namespace] \<and>
     (NewCluster (ref cfg), allNamespaces) \<in> D \<and> (\<exists>v. (AddRunnable mgr (ref allNamespaces), v) \<in> D) \<and>
     (\<forall>c \<in> set (controllers mgr (ref allNamespaces) scales dyn discovery rest (str namespace) (health_check_timeout crtConfig)).
        \<exists>v. (SetupWithManager mgr c, v) \<in> D) \<and>
     (\<exists>v. (AddHealthzCheck mgr ''healthz'', v) \<in> D) \<and> (\<exists>v. (AddReadyzCheck mgr ''readyz'', v) \<in> D))"

fun requires :: "ocall \<Rightarrow> (ocall, oval) answers \<Rightarrow> bool" where
  "requires (StartManager mgr stop) D = ready_to_start mgr D"
| "requires (CreateMemberStatus mgr ns n) D = (\<exists>stop v. (WaitForCacheSync mgr stop, v) \<in> D)"
| "requires c D = True"

definition manager_stopped :: "(ocall, oval) answers \<Rightarrow> bool" where
  "manager_stopped D \<longleftrightarrow> (\<exists>mgr stop v. (StartManager mgr stop, v) \<in> D)"

lemma orderly_setup_all:
  assumes "\<And>D'. D \<subseteq> D' \<Longrightarrow> (\<forall>c \<in> set cs. \<exists>v. (SetupWithManager mgr c, v) \<in> D') \<Longrightarrow> orderly requires fin b D' k"
  shows "orderly requires fin b D (setup_all mgr cs k)"
  using assms
proof (induction cs arbitrary: D)
  case (Cons c cs)
  show ?case
    by (auto intro!: Cons.IH Cons.prems)
qed simp

lemma orderly_register_all:
  assumes "\<And>D'. D \<subseteq> D' \<Longrightarrow> orderly requires fin b D' k"
  shows "orderly requires fin b D (register_all vs k)"
  using assms
proof (induction vs arbitrary: D)
  case (Cons v vs)
  show ?case
    by (auto intro!: Cons.IH Cons.prems)
qed simp

lemma orderly_create_member_status: "orderly requires fin False D (create_member_status mgr ns stop)"
  by (auto simp: create_member_status_def)

lemma orderly_start_operator:
  assumes "\<And>D'. D \<subseteq> D' \<Longrightarrow> \<exists>v. (AddHealthzCheck mgr ''healthz'', v) \<in> D' \<Longrightarrow> \<exists>v. (AddReadyzCheck mgr ''readyz'', v) \<in> D' \<Longrightarrow> ready_to_start mgr D'"
  shows "orderly requires manager_stopped True D (start_operator mgr ns)"
proof -
  have "manager_stopped (insert (StartManager mgr stop, v) D')" for stop v D' by (auto simp: manager_stopped_def)
  then show ?thesis
    by (auto simp: start_operator_def orderly_create_member_status intro!: assms)
qed

lemma orderly_then_call:
  assumes "requires c D" and "\<And>e. orderly requires fin b D (k (Inl e))"
    and "\<And>v. orderly requires fin b (insert (c, v) D) (next v k)"
  shows "orderly requires fin b D (then_call c next k)"
  using assms by (auto simp: then_call_def split: sum.split)

lemma orderly_check:
  "orderly requires fin b D (check k r) \<longleftrightarrow> (case r of Inl e \<Rightarrow> True | Inr v \<Rightarrow> orderly requires fin b D (k v))"
  by (simp add: check_def split: sum.split)

lemma ready_to_startI:
  assumes "(GetConfig, cfg) \<in> D" and "(GetWatchNamespace, namespace) \<in> D"
    and "(NewManager (ref cfg) (manager_of f (str namespace)), m) \<in> D" and "(NewCluster (ref cfg), a) \<in> D"
    and "(AddRunnable (ref m) (ref a), v) \<in> D"
    and "\<forall>c \<in> set (controllers (ref m) (ref a) scales dyn discovery rest (str namespace) (health_check_timeout crtConfig)).
      \<exists>v. (SetupWithManager (ref m) c, v) \<in> D"
    and "\<exists>v. (AddHealthzCheck (ref m) ''healthz'', v) \<in> D" and "\<exists>v. (AddReadyzCheck (ref m) ''readyz'', v) \<in> D"
  shows "ready_to_start (ref m) D"
proof -
  have "mo_namespaces (manager_of f (str namespace)) = [str namespace]" by (simp add: manager_of_def)
  with assms show ?thesis unfolding ready_to_start_def by blast
qed

lemma orderly_main: "orderly requires manager_stopped True D main"
  unfolding main_def klog_redirect_def getCRTConfiguration_def newRestClient_def newScalesClient_def then_call_def
proof (simp add: orderly_check split: sum.split, intro allI orderly_setup_all orderly_start_operator, goal_cases)
  case (1 flags v1 v2 cfg namespace x1 crtConfig discoveryClient mgr allNamespaces v3 x2 x3 scales x4 rest dyn D1 D2)
  note D1 = 1(1) [unfolded insert_subset] and D2 = subsetD [OF 1(3)]
  have c: "\<forall>c \<in> set (controllers (ref mgr) (ref allNamespaces) (ref scales) (ref dyn) (ref discoveryClient) (ref rest)
      (str namespace) (health_check_timeout crtConfig)). \<exists>v. (SetupWithManager (ref mgr) c, v) \<in> D2"
    using 1(2) D2 by blast
  show ?case
    by (rule ready_to_startI [OF _ _ _ _ _ c 1(4,5), where cfg = cfg and f = "cmd flags" and v = v3]; rule D2; simp only: D1)
qed

lemma orderly_operator: "orderly requires manager_stopped True {} (operator_process gauges)"
  unfolding operator_process_def load_package_def apis_AddToScheme_def
  by (auto simp: must_def split: option.split intro!: orderly_add_all orderly_register_all orderly_main)

section \<open>Failures\<close>

lemma fails_fast_setup_all: "fails_fast fatal (setup_all mgr cs k) = fails_fast fatal k"
  by (induction cs) auto

lemma fails_fast_register_all: "fails_fast fatal (register_all vs k) = fails_fast fatal k"
  by (induction vs) auto

lemma fails_fast_main: "fails_fast fatal main"
  unfolding main_def klog_redirect_def getCRTConfiguration_def newRestClient_def newScalesClient_def then_call_def
    start_operator_def create_member_status_def
  by (simp add: check_def fails_fast_setup_all split: sum.split)

lemma fails_fast_operator: "fails_fast fatal (operator_process gauges)"
  unfolding operator_process_def load_package_def apis_AddToScheme_def
  by (auto simp: must_def fails_fast_register_all fails_fast_main intro!: fails_fast_add_all)

end
