(* ===== verification/OperatorMainSpec.thy ===== *)
theory OperatorMainSpec
  imports OperatorMain
begin

text \<open>
  The properties of the operator process: what must have succeeded before the manager runs and before the MemberStatus is
  created, and how the process ends.
\<close>

text \<open>
  C8: the manager is started only after everything was set up for it: it was made for the configuration and watches the namespace that were
  read, the cluster of all namespaces was added to it, all eight controllers were set up and both checks added; the process
  ends with status 0 only after the manager stopped without an error; and whatever call fails, in \<open>main\<close> or in the goroutine, its
  goroutine can do nothing any more but end the process with another status.  (Exits that a library makes inside a call, when help is asked for
  on the command line or a second signal comes, are not meant: such a call does not return.)
\<close>

theorem operator_starts_in_order:
  assumes "reachable W (operator_process gauges) s"
  shows "(\<forall>h1 i mgr stop h2. hist s = h1 @ (i, Called (StartManager mgr stop)) # h2 \<longrightarrow> ready_to_start mgr (answered i h1)) \<and>
    (exit_status s = Some 0 \<longrightarrow> manager_stopped (answered 0 (hist s))) \<and>
    (\<forall>i c e. (i, Returned c (Inl e)) \<in> set (hist s) \<longrightarrow> (\<exists>n. n \<noteq> 0 \<and> threads s ! i = (Exit n, False)))"
proof (intro conjI allI impI)
  fix h1 i mgr stop h2
  assume "hist s = h1 @ (i, Called (StartManager mgr stop)) # h2"
  from called_after [OF assms orderly_operator this] show "ready_to_start mgr (answered i h1)" by simp
next
  assume "exit_status s = Some 0"
  then show "manager_stopped (answered 0 (hist s))" by (rule success_after [OF assms orderly_operator])
next
  fix i c e
  assume "(i, Returned c (Inl e)) \<in> set (hist s)"
  then show "\<exists>n. n \<noteq> 0 \<and> threads s ! i = (Exit n, False)"
    by (rule failed_call_ends [OF assms fails_fast_operator [where fatal = "\<lambda>c. True"]]) simp
qed

text \<open>
  An environment in which every call succeeds, the cache is synced once the manager was started, and the manager runs until
  nothing else is to be done.
\<close>

fun starts_manager :: "nat \<Rightarrow> (ocall, oval) event \<Rightarrow> bool" where
  "starts_manager mgr (Called (StartManager m stop)) = (m = mgr)"
| "starts_manager mgr e = False"

lemma starts_managerE: "starts_manager mgr e \<Longrightarrow> \<exists>stop. e = Called (StartManager mgr stop)"
  by (cases "(mgr, e)" rule: starts_manager.cases) auto

definition demo_answer :: "(ocall, oval) events \<Rightarrow> ocall \<Rightarrow> (err + oval) option" where
  "demo_answer h c = (case c of
     ParseFlags \<Rightarrow> Some (Inr (Flags default_flags))
   | GetWatchNamespace \<Rightarrow> Some (Inr (Str ''member''))
   | GetConfiguration cl \<Rightarrow> Some (Inr (Config 5))
   | WaitForCacheSync mgr stop \<Rightarrow> (if list_ex (\<lambda>(i, e). starts_manager mgr e) h
       then Some (Inr Done) else None)
   | _ \<Rightarrow> Some (Inr (Ref (length h))))"

definition demo_world :: "(ocall, oval) events \<Rightarrow> ocall \<Rightarrow> err + oval \<Rightarrow> bool" where
  "demo_world h c r \<longleftrightarrow> demo_answer h c = Some r"

definition demo_run :: "(ocall, oval) process" where
  "demo_run = schedule demo_answer (replicate 94 0 @ replicate 4 1 @ [0, 0]) (started (operator_process [''gauge'']))"

lemma operator_run_reachable: "reachable demo_world (operator_process [''gauge'']) demo_run"
  unfolding demo_run_def by (rule schedule_reachable [OF _ reachable.start]) (simp add: demo_world_def)

lemma operator_run_facts:
  "exit_status demo_run = Some 0 \<and> drop 92 (hist demo_run) =
     [(0, Called (StartManager 53 87)), (1, Called (WaitForCacheSync 53 87)), (1, Returned (WaitForCacheSync 53 87) (Inr Done)),
      (1, Called (CreateMemberStatus 53 ''member'' ''toolchain-member-status'')),
      (1, Returned (CreateMemberStatus 53 ''member'' ''toolchain-member-status'') (Inr (Ref 96))),
      (0, Returned (StartManager 53 87) (Inr (Ref 97)))]"
  by code_simp

theorem operator_starts_in_order_witness:
  "ready_to_start 53 (answered 0 (take 92 (hist demo_run))) \<and> manager_stopped (answered 0 (hist demo_run))"
proof -
  obtain h2 where "drop 92 (hist demo_run) = (0, Called (StartManager 53 87)) # h2" and "exit_status demo_run = Some 0"
    using operator_run_facts by blast
  then have "hist demo_run = take 92 (hist demo_run) @ (0, Called (StartManager 53 87)) # h2"
    by (metis append_take_drop_id)
  with operator_starts_in_order [OF operator_run_reachable] \<open>exit_status demo_run = Some 0\<close> show ?thesis by blast
qed

text \<open>
  C38: on a cluster where the caches of a manager are synced only once it was started, the MemberStatus is created only
  after the manager was started, hence with every controller set up and both checks added, although it is another
  goroutine that creates it, which was begun before.
\<close>

theorem member_status_is_created_late:
  assumes "reachable W (operator_process gauges) s"
    and "\<forall>h mgr stop v. W h (WaitForCacheSync mgr stop) (Inr v) \<longrightarrow> (\<exists>j stop'. (j, Called (StartManager mgr stop')) \<in> set h)"
    and "hist s = h1 @ (i, Called (CreateMemberStatus mgr ns n)) # h2"
  shows "\<exists>h0 j stop h3. h1 = h0 @ (j, Called (StartManager mgr stop)) # h3 \<and> ready_to_start mgr (answered j h0)"
proof -
  note after = called_after [OF assms(1) orderly_operator] and returned = returned_after [OF assms(1) orderly_operator]
  from after [OF assms(3)] obtain stop v where "(i, Returned (WaitForCacheSync mgr stop) (Inr v)) \<in> set h1"
    by (auto simp: answered_def)
  then obtain a b where h1: "h1 = a @ (i, Returned (WaitForCacheSync mgr stop) (Inr v)) # b" by (meson split_list)
  with assms(3) have "W a (WaitForCacheSync mgr stop) (Inr v)" by (intro returned(2)) simp
  with assms(2) obtain j stop' where "(j, Called (StartManager mgr stop')) \<in> set a" by blast
  then obtain h0 c where a: "a = h0 @ (j, Called (StartManager mgr stop')) # c" by (meson split_list)
  with assms(3) h1 have "requires (StartManager mgr stop') (answered j h0)" by (intro after) simp
  with a h1 show ?thesis by auto
qed

theorem member_status_is_created_late_witness:
  "\<exists>h0 j stop h3. take 95 (hist demo_run) = h0 @ (j, Called (StartManager 53 stop)) # h3 \<and> ready_to_start 53 (answered j h0)"
proof (rule member_status_is_created_late [OF operator_run_reachable])
  show "\<forall>h mgr stop v. demo_world h (WaitForCacheSync mgr stop) (Inr v) \<longrightarrow>
      (\<exists>j stop'. (j, Called (StartManager mgr stop')) \<in> set h)"
    by (auto simp: demo_world_def demo_answer_def list_ex_iff split: if_splits dest!: starts_managerE)
  have d: "drop 95 (hist demo_run) = drop 3 (drop 92 (hist demo_run))" "drop 96 (hist demo_run) = drop 4 (drop 92 (hist demo_run))"
    by simp_all
  have "drop 95 (hist demo_run) =
      (1, Called (CreateMemberStatus 53 ''member'' ''toolchain-member-status'')) # drop 96 (hist demo_run)"
    unfolding d operator_run_facts [THEN conjunct2] by simp
  then show "hist demo_run = take 95 (hist demo_run) @ (1, Called (CreateMemberStatus 53 ''member'' ''toolchain-member-status'')) #
      drop 96 (hist demo_run)"
    using append_take_drop_id [of 95 "hist demo_run"] by simp
qed

end
