(* ===== verification/WebhookMain.thy ===== *)
theory WebhookMain
  imports Startup Cert
begin

text \<open>
  The process of the webhook server (\<open>cmd/webhook/main.go\<close>): \<open>main\<close>, the goroutine that serves requests, the one that keeps the
  configuration up to date and the one that waits for signals.  What a request is answered is \<open>webhook_server\<close> of \<open>WebhookMutating\<close>.
\<close>

datatype wval = Done | Ref nat | Help

fun ref :: "wval \<Rightarrow> nat" where
  "ref (Ref n) = n"
| "ref Done = 0"
| "ref Help = 0"

datatype wcall =
    BindFlags
  | ParseFlags
  | KlogSet string string
  | GetConfig
  | AddToScheme string
  | NewClient nat
  | SetupSignalHandler
  | FirstSignal nat
  | SecondSignal nat
  | LoadLatest nat
  | NextRound nat
  | ListenAndServeTLS
  | NotifySignals
  | ReceiveSignal
  | Shutdown nat

type_synonym wproc = "(wcall, wval) goroutine"

text \<open>
  \<open>wait.Until\<close> calls its function, which loads the configuration and only logs an error, every five seconds until the context is done, which is
  an error of \<open>NextRound\<close> here.  \<open>n\<close> bounds the number of rounds: every run of the process has finitely many.
\<close>

primrec reload :: "nat \<Rightarrow> nat \<Rightarrow> nat \<Rightarrow> wproc" where
  "reload cl ctx 0 = Return"
| "reload cl ctx (Suc n) = Do (LoadLatest cl) (\<lambda>_. Do (NextRound ctx) (\<lambda>r. case r of Inl stopped \<Rightarrow> Return | Inr v \<Rightarrow> reload cl ctx n))"

text \<open>
  What \<open>SetupSignalHandler\<close> leaves running, by its documentation: a goroutine that cancels the context on the first signal and ends the
  process with status 1 on a second one.
\<close>

definition signal_handler :: "nat \<Rightarrow> wproc" where
  "signal_handler ctx = Do (FirstSignal ctx) (\<lambda>_. Do (SecondSignal ctx) (\<lambda>_. Exit 1))"

definition reloadMemberConfig :: "nat \<Rightarrow> nat \<Rightarrow> (nat \<Rightarrow> wproc) \<Rightarrow> wproc" where
  "reloadMemberConfig n cl k =
     or_panic SetupSignalHandler (\<lambda>ctx. Go (signal_handler (ref ctx)) (Go (reload cl (ref ctx) n) (k (ref ctx))))"

text \<open>Setting up signals and receiving one has no error; a panic stands for it.\<close>

definition serve :: wproc where
  "serve = Do ListenAndServeTLS (\<lambda>r. case r of Inl e \<Rightarrow> Exit 1 | Inr v \<Rightarrow> Return)"

definition wait_for_shutdown :: "nat \<Rightarrow> wproc" where
  "wait_for_shutdown ctx = or_panic NotifySignals (\<lambda>_. or_panic ReceiveSignal (\<lambda>_. Do (Shutdown ctx) (\<lambda>r. Return)))"

text \<open>
  \<open>flag.Parse\<close> ends the process with status 0 when the arguments ask for help (\<open>-h\<close>), with status 2 when they are wrong.
\<close>

definition parse_flags :: "wproc \<Rightarrow> wproc" where
  "parse_flags k = or_panic BindFlags (\<lambda>_. Do ParseFlags (\<lambda>r. case r of Inl e \<Rightarrow> Exit 2 | Inr v \<Rightarrow> if v = Help then Exit 0 else k))"

definition main :: "nat \<Rightarrow> wproc" where
  "main n =
     parse_flags (
     klog_redirect KlogSet (
     or_exit GetConfig (\<lambda>cfg.
     apis_AddToScheme AddToScheme (\<lambda>e. case e of Some e \<Rightarrow> Exit 1 | None \<Rightarrow>
     or_exit (NewClient (ref cfg)) (\<lambda>cl.
     reloadMemberConfig n (ref cl) (\<lambda>ctx.
     Go serve (wait_for_shutdown ctx)))))))"

text \<open>The certificate of a TLS handshake is read from the mounted secret each time.\<close>

definition GetCertificate :: "(string \<Rightarrow> string \<Rightarrow> err + 'cert) \<Rightarrow> err + 'cert" where
  "GetCertificate LoadX509KeyPair =
     (case LoadX509KeyPair (''/etc/webhook/certs/'' @ ServerCert) (''/etc/webhook/certs/'' @ ServerKey) of
        Inl e \<Rightarrow> Inl (Wrapped ''could not load TLS certs'' e)
      | Inr cert \<Rightarrow> Inr cert)"

section \<open>What ends the process\<close>

text \<open>The calls whose error ends it: all but the reloads, the waits for a signal and the shutdown.\<close>

fun fatal :: "wcall \<Rightarrow> bool" where
  "fatal (LoadLatest cl) = False"
| "fatal (NextRound ctx) = False"
| "fatal (Shutdown ctx) = False"
| "fatal (FirstSignal ctx) = False"
| "fatal (SecondSignal ctx) = False"
| "fatal c = True"

text \<open>A reason to end with a status other than zero: such an error, or the second signal.\<close>

fun cause :: "wcall \<Rightarrow> err + wval \<Rightarrow> bool" where
  "cause (SecondSignal ctx) r = True"
| "cause c (Inl e) = fatal c"
| "cause c (Inr v) = False"

lemma cause_error: "fatal c \<Longrightarrow> cause c (Inl e)"
  by (cases c) simp_all

lemma cause_cases: "cause c r \<Longrightarrow> (\<exists>e. r = Inl e \<and> fatal c) \<or> (\<exists>ctx. c = SecondSignal ctx)"
  by (induction c r rule: cause.induct) simp_all

lemma reload_harmless: "justified cause f (reload cl ctx n)" "fails_fast fatal (reload cl ctx n)"
  by (induction n arbitrary: f) (auto split: sum.split)

lemma signal_handler_harmless: "justified cause f (signal_handler ctx)" "fails_fast fatal (signal_handler ctx)"
  by (simp_all add: signal_handler_def)

lemmas main_parts = main_def klog_redirect_def apis_AddToScheme_def parse_flags_def

lemma justified_main: "justified cause False (main n)"
  unfolding main_parts
  by (auto simp: reloadMemberConfig_def serve_def wait_for_shutdown_def reload_harmless signal_handler_harmless cause_error
      split: option.split sum.split intro!: justified_add_all)

lemma fails_fast_webhook: "fails_fast fatal (main n)"
  unfolding main_parts
  by (auto simp: reloadMemberConfig_def serve_def wait_for_shutdown_def reload_harmless signal_handler_harmless
      split: option.split sum.split intro!: fails_fast_add_all)

text \<open>
  The shutdown is asked for only after the signal, and the process ends with status 0 only after it or when it was started to show its help.
\<close>

definition signalled :: "(wcall, wval) answers \<Rightarrow> bool" where
  "signalled D \<longleftrightarrow> (\<exists>v. (ReceiveSignal, v) \<in> D)"

definition done_well :: "(wcall, wval) answers \<Rightarrow> bool" where
  "done_well D \<longleftrightarrow> signalled D \<or> (ParseFlags, Help) \<in> D"

fun requires :: "wcall \<Rightarrow> (wcall, wval) answers \<Rightarrow> bool" where
  "requires (Shutdown ctx) D = signalled D"
| "requires c D = True"

lemma orderly_reload: "orderly requires fin False D (reload cl ctx n)"
  by (induction n arbitrary: D) (auto split: sum.split)

lemma orderly_webhook: "orderly requires done_well True {} (main n)"
proof -
  have "orderly requires done_well True D (wait_for_shutdown ctx)" for D ctx
    by (auto simp: wait_for_shutdown_def done_well_def signalled_def split: sum.split)
  then show ?thesis
    unfolding main_parts
    by (auto simp: reloadMemberConfig_def serve_def orderly_reload signal_handler_def done_well_def
        split: option.split sum.split intro!: orderly_add_all)
qed

section \<open>Properties\<close>

text \<open>
  C39: the webhook server runs until it is told to stop: it ends with status 0 only after a signal, unless it was started only to show its
  help, and with another status only after a failed call that is not one of the reloads of the configuration nor the shutdown, or
  after a second signal, so a configuration that cannot be loaded, however often, never ends it; a failure of any of the other calls
  (wrong arguments, no configuration of the cluster, a server that does not listen) does.
\<close>

theorem webhook_ends_for_a_reason:
  assumes "reachable W (main n) s"
  shows "(exit_status s = Some 0 \<longrightarrow> signalled (answered 0 (hist s)) \<or> (ParseFlags, Help) \<in> answered 0 (hist s)) \<and>
    (\<forall>m. exit_status s = Some m \<and> m \<noteq> 0 \<longrightarrow>
       (\<exists>i c e. (i, Returned c (Inl e)) \<in> set (hist s) \<and> fatal c) \<or> (\<exists>i ctx r. (i, Returned (SecondSignal ctx) r) \<in> set (hist s))) \<and>
    (\<forall>i c e. (i, Returned c (Inl e)) \<in> set (hist s) \<and> fatal c \<longrightarrow> (\<exists>m. m \<noteq> 0 \<and> threads s ! i = (Exit m, False))) \<and>
    (\<forall>h1 i ctx h2. hist s = h1 @ (i, Called (Shutdown ctx)) # h2 \<longrightarrow> signalled (answered i h1))"
proof (intro conjI allI impI)
  assume "exit_status s = Some 0"
  then show "signalled (answered 0 (hist s)) \<or> (ParseFlags, Help) \<in> answered 0 (hist s)"
    using success_after [OF assms orderly_webhook] by (simp add: done_well_def)
next
  fix m assume "exit_status s = Some m \<and> m \<noteq> 0"
  then obtain i c r where r: "(i, Returned c r) \<in> set (hist s)" "cause c r"
    using ends_by_cause [OF assms justified_main] by blast
  then show "(\<exists>i c e. (i, Returned c (Inl e)) \<in> set (hist s) \<and> fatal c) \<or> (\<exists>i ctx r. (i, Returned (SecondSignal ctx) r) \<in> set (hist s))"
    using cause_cases by blast
next
  fix i c e assume "(i, Returned c (Inl e)) \<in> set (hist s) \<and> fatal c"
  then show "\<exists>m. m \<noteq> 0 \<and> threads s ! i = (Exit m, False)"
    using failed_call_ends [OF assms fails_fast_webhook] by blast
next
  fix h1 i ctx h2 assume "hist s = h1 @ (i, Called (Shutdown ctx)) # h2"
  from called_after [OF assms orderly_webhook this] show "signalled (answered i h1)" by simp
qed

text \<open>
  The HTTP library: a server that was told to shut down makes \<open>ListenAndServeTLS\<close> return \<open>ErrServerClosed\<close> at once, and
  the signal is received only when one was sent.
\<close>

definition closes_at_once :: "((wcall, wval) events \<Rightarrow> wcall \<Rightarrow> err + wval \<Rightarrow> bool) \<Rightarrow> bool" where
  "closes_at_once W \<longleftrightarrow> (\<forall>h j ctx. (j, Called (Shutdown ctx)) \<in> set h \<longrightarrow> W h ListenAndServeTLS (Inl (Msg ''http: Server closed'')))"

text \<open>The goroutine that listens is \<open>serve\<close>: whatever calls \<open>ListenAndServeTLS\<close> goes on as it does.\<close>

primrec listens_as_serve :: "wproc \<Rightarrow> bool" where
  "listens_as_serve Return = True"
| "listens_as_serve (Exit n) = True"
| "listens_as_serve (Do c k) \<longleftrightarrow> (c = ListenAndServeTLS \<longrightarrow> k = (\<lambda>r. case r of Inl e \<Rightarrow> Exit 1 | Inr v \<Rightarrow> Return)) \<and>
     (\<forall>r. listens_as_serve (k r))"
| "listens_as_serve (Go t k) \<longleftrightarrow> listens_as_serve t \<and> listens_as_serve k"

lemma listens_as_serve_calls [simp]:
  "c \<noteq> ListenAndServeTLS \<Longrightarrow> listens_as_serve (or_exit c k) \<longleftrightarrow> (\<forall>v. listens_as_serve (k v))"
  "c \<noteq> ListenAndServeTLS \<Longrightarrow> listens_as_serve (or_panic c k) \<longleftrightarrow> (\<forall>v. listens_as_serve (k v))"
  by (auto simp: or_exit_def or_panic_def split: sum.split)

lemma listens_as_serve_add_all:
  "(\<And>e. listens_as_serve (k e)) \<Longrightarrow> listens_as_serve (add_all AddToScheme fs k)"
  by (induction fs) (auto split: sum.split)

lemma listens_as_serve_main: "listens_as_serve (main n)"
proof -
  have "listens_as_serve (reload cl ctx n)" for cl ctx by (induction n) (auto split: sum.split)
  then show ?thesis
    unfolding main_parts
    by (auto simp: reloadMemberConfig_def serve_def wait_for_shutdown_def signal_handler_def
        split: option.split sum.split intro!: listens_as_serve_add_all)
qed

lemma listening_is_serve:
  assumes "reachable W (main n) s"
  shows "\<forall>g \<in> set (threads s). listens_as_serve (fst g)"
  using assms
proof induction
  case start
  show ?case by (simp add: started_def listens_as_serve_main)
next
  case (step s t)
  have here: "listens_as_serve g" if "i < length (threads s)" "threads s ! i = (g, b)" for i g b
    using step.IH nth_mem [OF that(1)] that(2) by force
  have all: "\<forall>g \<in> set ((threads s)[i := (g, b)]). listens_as_serve (fst g)" if "listens_as_serve g" for i g b
    using step.IH that set_update_subset_insert [of "threads s" i "(g, b)"] by fastforce
  from step(2) show ?case
  proof cases
    case (call_begins i c k)
    then show ?thesis using all [OF here] by simp
  next
    case (call_returns i c k r)
    then have "listens_as_serve (k r)" using here by fastforce
    with call_returns show ?thesis using all by simp
  next
    case (spawn i g k)
    then have "listens_as_serve k" "listens_as_serve g" using here by fastforce+
    with spawn show ?thesis using all by auto
  qed (use step.IH in simp_all)
qed

text \<open>
  C40: the graceful shutdown can be cut short: as soon as the shutdown is under way and while the server goroutine is listening, whatever
  requests are still being answered, the process can end with status 1, in two steps and before \<open>Shutdown\<close> returns, since the
  goroutine takes the error that only says the server was closed for a failure.
\<close>

theorem shutdown_is_cut_short:
  assumes "reachable W (main n) s" and "exit_status s = None" and "closes_at_once W"
    and "(j, Called (Shutdown ctx)) \<in> set (hist s)" and "i < length (threads s)" and "threads s ! i = (Do ListenAndServeTLS k, True)"
  shows "\<exists>t. reachable W (main n) t \<and> exit_status t = Some 1 \<and>
    hist t = hist s @ [(i, Returned ListenAndServeTLS (Inl (Msg ''http: Server closed'')))]"
proof -
  let ?k = "\<lambda>r. case r of Inl e \<Rightarrow> Exit 1 | Inr v \<Rightarrow> Return"
  from listening_is_serve [OF assms(1)] nth_mem [OF assms(5)] have "listens_as_serve (fst (threads s ! i))" by blast
  with assms(6) have serve: "threads s ! i = (Do ListenAndServeTLS ?k, True)" by simp (simp only: One_nat_def)
  let ?r = "Inl (Msg ''http: Server closed'') :: err + wval"
  let ?s = "s\<lparr>threads := (threads s)[i := (Exit 1, False)], hist := hist s @ [(i, Returned ListenAndServeTLS ?r)]\<rparr>"
  have "W (hist s) ListenAndServeTLS ?r" using assms(3,4) unfolding closes_at_once_def by blast
  then have "pstep W s ?s"
    using pstep.call_returns [where c = ListenAndServeTLS and k = ?k and r = ?r, OF assms(2,5) serve] by simp
  moreover have "pstep W ?s (?s\<lparr>exit_status := Some 1\<rparr>)"
    by (rule pstep.exits [where i = i]) (use assms(2,5) in simp_all)
  ultimately have "reachable W (main n) (?s\<lparr>exit_status := Some 1\<rparr>)"
    using assms(1) by (blast intro: reachable.step)
  then show ?thesis by (intro exI [of _ "?s\<lparr>exit_status := Some 1\<rparr>"]) simp
qed

text \<open>A run: the server listens, the second reload fails, the signal comes and the shutdown begins.\<close>

fun shuts_down :: "(wcall, wval) event \<Rightarrow> bool" where
  "shuts_down (Called (Shutdown ctx)) = True"
| "shuts_down e = False"

definition demo_answer :: "(wcall, wval) events \<Rightarrow> wcall \<Rightarrow> (err + wval) option" where
  "demo_answer h c = (case c of
     LoadLatest cl \<Rightarrow> Some (Inl (Msg ''no configuration''))
   | ListenAndServeTLS \<Rightarrow> (if list_ex (\<lambda>(i, e). shuts_down e) h then Some (Inl (Msg ''http: Server closed'')) else None)
   | FirstSignal ctx \<Rightarrow> None
   | SecondSignal ctx \<Rightarrow> None
   | Shutdown ctx \<Rightarrow> None
   | _ \<Rightarrow> Some (Inr (Ref (length h))))"

definition demo_world :: "(wcall, wval) events \<Rightarrow> wcall \<Rightarrow> err + wval \<Rightarrow> bool" where
  "demo_world h c r \<longleftrightarrow> demo_answer h c = Some r"

definition demo_run :: "nat list \<Rightarrow> (wcall, wval) process" where
  "demo_run is = schedule demo_answer is (started (main 2))"

lemma webhook_run_reachable: "reachable demo_world (main 2) (demo_run is)"
  unfolding demo_run_def by (rule schedule_reachable [OF _ reachable.start]) (simp add: demo_world_def)

lemma demo_closes: "closes_at_once demo_world"
  unfolding closes_at_once_def demo_world_def demo_answer_def by (auto simp: list_ex_iff intro!: bexI)

fun failed_reload :: "nat \<times> (wcall, wval) event \<Rightarrow> bool" where
  "failed_reload (i, Returned (LoadLatest cl) (Inl e)) = True"
| "failed_reload x = False"

lemma failed_reload_cases: "failed_reload x \<Longrightarrow> \<exists>i cl e. x = (i, Returned (LoadLatest cl) (Inl e))"
  by (induction x rule: failed_reload.induct) simp_all

definition demo_signal :: "nat list" where
  "demo_signal = replicate 49 0 @ [3] @ replicate 6 2 @ replicate 5 0"

lemma demo_shutting_down:
  "exit_status (demo_run demo_signal) = None" "length (threads (demo_run demo_signal)) = 4" "snd (threads (demo_run demo_signal) ! 3)"
  "last (hist (demo_run demo_signal)) = (0, Called (Shutdown 45))"
  "list_ex failed_reload (hist (demo_run demo_signal))"
  by code_simp+

fun listening :: "wproc \<times> bool \<Rightarrow> bool" where
  "listening (Do ListenAndServeTLS k, True) = True"
| "listening g = False"

lemma demo_serving: "\<exists>k. threads (demo_run demo_signal) ! 3 = (Do ListenAndServeTLS k, True)"
proof -
  have "listening g \<Longrightarrow> \<exists>k. g = (Do ListenAndServeTLS k, True)" for g by (induction g rule: listening.induct) simp_all
  moreover have "listening (threads (demo_run demo_signal) ! 3)" by code_simp
  ultimately show ?thesis by blast
qed

theorem webhook_ends_for_a_reason_witness:
  "signalled (answered 0 (butlast (hist (demo_run demo_signal)))) \<and>
   (\<exists>cl e i. (i, Returned (LoadLatest cl) (Inl e)) \<in> set (hist (demo_run demo_signal))) \<and> exit_status (demo_run demo_signal) = None"
proof -
  let ?h = "hist (demo_run demo_signal)"
  have "?h \<noteq> []" by code_simp
  then have h: "?h = butlast ?h @ (0, Called (Shutdown 45)) # []" using demo_shutting_down(4) by (metis append_butlast_last_id)
  have "signalled (answered 0 (butlast ?h))"
    using webhook_ends_for_a_reason [OF webhook_run_reachable [of demo_signal]] h by blast
  moreover have "\<exists>cl e i. (i, Returned (LoadLatest cl) (Inl e)) \<in> set ?h"
    using demo_shutting_down(5) failed_reload_cases unfolding list_ex_iff by metis
  ultimately show ?thesis using demo_shutting_down(1) by blast
qed

theorem shutdown_is_cut_short_witness:
  "\<exists>t. reachable demo_world (main 2) t \<and> exit_status t = Some 1 \<and>
     hist t = hist (demo_run demo_signal) @ [(3, Returned ListenAndServeTLS (Inl (Msg ''http: Server closed'')))]"
proof -
  from demo_serving obtain k where k: "threads (demo_run demo_signal) ! 3 = (Do ListenAndServeTLS k, True)" by blast
  have "hist (demo_run demo_signal) \<noteq> []" by code_simp
  then have "(0, Called (Shutdown 45)) \<in> set (hist (demo_run demo_signal))"
    using demo_shutting_down(4) last_in_set by metis
  from shutdown_is_cut_short [OF webhook_run_reachable demo_shutting_down(1) demo_closes this _ k] demo_shutting_down(2)
  show ?thesis by simp
qed

end
