(* ===== verification/HostClient.thy ===== *)
theory HostClient
  imports Startup Support
begin

text \<open>
  The client of the host cluster (\<open>pkg/host/client.go\<close>) under concurrency: \<open>GetHostClient\<close> call by call, with its two locks, the cached client as a
  shared variable and the goroutine that runs the cluster of the client, in goroutines that call it any number of times.  \<open>Support\<close> has what a
  call does on its own.
\<close>

section \<open>The code\<close>

datatype mutex = GetLock | InitLock

text \<open>A client is the handle of its cluster, and the namespace of the host operator.\<close>

type_synonym namespaced_client = "nat \<times> string"

datatype hval = Done | Nil | Client namespaced_client | Ref nat | HostCluster nat string

datatype hcall =
    Lock mutex
  | Unlock mutex
  | ReadCached
  | WriteCached namespaced_client
  | GetHostCluster
  | NewCluster nat string
  | StartCluster nat
  | WaitForCacheSync nat
  | ListObjects nat string string
  | Handed "err + namespaced_client"

type_synonym hproc = "(hcall, hval) goroutine"

fun ref :: "hval \<Rightarrow> nat" where
  "ref (Ref n) = n"
| "ref v = 0"

definition NewNamespacedClient :: "nat \<Rightarrow> string \<Rightarrow> namespaced_client" where
  "NewNamespacedClient client namespace = (client, namespace)"

text \<open>The cluster runs in a goroutine of its own, whose failure is a panic; a wait that returns false is an error here.\<close>

definition initCachedClient :: "nat \<Rightarrow> string \<Rightarrow> (err + nat \<Rightarrow> hproc) \<Rightarrow> hproc" where
  "initCachedClient restConfig hostNamespace k =
     Do (NewCluster restConfig hostNamespace) (\<lambda>r. case r of
       Inl e \<Rightarrow> k (Inl e)
     | Inr hostCluster \<Rightarrow>
         Go (or_panic (StartCluster (ref hostCluster)) (\<lambda>_. Return))
           (Do (WaitForCacheSync (ref hostCluster)) (\<lambda>r. case r of
              Inl e \<Rightarrow> k (Inl (Msg ''unable to sync the cache of the client''))
            | Inr v \<Rightarrow> k (Inr (ref hostCluster)))))"

text \<open>The loop over the map of the resources, in an order that is up to the runtime.\<close>

fun sync_resources :: "nat \<Rightarrow> string \<Rightarrow> string list \<Rightarrow> (err option \<Rightarrow> hproc) \<Rightarrow> hproc" where
  "sync_resources client hostNamespace [] k = k None"
| "sync_resources client hostNamespace (r # rs) k =
     Do (ListObjects client r hostNamespace) (\<lambda>a. case a of
       Inl e \<Rightarrow> k (Some (Wrapped (''informer cache sync failed for resource '' @ r) e))
     | Inr v \<Rightarrow> sync_resources client hostNamespace rs k)"

definition init_locked :: "string list \<Rightarrow> (err + namespaced_client \<Rightarrow> hproc) \<Rightarrow> hproc" where
  "init_locked order k =
     Do GetHostCluster (\<lambda>r. case r of
       Inr (HostCluster restConfig hostNamespace) \<Rightarrow>
         initCachedClient restConfig hostNamespace (\<lambda>r. case r of
           Inl e \<Rightarrow> k (Inl e)
         | Inr cachedClient \<Rightarrow> sync_resources cachedClient hostNamespace order (\<lambda>e. case e of
             Some e \<Rightarrow> k (Inl e)
           | None \<Rightarrow> Do (WriteCached (NewNamespacedClient cachedClient hostNamespace))
               (\<lambda>_. k (Inr (NewNamespacedClient cachedClient hostNamespace)))))
     | _ \<Rightarrow> k (Inl (Msg ''host cluster not found'')))"

text \<open>\<open>defer c.initLock.Unlock()\<close> and \<open>defer c.getLock.Unlock()\<close> come before the caller goes on.\<close>

definition init :: "string list \<Rightarrow> (err + namespaced_client \<Rightarrow> hproc) \<Rightarrow> hproc" where
  "init order k = Do (Lock InitLock) (\<lambda>_. init_locked order (\<lambda>res. Do (Unlock InitLock) (\<lambda>_. k res)))"

definition GetHostClient :: "string list \<Rightarrow> (err + namespaced_client \<Rightarrow> hproc) \<Rightarrow> hproc" where
  "GetHostClient order k =
     Do (Lock GetLock) (\<lambda>_. Do ReadCached (\<lambda>r. case r of
       Inr (Client c) \<Rightarrow> Do (Unlock GetLock) (\<lambda>_. k (Inr c))
     | _ \<Rightarrow> init order (\<lambda>res. Do (Unlock GetLock) (\<lambda>_. k res))))"

text \<open>Goroutines that ask for the client again and again: one per list, one order of the resources per call.\<close>

fun asks :: "string list list \<Rightarrow> hproc" where
  "asks [] = Return"
| "asks (order # orders) = GetHostClient order (\<lambda>res. Do (Handed res) (\<lambda>_. asks orders))"

fun users :: "string list list list \<Rightarrow> hproc \<Rightarrow> hproc" where
  "users [] k = k"
| "users (u # us) k = Go (asks u) (users us k)"

section \<open>Locks and the shared variable\<close>

fun holder_after :: "mutex \<Rightarrow> nat option \<Rightarrow> nat \<times> (hcall, hval) event \<Rightarrow> nat option" where
  "holder_after m h (i, Returned (Lock m') r) = (if m' = m then Some i else h)"
| "holder_after m h (i, Returned (Unlock m') r) = (if m' = m then None else h)"
| "holder_after m h e = h"

definition holder :: "mutex \<Rightarrow> (hcall, hval) events \<Rightarrow> nat option" where
  "holder m h = foldl (holder_after m) None h"

fun value_after :: "namespaced_client option \<Rightarrow> nat \<times> (hcall, hval) event \<Rightarrow> namespaced_client option" where
  "value_after v (i, Returned (WriteCached c) r) = Some c"
| "value_after v e = v"

definition cached :: "(hcall, hval) events \<Rightarrow> namespaced_client option" where
  "cached h = foldl value_after None h"

definition writes :: "(hcall, hval) events \<Rightarrow> (nat \<times> (hcall, hval) event) list" where
  "writes h = filter (\<lambda>(i, e). case e of Returned (WriteCached c) r \<Rightarrow> True | _ \<Rightarrow> False) h"

text \<open>A mutex is got when it is free, and a variable has the value that was written last.\<close>

definition go_memory :: "((hcall, hval) events \<Rightarrow> hcall \<Rightarrow> err + hval \<Rightarrow> bool) \<Rightarrow> bool" where
  "go_memory W \<longleftrightarrow> (\<forall>h m r. W h (Lock m) r \<longrightarrow> holder m h = None) \<and>
     (\<forall>h r. W h ReadCached r \<longrightarrow> r = Inr (case cached h of None \<Rightarrow> Nil | Some c \<Rightarrow> Client c))"

lemma history_simps [simp]:
  "holder m [] = None" "cached [] = None" "writes [] = []"
  "holder m (h @ [e]) = holder_after m (holder m h) e" "cached (h @ [e]) = value_after (cached h) e"
  "writes (h @ [(i, Called c)]) = writes h"
  "writes (h @ [(i, Returned c r)]) = (case c of WriteCached d \<Rightarrow> writes h @ [(i, Returned c r)] | _ \<Rightarrow> writes h)"
  by (auto simp: holder_def cached_def writes_def split: hcall.split)

section \<open>The discipline\<close>

text \<open>What a goroutine knows of the variable: nothing, that it is nil, or the client in it.\<close>

datatype knowledge = Unknown | IsNil | Is namespaced_client

primrec disciplined :: "hproc \<Rightarrow> bool \<Rightarrow> knowledge \<Rightarrow> bool" where
  "disciplined Return holding k \<longleftrightarrow> True"
| "disciplined (Exit n) holding k \<longleftrightarrow> True"
| "disciplined (Go t u) holding k \<longleftrightarrow> disciplined t False Unknown \<and> disciplined u holding k"
| "disciplined (Do c f) holding k \<longleftrightarrow>
     (case c of
        Lock GetLock \<Rightarrow> \<not> holding \<and> (\<forall>r. disciplined (f r) True k)
      | Unlock GetLock \<Rightarrow> holding \<and> (\<forall>r. disciplined (f r) False (if k = IsNil then Unknown else k))
      | ReadCached \<Rightarrow> holding \<and> disciplined (f (Inr Nil)) True IsNil \<and> (\<forall>c. disciplined (f (Inr (Client c))) True (Is c))
      | WriteCached d \<Rightarrow> holding \<and> k = IsNil \<and> (\<forall>r. disciplined (f r) True (Is d))
      | NewCluster rc ns \<Rightarrow> holding \<and> k = IsNil \<and> (\<forall>r. disciplined (f r) holding k)
      | Handed (Inr d) \<Rightarrow> k = Is d \<and> (\<forall>r. disciplined (f r) holding k)
      | _ \<Rightarrow> (\<forall>r. disciplined (f r) holding k))"

lemma disciplined_sync:
  "(\<And>e. disciplined (g e) True k) \<Longrightarrow> disciplined (sync_resources c ns rs g) True k"
  by (induction rs) (auto split: sum.split)

lemma disciplined_asks: "disciplined (asks orders) False k"
  if "k \<noteq> IsNil" for k
  using that
proof (induction orders arbitrary: k)
  case (Cons order orders)
  then show ?case
    by (auto simp: GetHostClient_def init_def init_locked_def initCachedClient_def or_panic_def
        split: sum.split hval.split option.split intro!: disciplined_sync)
qed simp

lemma disciplined_users: "disciplined k False Unknown \<Longrightarrow> disciplined (users us k) False Unknown"
  by (induction us) (auto intro: disciplined_asks)


section \<open>The invariant\<close>

definition knows :: "(hcall, hval) events \<Rightarrow> nat \<Rightarrow> knowledge \<Rightarrow> bool" where
  "knows h i k \<longleftrightarrow> (case k of Unknown \<Rightarrow> True | IsNil \<Rightarrow> holder GetLock h = Some i \<and> cached h = None | Is c \<Rightarrow> cached h = Some c)"

definition well_locked :: "nat \<Rightarrow> hproc \<times> bool \<Rightarrow> (hcall, hval) events \<Rightarrow> bool" where
  "well_locked i g h \<longleftrightarrow> (\<exists>k. knows h i k \<and> disciplined (fst g) (holder GetLock h = Some i) k)"

definition handed_same :: "(hcall, hval) events \<Rightarrow> bool" where
  "handed_same h \<longleftrightarrow> (\<forall>i d. (i, Called (Handed (Inr d))) \<in> set h \<longrightarrow> cached h = Some d)"

definition built_early :: "(hcall, hval) events \<Rightarrow> bool" where
  "built_early h \<longleftrightarrow> (\<forall>h1 i rc ns h2. h = h1 @ (i, Called (NewCluster rc ns)) # h2 \<longrightarrow> cached h1 = None)"

lemma built_early_snoc:
  assumes "built_early h" and "\<And>rc ns. e = Called (NewCluster rc ns) \<Longrightarrow> cached h = None"
  shows "built_early (h @ [(i, e)])"
  unfolding built_early_def
proof (intro allI impI)
  fix h1 j rc ns h2
  assume eq: "h @ [(i, e)] = h1 @ (j, Called (NewCluster rc ns)) # h2"
  show "cached h1 = None"
  proof (cases h2 rule: rev_cases)
    case Nil
    with eq assms(2) show ?thesis by auto
  next
    case (snoc ys y)
    with eq have "h = h1 @ (j, Called (NewCluster rc ns)) # ys" by simp
    with assms(1) show ?thesis unfolding built_early_def by blast
  qed
qed

definition locked_state :: "(hcall, hval) process \<Rightarrow> bool" where
  "locked_state s \<longleftrightarrow> (\<forall>i < length (threads s). well_locked i (threads s ! i) (hist s)) \<and>
     (\<forall>i. holder GetLock (hist s) = Some i \<longrightarrow> i < length (threads s)) \<and>
     length (writes (hist s)) = (if cached (hist s) = None then 0 else 1) \<and> handed_same (hist s) \<and> built_early (hist s)"

text \<open>One goroutine moves by a call; what the others know stays true.\<close>

lemma locked_move:
  assumes "locked_state s" and "i < length (threads s)" and "well_locked i (t, b) (hist s @ [(i, e)])"
    and "\<And>j k. j \<noteq> i \<Longrightarrow> knows (hist s) j k \<Longrightarrow> knows (hist s @ [(i, e)]) j k"
    and "\<And>j. j \<noteq> i \<Longrightarrow> (holder GetLock (hist s @ [(i, e)]) = Some j) = (holder GetLock (hist s) = Some j)"
    and "length (writes (hist s @ [(i, e)])) = (if cached (hist s @ [(i, e)]) = None then 0 else 1)" and "handed_same (hist s @ [(i, e)])"
    and "\<And>rc ns. e = Called (NewCluster rc ns) \<Longrightarrow> cached (hist s) = None"
  shows "locked_state (s\<lparr>threads := (threads s)[i := (t, b)], hist := hist s @ [(i, e)]\<rparr>)"
proof -
  have "well_locked j ((threads s)[i := (t, b)] ! j) (hist s @ [(i, e)])" if "j < length (threads s)" for j
  proof (cases "j = i")
    case True
    with assms(2,3) show ?thesis by simp
  next
    case False
    from assms(1) that obtain k where "knows (hist s) j k" "disciplined (fst (threads s ! j)) (holder GetLock (hist s) = Some j) k"
      by (auto simp: locked_state_def well_locked_def)
    with assms(4,5) [OF False] False show ?thesis by (auto simp: well_locked_def)
  qed
  moreover have "j < length (threads s)" if "holder GetLock (hist s @ [(i, e)]) = Some j" for j
    using assms(1,2,5) that by (cases "j = i") (auto simp: locked_state_def)
  moreover have "built_early (hist s @ [(i, e)])"
    by (rule built_early_snoc [OF _ assms(8)]) (use assms(1) in \<open>simp_all add: locked_state_def\<close>)
  ultimately show ?thesis using assms(6,7) by (simp add: locked_state_def)
qed

lemma handed_snoc:
  "handed_same h \<Longrightarrow> cached (h @ [(i, e)]) = cached h \<Longrightarrow> (\<And>d. e = Called (Handed (Inr d)) \<Longrightarrow> cached h = Some d) \<Longrightarrow>
   handed_same (h @ [(i, e)])"
  by (auto simp: handed_same_def)

lemma knows_other:
  assumes "knows h j k" and "holder GetLock h' = Some j \<longleftrightarrow> holder GetLock h = Some j" and "cached h' = cached h"
  shows "knows h' j k"
  using assms by (auto simp: knows_def split: knowledge.splits)

text \<open>A call returns: case by case, how the discipline and what is known go on.\<close>

lemma returns_locked:
  assumes inv: "locked_state s" and i: "i < length (threads s)" "threads s ! i = (Do c f, True)"
    and W: "go_memory W" "W (hist s) c r"
  shows "locked_state (s\<lparr>threads := (threads s)[i := (f r, False)], hist := hist s @ [(i, Returned c r)]\<rparr>)"
proof -
  let ?h = "hist s" and ?h' = "hist s @ [(i, Returned c r)]"
  obtain k where k: "knows ?h i k" "disciplined (Do c f) (holder GetLock ?h = Some i) k"
    using inv i by (force simp: locked_state_def well_locked_def)
  have w: "length (writes ?h) = (if cached ?h = None then 0 else 1)" "handed_same ?h" using inv by (simp_all add: locked_state_def)
  have quiet: ?thesis if "holder GetLock ?h' = holder GetLock ?h" "cached ?h' = cached ?h" "writes ?h' = writes ?h"
      "disciplined (f r) (holder GetLock ?h = Some i) k" "\<And>d. Returned c r \<noteq> Called (Handed (Inr d))"
  proof (rule locked_move [OF inv i(1)])
    show "well_locked i (f r, False) ?h'" 
      unfolding well_locked_def by (intro exI [of _ k] conjI knows_other [OF k(1)]) (use that in simp_all)
    show "knows ?h' j k'" if "knows ?h j k'" for j k' using that \<open>cached ?h' = _\<close> \<open>holder GetLock ?h' = _\<close> by (auto intro: knows_other)
    show "handed_same ?h'" using w(2) that by (auto intro: handed_snoc)
  qed (use that w in simp_all)
  show ?thesis
  proof (cases c)
    case (Lock m)
    show ?thesis
    proof (cases m)
      case GetLock
      have free: "holder GetLock ?h = None" using W Lock GetLock unfolding go_memory_def by blast
      show ?thesis
      proof (rule locked_move [OF inv i(1)])
        show "well_locked i (f r, False) ?h'"
          using k Lock GetLock free by (auto simp: well_locked_def knows_def intro!: exI [of _ k] split: knowledge.splits)
        show "knows ?h' j k'" if "knows ?h j k'" "j \<noteq> i" for j k'
          using that Lock GetLock free by (auto simp: knows_def split: knowledge.splits)
        show "handed_same ?h'" using w(2) Lock by (auto intro: handed_snoc)
      qed (use Lock GetLock free w in simp_all)
    next
      case InitLock
      with Lock k show ?thesis by (intro quiet) auto
    qed
  next
    case (Unlock m)
    show ?thesis
    proof (cases m)
      case GetLock
      with k Unlock have held: "holder GetLock ?h = Some i" by simp
      show ?thesis
      proof (rule locked_move [OF inv i(1)])
        show "well_locked i (f r, False) ?h'"
          using k Unlock GetLock held
          by (auto simp: well_locked_def knows_def intro!: exI [of _ "if k = IsNil then Unknown else k"] split: knowledge.splits)
        show "knows ?h' j k'" if "knows ?h j k'" "j \<noteq> i" for j k'
          using that Unlock GetLock held by (auto simp: knows_def split: knowledge.splits)
        show "handed_same ?h'" using w(2) Unlock by (auto intro: handed_snoc)
      qed (use Unlock GetLock held w in simp_all)
    next
      case InitLock
      with Unlock k show ?thesis by (intro quiet) auto
    qed
  next
    case ReadCached
    have r: "r = Inr (case cached ?h of None \<Rightarrow> Nil | Some c \<Rightarrow> Client c)" using W ReadCached unfolding go_memory_def by blast
    let ?k = "case cached ?h of None \<Rightarrow> IsNil | Some c \<Rightarrow> Is c"
    have held: "holder GetLock ?h = Some i" using k ReadCached by simp
    show ?thesis
    proof (rule locked_move [OF inv i(1)])
      show "well_locked i (f r, False) ?h'"
        using k ReadCached held r by (auto simp: well_locked_def knows_def intro!: exI [of _ ?k] split: option.splits)
      show "knows ?h' j k'" if "knows ?h j k'" for j k' using that ReadCached by (auto intro: knows_other)
      show "handed_same ?h'" using w(2) ReadCached by (auto intro: handed_snoc)
    qed (use ReadCached w in simp_all)
  next
    case (WriteCached d)
    with k have held: "holder GetLock ?h = Some i" "k = IsNil" and nil: "cached ?h = None" by (auto simp: knows_def)
    show ?thesis
    proof (rule locked_move [OF inv i(1)])
      show "well_locked i (f r, False) ?h'"
        using k WriteCached held by (auto simp: well_locked_def knows_def intro!: exI [of _ "Is d"])
      show "knows ?h' j k'" if "knows ?h j k'" "j \<noteq> i" for j k'
        using that WriteCached nil held by (auto simp: knows_def split: knowledge.splits)
      show "handed_same ?h'" using w(2) nil by (auto simp: handed_same_def)
    qed (use WriteCached nil w in simp_all)
  next
    case (Handed x)
    with k show ?thesis by (intro quiet) (auto split: sum.splits)
  qed (use k in \<open>intro quiet; simp\<close>)+
qed


lemma pstep_locked:
  assumes "pstep W s t" and W: "go_memory W" and inv: "locked_state s"
  shows "locked_state t"
  using assms(1)
proof cases
  case (call_begins i c f)
  let ?h = "hist s"
  obtain k where k: "knows ?h i k" "disciplined (Do c f) (holder GetLock ?h = Some i) k"
    using inv call_begins by (force simp: locked_state_def well_locked_def)
  have "cached ?h = Some d" if "c = Handed (Inr d)" for d using k that by (auto simp: knows_def)
  moreover have "cached ?h = None" if "c = NewCluster rc ns" for rc ns using k that by (auto simp: knows_def)
  moreover have "handed_same ?h" "length (writes ?h) = (if cached ?h = None then 0 else 1)" using inv by (simp_all add: locked_state_def)
  ultimately have "locked_state (s\<lparr>threads := (threads s)[i := (Do c f, True)], hist := ?h @ [(i, Called c)]\<rparr>)"
    using k call_begins
    by (intro locked_move [OF inv])
       (auto simp: well_locked_def intro!: exI [of _ k] handed_snoc intro: knows_other simp del: disciplined.simps)
  with call_begins show ?thesis by simp
next
  case (call_returns i c f r)
  with returns_locked [OF inv _ _ W] show ?thesis by simp
next
  case (spawn i g k)
  let ?h = "hist s" and ?n = "length (threads s)"
  have no: "holder GetLock ?h \<noteq> Some ?n" using inv by (auto simp: locked_state_def)
  have i: "well_locked i (Go g k, False) ?h" using inv spawn by (metis locked_state_def)
  then have "well_locked i (k, False) ?h" "disciplined g False Unknown" by (auto simp: well_locked_def)
  then have "well_locked j (((threads s)[i := (k, False)] @ [(g, False)]) ! j) ?h" if "j < Suc ?n" for j
  proof (cases "j = ?n")
    case True
    with no \<open>disciplined g False Unknown\<close> show ?thesis by (auto simp: nth_append well_locked_def knows_def intro!: exI [of _ Unknown])
  next
    case False
    with that have "j < ?n" by simp
    with inv \<open>well_locked i (k, False) ?h\<close> show ?thesis
      by (cases "j = i") (simp_all add: nth_append locked_state_def)
  qed
  with spawn inv show ?thesis by (auto simp: locked_state_def less_SucI)
qed (use inv in \<open>simp_all add: locked_state_def\<close>)

lemma reachable_locked:
  assumes "reachable W main s" and "go_memory W" and "disciplined main False Unknown"
  shows "locked_state s"
  using assms(1)
proof induction
  case start
  show ?case
    using assms(3) by (auto simp: locked_state_def started_def well_locked_def knows_def handed_same_def built_early_def intro!: exI [of _ Unknown])
next
  case (step s t)
  with assms(2) show ?case by (blast intro: pstep_locked)
qed


section \<open>What comes before the client is cached\<close>

definition synced_client :: "namespaced_client \<Rightarrow> (hcall, hval) answers \<Rightarrow> bool" where
  "synced_client c D \<longleftrightarrow> (\<exists>v. (WaitForCacheSync (fst c), v) \<in> D) \<and>
     (\<forall>r \<in> objectsToList. \<exists>v. (ListObjects (fst c) r (snd c), v) \<in> D)"

fun requires :: "hcall \<Rightarrow> (hcall, hval) answers \<Rightarrow> bool" where
  "requires (WriteCached c) D = synced_client c D"
| "requires c D = True"

lemma orderly_sync:
  assumes "\<And>e D'. D \<subseteq> D' \<Longrightarrow> orderly requires fin b D' (g (Some e))"
    and "\<And>D'. D \<subseteq> D' \<Longrightarrow> \<forall>r \<in> set rs. \<exists>v. (ListObjects c r ns, v) \<in> D' \<Longrightarrow> orderly requires fin b D' (g None)"
  shows "orderly requires fin b D (sync_resources c ns rs g)"
  using assms
proof (induction rs arbitrary: D)
  case (Cons r rs)
  show ?case
    by (auto split: sum.split intro!: Cons.IH Cons.prems)
qed simp

abbreviation always :: "(hcall, hval) answers \<Rightarrow> bool" where
  "always D \<equiv> True"

lemma orderly_init_locked:
  assumes "set order = objectsToList" and "\<And>res D'. orderly requires always b D' (g res)"
  shows "orderly requires always b D (init_locked order g)"
proof -
  have ready: "synced_client (NewNamespacedClient c ns) D'"
    if "insert (WaitForCacheSync c, v) X \<subseteq> D'" "\<forall>r \<in> set order. \<exists>v. (ListObjects c r ns, v) \<in> D'" for c ns v X D'
    using that assms(1) by (auto simp: synced_client_def NewNamespacedClient_def)
  have sync: "orderly requires always b (insert (WaitForCacheSync c, v) X) (sync_resources c ns order (\<lambda>e. case e of
      Some e \<Rightarrow> g (Inl e) | None \<Rightarrow> Do (WriteCached (NewNamespacedClient c ns)) (\<lambda>_. g (Inr (NewNamespacedClient c ns)))))" for c ns v X
    by (rule orderly_sync) (simp_all add: assms(2) ready)
  show ?thesis
    unfolding init_locked_def initCachedClient_def
    by (auto simp: assms(2) sync split: sum.split hval.split)
qed

lemma orderly_asks:
  assumes "\<forall>order \<in> set orders. set order = objectsToList"
  shows "orderly requires always b D (asks orders)"
  using assms
proof (induction orders arbitrary: D)
  case (Cons order orders)
  then have IH: "orderly requires always b D (asks orders)" for D by simp
  have "orderly requires always b D (init order (\<lambda>res. Do (Unlock GetLock) (\<lambda>_. Do (Handed res) (\<lambda>_. asks orders))))" for D
    unfolding init_def using Cons.prems by (simp add: orderly_init_locked IH)
  then show ?case by (simp add: GetHostClient_def IH split: sum.split hval.split)
qed simp

lemma orderly_users:
  assumes "\<forall>u \<in> set us. \<forall>order \<in> set u. set order = objectsToList" and "orderly requires always True D k"
  shows "orderly requires always True D (users us k)"
  using assms by (induction us) (auto intro: orderly_asks)

section \<open>Properties\<close>

text \<open>
  C7: however many goroutines ask for the client of the host cluster, however often and in whatever order their steps interleave, one client
  is built at most: the cached client is written once, everyone who is handed a client is handed this one, no cluster is created any more once it
  is there, and it is written only after its cache was synced and both resources were listed in the namespace of the host operator.
\<close>

theorem host_client_is_built_once:
  assumes "reachable W (users us (asks orders)) s" and "go_memory W"
    and "\<forall>u \<in> set (orders # us). \<forall>order \<in> set u. set order = objectsToList"
  shows "length (writes (hist s)) \<le> 1 \<and>
    (\<forall>i d. (i, Called (Handed (Inr d))) \<in> set (hist s) \<longrightarrow> cached (hist s) = Some d) \<and>
    (\<forall>h1 i rc ns h2. hist s = h1 @ (i, Called (NewCluster rc ns)) # h2 \<longrightarrow> cached h1 = None) \<and>
    (\<forall>h1 i c h2. hist s = h1 @ (i, Called (WriteCached c)) # h2 \<longrightarrow> synced_client c (answered i h1))"
proof -
  have "locked_state s"
    by (rule reachable_locked [OF assms(1,2)]) (simp add: disciplined_users disciplined_asks)
  moreover have ord: "orderly requires always True {} (users us (asks orders))"
    using assms(3) by (intro orderly_users orderly_asks) auto
  have "synced_client c (answered i h1)" if "hist s = h1 @ (i, Called (WriteCached c)) # h2" for h1 i c h2
    using called_after [OF assms(1) ord that] by simp
  ultimately show ?thesis by (auto simp: locked_state_def handed_same_def built_early_def)
qed

text \<open>A run: two goroutines ask at the same time; the list of the one that comes first fails, the other one has to wait and succeeds.\<close>

definition demo_answer :: "(hcall, hval) events \<Rightarrow> hcall \<Rightarrow> (err + hval) option" where
  "demo_answer h c = (case c of
     Lock m \<Rightarrow> (if holder m h = None then Some (Inr Done) else None)
   | ReadCached \<Rightarrow> Some (Inr (case cached h of None \<Rightarrow> Nil | Some c \<Rightarrow> Client c))
   | GetHostCluster \<Rightarrow> Some (Inr (HostCluster 7 ''host''))
   | NewCluster rc ns \<Rightarrow> Some (Inr (Ref (length h)))
   | ListObjects cl r ns \<Rightarrow> Some (if length h < 16 then Inl (Msg ''timeout'') else Inr Done)
   | StartCluster cl \<Rightarrow> None
   | _ \<Rightarrow> Some (Inr Done))"

definition demo_world :: "(hcall, hval) events \<Rightarrow> hcall \<Rightarrow> err + hval \<Rightarrow> bool" where
  "demo_world h c r \<longleftrightarrow> demo_answer h c = Some r"

definition order1 :: "string list" where
  "order1 = [''TierTemplateRevision'', ''TierTemplate'']"

definition demo_run :: "(hcall, hval) process" where
  "demo_run = schedule demo_answer
     ([0, 1, 0] @ replicate 10 1 @ [2] @ replicate 8 1 @ [0, 1, 0, 1] @ replicate 8 0 @ [3] @ replicate 13 0)
     (started (users [[order1]] (asks [order1])))"

lemma client_run_reachable: "reachable demo_world (users [[order1]] (asks [order1])) demo_run"
  unfolding demo_run_def by (rule schedule_reachable) (simp_all add: demo_world_def reachable.start)

lemma demo_world_memory: "go_memory demo_world"
  by (auto simp: go_memory_def demo_world_def demo_answer_def split: if_splits)

fun of_interest :: "(hcall, hval) event \<Rightarrow> bool" where
  "of_interest (Called (StartCluster cl)) = True"
| "of_interest (Called (Handed r)) = True"
| "of_interest e = False"

text \<open>The attempt that failed leaves its cluster running: nothing stops the goroutine of the cluster, and the next attempt starts another.\<close>

lemma client_run_facts:
  "filter (\<lambda>(i, e). of_interest e) (hist demo_run) =
     [(2, Called (StartCluster 10)),
      (1, Called (Handed (Inl (Wrapped ''informer cache sync failed for resource TierTemplateRevision'' (Msg ''timeout''))))),
      (3, Called (StartCluster 30)), (0, Called (Handed (Inr (30, ''host''))))]"
  by code_simp

theorem host_client_is_built_once_witness:
  "length (writes (hist demo_run)) \<le> 1 \<and> cached (hist demo_run) = Some (30, ''host'')"
proof -
  have "(0, Called (Handed (Inr (30, ''host'')))) \<in> set (filter (\<lambda>(i, e). of_interest e) (hist demo_run))"
    unfolding client_run_facts by simp
  then have "(0, Called (Handed (Inr (30, ''host'')))) \<in> set (hist demo_run)" by simp
  moreover have "\<forall>u \<in> set [[order1], [order1]]. \<forall>order \<in> set u. set order = objectsToList"
    by (auto simp: order1_def objectsToList_def)
  ultimately show ?thesis
    using host_client_is_built_once [OF client_run_reachable demo_world_memory] by blast
qed

end
