(* ===== verification/Metrics.thy ===== *)
theory Metrics
  imports Support
begin

text \<open>
  The gauges of the operator (\<open>pkg/metrics\<close>): created when the package is loaded, labelled with the commit of the build, and registered by
  \<open>main\<close>.  A gauge vector is its position in \<open>allGaugeVecs\<close>, to which every one is appended and from which none is removed.
\<close>

section \<open>Gauges\<close>

datatype gauge_value = Number int | CurrentTime

record gauge_vec =
  gv_name :: string
  gv_help :: string
  gv_labels :: "string list"
  gv_values :: "(string list \<times> gauge_value) list"

record metrics =
  MemberOperatorVersionGaugeVec :: "nat option"
  MemberOperatorShortCommitGaugeVec :: "nat option"
  MemberOperatorCommitGaugeVec :: "nat option"
  allGaugeVecs :: "gauge_vec list"

definition unloaded :: metrics where
  "unloaded = \<lparr>MemberOperatorVersionGaugeVec = None, MemberOperatorShortCommitGaugeVec = None, MemberOperatorCommitGaugeVec = None,
     allGaugeVecs = []\<rparr>"

definition metricsPrefix :: string where
  "metricsPrefix = ''sandbox_''"

definition newGaugeVec :: "string \<Rightarrow> string \<Rightarrow> string list \<Rightarrow> metrics \<Rightarrow> nat \<times> metrics" where
  "newGaugeVec name help labels ms =
     (length (allGaugeVecs ms),
      ms\<lparr>allGaugeVecs := allGaugeVecs ms @ [\<lparr>gv_name = metricsPrefix @ name, gv_help = help, gv_labels = labels, gv_values = []\<rparr>]\<rparr>)"

text \<open>\<open>WithLabelValues(label).Set(x)\<close> and \<open>SetToCurrentTime()\<close>.\<close>

definition set_gauge :: "nat \<Rightarrow> string \<Rightarrow> gauge_value \<Rightarrow> metrics \<Rightarrow> metrics" where
  "set_gauge i label x ms =
     ms\<lparr>allGaugeVecs := (allGaugeVecs ms)[i := (allGaugeVecs ms ! i)\<lparr>gv_values := AList.update [label] x (gv_values (allGaugeVecs ms ! i))\<rparr>]\<rparr>"

definition initMetrics :: "string \<Rightarrow> metrics \<Rightarrow> metrics" where
  "initMetrics commit ms =
     (let (v, ms) = newGaugeVec ''member_operator_version'' ''Current short commit of the member operator'' [''commit''] ms;
          ms = ms\<lparr>MemberOperatorVersionGaugeVec := Some v\<rparr>;
          (s, ms) = newGaugeVec ''member_operator_short_commit'' ''Current short commit of the member operator'' [''commit''] ms;
          ms = ms\<lparr>MemberOperatorShortCommitGaugeVec := Some s\<rparr>;
          (c, ms) = newGaugeVec ''member_operator_commit'' ''Current full commit of the member operator'' [''commit''] ms;
          ms = ms\<lparr>MemberOperatorCommitGaugeVec := Some c\<rparr>;
          ms = set_gauge v (shortCommit commit) (Number 1) ms;
          ms = set_gauge s (shortCommit commit) CurrentTime ms
      in set_gauge c commit CurrentTime ms)"

definition Reset :: "string \<Rightarrow> metrics \<Rightarrow> metrics" where
  "Reset commit ms = initMetrics commit ms"

text \<open>\<open>MustRegister\<close> of the registry of controller-runtime; \<open>None\<close> is its panic.\<close>

fun register_vecs :: "(gauge_vec \<Rightarrow> 'reg \<Rightarrow> 'reg option) \<Rightarrow> gauge_vec list \<Rightarrow> 'reg \<Rightarrow> 'reg option" where
  "register_vecs MustRegister [] reg = Some reg"
| "register_vecs MustRegister (v # vs) reg =
     (case MustRegister v reg of None \<Rightarrow> None | Some reg \<Rightarrow> register_vecs MustRegister vs reg)"

definition RegisterCustomMetrics :: "(gauge_vec \<Rightarrow> 'reg \<Rightarrow> 'reg option) \<Rightarrow> metrics \<Rightarrow> 'reg \<Rightarrow> 'reg option" where
  "RegisterCustomMetrics MustRegister ms reg = register_vecs MustRegister (allGaugeVecs ms) reg"

section \<open>What is registered\<close>

definition gauge_names :: "string list" where
  "gauge_names = map ((@) metricsPrefix) [''member_operator_version'', ''member_operator_short_commit'', ''member_operator_commit'']"

lemma set_gauge_names [simp]: "map gv_name (allGaugeVecs (set_gauge i l x ms)) = map gv_name (allGaugeVecs ms)"
  by (cases "i < length (allGaugeVecs ms)") (simp_all add: set_gauge_def map_update list_update_same_conv list_update_beyond)

lemma initMetrics_names: "map gv_name (allGaugeVecs (initMetrics commit ms)) = map gv_name (allGaugeVecs ms) @ gauge_names"
  by (simp add: initMetrics_def newGaugeVec_def Let_def gauge_names_def)

text \<open>The label has the short commit, of at most seven characters, or the full one.\<close>

lemma loaded_values:
  "map gv_values (allGaugeVecs (initMetrics commit unloaded)) =
     [[([shortCommit commit], Number 1)], [([shortCommit commit], CurrentTime)], [([commit], CurrentTime)]]"
  by (simp add: initMetrics_def newGaugeVec_def Let_def unloaded_def set_gauge_def)

text \<open>A registry refuses what has a name it has already, and nothing else.\<close>

definition refuses_duplicates :: "(gauge_vec \<Rightarrow> 'reg \<Rightarrow> 'reg option) \<Rightarrow> ('reg \<Rightarrow> string set) \<Rightarrow> bool" where
  "refuses_duplicates MustRegister names \<longleftrightarrow>
     (\<forall>v reg. case MustRegister v reg of None \<Rightarrow> gv_name v \<in> names reg
        | Some reg' \<Rightarrow> gv_name v \<notin> names reg \<and> names reg' = insert (gv_name v) (names reg))"

definition registrable :: "gauge_vec list \<Rightarrow> string set \<Rightarrow> bool" where
  "registrable vs taken \<longleftrightarrow> distinct (map gv_name vs) \<and> taken \<inter> gv_name ` set vs = {}"

lemma register_vecs_result:
  assumes "refuses_duplicates MustRegister names"
  shows "case register_vecs MustRegister vs reg of None \<Rightarrow> \<not> registrable vs (names reg)
    | Some reg' \<Rightarrow> registrable vs (names reg) \<and> names reg' = names reg \<union> gv_name ` set vs"
proof (induction vs arbitrary: reg)
  case (Cons v vs)
  have "case MustRegister v reg of None \<Rightarrow> gv_name v \<in> names reg
      | Some reg' \<Rightarrow> gv_name v \<notin> names reg \<and> names reg' = insert (gv_name v) (names reg)"
    using assms unfolding refuses_duplicates_def by blast
  then consider "MustRegister v reg = None" "gv_name v \<in> names reg"
    | reg' where "MustRegister v reg = Some reg'" "gv_name v \<notin> names reg" "names reg' = insert (gv_name v) (names reg)"
    by (auto split: option.splits)
  then show ?case
  proof cases
    case 1
    then show ?thesis by (auto simp: registrable_def)
  next
    case 2
    have "registrable (v # vs) (names reg) = registrable vs (names reg')"
      using 2 by (auto simp: registrable_def)
    with 2 Cons.IH [of reg'] show ?thesis by (auto split: option.splits)
  qed
qed (simp add: registrable_def)

text \<open>The gauges are registered once, when the package is loaded; after \<open>Reset\<close> registering them panics, since the old ones are still listed.\<close>

theorem metrics_are_registered:
  assumes "refuses_duplicates MustRegister names" and "names reg \<inter> set gauge_names = {}"
  shows "(\<exists>reg'. RegisterCustomMetrics MustRegister (initMetrics commit unloaded) reg = Some reg' \<and> names reg' = names reg \<union> set gauge_names) \<and>
    RegisterCustomMetrics MustRegister (Reset c (initMetrics commit unloaded)) reg = None"
proof -
  let ?ms = "initMetrics commit unloaded"
  have 1: "map gv_name (allGaugeVecs ?ms) = gauge_names"
    using initMetrics_names [of commit unloaded] by (simp add: unloaded_def)
  have 2: "map gv_name (allGaugeVecs (Reset c ?ms)) = gauge_names @ gauge_names"
    using initMetrics_names [of c ?ms] 1 by (simp add: Reset_def)
  have s: "gv_name ` set (allGaugeVecs ?ms) = set gauge_names" using 1 by (metis set_map)
  have "distinct gauge_names" by (simp add: gauge_names_def metricsPrefix_def)
  then have "registrable (allGaugeVecs ?ms) (names reg)" using 1 s assms(2) by (simp add: registrable_def)
  moreover have "\<not> registrable (allGaugeVecs (Reset c ?ms)) (names reg)"
    unfolding registrable_def 2 by (simp add: gauge_names_def)
  ultimately show ?thesis
    using register_vecs_result [OF assms(1), of "allGaugeVecs ?ms" reg] register_vecs_result [OF assms(1), of "allGaugeVecs (Reset c ?ms)" reg]
    by (auto simp: RegisterCustomMetrics_def s split: option.splits)
qed

end
