(* ===== verification/Watches.thy ===== *)
theory Watches
  imports Idler UserAccount NSController OperatorConfig
begin

text \<open>
  What wakes the controllers: the watches each \<open>SetupWithManager\<close> registers, as data, with the predicate and the mappings of this
  repository in place.  The predicates, the handlers and the owner mapping of controller-runtime and toolchain-common are a record of parameters.
\<close>

section \<open>Objects and events\<close>

datatype object =
    IdlerObj idler
  | PodObj pod
  | UserAccountObj user_account
  | NSTemplateSetObj nstt
  | UserObj user
  | IdentityObj identity
  | NamespaceObj namespace
  | RoleObj meta
  | RoleBindingObj meta
  | MemberStatusObj meta
  | MemberOperatorConfigObj meta
  | SecretObj meta

fun kind_of :: "object \<Rightarrow> string" where
  "kind_of (IdlerObj x) = ''Idler''"
| "kind_of (PodObj x) = ''Pod''"
| "kind_of (UserAccountObj x) = ''UserAccount''"
| "kind_of (NSTemplateSetObj x) = ''NSTemplateSet''"
| "kind_of (UserObj x) = ''User''"
| "kind_of (IdentityObj x) = ''Identity''"
| "kind_of (NamespaceObj x) = ''Namespace''"
| "kind_of (RoleObj x) = ''Role''"
| "kind_of (RoleBindingObj x) = ''RoleBinding''"
| "kind_of (MemberStatusObj x) = ''MemberStatus''"
| "kind_of (MemberOperatorConfigObj x) = ''MemberOperatorConfig''"
| "kind_of (SecretObj x) = ''Secret''"

fun meta_of :: "object \<Rightarrow> meta" where
  "meta_of (IdlerObj x) = id_meta x"
| "meta_of (PodObj x) = p_meta x"
| "meta_of (UserAccountObj x) = ua_meta x"
| "meta_of (NSTemplateSetObj x) = nt_meta x"
| "meta_of (UserObj x) = us_meta x"
| "meta_of (IdentityObj x) = it_meta x"
| "meta_of (NamespaceObj x) = ns_meta x"
| "meta_of (RoleObj m) = m"
| "meta_of (RoleBindingObj m) = m"
| "meta_of (MemberStatusObj m) = m"
| "meta_of (MemberOperatorConfigObj m) = m"
| "meta_of (SecretObj m) = m"

datatype event = Created object | Updated object object | Deleted object | Generic object

fun subject :: "event \<Rightarrow> object" where
  "subject (Created x) = x"
| "subject (Updated x y) = y"
| "subject (Deleted x) = x"
| "subject (Generic x) = x"

text \<open>A request names a namespace, which is empty for one that is left to the controller, and an object.\<close>

type_synonym request = "string \<times> string"

section \<open>Watches\<close>

datatype predicate =
    GenerationChangedPredicate
  | AnnotationChangedPredicate
  | LabelsAndGenerationPredicate
  | Or "predicate list"
  | PodIdlerPredicate

datatype handler =
    EnqueueRequestForObject
  | MapToOwnerByLabel string mkey
  | EnqueueIdlerOfPod
  | EnqueueConfigOfSecret

datatype informers = ManagerCache | AllNamespacesCache

record watch =
  wt_cache :: informers
  wt_kind :: string
  wt_handler :: handler
  wt_predicates :: "predicate list"

definition For :: "string \<Rightarrow> predicate list \<Rightarrow> watch" where
  "For kind ps = \<lparr>wt_cache = ManagerCache, wt_kind = kind, wt_handler = EnqueueRequestForObject, wt_predicates = ps\<rparr>"

definition Watches :: "string \<Rightarrow> handler \<Rightarrow> watch" where
  "Watches kind h = \<lparr>wt_cache = ManagerCache, wt_kind = kind, wt_handler = h, wt_predicates = []\<rparr>"

definition WatchesRawSource :: "string \<Rightarrow> handler \<Rightarrow> predicate list \<Rightarrow> watch" where
  "WatchesRawSource kind h ps = \<lparr>wt_cache = AllNamespacesCache, wt_kind = kind, wt_handler = h, wt_predicates = ps\<rparr>"

section \<open>The controllers\<close>

text \<open>The watches each controller asks for; \<open>Complete\<close>, which registers them, may fail.\<close>

definition idler_watches :: "watch list" where
  "idler_watches =
     [For ''Idler'' [GenerationChangedPredicate],
      WatchesRawSource ''Pod'' EnqueueIdlerOfPod [PodIdlerPredicate]]"

definition user_account_watches :: "watch list" where
  "user_account_watches =
     (let mapToOwnerByLabel = MapToOwnerByLabel [] OwnerLabelKey in
     [For ''UserAccount'' [GenerationChangedPredicate],
      Watches ''NSTemplateSet'' EnqueueRequestForObject,
      Watches ''User'' mapToOwnerByLabel,
      Watches ''Identity'' mapToOwnerByLabel])"

definition nstemplateset_watches :: "watch list" where
  "nstemplateset_watches =
     (let mapToOwnerByLabel = MapToOwnerByLabel [] SpaceLabelKey in
     [For ''NSTemplateSet'' [Or [GenerationChangedPredicate, AnnotationChangedPredicate]],
      Watches ''Namespace'' mapToOwnerByLabel,
      WatchesRawSource ''Role'' mapToOwnerByLabel [LabelsAndGenerationPredicate],
      WatchesRawSource ''RoleBinding'' mapToOwnerByLabel [LabelsAndGenerationPredicate]])"

definition member_status_watches :: "watch list" where
  "member_status_watches = [For ''MemberStatus'' [GenerationChangedPredicate]]"

definition operator_config_watches :: "watch list" where
  "operator_config_watches =
     [For ''MemberOperatorConfig'' [GenerationChangedPredicate], Watches ''Secret'' EnqueueConfigOfSecret]"

definition idler_SetupWithManager :: "(watch list \<Rightarrow> err option) \<Rightarrow> err option" where
  "idler_SetupWithManager Complete = Complete idler_watches"

definition user_account_SetupWithManager :: "(watch list \<Rightarrow> err option) \<Rightarrow> err option" where
  "user_account_SetupWithManager Complete = Complete user_account_watches"

text \<open>The API groups are asked for once, before anything is registered; the reconciler keeps them.\<close>

definition nstemplateset_SetupWithManager ::
  "err + (string \<times> string list) list \<Rightarrow> (watch list \<Rightarrow> err option) \<Rightarrow> nenv \<Rightarrow> nenv \<times> err option" where
  "nstemplateset_SetupWithManager ServerGroups Complete E =
     (case ServerGroups of
        Inl e \<Rightarrow> (E, Some e)
      | Inr groups \<Rightarrow> (E\<lparr>ne_groups := groups\<rparr>, Complete nstemplateset_watches))"

definition member_status_SetupWithManager :: "(watch list \<Rightarrow> err option) \<Rightarrow> err option" where
  "member_status_SetupWithManager Complete = Complete member_status_watches"

definition operator_config_SetupWithManager :: "(watch list \<Rightarrow> err option) \<Rightarrow> err option" where
  "operator_config_SetupWithManager Complete = Complete operator_config_watches"

section \<open>From an event to requests\<close>

text \<open>
  The libraries: three predicates, the requests of \<open>EnqueueRequestForObject\<close> and of \<open>EnqueueRequestsFromMapFunc\<close>, and
  \<open>MapToOwnerByLabel\<close>.
\<close>

record wlib =
  GenerationChanged :: "event \<Rightarrow> bool"
  AnnotationChanged :: "event \<Rightarrow> bool"
  LabelsAndGeneration :: "event \<Rightarrow> bool"
  EnqueueObject :: "event \<Rightarrow> request list"
  EnqueueMapped :: "(object \<Rightarrow> request list) \<Rightarrow> event \<Rightarrow> request list"
  OwnerByLabel :: "string \<Rightarrow> mkey \<Rightarrow> object \<Rightarrow> request list"

fun pod_event_of :: "event \<Rightarrow> pod_event option" where
  "pod_event_of (Created (PodObj p)) = Some (PodCreated p)"
| "pod_event_of (Updated (PodObj p) (PodObj q)) = Some (PodUpdated p q)"
| "pod_event_of (Deleted (PodObj p)) = Some (PodDeleted p)"
| "pod_event_of (Generic (PodObj p)) = Some (PodGeneric p)"
| "pod_event_of ev = None"

fun lets_through :: "wlib \<Rightarrow> predicate \<Rightarrow> event \<Rightarrow> bool" where
  "lets_through L GenerationChangedPredicate ev = GenerationChanged L ev"
| "lets_through L AnnotationChangedPredicate ev = AnnotationChanged L ev"
| "lets_through L LabelsAndGenerationPredicate ev = LabelsAndGeneration L ev"
| "lets_through L (Or ps) ev = list_ex (\<lambda>p. lets_through L p ev) ps"
| "lets_through L PodIdlerPredicate ev =
     (case pod_event_of ev of Some pe \<Rightarrow> Idler.PodIdlerPredicate pe | None \<Rightarrow> False)"

fun idlers_of :: "object \<Rightarrow> request list" where
  "idlers_of (PodObj p) = map (Pair []) (MapPodToIdler p)"
| "idlers_of x = []"

fun watched_of :: "object \<Rightarrow> watched" where
  "watched_of (SecretObj m) = SecretObject (m_ns m) (m_name m)"
| "watched_of x = OtherObject"

fun handled :: "wlib \<Rightarrow> handler \<Rightarrow> event \<Rightarrow> request list" where
  "handled L EnqueueRequestForObject ev = EnqueueObject L ev"
| "handled L (MapToOwnerByLabel ns key) ev = EnqueueMapped L (OwnerByLabel L ns key) ev"
| "handled L EnqueueIdlerOfPod ev = EnqueueMapped L idlers_of ev"
| "handled L EnqueueConfigOfSecret ev = EnqueueMapped L (\<lambda>x. MapSecretToMemberOperatorConfig (watched_of x)) ev"

text \<open>The requests a controller gets for an event that the informers of a cache report.\<close>

definition requests :: "wlib \<Rightarrow> watch list \<Rightarrow> informers \<Rightarrow> event \<Rightarrow> request list" where
  "requests L ws cache ev =
     concat (map (\<lambda>w. handled L (wt_handler w) ev)
       (filter (\<lambda>w. wt_cache w = cache \<and> wt_kind w = kind_of (subject ev) \<and>
          list_all (\<lambda>p. lets_through L p ev) (wt_predicates w)) ws))"

text \<open>
  As documented: only an update can be dropped by the predicates of the libraries, the first when the generation is the same, the second when the
  annotations are, the third when generation and labels are; a mapping handler enqueues what the object is
  mapped to, for an update what both versions are; an object is mapped to the owner its label names.
\<close>

definition watch_lib :: "wlib \<Rightarrow> (object \<Rightarrow> int) \<Rightarrow> bool" where
  "watch_lib L generation \<longleftrightarrow>
     (\<forall>x. GenerationChanged L (Created x) \<and> GenerationChanged L (Deleted x) \<and>
        AnnotationChanged L (Created x) \<and> AnnotationChanged L (Deleted x) \<and>
        LabelsAndGeneration L (Created x) \<and> LabelsAndGeneration L (Deleted x)) \<and>
     (\<forall>x y. (GenerationChanged L (Updated x y) \<longleftrightarrow> generation x \<noteq> generation y) \<and>
        (AnnotationChanged L (Updated x y) \<longleftrightarrow> m_annotations (meta_of x) \<noteq> m_annotations (meta_of y)) \<and>
        (LabelsAndGeneration L (Updated x y) \<longleftrightarrow> generation x \<noteq> generation y \<or> m_labels (meta_of x) \<noteq> m_labels (meta_of y))) \<and>
     (\<forall>x y. set (EnqueueObject L (Created x)) = {(m_ns (meta_of x), m_name (meta_of x))} \<and>
        set (EnqueueObject L (Deleted x)) = {(m_ns (meta_of x), m_name (meta_of x))} \<and>
        set (EnqueueObject L (Updated x y)) = {(m_ns (meta_of y), m_name (meta_of y))}) \<and>
     (\<forall>f x y. set (EnqueueMapped L f (Created x)) = set (f x) \<and> set (EnqueueMapped L f (Deleted x)) = set (f x) \<and>
        set (EnqueueMapped L f (Updated x y)) = set (f x) \<union> set (f y)) \<and>
     (\<forall>ns key x. OwnerByLabel L ns key x = (case lookup (m_labels (meta_of x)) key of None \<Rightarrow> [] | Some owner \<Rightarrow> [(ns, owner)]))"

lemma watch_libD:
  assumes "watch_lib L generation"
  shows "GenerationChanged L (Created x)" "GenerationChanged L (Deleted x)"
    "GenerationChanged L (Updated x y) \<longleftrightarrow> generation x \<noteq> generation y"
    "AnnotationChanged L (Updated x y) \<longleftrightarrow> m_annotations (meta_of x) \<noteq> m_annotations (meta_of y)"
    "LabelsAndGeneration L (Created x)" "LabelsAndGeneration L (Deleted x)"
    "LabelsAndGeneration L (Updated x y) \<longleftrightarrow> generation x \<noteq> generation y \<or> m_labels (meta_of x) \<noteq> m_labels (meta_of y)"
    "set (EnqueueObject L (Created x)) = {(m_ns (meta_of x), m_name (meta_of x))}"
    "set (EnqueueObject L (Deleted x)) = {(m_ns (meta_of x), m_name (meta_of x))}"
    "set (EnqueueObject L (Updated x y)) = {(m_ns (meta_of y), m_name (meta_of y))}"
    "set (EnqueueMapped L f (Created x)) = set (f x)" "set (EnqueueMapped L f (Deleted x)) = set (f x)"
    "set (EnqueueMapped L f (Updated x y)) = set (f x) \<union> set (f y)"
    "set (OwnerByLabel L ns key x) = {(ns, owner) |owner. lookup (m_labels (meta_of x)) key = Some owner}"
  using assms unfolding watch_lib_def by (auto split: option.splits)

text \<open>A library that behaves as documented; the generation of an object is its resource version's length here.\<close>

definition demo_generation :: "object \<Rightarrow> int" where
  "demo_generation x = int (length (m_rv (meta_of x)))"

fun object_requests :: "event \<Rightarrow> request list" where
  "object_requests ev = [(m_ns (meta_of (subject ev)), m_name (meta_of (subject ev)))]"

fun mapped_requests :: "(object \<Rightarrow> request list) \<Rightarrow> event \<Rightarrow> request list" where
  "mapped_requests f (Updated x y) = remdups (f x @ f y)"
| "mapped_requests f ev = f (subject ev)"

fun updated_if :: "(object \<Rightarrow> object \<Rightarrow> bool) \<Rightarrow> event \<Rightarrow> bool" where
  "updated_if P (Updated x y) = P x y"
| "updated_if P ev = True"

definition demo_wlib :: wlib where
  "demo_wlib =
     \<lparr>GenerationChanged = updated_if (\<lambda>x y. demo_generation x \<noteq> demo_generation y),
      AnnotationChanged = updated_if (\<lambda>x y. m_annotations (meta_of x) \<noteq> m_annotations (meta_of y)),
      LabelsAndGeneration = updated_if (\<lambda>x y. demo_generation x \<noteq> demo_generation y \<or> m_labels (meta_of x) \<noteq> m_labels (meta_of y)),
      EnqueueObject = object_requests, EnqueueMapped = mapped_requests,
      OwnerByLabel = (\<lambda>ns key x. case lookup (m_labels (meta_of x)) key of None \<Rightarrow> [] | Some owner \<Rightarrow> [(ns, owner)])\<rparr>"

lemma demo_wlib_ok: "watch_lib demo_wlib demo_generation"
  by (auto simp: watch_lib_def demo_wlib_def)

section \<open>Requests of the controllers\<close>

lemma requests_simps [simp]:
  "requests L [] cache ev = []"
  "requests L (w # ws) cache ev =
     (if wt_cache w = cache \<and> wt_kind w = kind_of (subject ev) \<and> list_all (\<lambda>p. lets_through L p ev) (wt_predicates w)
      then handled L (wt_handler w) ev else []) @ requests L ws cache ev"
  by (simp_all add: requests_def)

lemma watch_simps [simp]:
  "wt_cache (For k ps) = ManagerCache" "wt_kind (For k ps) = k" "wt_handler (For k ps) = EnqueueRequestForObject"
  "wt_predicates (For k ps) = ps"
  "wt_cache (Watches k h) = ManagerCache" "wt_kind (Watches k h) = k" "wt_handler (Watches k h) = h" "wt_predicates (Watches k h) = []"
  "wt_cache (WatchesRawSource k h ps) = AllNamespacesCache" "wt_kind (WatchesRawSource k h ps) = k"
  "wt_handler (WatchesRawSource k h ps) = h" "wt_predicates (WatchesRawSource k h ps) = ps"
  by (simp_all add: For_def Watches_def WatchesRawSource_def)

lemma account_requests:
  "kind_of (subject ev) = ''User'' \<or> kind_of (subject ev) = ''Identity'' \<Longrightarrow>
     requests L user_account_watches ManagerCache ev = EnqueueMapped L (OwnerByLabel L [] OwnerLabelKey) ev"
  by (elim disjE; simp add: user_account_watches_def Let_def)

lemma owner_requests:
  assumes "watch_lib L generation" and "kind_of x = ''User'' \<or> kind_of x = ''Identity''" and "kind_of y = kind_of x"
  shows "set (requests L user_account_watches ManagerCache (Created x)) = set (OwnerByLabel L [] OwnerLabelKey x)"
    and "set (requests L user_account_watches ManagerCache (Deleted x)) = set (OwnerByLabel L [] OwnerLabelKey x)"
    and "set (requests L user_account_watches ManagerCache (Updated x y)) =
      set (OwnerByLabel L [] OwnerLabelKey x) \<union> set (OwnerByLabel L [] OwnerLabelKey y)"
proof -
  have "kind_of (subject (Created x)) = ''User'' \<or> kind_of (subject (Created x)) = ''Identity''"
    "kind_of (subject (Deleted x)) = ''User'' \<or> kind_of (subject (Deleted x)) = ''Identity''"
    "kind_of (subject (Updated x y)) = ''User'' \<or> kind_of (subject (Updated x y)) = ''Identity''"
    using assms(2,3) by simp_all
  note r = this [THEN account_requests]
  show "set (requests L user_account_watches ManagerCache (Created x)) = set (OwnerByLabel L [] OwnerLabelKey x)"
    "set (requests L user_account_watches ManagerCache (Deleted x)) = set (OwnerByLabel L [] OwnerLabelKey x)"
    "set (requests L user_account_watches ManagerCache (Updated x y)) =
      set (OwnerByLabel L [] OwnerLabelKey x) \<union> set (OwnerByLabel L [] OwnerLabelKey y)"
    unfolding r watch_libD(11-13) [OF assms(1)] by (rule refl)+
qed

lemma pod_requests:
  assumes "watch_lib L generation"
  shows "set (requests L idler_watches AllNamespacesCache (Updated (PodObj p) (PodObj q))) =
      (if Idler.PodIdlerPredicate (PodUpdated p q) then {([], m_ns (p_meta p)), ([], m_ns (p_meta q))} else {})"
    and "set (requests L idler_watches AllNamespacesCache (Deleted (PodObj p))) =
      (if p_priority_class p = PriorityClassName then {([], m_ns (p_meta p))} else {})"
    and "requests L idler_watches AllNamespacesCache (Created (PodObj p)) = []"
  by (auto simp: idler_watches_def watch_libD(12,13) [OF assms] MapPodToIdler_def simp del: Idler.PodIdlerPredicate.simps(1))

end
