(* ===== verification/AccountWatches.thy ===== *)
theory AccountWatches
  imports Watches UserAccountConvergence UserAccountRemoval
begin

text \<open>
  The UserAccount controller is woken by its own work: what it writes of a User or an Identity carries the label by which
  an event on it is mapped back to the account, so the reconciles that provision an account follow from one another.
\<close>

section \<open>What the controller writes\<close>

text \<open>Nothing in the cluster is labelled as another account's; a labelled object stays with its owner.\<close>

definition no_other_owner :: "string \<Rightarrow> ustore \<Rightarrow> bool" where
  "no_other_owner name S \<longleftrightarrow>
     (\<forall>u \<in> ran (su S). lookup (m_labels (us_meta u)) OwnerLabelKey \<in> {None, Some name}) \<and>
     (\<forall>i \<in> ran (si S). lookup (m_labels (it_meta i)) OwnerLabelKey \<in> {None, Some name})"

text \<open>Every User and Identity that is there now and was not like this before is the account's own.\<close>

definition own_changes :: "string \<Rightarrow> ustore \<Rightarrow> ustore \<Rightarrow> bool" where
  "own_changes name S S' \<longleftrightarrow>
     (\<forall>n u. su S' n = Some u \<and> su S n \<noteq> Some u \<longrightarrow> owned (us_meta u) name) \<and>
     (\<forall>n i. si S' n = Some i \<and> si S n \<noteq> Some i \<longrightarrow> owned (it_meta i) name)"

lemma own_changes_no_other: "own_changes name S S' \<Longrightarrow> no_other_owner name S \<Longrightarrow> no_other_owner name S'"
  unfolding own_changes_def no_other_owner_def ran_def owned_def by blast

definition is_account :: "string \<Rightarrow> claims \<Rightarrow> user_account \<Rightarrow> bool" where
  "is_account name cl a \<longleftrightarrow> m_name (ua_meta a) = name \<and> ua_claims a = cl"

lemma is_account_simps [simp]: "is_account name cl (a\<lparr>ua_conds := cs\<rparr>) = is_account name cl a"
  by (simp add: is_account_def)

fun own_write :: "string \<Rightarrow> claims \<Rightarrow> ucall \<Rightarrow> bool" where
  "own_write name cl (CreateUser u) = owned (us_meta u) name"
| "own_write name cl (UpdateUser u) = owned (us_meta u) name"
| "own_write name cl (CreateIdentity i) = owned (it_meta i) name"
| "own_write name cl (UpdateIdentity i) = owned (it_meta i) name"
| "own_write name cl (UpdateUserAccount a) \<longleftrightarrow> is_account name cl a"
| "own_write name cl (UpdateUserAccountStatus a) \<longleftrightarrow> is_account name cl a"
| "own_write name cl c = True"

text \<open>The invariant: the handler holds the account, and since the store \<open>S\<close> only own objects were changed.\<close>

definition on_account :: "uenv \<Rightarrow> ustore \<Rightarrow> string \<Rightarrow> claims \<Rightarrow> ustore \<Rightarrow> (user_account, ucall) st \<Rightarrow> bool" where
  "on_account E S0 name cl S s \<longleftrightarrow> is_account name cl (mem s) \<and> own_changes name S (now E S0 s) \<and> no_other_owner name (now E S0 s) \<and>
     is_account name cl (sa (now E S0 s))"

lemma stored_own:
  assumes C: "account_cluster E S0 ns name cfg" and "own_changes name S S'" and "own_write name cl c"
  shows "own_changes name S (stored E tr c S')"
proof (cases c)
  case (CreateUser u)
  obtain v where "ue_create_user E tr u = Inr v" "m_labels (us_meta v) = m_labels (us_meta u)"
    using acceptsE [OF cluster_writes(3) [OF C]] by (metis prod.inject)
  with CreateUser assms(2,3) show ?thesis by (auto simp: own_changes_def owned_def)
next
  case (UpdateUser u)
  obtain v where "ue_update_user E tr u = Inr v" "m_labels (us_meta v) = m_labels (us_meta u)"
    using acceptsE [OF cluster_writes(4) [OF C]] by (metis prod.inject)
  with UpdateUser assms(2,3) show ?thesis by (auto simp: own_changes_def owned_def)
next
  case (CreateIdentity i)
  obtain j where "ue_create_identity E tr i = Inr j" "m_labels (it_meta j) = m_labels (it_meta i)"
    using acceptsE [OF cluster_writes(5) [OF C]] by (metis prod.inject)
  with CreateIdentity assms(2,3) show ?thesis by (auto simp: own_changes_def owned_def)
next
  case (UpdateIdentity i)
  obtain j where "ue_update_identity E tr i = Inr j" "m_labels (it_meta j) = m_labels (it_meta i)"
    using acceptsE [OF cluster_writes(6) [OF C]] by (metis prod.inject)
  with UpdateIdentity assms(2,3) show ?thesis by (auto simp: own_changes_def owned_def)
qed (use assms(2) in \<open>auto simp: own_changes_def split: sum.split\<close>)

lemma stored_account_name:
  assumes C: "account_cluster E S0 ns name cfg" and "is_account name cl (sa S)" and "own_write name cl c"
  shows "is_account name cl (sa (stored E tr c S))"
proof -
  have "ue_update_account E tr a = Inr b \<Longrightarrow> is_account name cl b = is_account name cl a"
    and "ue_update_status E tr a = Inr b \<Longrightarrow> is_account name cl b = is_account name cl a" for a b
    using acceptsE [OF cluster_writes(1) [OF C], of tr a] acceptsE [OF cluster_writes(2) [OF C], of tr a]
    unfolding is_account_def by (metis prod.inject sum.inject(2))+
  with assms(2,3) show ?thesis by (cases c) (force split: sum.split)+
qed

lemma on_account_log:
  assumes C: "account_cluster E S0 ns name cfg" and "on_account E S0 name cl S s" and "own_write name cl c" and "no_other_owner name S"
  shows "on_account E S0 name cl S (log_call c ok s)"
  using assms(2) stored_own [OF C _ assms(3), of S "now E S0 s" "calls s"] stored_account_name [OF C _ assms(3), of "now E S0 s" "calls s"]
    own_changes_no_other [OF _ assms(4)]
  by (auto simp: on_account_def)

lemma on_account_mem: "on_account E S0 name cl S s \<Longrightarrow> is_account name cl x \<Longrightarrow> on_account E S0 name cl S (s\<lparr>mem := x\<rparr>)"
  by (simp add: on_account_def)

lemma on_account_tick: "on_account E S0 name cl S s \<Longrightarrow> on_account E S0 name cl S (s\<lparr>tick := t\<rparr>)"
  by (simp add: on_account_def)

lemma on_account_name: "on_account E S0 name cl S s \<Longrightarrow> is_account name cl (mem s)"
  by (simp add: on_account_def)

lemma on_account_name': "on_account E S0 name cl S s \<Longrightarrow> m_name (ua_meta (mem s)) = name"
  by (simp add: on_account_def is_account_def)

lemma labelled_own:
  assumes "lookup (m_labels m) OwnerLabelKey \<in> {None, Some name}" and "m_name (ua_meta ua) = name"
  shows "owned (fst (setLabelsAndAnnotations m ua b)) name"
  using assms by (auto simp: owned_def setLabels_labels)

text \<open>Where it works: a cluster as before, in which nothing is labelled as another account's; \<open>ApplyToIdentity\<close> leaves the labels.\<close>

definition own_setting :: "uenv \<Rightarrow> ustore \<Rightarrow> string \<Rightarrow> ustore \<Rightarrow> bool" where
  "own_setting E S0 name S \<longleftrightarrow> (\<exists>ns cfg. account_cluster E S0 ns name cfg) \<and> no_other_owner name S \<and>
     (\<forall>idp n i. m_labels (it_meta (ue_apply_identity E idp n i)) = m_labels (it_meta i))"

lemma own_log:
  "own_setting E S0 name S \<Longrightarrow> on_account E S0 name cl S s \<Longrightarrow> own_write name cl c \<Longrightarrow> on_account E S0 name cl S (log_call c ok s)"
  using on_account_log unfolding own_setting_def by blast

lemma answered_name:
  assumes "own_setting E S0 name S"
  shows "ue_update_status E tr a = Inr b \<Longrightarrow> is_account name cl b = is_account name cl a"
    and "ue_update_account E tr a = Inr b \<Longrightarrow> is_account name cl b = is_account name cl a"
proof -
  obtain ns cfg where C: "account_cluster E S0 ns name cfg" using assms by (auto simp: own_setting_def)
  show "ue_update_status E tr a = Inr b \<Longrightarrow> is_account name cl b = is_account name cl a"
    "ue_update_account E tr a = Inr b \<Longrightarrow> is_account name cl b = is_account name cl a"
    using acceptsE [OF cluster_writes(1) [OF C], of tr a] acceptsE [OF cluster_writes(2) [OF C], of tr a]
    unfolding is_account_def by (metis prod.inject sum.inject(2))+
qed

lemma answered_labels:
  assumes "own_setting E S0 name S"
  shows "ue_update_user E tr u = Inr v \<Longrightarrow> owned (us_meta v) name = owned (us_meta u) name"
    and "ue_update_identity E tr i = Inr j \<Longrightarrow> owned (it_meta j) name = owned (it_meta i) name"
proof -
  obtain ns cfg where C: "account_cluster E S0 ns name cfg" using assms by (auto simp: own_setting_def)
  show "ue_update_user E tr u = Inr v \<Longrightarrow> owned (us_meta v) name = owned (us_meta u) name"
    "ue_update_identity E tr i = Inr j \<Longrightarrow> owned (it_meta j) name = owned (it_meta i) name"
    using acceptsE [OF cluster_writes(4) [OF C], of tr u] acceptsE [OF cluster_writes(6) [OF C], of tr i]
    unfolding owned_def by (metis prod.inject sum.inject(2))+
qed

lemma read_labels:
  assumes "own_setting E S0 name S" and "on_account E S0 name cl S s"
  shows "ue_get_user E (calls s) n = Inr u \<Longrightarrow> lookup (m_labels (us_meta u)) OwnerLabelKey \<in> {None, Some name}"
    and "ue_get_identity E (calls s) n = Inr i \<Longrightarrow> lookup (m_labels (it_meta i)) OwnerLabelKey \<in> {None, Some name}"
proof -
  obtain ns cfg where C: "account_cluster E S0 ns name cfg" using assms(1) by (auto simp: own_setting_def)
  show "ue_get_user E (calls s) n = Inr u \<Longrightarrow> lookup (m_labels (us_meta u)) OwnerLabelKey \<in> {None, Some name}"
    "ue_get_identity E (calls s) n = Inr i \<Longrightarrow> lookup (m_labels (it_meta i)) OwnerLabelKey \<in> {None, Some name}"
    using cluster_reads(3,4) [OF C, of "calls s" n] assms(2)
    unfolding on_account_def no_other_owner_def by (auto intro: ranI)
qed

lemmas own_simps = on_account_mem on_account_tick on_account_name on_account_name'

lemma updateStatus_maintains [maintains_rules]:
  "own_setting E S0 name S \<Longrightarrow> maintains (on_account E S0 name cl S) any_result (UserAccount.updateStatusConditions E cs)"
  unfolding UserAccount.updateStatusConditions_def
  by (auto intro!: maintains_rules own_log simp: own_simps answered_name)

lemma set_status_maintains [maintains_rules]:
  assumes "own_setting E S0 name S"
  shows "maintains (on_account E S0 name cl S) any_result (setStatusUserCreationFailed E m)"
    "maintains (on_account E S0 name cl S) any_result (setStatusIdentityCreationFailed E m)"
    "maintains (on_account E S0 name cl S) any_result (setStatusMappingCreationFailed E m)"
    "maintains (on_account E S0 name cl S) any_result (setStatusProvisioning E)"
    "maintains (on_account E S0 name cl S) any_result (UserAccount.setStatusReady E)"
    "maintains (on_account E S0 name cl S) any_result (UserAccount.setStatusDisabling E m)"
    "maintains (on_account E S0 name cl S) any_result (setStatusDisabled E)"
    "maintains (on_account E S0 name cl S) any_result (UserAccount.setStatusTerminating E m)"
  using assms by (simp_all add: ua_status_defs updateStatus_maintains)

lemma wrap_maintains [maintains_rules]:
  "(\<And>m. maintains J any_result (upd m)) \<Longrightarrow> maintains J any_result (UserAccount.wrapErrorWithStatusUpdate upd e fmt)"
  unfolding UserAccount.wrapErrorWithStatusUpdate_def by (auto intro!: maintains_rules then_maintains)

lemmas then_status [maintains_rules] = set_status_maintains [THEN then_maintains] wrap_maintains [THEN then_maintains]

lemma newUser_meta: "us_meta (newUser E ua cfg) = new_meta [] (m_name (ua_meta ua))"
  by (simp add: newUser_def Let_def)

lemma create_user_maintains [maintains_rules]:
  assumes "own_setting E S0 name S"
  shows "maintains (on_account E S0 name cl S) any_result (create_user E cfg)"
  unfolding create_user_def Let_def
  using assms
  by (auto intro!: maintains_rules own_log labelled_own simp: own_simps newUser_meta new_meta_def)

lemma applied_labels: "own_setting E S0 name S \<Longrightarrow> m_labels (it_meta (ue_apply_identity E idp n (newIdentity u))) = None"
  by (simp add: own_setting_def newIdentity_def new_meta_def)

lemma create_identity_maintains [maintains_rules]:
  assumes "own_setting E S0 name S"
  shows "maintains (on_account E S0 name cl S) any_result (create_identity E cfg n u)"
  unfolding create_identity_def Let_def
  using assms
  by (auto intro!: maintains_rules own_log labelled_own simp: own_simps applied_labels)

lemma update_identities_maintains [maintains_rules]:
  assumes "own_setting E S0 name S" and "owned (us_meta u) name"
  shows "maintains (on_account E S0 name cl S) any_result (update_identities E u ids)"
  unfolding update_identities_def Let_def
  using assms
  by (auto intro!: maintains_rules own_log simp: own_simps)

lemma update_mapping_maintains [maintains_rules]:
  assumes "own_setting E S0 name S" and "owned (it_meta i) name"
  shows "maintains (on_account E S0 name cl S) any_result (update_mapping E cfg n u i)"
  unfolding update_mapping_def Let_def
  using assms
  by (auto intro!: maintains_rules own_log simp: own_simps)

lemma label_user_maintains:
  assumes "own_setting E S0 name S" and "lookup (m_labels (us_meta u)) OwnerLabelKey \<in> {None, Some name}" and "m_name (ua_meta ua) = name"
  shows "maintains (on_account E S0 name cl S) (\<lambda>r. owned (us_meta (fst r)) name) (addLabelsAndAnnotations_user E u ua)"
  unfolding addLabelsAndAnnotations_user_def Let_def
  using assms labelled_own [OF assms(2,3)]
  by (auto intro!: maintains_rules own_log simp: own_simps answered_labels split_beta)

lemma label_identity_maintains:
  assumes "own_setting E S0 name S" and "lookup (m_labels (it_meta i)) OwnerLabelKey \<in> {None, Some name}" and "m_name (ua_meta ua) = name"
  shows "maintains (on_account E S0 name cl S) (\<lambda>r. owned (it_meta (fst r)) name) (addLabelsAndAnnotations_identity E i ua)"
  unfolding addLabelsAndAnnotations_identity_def Let_def
  using assms labelled_own [OF assms(2,3)]
  by (auto intro!: maintains_rules own_log simp: own_simps answered_labels split_beta)


lemma ensureUser_maintains [maintains_rules]:
  assumes "own_setting E S0 name S"
  shows "maintains (on_account E S0 name cl S) any_result (ensureUser E cfg)"
  unfolding ensureUser_def Let_def
  using assms
  by (auto intro!: maintains_rules own_log maintains_bind [OF label_user_maintains] simp: own_simps dest: read_labels)

lemma loadIdentity_maintains [maintains_rules]:
  assumes "own_setting E S0 name S"
  shows "maintains (on_account E S0 name cl S) any_result (loadIdentityAndEnsureMapping E cfg n u)"
  unfolding loadIdentityAndEnsureMapping_def Let_def
  using assms
  by (auto intro!: maintains_rules own_log maintains_bind [OF label_identity_maintains] simp: own_simps dest: read_labels)

lemma ensureIdentity_maintains [maintains_rules]:
  assumes "own_setting E S0 name S"
  shows "maintains (on_account E S0 name cl S) any_result (ensureIdentity E cfg u)"
  unfolding ensureIdentity_def
  using assms
  by (auto intro!: maintains_rules then_maintains)

lemma deletion_maintains [maintains_rules]:
  assumes "own_setting E S0 name S"
  shows "maintains (on_account E S0 name cl S) any_result (deleteIdentityAndUser E)"
  unfolding deleteIdentityAndUser_def deleteIdentity_def deleteUser_def getUsersByOwnerName_def deleteUserResources_def deleteResource_def
  using assms
  by (auto intro!: maintains_rules then_maintains own_log split: list.split)


lemmas then_deletion [maintains_rules] = deletion_maintains [THEN then_maintains]

lemma ensureBoth_maintains [maintains_rules]:
  assumes "own_setting E S0 name S"
  shows "maintains (on_account E S0 name cl S) any_result (ensureUserAndIdentity E cfg)"
  unfolding ensureUserAndIdentity_def
  using assms
  by (auto intro!: maintains_rules then_maintains split: bool.split)

lemma rest_maintains [maintains_rules]:
  assumes "own_setting E S0 name S"
  shows "maintains (on_account E S0 name cl S) any_result (UserAccount.addFinalizer E)"
    and "maintains (on_account E S0 name cl S) any_result (finish_reconcile E)"
    and "maintains (on_account E S0 name cl S) any_result (disable_account E)"
    and "maintains (on_account E S0 name cl S) any_result (ensureUserAccountDeletion E)"
proof -
  have "m_name (AddFinalizer (ue_lib E) m f) = m_name m" "m_name (RemoveFinalizer (ue_lib E) m f) = m_name m" for m f
    using assms cluster_libs(1) by (auto simp: own_setting_def finalizers_lib_def)
  then have fin: "is_account name cl (a\<lparr>ua_meta := AddFinalizer (ue_lib E) (ua_meta a) f\<rparr>) = is_account name cl a"
    "is_account name cl (a\<lparr>ua_meta := RemoveFinalizer (ue_lib E) (ua_meta a) f\<rparr>) = is_account name cl a" for a f
    by (simp_all add: is_account_def)
  show "maintains (on_account E S0 name cl S) any_result (UserAccount.addFinalizer E)"
    unfolding UserAccount.addFinalizer_def Let_def
    using assms by (auto intro!: maintains_rules own_log simp: own_simps fin answered_name)
  show "maintains (on_account E S0 name cl S) any_result (finish_reconcile E)"
    unfolding finish_reconcile_def
    using assms by (auto intro!: maintains_rules own_log simp: own_simps)
  show "maintains (on_account E S0 name cl S) any_result (disable_account E)"
    unfolding disable_account_def
    using assms by (auto intro!: maintains_rules own_log simp: own_simps)
  show "maintains (on_account E S0 name cl S) any_result (ensureUserAccountDeletion E)"
    unfolding ensureUserAccountDeletion_def Let_def
    using assms by (auto intro!: maintains_rules own_log simp: own_simps fin answered_name)
qed


lemma read_account:
  assumes "account_cluster E S0 ns name cfg" and "on_account E S0 name cl S s"
  shows "ue_get_account E (calls s) ns name = Inr a \<Longrightarrow> is_account name cl a"
  using cluster_reads(1) [OF assms(1), of "calls s"] assms(2) by (simp add: on_account_def)

lemma Reconcile_maintains:
  assumes C: "account_cluster E S0 ns name cfg" and "own_setting E S0 name S"
  shows "maintains (on_account E S0 name cl S) any_result (UserAccount.Reconcile E ns name)"
  unfolding UserAccount.Reconcile_def
  using assms(2) cluster_libs(3) [OF C]
  by (auto intro!: maintains_rules own_log rest_maintains [THEN then_maintains] ensureBoth_maintains [THEN then_maintains]
      simp: own_simps dest: read_account [OF C])

section \<open>Events and requests\<close>

text \<open>What the informers report of two states of the store, one after the other.\<close>

definition object_events :: "('x \<Rightarrow> object) \<Rightarrow> (string \<rightharpoonup> 'x) \<Rightarrow> (string \<rightharpoonup> 'x) \<Rightarrow> event set" where
  "object_events mk m m' =
     {Created (mk y) |n y. m n = None \<and> m' n = Some y} \<union>
     {Updated (mk x) (mk y) |n x y. m n = Some x \<and> m' n = Some y \<and> x \<noteq> y} \<union>
     {Deleted (mk x) |n x. m n = Some x \<and> m' n = None}"

definition store_events :: "ustore \<Rightarrow> ustore \<Rightarrow> event set" where
  "store_events S S' = object_events UserObj (su S) (su S') \<union> object_events IdentityObj (si S) (si S') \<union>
     (if sa S = sa S' then {} else {Updated (UserAccountObj (sa S)) (UserAccountObj (sa S'))})"

definition woken :: "wlib \<Rightarrow> ustore \<Rightarrow> ustore \<Rightarrow> request set" where
  "woken L S S' = (\<Union>ev \<in> store_events S S'. set (requests L user_account_watches ManagerCache ev))"

lemma own_change_wakes:
  assumes "watch_lib L generation" and "own_changes name S S'" and "([], name) \<notin> woken L S S'"
  shows "su S' \<subseteq>\<^sub>m su S" and "si S' \<subseteq>\<^sub>m si S"
proof -
  have wakes: "([], name) \<in> woken L S S'" if "ev \<in> store_events S S'" "ev = Created x \<or> (\<exists>y. ev = Updated y x \<and> kind_of x = kind_of y)"
      "kind_of x = ''User'' \<or> kind_of x = ''Identity''" "owned (meta_of x) name" for ev x
  proof -
    have "([], name) \<in> set (OwnerByLabel L [] OwnerLabelKey x)"
      using that(4) unfolding watch_libD(14) [OF assms(1)] owned_def by simp
    then have "([], name) \<in> set (requests L user_account_watches ManagerCache ev)"
      using that(2,3) owner_requests(1,3) [OF assms(1)] by (metis Un_iff)
    with that(1) show ?thesis unfolding woken_def by blast
  qed
  have "su S n = Some u" if "su S' n = Some u" for n u
  proof (rule ccontr)
    assume "su S n \<noteq> Some u"
    with that assms(2) have "owned (us_meta u) name" by (auto simp: own_changes_def)
    moreover have "Created (UserObj u) \<in> store_events S S' \<or> (\<exists>v. Updated (UserObj v) (UserObj u) \<in> store_events S S')"
      using that \<open>su S n \<noteq> Some u\<close> by (cases "su S n") (auto simp: store_events_def object_events_def)
    ultimately show False
      using wakes [of "Created (UserObj u)" "UserObj u"] wakes [of "Updated (UserObj v) (UserObj u)" "UserObj u" for v] assms(3) by auto
  qed
  then show "su S' \<subseteq>\<^sub>m su S" by (auto simp: map_le_def)
  have "si S n = Some i" if "si S' n = Some i" for n i
  proof (rule ccontr)
    assume "si S n \<noteq> Some i"
    with that assms(2) have "owned (it_meta i) name" by (auto simp: own_changes_def)
    moreover have "Created (IdentityObj i) \<in> store_events S S' \<or> (\<exists>j. Updated (IdentityObj j) (IdentityObj i) \<in> store_events S S')"
      using that \<open>si S n \<noteq> Some i\<close> by (cases "si S n") (auto simp: store_events_def object_events_def)
    ultimately show False
      using wakes [of "Created (IdentityObj i)" "IdentityObj i"] wakes [of "Updated (IdentityObj j) (IdentityObj i)" "IdentityObj i" for j] assms(3)
      by auto
  qed
  then show "si S' \<subseteq>\<^sub>m si S" by (auto simp: map_le_def)
qed

text \<open>Without new or changed objects no work was done.\<close>

lemma provisioning_left_mono:
  assumes "su S' \<subseteq>\<^sub>m su S" and "si S' \<subseteq>\<^sub>m si S" and "is_account name cl (sa S)" and "is_account name cl (sa S')"
  shows "provisioning_left E cfg S \<le> provisioning_left E cfg S'"
proof (cases "user_ready E cfg (sa S') S'")
  case True
  then obtain u where u: "su S' name = Some u" "us_identities u = expectedIdentities E cfg cl"
    using assms(4) by (auto simp: user_ready_def is_account_def)
  then have u0: "su S name = Some u" using assms(1) by (metis domI map_le_def)
  have "unmapped u S ids \<subseteq> unmapped u S' ids" for ids
    using assms(2) by (force simp: unmapped_def mapped_def map_le_def)
  then have "card (unmapped u S (expected_ids E cfg (sa S))) \<le> card (unmapped u S' (expected_ids E cfg (sa S')))"
    using assms(3,4) by (auto simp: is_account_def expected_ids_def unmapped_def intro!: card_mono)
  with True u u0 assms(3,4) show ?thesis by (auto simp: provisioning_left_def user_ready_def is_account_def)
next
  case False
  then have "provisioning_left E cfg S' = Suc (card (expected_ids E cfg (sa S')))" by (simp add: provisioning_left_def)
  moreover have "expected_ids E cfg (sa S') = expected_ids E cfg (sa S)"
    using assms(3,4) by (simp add: is_account_def expected_ids_def)
  ultimately show ?thesis using unmapped_le by (simp add: provisioning_left_def le_SucI)
qed


section \<open>The loop\<close>

text \<open>
  The reconciles of the account that follow from one another: after each, the next only if the last asked for it, by an error or a requeue
  time, or its changes woke the controller.
\<close>

definition requeued :: "int \<times> err option \<Rightarrow> bool" where
  "requeued r \<longleftrightarrow> snd r \<noteq> None \<or> 0 < fst r"

fun driven :: "wlib \<Rightarrow> uenv \<Rightarrow> ustore \<Rightarrow> string \<Rightarrow> nat \<Rightarrow> (user_account, ucall) st \<Rightarrow> (user_account, ucall) st" where
  "driven L E S0 name 0 s = s"
| "driven L E S0 name (Suc k) s =
     (case run_state (UserAccount.Reconcile E [] name) s of (r, s') \<Rightarrow>
        if requeued r \<or> ([], name) \<in> woken L (now E S0 s) (now E S0 s') then driven L E S0 name k s' else s')"

lemma Reconcile_watch_namespace:
  "ue_watch_ns E = Inr ns \<Longrightarrow> ns \<noteq> [] \<Longrightarrow> UserAccount.Reconcile E [] name = UserAccount.Reconcile E ns name"
  by (simp add: UserAccount.Reconcile_def)

definition labels_kept :: "uenv \<Rightarrow> bool" where
  "labels_kept E \<longleftrightarrow> (\<forall>idp n i. m_labels (it_meta (ue_apply_identity E idp n i)) = m_labels (it_meta i))"

lemma log_call_mem: "log_call c ok (s\<lparr>mem := x\<rparr>) = (log_call c ok s)\<lparr>mem := x\<rparr>"
  by (simp add: log_call_def)

text \<open>A reconcile starts by reading the account, whatever the handler held before.\<close>

lemma Reconcile_reads_account:
  assumes C: "account_cluster E S0 ns name cfg"
  shows "run_state (UserAccount.Reconcile E ns name) (s\<lparr>mem := x\<rparr>) = run_state (UserAccount.Reconcile E ns name) s"
  using cluster_libs(3) [OF C] by (simp add: UserAccount.Reconcile_def cluster_reads(1,2) [OF C] log_call_mem)

lemma driven_provisions:
  assumes C: "account_cluster E S0 ns name cfg" and skip: "\<not> cf_skip_user_creation cfg" and ns: "ue_watch_ns E = Inr ns"
    and L: "watch_lib L generation" and keep: "labels_kept E"
  shows "active E (sa (now E S0 s)) \<Longrightarrow> is_account name cl (sa (now E S0 s)) \<Longrightarrow> no_other_owner name (now E S0 s) \<Longrightarrow>
    provisioning_left E cfg (now E S0 s) < k \<or> provisioning_left E cfg (now E S0 s) = 0 \<and> account_ready E (sa (now E S0 s)) \<Longrightarrow>
    provisioned E cfg (now E S0 (driven L E S0 name k s))"
proof (induction k arbitrary: s)
  case 0
  then show ?case by (simp add: nothing_left)
next
  case (Suc k)
  let ?R = "UserAccount.Reconcile E [] name" and ?left = "\<lambda>s. provisioning_left E cfg (now E S0 s)"
  note R = Reconcile_watch_namespace [OF ns cluster_libs(3) [OF C]]
  obtain r s' where run: "run_state ?R s = (r, s')" by (cases "run_state ?R s")
  have nm: "m_name (ua_meta (sa (now E S0 s))) = name" using Suc.prems(2) by (simp add: is_account_def)
  note step = wpD [OF account_reconcile_step [OF C skip Suc.prems(1) nm] run [unfolded R]]
  have set: "own_setting E S0 name (now E S0 s)" using C Suc.prems(3) keep by (auto simp: own_setting_def labels_kept_def)
  let ?s0 = "s\<lparr>mem := sa (now E S0 s)\<rparr>"
  have "on_account E S0 name cl (now E S0 s) ?s0"
    using Suc.prems(2,3) by (simp add: on_account_def own_changes_def)
  moreover have "run_state ?R ?s0 = (r, s')" using run by (simp add: R Reconcile_reads_account [OF C])
  ultimately have own: "on_account E S0 name cl (now E S0 s) s'"
    using Reconcile_maintains [OF C set, of cl] unfolding maintains_def R by (blast dest: wpD)
  have prov: "?left s' < k \<or> ?left s' = 0 \<and> account_ready E (sa (now E S0 s'))"
    using step Suc.prems(4) by linarith
  show ?case
  proof (cases "requeued r \<or> ([], name) \<in> woken L (now E S0 s) (now E S0 s')")
    case True
    have "provisioned E cfg (now E S0 (driven L E S0 name k s'))"
      using step own prov by (intro Suc.IH) (auto simp: on_account_def)
    with True run show ?thesis by simp
  next
    case False
    then have "su (now E S0 s') \<subseteq>\<^sub>m su (now E S0 s)" "si (now E S0 s') \<subseteq>\<^sub>m si (now E S0 s)"
      using own_change_wakes [OF L] own by (auto simp: on_account_def)
    then have "?left s \<le> ?left s'"
      using own Suc.prems(2) by (intro provisioning_left_mono) (auto simp: on_account_def)
    with step have "?left s' = 0" "account_ready E (sa (now E S0 s'))" by auto
    with False run show ?thesis by (simp add: nothing_left)
  qed
qed


text \<open>
  C3: the provisioning of an account drives itself: from the first reconcile on, whatever existed before, as long as nothing is labelled as
  another account's, each reconcile that leaves work undone changes a User or an Identity whose label wakes the controller for this very account,
  so the reconciles that follow from one another end with the
  account provisioned; five of them are enough.
\<close>

theorem provisioning_drives_itself:
  assumes "account_cluster E S0 ns name cfg" and "\<not> cf_skip_user_creation cfg" and "active E (sa S0)" and "no_other_owner name S0"
    and "labels_kept E" and "ue_watch_ns E = Inr ns" and "watch_lib L generation" and "5 \<le> k"
  shows "provisioned E cfg (store E S0 (calls (driven L E S0 name k (fresh z))))"
proof (rule driven_provisions [OF assms(1,2,6,7,5)])
  show "active E (sa (now E S0 (fresh z)))" "no_other_owner name (now E S0 (fresh z))" using assms(3,4) by simp_all
  show "is_account name (ua_claims (sa S0)) (sa (now E S0 (fresh z)))"
    using assms(1) by (simp add: account_cluster_def is_account_def)
  show "provisioning_left E cfg (now E S0 (fresh z)) < k \<or>
      provisioning_left E cfg (now E S0 (fresh z)) = 0 \<and> account_ready E (sa (now E S0 (fresh z)))"
    using provisioning_left_le [of E cfg "now E S0 (fresh z)"] assms(8) by linarith
qed

theorem provisioning_drives_itself_witness:
  "let E = store_env new_store [] in
     provisioned E demo_config (store E new_store (calls (driven demo_wlib E new_store ''john'' 5 (fresh demo_account))))"
proof -
  have C: "account_cluster (store_env new_store []) new_store ''member'' ''john'' demo_config"
    by (rule store_env_cluster)
       (auto simp: keyed_def new_store_def account_demo_defs split: if_splits)
  have "active (store_env new_store []) (sa new_store)"
    by (simp add: active_def not_updating_def store_env_def write_env_def new_store_def account_demo_defs ref_lib_def)
  moreover have "no_other_owner ''john'' new_store"
    by (auto simp: no_other_owner_def new_store_def ran_def account_demo_defs split: if_splits)
  moreover have "labels_kept (store_env new_store [])" "ue_watch_ns (store_env new_store []) = Inr ''member''"
    by (simp_all add: labels_kept_def store_env_def write_env_def demo_uenv_def)
  ultimately show ?thesis
    unfolding Let_def
    by (intro provisioning_drives_itself [OF C _ _ _ _ _ demo_wlib_ok]) (simp_all add: demo_config_def)
qed


section \<open>Removal\<close>

lemma owned_loss_wakes:
  assumes "watch_lib L generation" and "kind_of (mk x) = ''User'' \<or> kind_of (mk x) = ''Identity''" and "\<And>y. kind_of (mk y) = kind_of (mk x)"
    and "m n = Some x" and "owned (meta_of (mk x)) name" and "m' n \<noteq> Some x" and "object_events mk m m' \<subseteq> store_events S S'"
  shows "([], name) \<in> woken L S S'"
proof -
  have "([], name) \<in> set (OwnerByLabel L [] OwnerLabelKey (mk x))"
    using assms(5) unfolding watch_libD(14) [OF assms(1)] owned_def by simp
  moreover have "Deleted (mk x) \<in> object_events mk m m' \<or> (\<exists>y. Updated (mk x) (mk y) \<in> object_events mk m m')"
  proof (cases "m' n")
    case None
    with assms(4) have "Deleted (mk x) \<in> object_events mk m m'" unfolding object_events_def by blast
    then show ?thesis ..
  next
    case (Some y)
    with assms(4,6) have "Updated (mk x) (mk y) \<in> object_events mk m m'" unfolding object_events_def by blast
    then show ?thesis by blast
  qed
  then have "Deleted (mk x) \<in> store_events S S' \<or> (\<exists>y. Updated (mk x) (mk y) \<in> store_events S S')" using assms(7) by blast
  ultimately show ?thesis
    using owner_requests(2,3) [OF assms(1,2,3)] unfolding woken_def by blast
qed

lemma removal_wakes:
  assumes "watch_lib L generation" and "finite_store S'" and "removal_left S' name < removal_left S name"
  shows "([], name) \<in> woken L S S'"
proof -
  have "\<not> (owned_users S name \<subseteq> owned_users S' name \<and> owned_identities S name \<subseteq> owned_identities S' name)"
    using assms(3) card_mono owned_finite [OF assms(2), of name] unfolding removal_left_def by (metis add_mono not_le)
  then consider n u where "su S n = Some u" "owned (us_meta u) name" "su S' n \<noteq> Some u"
    | n i where "si S n = Some i" "owned (it_meta i) name" "si S' n \<noteq> Some i"
    unfolding owned_users_def owned_identities_def by blast
  then show ?thesis
  proof cases
    case 1
    then show ?thesis
      by (intro owned_loss_wakes [OF assms(1), of UserObj u "su S" n name "su S'"]) (auto simp: store_events_def)
  next
    case 2
    then show ?thesis
      by (intro owned_loss_wakes [OF assms(1), of IdentityObj i "si S" n name "si S'"]) (auto simp: store_events_def)
  qed
qed

lemma driven_removes:
  assumes R: "removal_cluster E S0 ns name cfg" and ns: "ue_watch_ns E = Inr ns" and L: "watch_lib L generation"
  shows "leaving E name (now E S0 s) \<Longrightarrow> removal_left (now E S0 s) name < k \<or> removed E name (now E S0 s) \<Longrightarrow>
    removed E name (now E S0 (driven L E S0 name k s))"
proof (induction k arbitrary: s)
  case (Suc k)
  let ?R = "UserAccount.Reconcile E [] name"
  note eq = Reconcile_watch_namespace [OF ns cluster_libs(3) [OF removalD(1) [OF R]]]
  obtain r s' where run: "run_state ?R s = (r, s')" by (cases "run_state ?R s")
  note step = wpD [OF leaving_step [OF R Suc.prems(1)] run [unfolded eq]]
  have more: "removed E name (now E S0 (driven L E S0 name k s'))"
    using step Suc.prems(2) removed_nothing_left [OF R, of "calls s"] by (intro Suc.IH) auto
  show ?case
  proof (cases "requeued r \<or> ([], name) \<in> woken L (now E S0 s) (now E S0 s')")
    case True
    with run more show ?thesis by simp
  next
    case False
    then have "\<not> removal_left (now E S0 s') name < removal_left (now E S0 s) name"
      using removal_wakes [OF L removalD(2) [OF R]] by blast
    with step False run show ?thesis by simp
  qed
qed simp

text \<open>
  C4: so does the removal: a deleted or disabled account is removed by the reconciles that follow from one another, since every Identity or User that
  is deleted carried the account's label and wakes the controller again; what is to be deleted, and one reconcile more, bounds
  their number.
\<close>

theorem removal_drives_itself:
  assumes "removal_cluster E S0 ns name cfg" and "leaving E name S0" and "removal_left S0 name < k"
    and "ue_watch_ns E = Inr ns" and "watch_lib L generation"
  shows "removed E name (store E S0 (calls (driven L E S0 name k (fresh z))))"
  by (rule driven_removes [OF assms(1,4,5)]) (simp_all add: assms(2,3))

theorem removal_drives_itself_witness:
  "let E = store_env old_store old_names in removed E ''john'' (store E old_store (calls (driven demo_wlib E old_store ''john'' 4 (fresh demo_account))))"
proof -
  have "ue_watch_ns (store_env old_store old_names) = Inr ''member''"
    by (simp add: store_env_def write_env_def demo_uenv_def)
  then show ?thesis
    unfolding Let_def by (rule removal_drives_itself [OF old_store_leaves _ demo_wlib_ok])
qed

end
