(* ===== verification/WorkloadWatches.thy ===== *)
theory WorkloadWatches
  imports AccountWatches IdlerSpec NSSpec WebhookMutating
begin

text \<open>
  What wakes the other controllers: everything an NSTemplateSet has applied wakes it again, and a restarting pod that went through
  the admission webhook wakes its idler, which then attempts it.
\<close>

section \<open>Objects applied for a space\<close>

fun space_labelled :: "string \<Rightarrow> ncall \<times> bool \<Rightarrow> bool" where
  "space_labelled name (ncall.ApplyObject obj l, ok) \<longleftrightarrow> map_of l SpaceLabelKey = Some name"
| "space_labelled name (c, ok) = True"

text \<open>The invariant: the set keeps its name, and everything applied since \<open>h\<close> carries it.\<close>

definition for_space :: "string \<Rightarrow> ntrace \<Rightarrow> (nstt, ncall) st \<Rightarrow> bool" where
  "for_space name h s \<longleftrightarrow> m_name (nt_meta (mem s)) = name \<and> (\<exists>t. calls s = h @ t \<and> list_all (space_labelled name) t)"

lemma for_space_name: "for_space name h s \<Longrightarrow> m_name (nt_meta (mem s)) = name"
  by (simp add: for_space_def)

lemma for_space_log: "for_space name h s \<Longrightarrow> space_labelled name (c, ok) \<Longrightarrow> for_space name h (log_call c ok s)"
  by (auto simp: for_space_def)

lemma for_space_mem: "for_space name h s \<Longrightarrow> m_name (nt_meta x) = name \<Longrightarrow> for_space name h (s\<lparr>mem := x\<rparr>)"
  by (simp add: for_space_def)

lemma for_space_tick: "for_space name h s \<Longrightarrow> for_space name h (s\<lparr>tick := n\<rparr>)"
  by (simp add: for_space_def)

lemmas for_space_simps = for_space_name for_space_mem for_space_tick

lemma keeps_name_maintains:
  assumes "emits (space_labelled name) m" and "keeps nstt_spec m"
  shows "maintains (for_space name h) any_result m"
proof -
  have "keeps (\<lambda>nt. m_name (nt_meta nt)) m" using assms(2) by (auto simp: keeps_def)
  from maintains_emits_keeps [OF assms(1) this, of name h] show ?thesis by (simp add: for_space_def [abs_def])
qed

lemma then_keeps:
  "emits (space_labelled name) m \<Longrightarrow> keeps nstt_spec m \<Longrightarrow> (\<And>x. maintains (for_space name h) R (f x)) \<Longrightarrow>
   maintains (for_space name h) R (State_Monad.bind m f)"
  by (rule maintains_bind [OF keeps_name_maintains])

lemma apply_all_maintains [maintains_rules]:
  assumes "map_of l SpaceLabelKey = Some name" and "\<And>x. maintains (for_space name h) R (f x)"
  shows "maintains (for_space name h) R (State_Monad.bind (apply_all E objs l) f)"
proof (rule then_keeps [OF _ _ assms(2)])
  show "emits (space_labelled name) (apply_all E objs l)" by (auto intro!: emits_rules assms(1))
  show "keeps nstt_spec (apply_all E objs l)"
    unfolding apply_all_def ApplyToolchainObjects_def by (auto intro!: keeps_rules)
qed

text \<open>The parts that apply nothing.\<close>

lemma changeStatus_keeps [keeps_rules]: "status_keeps_spec E \<Longrightarrow> keeps nstt_spec (changeStatusIfNeeded E oa)"
  unfolding changeStatusIfNeeded_def by (auto intro!: keeps_rules)

lemma failureStatus_keeps [keeps_rules]: "status_keeps_spec E \<Longrightarrow> keeps nstt_spec (failureStatusReason E oa m)"
  unfolding failureStatusReason_def by (auto intro!: keeps_rules)

lemma Cleanup_keeps [keeps_rules]: "status_keeps_spec E \<Longrightarrow> keeps nstt_spec (Cleanup E oa)"
  unfolding Cleanup_def by (auto intro!: keeps_rules)

lemma fetch_keeps [keeps_rules]: "keeps f (fetchNamespacesByOwner E n)"
  unfolding fetchNamespacesByOwner_def by (auto intro!: keeps_rules)

lemma getTierTemplates_keeps [keeps_rules]: "keeps f (getTierTemplates E refs ts)" "keeps f (getTierTemplatesForAllNamespaces E)"
proof -
  show "keeps f (getTierTemplates E refs ts)" for refs ts
    by (induction refs arbitrary: ts) (auto intro!: keeps_rules)
  then show "keeps f (getTierTemplatesForAllNamespaces E)"
    unfolding getTierTemplatesForAllNamespaces_def by (auto intro!: keeps_rules)
qed

lemma nextNamespace_keeps [keeps_rules]: "keeps f (nextNamespaceToProvisionOrUpdate E ts nss)"
  by (induction ts) (auto simp: isUpToDateAndProvisioned_def Let_def intro!: keeps_rules)

lemma getSpaceRoles_keeps [keeps_rules]: "keeps f (getSpaceRolesObjects E n rs)"
  by (induction rs) (auto intro!: keeps_rules)

lemma delete_redundant_keeps [keeps_rules]: "status_keeps_spec E \<Longrightarrow> keeps nstt_spec (delete_redundant E t ns objs)"
  unfolding delete_redundant_def Let_def by (auto intro!: keeps_rules)

lemma store_applied_keeps [keeps_rules]: "status_keeps_spec E \<Longrightarrow> keeps nstt_spec (store_applied E ns)"
  unfolding store_applied_def by (auto intro!: keeps_rules)

lemma store_applied_not [emits_rules]: "emits (space_labelled name) (store_applied E ns)"
  unfolding store_applied_def by (auto intro!: emits_rules)

lemma quiet_maintains [maintains_rules]:
  assumes "status_keeps_spec E"
  shows "maintains (for_space name h) any_result (write_status E)"
    "maintains (for_space name h) any_result (wrapErrorWithStatusUpdate (setStatusProvisionFailed E) e m)"
    "maintains (for_space name h) any_result (wrapErrorWithStatusUpdate (setStatusNamespaceProvisionFailed E) e m)"
    "maintains (for_space name h) any_result (wrapErrorWithStatusUpdate (setStatusUpdateFailed E) e m)"
    "maintains (for_space name h) any_result (wrapErrorWithStatusUpdate (failureStatusReason E oa) e m)"
    "maintains (for_space name h) any_result (wrapErrorWithStatusUpdateForClusterResourceFailure E e m)"
    "maintains (for_space name h) any_result (wrapErrorWithStatusUpdateForSpaceRolesFailure E e m)"
    "maintains (for_space name h) any_result (setStatusUpdatingIfNotProvisioning E)"
    "maintains (for_space name h) any_result (setStatusProvisioningIfNotUpdating E)"
    "maintains (for_space name h) any_result (NSData.setStatusReady E)"
    "maintains (for_space name h) any_result (changeStatusIfNeeded E oa)" "maintains (for_space name h) any_result (Cleanup E oa)"
    "maintains (for_space name h) any_result (deleteObsoleteObjects E curs news)"
    "maintains (for_space name h) any_result (delete_redundant E t ns objs)"
    "maintains (for_space name h) any_result (nexec E (UpdateNamespace ns))"
    "maintains (for_space name h) any_result (nexec E (DeleteNamespace n))"
    "maintains (for_space name h) any_result (processTierTemplate E c n)"
    "maintains (for_space name h) any_result (fetchNamespacesByOwner E n)"
    "maintains (for_space name h) any_result (getTierTemplatesForAllNamespaces E)"
    "maintains (for_space name h) any_result (nextNamespaceToProvisionOrUpdate E ts nss)"
    "maintains (for_space name h) any_result (getSpaceRolesObjects E n rs)"
    "maintains (for_space name h) any_result (store_applied E ns)"
  using assms by (auto intro!: keeps_name_maintains emits_rules keeps_rules)

lemmas then_quiet [maintains_rules] = quiet_maintains [THEN then_maintains]

lemma apply_cluster_maintains [THEN then_maintains, maintains_rules]:
  "maintains (for_space name h) any_result (apply_cluster E t obj)"
  unfolding apply_cluster_def
  apply (rule maintains_get_mem)
  apply (rule then_keeps)
    apply (auto simp: ApplyToolchainObjects_def cluster_labels_def for_space_name simp del: apply_objects.simps
      intro!: apply_objects_emits keeps_rules maintains_rules)
  done

lemma Apply_maintains [THEN then_maintains, maintains_rules]:
  "status_keeps_spec E \<Longrightarrow> maintains (for_space name h) any_result (Apply E oa obj)"
  unfolding Apply_def by (auto split: option.split intro!: maintains_rules)

lemma apply_each_maintains [THEN then_maintains, maintains_rules]:
  "status_keeps_spec E \<Longrightarrow> maintains (for_space name h) any_result (apply_each E oa objs)"
  by (induction objs arbitrary: oa) (auto intro!: maintains_rules)

lemma ensure_cluster_maintains [maintains_rules]:
  "status_keeps_spec E \<Longrightarrow> maintains (for_space name h) any_result (ensure_cluster E)"
  unfolding ensure_cluster_def by (auto intro!: maintains_rules)

lemma ensureNamespace_maintains [THEN then_maintains, maintains_rules]:
  "status_keeps_spec E \<Longrightarrow> maintains (for_space name h) any_result (ensureNamespace E t ns)"
  unfolding ensureNamespace_def ensureNamespaceResource_def ensureInnerNamespaceResources_def
  by (auto simp: for_space_name intro!: maintains_rules)

lemma ensure_namespaces_maintains [maintains_rules]:
  "status_keeps_spec E \<Longrightarrow> maintains (for_space name h) any_result (ensure_namespaces E)"
  unfolding ensure_namespaces_def provision_next_def
  by (auto split: option.split intro!: maintains_rules)

lemma ensure_roles_in_maintains [THEN then_maintains, maintains_rules]:
  "status_keeps_spec E \<Longrightarrow> maintains (for_space name h) any_result (ensure_roles_in E ns)"
  unfolding ensure_roles_in_def by (auto simp: for_space_name intro!: maintains_rules)

lemma ensure_roles_maintains [maintains_rules]:
  assumes "status_keeps_spec E"
  shows "maintains (for_space name h) any_result (ensure_roles E)"
proof -
  have "maintains (for_space name h) any_result (ensure_roles_each E nss)" for nss
    using assms by (induction nss) (auto intro!: maintains_rules)
  with assms show ?thesis unfolding ensure_roles_def by (auto intro!: maintains_rules)
qed


lemma revisions_maintain [maintains_rules]:
  assumes "status_keeps_spec E"
  shows "maintains (for_space name h) any_result (updateStatusClusterResourcesRevisions E)"
    "maintains (for_space name h) any_result (updateStatusNamespacesRevisions E)"
    "maintains (for_space name h) any_result (updateStatusSpaceRolesRevisions E)"
    "maintains (for_space name h) any_result (setProvisionedNamespaceList E)"
proof -
  have p: "maintains (for_space name h) any_result (updateStatusProvisionedNamespaces E nss)" for nss
    unfolding updateStatusProvisionedNamespaces_def
    using assms by (auto simp: for_space_simps split: list.split intro!: maintains_rules)
  show "maintains (for_space name h) any_result (setProvisionedNamespaceList E)"
    unfolding setProvisionedNamespaceList_def using assms by (auto intro!: maintains_rules p)
  show "maintains (for_space name h) any_result (updateStatusClusterResourcesRevisions E)"
    "maintains (for_space name h) any_result (updateStatusNamespacesRevisions E)"
    "maintains (for_space name h) any_result (updateStatusSpaceRolesRevisions E)"
    unfolding updateStatusClusterResourcesRevisions_def updateStatusNamespacesRevisions_def updateStatusSpaceRolesRevisions_def Let_def
    using assms by (auto simp: for_space_simps intro!: maintains_rules)
qed

lemma ensure_all_maintains [maintains_rules]:
  assumes "status_keeps_spec E"
  shows "maintains (for_space name h) any_result (ensure_all E)"
proof -
  have step: "maintains (for_space name h) any_result (ensure_step m k)"
    if "maintains (for_space name h) any_result m" "maintains (for_space name h) any_result k" for m k
    unfolding ensure_step_def using that by (auto intro!: then_maintains [OF that(1)] maintains_rules)
  show ?thesis unfolding ensure_all_def using assms by (auto intro!: maintains_rules step)
qed

text \<open>An update of the set, such as that of its finalizers, keeps its name, and a set is found by its name.\<close>

definition update_keeps_name :: "nenv \<Rightarrow> bool" where
  "update_keeps_name E \<longleftrightarrow> (\<forall>tr a b. ne_update_nstt E tr a = Inr b \<longrightarrow> m_name (nt_meta b) = m_name (nt_meta a)) \<and>
     (\<forall>m f. m_name (AddFinalizer (ne_lib E) m f) = m_name m)"

lemma addFinalizer_maintains:
  "update_keeps_name E \<Longrightarrow> maintains (for_space name h) any_result (NSController.addFinalizer E)"
  unfolding NSController.addFinalizer_def Let_def
  by (auto simp: for_space_simps for_space_log update_keeps_name_def intro!: maintains_rules)

lemma deletion_applies_nothing: "emits (space_labelled name) (deleteNSTemplateSet E)"
  unfolding deleteNSTemplateSet_def delete_namespaces_def remove_finalizer_def ensureDeleted_def Let_def
  by (auto intro!: emits_rules split: list.split)

definition gets_named :: "nenv \<Rightarrow> string \<Rightarrow> bool" where
  "gets_named E name \<longleftrightarrow> (\<forall>tr n nt. ne_get_nstt E tr n name = Inr nt \<longrightarrow> m_name (nt_meta nt) = name)"

lemma set_mem_emits:
  assumes "\<And>h. maintains (for_space name h) any_result m" and "m_name (nt_meta nt) = name"
  shows "emits (space_labelled name) (State_Monad.bind (set_mem nt) (\<lambda>_. m))"
proof (rule emitsI)
  fix s :: "(nstt, ncall) st"
  let ?s = "s\<lparr>mem := nt\<rparr>"
  have "for_space name (calls s) ?s" using assms(2) by (simp add: for_space_def)
  with assms(1) have "wp m (\<lambda>r s'. for_space name (calls s) s' \<and> any_result r) ?s" unfolding maintains_def by blast
  then show "\<exists>t. calls (snd (run_state (State_Monad.bind (set_mem nt) (\<lambda>_. m)) s)) = calls s @ t \<and> list_all (space_labelled name) t"
    by (auto simp: wp_def for_space_def split: prod.splits)
qed

text \<open>What follows a call may rely on what it can answer.\<close>

lemma emits_call_bind:
  assumes "\<And>b. P (c, b)" and "\<And>tr. emits P (f (srv tr))"
  shows "emits P (State_Monad.bind (call srv c) f)"
proof (rule emitsI)
  fix s
  obtain r s' where run: "run_state (f (srv (calls s))) (log_call c (\<not> isl (srv (calls s))) s) = (r, s')"
    by (cases "run_state (f (srv (calls s))) (log_call c (\<not> isl (srv (calls s))) s)")
  from assms(2) run obtain t where "calls s' = calls (log_call c (\<not> isl (srv (calls s))) s) @ t" "list_all P t" by (rule emitsD)
  with run assms(1) show "\<exists>t. calls (snd (run_state (State_Monad.bind (call srv c) f) s)) = calls s @ t \<and> list_all P t" by simp
qed

lemma Reconcile_labels:
  assumes "status_keeps_spec E" and "update_keeps_name E" and "gets_named E name"
  shows "emits (space_labelled name) (NSController.Reconcile E ns name)"
proof -
  have ens: "maintains (for_space name h) any_result (unless_err (NSController.addFinalizer E) (\<lambda>e. (0, Some e)) (ensure_all E))" for h
    using assms(1,2) by (auto intro!: maintains_rules addFinalizer_maintains)
  have go: "emits (space_labelled name) (do { set_mem nt; if IsBeingDeleted (ne_lib E) (nt_meta nt) then deleteNSTemplateSet E
      else unless_err (NSController.addFinalizer E) (\<lambda>e. (0, Some e)) (ensure_all E) })"
    if "m_name (nt_meta nt) = name" for nt
    using set_mem_emits [OF ens that] by (auto intro!: emits_rules deletion_applies_nothing)
  have "emits (space_labelled name) (do {
      r \<leftarrow> call (\<lambda>tr. ne_get_nstt E tr n name) (GetNSTemplateSet n name);
      (case r of Inl e \<Rightarrow> if IsNotFound (ne_lib E) e then ret (0, None) else ret (0, Some e)
       | Inr nt \<Rightarrow> do { set_mem nt; if IsBeingDeleted (ne_lib E) (nt_meta nt) then deleteNSTemplateSet E
           else unless_err (NSController.addFinalizer E) (\<lambda>e. (0, Some e)) (ensure_all E) }) })" for n
  proof (rule emits_call_bind)
    fix tr
    show "emits (space_labelled name) (case ne_get_nstt E tr n name of
         Inl e \<Rightarrow> if IsNotFound (ne_lib E) e then ret (0, None) else ret (0, Some e)
       | Inr nt \<Rightarrow> do { set_mem nt; if IsBeingDeleted (ne_lib E) (nt_meta nt) then deleteNSTemplateSet E
           else unless_err (NSController.addFinalizer E) (\<lambda>e. (0, Some e)) (ensure_all E) })"
      using go assms(3) [unfolded gets_named_def] by (cases "ne_get_nstt E tr n name") (auto intro!: emits_rules)
  qed simp
  then show ?thesis
    unfolding NSController.Reconcile_def by (auto intro!: emits_rules split: sum.split)
qed


section \<open>Objects that are changed or lost\<close>

definition nstt_cache :: "object \<Rightarrow> informers" where
  "nstt_cache x = (if kind_of x = ''Namespace'' then ManagerCache else AllNamespacesCache)"

lemma space_requests:
  assumes L: "watch_lib L generation" and k: "kind_of x \<in> {''Namespace'', ''Role'', ''RoleBinding''}" "kind_of y = kind_of x"
  shows "set (requests L nstemplateset_watches (nstt_cache x) (Deleted x)) = set (OwnerByLabel L [] SpaceLabelKey x)"
    and "set (requests L nstemplateset_watches (nstt_cache x) (Updated x y)) =
      (if kind_of x = ''Namespace'' \<or> generation x \<noteq> generation y \<or> m_labels (meta_of x) \<noteq> m_labels (meta_of y)
       then set (OwnerByLabel L [] SpaceLabelKey x) \<union> set (OwnerByLabel L [] SpaceLabelKey y) else {})"
proof -
  note lib = watch_libD(6,7,12,13) [OF L]
  show "set (requests L nstemplateset_watches (nstt_cache x) (Deleted x)) = set (OwnerByLabel L [] SpaceLabelKey x)"
    using k(1) by (elim insertE emptyE; simp add: nstemplateset_watches_def Let_def nstt_cache_def lib)
  show "set (requests L nstemplateset_watches (nstt_cache x) (Updated x y)) =
      (if kind_of x = ''Namespace'' \<or> generation x \<noteq> generation y \<or> m_labels (meta_of x) \<noteq> m_labels (meta_of y)
       then set (OwnerByLabel L [] SpaceLabelKey x) \<union> set (OwnerByLabel L [] SpaceLabelKey y) else {})"
    using k by (elim insertE emptyE; simp add: nstemplateset_watches_def Let_def nstt_cache_def lib Un_def)
qed

text \<open>
  C9: what an NSTemplateSet has applied is watched for this very set: every object a reconcile hands to the apply client, on any path, is
  labelled with the name of the set it was called for (service accounts, which it creates or updates instead, are not meant here), and when a
  namespace, a role or a role binding with this label is deleted, the controller is woken for the set, in the namespace it watches.  When
  one is updated, it is woken for the set exactly when the object is a namespace or its labels or its generation change: an update of the
  rules of a role or the subjects of a binding that leaves both as they were does not wake it.
\<close>

theorem applied_objects_wake_their_set:
  assumes "status_keeps_spec E" and "update_keeps_name E" and "gets_named E name" and "watch_lib L generation"
    and "(ncall.ApplyObject obj l, ok) \<in> set (calls (snd (run_state (NSController.Reconcile E ns name) (fresh z))))"
    and "kind_of x \<in> {''Namespace'', ''Role'', ''RoleBinding''}" and "lookup (m_labels (meta_of x)) SpaceLabelKey = map_of l SpaceLabelKey"
    and "kind_of y = kind_of x"
  shows "([], name) \<in> set (requests L nstemplateset_watches (nstt_cache x) (Deleted x)) \<and>
    (([], name) \<in> set (requests L nstemplateset_watches (nstt_cache x) (Updated x y)) \<longleftrightarrow>
       kind_of x = ''Namespace'' \<or> generation x \<noteq> generation y \<or> m_labels (meta_of x) \<noteq> m_labels (meta_of y)) \<and>
    (\<forall>w. ne_watch_ns E = Inr w \<and> w \<noteq> [] \<longrightarrow> NSController.Reconcile E [] name = NSController.Reconcile E w name)"
proof -
  obtain r s' where run: "run_state (NSController.Reconcile E ns name) (fresh z) = (r, s')"
    by (cases "run_state (NSController.Reconcile E ns name) (fresh z)")
  have "list_all (space_labelled name) (calls s')"
    by (rule emitsD [OF Reconcile_labels [OF assms(1-3)] run]) simp
  with assms(5) run have "map_of l SpaceLabelKey = Some name" by (auto simp: list_all_iff dest!: bspec)
  then have own: "([], name) \<in> set (OwnerByLabel L [] SpaceLabelKey x)"
    using assms(7) unfolding watch_libD(14) [OF assms(4)] by simp
  note req = space_requests [OF assms(4,6,8)]
  show ?thesis
    unfolding req using own by (simp add: NSController.Reconcile_def getNamespaceName_def)
qed

definition role_templates :: "string \<Rightarrow> kobj list" where
  "role_templates r = (if r = ''dev'' then [demo_obj ''Namespace'' ''john-dev'', demo_obj ''Role'' ''edit''] else [])"

abbreviation role_env :: nenv where
  "role_env \<equiv> demo_nenv role_templates [demo_ns ''john-dev'' ''dev'']"

lemma role_applied:
  "(ncall.ApplyObject (demo_obj ''Role'' ''edit'') [(ProviderLabelKey, ProviderLabelValue), (SpaceLabelKey, ''john'')], True) \<in>
     set (calls (snd (run_state (NSController.Reconcile role_env [] ''john'') (fresh demo_nstt))))"
  by code_simp

definition edit_role :: meta where
  "edit_role = (new_meta ''john-dev'' ''edit'')\<lparr>m_labels := Some [(SpaceLabelKey, ''john'')]\<rparr>"

theorem applied_objects_wake_their_set_witness:
  "([], ''john'') \<in> set (requests demo_wlib nstemplateset_watches AllNamespacesCache (Deleted (RoleObj edit_role))) \<and>
   ([], ''john'') \<in> set (requests demo_wlib nstemplateset_watches AllNamespacesCache
     (Updated (RoleObj edit_role) (RoleObj (edit_role\<lparr>m_labels := None\<rparr>)))) \<and>
   ([], ''john'') \<notin> set (requests demo_wlib nstemplateset_watches AllNamespacesCache (Updated (RoleObj edit_role) (RoleObj edit_role)))"
proof -
  have "update_keeps_name role_env" "gets_named role_env ''john''"
    by (simp_all add: update_keeps_name_def gets_named_def nstt_demo_defs ref_lib_def)
  note woken = applied_objects_wake_their_set [OF demo_keeps this demo_wlib_ok role_applied, of "RoleObj edit_role"]
  from woken [of "RoleObj (edit_role\<lparr>m_labels := None\<rparr>)"] woken [of "RoleObj edit_role"]
  show ?thesis by (simp add: edit_role_def nstt_cache_def)
qed

section \<open>Restarting pods\<close>

lemma kill_if_restarting_kills:
  assumes "restartThreshold < getHighestRestartCount pod"
  shows "wp (kill_if_restarting E pod start) (\<lambda>r s'. called (owners_call pod) s') s"
  unfolding kill_if_restarting_def
  using assms by (auto simp: wp_simps intro: wp_mono [OF deletePods_calls])

lemma idle_pod_restarting:
  assumes "p_start pod = Some start" and "restartThreshold < getHighestRestartCount pod"
  shows "wp (idle_pod E pod d) (\<lambda>r s'. called (owners_call pod) s') s"
  unfolding idle_pod_def Let_def wp_bind wp_get_mem assms(1) option.case
  by (rule wp_mono [OF kill_if_restarting_kills [OF assms(2)]])
     (auto simp: wp_simps emits_rules kill_if_expired_def split: prod.splits intro!: called_grows_mono emits_rules)

lemma idle_pods_restarting:
  assumes "pod \<in> set pods" and "p_start pod = Some start" and "restartThreshold < getHighestRestartCount pod"
  shows "wp (idle_pods E pods d errs) (\<lambda>r s'. called (owners_call pod) s') s"
  using assms(1)
proof (induction pods arbitrary: d errs s)
  case (Cons p pods)
  show ?case
  proof (cases "p = pod")
    case True
    show ?thesis
      unfolding idle_pods.simps True
      by (rule called_bind [OF idle_pod_restarting [OF assms(2,3)]]) (auto intro!: emits_rules)
  next
    case False
    with Cons have "wp (idle_pods E pods d errs) (\<lambda>r s'. called (owners_call pod) s') s" for d errs s by simp
    then show ?thesis
      unfolding idle_pods.simps wp_bind by (intro wp_any [where m = "idle_pod E p d"]) (simp split: prod.split)
  qed
qed simp

text \<open>A pod whose priority class is the one the mutating webhook puts into every pod of the users' namespaces.\<close>

definition admitted :: "pod \<Rightarrow> bool" where
  "admitted pod \<longleftrightarrow> (\<exists>item \<in> set podPatchItems. p_path item = ''/spec/priorityClassName'' \<and> p_value item = JStr (p_priority_class pod))"

text \<open>
  C10: a user's pod that keeps crashing is idled without waiting for the next scheduled reconcile: when a pod the mutating webhook has admitted is updated
  and one of its containers has restarted more often than the threshold, the idler with the name of its namespace is enqueued,
  and its reconcile, unless it is switched off or being deleted, looks up the owners of this very pod.
\<close>

theorem restarting_pod_is_attempted:
  assumes "watch_lib L generation" and "admitted q" and "restartThreshold < getHighestRestartCount q" and "p_start q = Some start"
    and "ie_get_idler E [] (m_ns (p_meta q)) = Inr idl" and "\<not> IsBeingDeleted (ie_lib E) (id_meta idl)" and "0 < id_timeout idl"
    and "ie_list_pods E [(GetIdler (m_ns (p_meta q)), True)] (m_name (id_meta idl)) = Inr pods" and "q \<in> set pods"
  shows "([], m_ns (p_meta q)) \<in> set (requests L idler_watches AllNamespacesCache (Updated (PodObj p) (PodObj q))) \<and>
    called (GetOwners (m_ns (p_meta q)) (m_name (p_meta q))) (snd (run_state (Idler.Reconcile E (m_ns (p_meta q))) (fresh z)))"
proof
  have "p_priority_class q = Idler.PriorityClassName"
    using assms(2) by (auto simp: admitted_def podPatchItems_def WebhookMutating.PriorityClassName_def Idler.PriorityClassName_def)
  then have "Idler.PodIdlerPredicate (PodUpdated p q)"
    using assms(3) by (simp add: aapRestartThreshold_def)
  then show "([], m_ns (p_meta q)) \<in> set (requests L idler_watches AllNamespacesCache (Updated (PodObj p) (PodObj q)))"
    unfolding pod_requests(1) [OF assms(1)] by simp
  have "wp (Idler.Reconcile E (m_ns (p_meta q))) (\<lambda>r s'. called (owners_call q) s') (fresh z)"
    unfolding Idler.Reconcile_def ensureIdling_def Idler.wrapErrorWithStatusUpdate_def setStatus_defs
    using assms(5-8)
    by (simp add: wp_simps)
       (rule wp_mono [OF idle_pods_restarting [OF assms(9,4,3)]],
        auto simp: wp_simps split: prod.splits option.splits intro!: called_grows_mono emits_rules)
  then show "called (GetOwners (m_ns (p_meta q)) (m_name (p_meta q))) (snd (run_state (Idler.Reconcile E (m_ns (p_meta q))) (fresh z)))"
    by (simp add: wp_def owners_call_def split_beta)
qed

definition crashing_pod :: pod where
  "crashing_pod = (demo_pod ''web'' 0)\<lparr>p_restarts := [3, 51]\<rparr>"

theorem restarting_pod_is_attempted_witness:
  "([], ''john-dev'') \<in> set (requests demo_wlib idler_watches AllNamespacesCache (Updated (PodObj (demo_pod ''web'' 0)) (PodObj crashing_pod))) \<and>
   called (GetOwners ''john-dev'' ''web'')
     (snd (run_state (Idler.Reconcile (demo_env 3600 100 [crashing_pod] [] (\<lambda>tr c. None)) ''john-dev'') (fresh (demo_idler 0))))"
proof -
  have "admitted crashing_pod"
    by (simp add: admitted_def podPatchItems_def crashing_pod_def demo_pod_def WebhookMutating.PriorityClassName_def Idler.PriorityClassName_def)
  from restarting_pod_is_attempted [OF demo_wlib_ok this, of _ "demo_env 3600 100 [crashing_pod] [] (\<lambda>tr c. None)" "demo_idler 3600" "[crashing_pod]"]
  show ?thesis
    by (simp add: crashing_pod_def idler_demo_defs getHighestRestartCount_def restartThreshold_def)
qed

end
