(* ===== verification/Spec2Isabelle.thy ===== *)
theory Spec2Isabelle
  imports Main Go_Prelude Go_Arith Kube Steps Idler IdlerProofs IdlerSpec UserAccount UserAccountProofs
    UserAccountSpec UserAccountStore UserAccountConvergence UserAccountRemoval NSData NSTemplates NSCluster NSNamespaces NSController NSProofs NSSpec
    NSConvergence NSStore NSSteps NSProvisioning NSReady Webhook WebhookValidating WebhookMutating WebhookProofs WebhookSpec
    MemberStatus MemberStatusProofs MemberStatusSpec Cert CertSpec OperatorConfig OperatorConfigSpec Support
    Processes Startup OperatorMain OperatorMainSpec WebhookMain HostClient Metrics Watches AccountWatches WorkloadWatches
begin

text \<open>
  A verification development for the member operator, the part of the Developer Sandbox that runs in the
  clusters where the users work.  The program is a set of controllers, each of which is handed the name of
  one object at a time and brings the cluster in line with it, and a webhook server that is asked before pods,
  virtual machines and bindings are stored.

  \<^bold>\<open>How programs are modelled.\<close>  \<open>Go_Prelude\<close>: a handler is a program of the state monad over the object it holds a
  pointer to, the history of the calls it has made, each with whether it succeeded, and a counter of calls and
  clock readings.  A server is a function of the whole history and the clock a function of the counter, both
  fields of the component's environment record: so a theorem about all environments covers servers that
  change between two calls, fail anywhere and answer inconsistently.  Errors are values of \<open>err\<close>, with the text
  and the API status that \<open>errors.Is/As\<close> finds in them; a function that may panic yields an option.  The theory has a weakest
  precondition calculus (\<open>wp\<close>) and rules for what a handler calls (\<open>emits\<close>) and keeps (\<open>keeps\<close>).  \<open>Steps\<close> states the
  discipline of the controllers, at most one change per reconcile, as a contract with its rules; \<open>Kube\<close> has object
  metadata, conditions, the library functions the controllers share and the contract of a status writer;
  \<open>Go_Arith\<close> has wrap-around of \<open>int32\<close> and \<open>int64\<close>, saturating differences of times, products of integers and floating
  point constants, and sums and quotients in \<open>float32\<close>, with the ranges in which they are exact or bounded.

  \<^bold>\<open>Idler controller\<close> (\<open>controllers/idler\<close>): \<open>Idler\<close> follows \<open>idler_controller.go\<close>, \<open>owners.go\<close>, \<open>predicate.go\<close> and \<open>mapper.go\<close>.
  \<open>IdlerProofs\<close> and \<open>IdlerSpec\<close>: overdue pods are always attempted, quiet namespaces are left alone, the loop over the owners
  equals its specification, when a pod is deleted, bounds of the requeue time, which failures are reported and
  which are lost.

  \<^bold>\<open>UserAccount controller\<close> (\<open>controllers/useraccount\<close>): \<open>UserAccount\<close> follows \<open>useraccount_controller.go\<close> and
  \<open>console_usersettings.go\<close>.  \<open>UserAccountProofs\<close> and \<open>UserAccountSpec\<close>: one change per reconcile, the order of deletions, when the
  finalizer goes, identities, labels, disabled accounts.  \<open>UserAccountStore\<close> reads the history of calls as the objects that are stored, on a
  cluster that keeps what is written and answers from it; on it \<open>UserAccountConvergence\<close> (five reconciles make an account Ready: one
  creates the User, one lists its identities, one for each of the two identities that can be missing, one that finds nothing to do)
  and \<open>UserAccountRemoval\<close> (one reconcile more than there are owned Identities and Users removes an account).

  \<^bold>\<open>NSTemplateSet controller\<close> (\<open>controllers/nstemplateset\<close>): \<open>NSData\<close> (\<open>status.go\<close>, \<open>features.go\<close>), \<open>NSTemplates\<close> (\<open>nstemplatetier.go\<close>,
  \<open>tier_template_revision.go\<close>, \<open>client.go\<close>), \<open>NSCluster\<close> (\<open>cluster_resources.go\<close>), \<open>NSNamespaces\<close> (\<open>namespaces.go\<close>) and \<open>NSController\<close>
  (\<open>space_roles.go\<close>, \<open>nstemplateset_controller.go\<close>).  \<open>NSProofs\<close> and \<open>NSSpec\<close>: one namespace change per reconcile, exact clean-up of
  cluster resources, which namespaces go, when the finalizer goes, what the status holds.  \<open>NSConvergence\<close> puts reconciles in
  sequence: deleting a space ends.  Its bound is one reconcile more than \<open>lag + 1\<close> for each namespace, where \<open>lag\<close> is the number of
  calls within which the cluster deletes a namespace: every reconcile that does not remove the finalizer either asks to delete
  a namespace or is at least one call nearer to the end of the one that is being deleted; the last of them deletes the cluster resources, if there
  are any, and the finalizer.  Provisioning ends too: \<open>NSStore\<close> reads the history as
  the NSTemplateSet, the namespaces and the space labels of objects that are stored, and says what a tier asks for; \<open>NSSteps\<close> and \<open>NSProvisioning\<close>
  follow one reconcile on such a cluster, and \<open>NSReady\<close> has the sequence of them.  Its bound is one reconcile more than \<open>lag + 1\<close> for each
  namespace the tier does not have (their deletion, as above) and three for each template of the tier: one creates or relabels the namespace,
  one applies what is in it and labels it as provisioned, one applies the space roles and notes them in its annotation, so that in the end the objects
  of the template and of the space roles are stored with the label of the space.

  \<^bold>\<open>Admission webhooks\<close> (\<open>pkg/webhook\<close>): \<open>Webhook\<close> has reviews, JSON values, the HTTP handlers and the contract of a validator;
  \<open>WebhookValidating\<close> the four validators, each an interpretation of that contract; \<open>WebhookMutating\<close> the two mutators and the
  routes of the server.  \<open>WebhookProofs\<close> and \<open>WebhookSpec\<close>: what is denied and why, limits, SSH keys, incomplete reviews.

  \<^bold>\<open>MemberStatus controller\<close> (\<open>controllers/memberstatus\<close>): \<open>MemberStatus\<close> follows \<open>memberstatus_controller.go\<close> and \<open>creation.go\<close>.
  \<open>MemberStatusProofs\<close> (the contract of a status handler and its four interpretations) and \<open>MemberStatusSpec\<close>: the one status update
  names exactly the components that are not ready, every status written is complete, percentages stay within bounds,
  the console's URL.

  \<^bold>\<open>MemberOperatorConfig controller\<close>: \<open>Cert\<close> (\<open>pkg/cert\<close>) and \<open>OperatorConfig\<close> (\<open>controllers/memberoperatorconfig\<close>, \<open>pkg/autoscaler\<close>,
  \<open>pkg/webhook/deploy\<close>) install and remove the autoscaling buffer and the webhook server.  \<open>CertSpec\<close>: the CA certificate handed out is that
  of the secret in the cluster, and a fresh secret is kept.  \<open>OperatorConfigSpec\<close>: removing what is switched off
  implements a set difference on the objects of the cluster (the two deletion loops share a contract), and the webhook is
  installed, object by object, with the CA certificate of its secret.

  \<^bold>\<open>Processes\<close> (\<open>cmd\<close>): \<open>Processes\<close> has goroutines, trees of calls, and the steps of a process of several of them, interleaved in any
  way, with a history of calls and answers; its rules say what must come before a call and before the process ends well (\<open>orderly\<close>), that a
  failed call ends the process (\<open>fails_fast\<close>) and which answers alone are the cause of a status other than zero (\<open>justified\<close>).  A call has no answer until the environment has one, so blocking is a call
  that is never answered; loops of a goroutine are bounded by a number the theorems quantify over.  \<open>Startup\<close> (\<open>pkg/apis\<close> and the redirection of klog) is
  shared by \<open>OperatorMain\<close> (\<open>cmd/main.go\<close>) and \<open>WebhookMain\<close> (\<open>cmd/webhook/main.go\<close>).  \<open>OperatorMainSpec\<close> and \<open>WebhookMain\<close>: the order of the
  start-up, what ends a process (of \<open>WebhookMain\<close> also the command line and signals, as \<open>flag\<close> and controller-runtime document them; of \<open>OperatorMain\<close>
  its own exits), what the shutdown of the webhook server is worth.  \<open>HostClient\<close> has \<open>pkg/host\<close> in the same form: both locks,
  the cached client as a shared variable, called by any number of goroutines; the invariant behind its theorem is what a goroutine that holds the lock knows.

  \<^bold>\<open>Watches\<close>: \<open>Watches\<close> has the watches of the five \<open>SetupWithManager\<close> as data and the requests that follow from an event.
  \<open>AccountWatches\<close> closes the loop of the UserAccount controller: the changes a reconcile makes are events that wake it again, so the
  reconciles of \<open>UserAccountConvergence\<close> and \<open>UserAccountRemoval\<close> follow from a first one.  \<open>WorkloadWatches\<close>: a namespace, role or binding an
  NSTemplateSet has applied wakes its controller when it is deleted or when its labels or generation change, and a pod of a user that keeps restarting wakes the idler.

  \<^bold>\<open>Smaller parts\<close>: \<open>Support\<close> has one call after the other of the client of the host cluster, URLs of routes (\<open>pkg/utils/route\<close>), bodies
  of responses (\<open>pkg/utils/rest\<close>) and the redirection of log lines (\<open>pkg/klog\<close>); \<open>Metrics\<close> the gauges (\<open>pkg/metrics\<close>).

  \<^bold>\<open>How the parts interact.\<close>  The controllers do not call each other; they meet in the cluster.  The operator's configuration
  decides whether the webhook server runs, which uses the certificates of \<open>Cert\<close>; the NSTemplateSet controller reads its templates through the
  client of \<open>HostClient\<close>; the priority class that the pods' mutator sets is the one by which the idler picks pods.

  \<^bold>\<open>Not modelled.\<close>  Code outside this repository (the API machinery, toolchain-common, crypto, JSON and YAML, template processing)
  is a field of an environment record; what a theorem relies on is a named hypothesis with an instance.  Left out are
  logging, parts of messages that print raw objects, label maps or kinds, the difference between nil and empty
  slices, which \<open>cmp.Equal\<close> sees, the order of equal elements after a sort, and what has no behaviour of its own: embedded templates,
  variables of the build, options of loggers and of TLS, constructors that copy their arguments.  The calls of one handler are sequential.
  Quantities of memory are not negative.

  \<^bold>\<open>Where to go on.\<close>  Convergence against a cluster that refuses some of the writes, or answers from a stale cache: the theorems about
  sequences of reconciles assume a cluster that keeps what is written and answers from it, while those about one reconcile assume nothing.
\<close>

end
